(* ===== verification/Py_Prelude.thy ===== *)
theory Py_Prelude
  imports Complex_Main
begin

text \<open>
  What the modelled Python shares: binary floating point, the objects that cross an
  untyped boundary, exceptions as values, the text formatting used in messages, and the
  program type of the stateful components.

  Floating point. A \<open>fl\<close> is a Python \<open>float\<close> (or a NumPy \<open>float32\<close>) by its value: a
  rational, an infinity or NaN. The sign of zero is not kept: no modelled code divides by
  a zero or looks at it. \<open>+\<close>, \<open>-\<close> and \<open>*\<close> on \<open>fl\<close> are the binary64 operations:
  the exact rational result rounded to nearest, ties to even, with gradual underflow and
  overflow to infinity (\<open>rnd64\<close>). \<open>rnd32\<close> is the same for binary32. \<open><\<close> and \<open>\<le>\<close> are the
  IEEE comparisons, false when an operand is NaN.

  Exceptions. An exception is its class and its message, \<open>Exn c m\<close>; an operation that may
  raise returns \<open>exn + 'a\<close>.
\<close>

section \<open>Floating point\<close>

datatype fl = Fin rat | PInf | NInf | NaN

text \<open>Floor of the binary logarithm of a positive integer, and of a positive rational.\<close>

function int_log2 :: "int \<Rightarrow> int" where
  "int_log2 n = (if n < 2 then 0 else 1 + int_log2 (n div 2))"
  by pat_completeness auto
termination
  by (relation "measure nat") auto

declare int_log2.simps [simp del]

definition rat_log2 :: "rat \<Rightarrow> int" where
  "rat_log2 x =
     (let (n, d) = quotient_of x; k = int_log2 n - int_log2 d
      in if 2 powi k \<le> x then k else k - 1)"

definition round_half_even :: "rat \<Rightarrow> int" where
  "round_half_even x =
     (let f = floor x; d = x - of_int f
      in if d < 1 / 2 then f else if 1 / 2 < d then f + 1
         else if even f then f else f + 1)"

text \<open>
  Rounding to a binary format of precision \<open>p\<close> whose least ulp exponent is \<open>emin\<close> and
  whose values are below \<open>2 ^ emax\<close>.
\<close>

definition round_to :: "nat \<Rightarrow> int \<Rightarrow> int \<Rightarrow> rat \<Rightarrow> fl" where
  "round_to p emin emax x =
     (if x = 0 then Fin 0
      else
        let e = max emin (rat_log2 \<bar>x\<bar> - int p + 1);
            m = round_half_even (x * 2 powi (- e))
        in if emax - int p < e \<or> (e = emax - int p \<and> 2 ^ p \<le> \<bar>m\<bar>)
           then (if 0 < x then PInf else NInf)
           else Fin (of_int m * 2 powi e))"

definition rnd64 :: "rat \<Rightarrow> fl" where
  "rnd64 = round_to 53 (-1074) 1024"

definition rnd32 :: "rat \<Rightarrow> fl" where
  "rnd32 = round_to 24 (-149) 128"

text \<open>A conversion between formats rounds a finite value and keeps the others.\<close>

fun fl_map :: "(rat \<Rightarrow> fl) \<Rightarrow> fl \<Rightarrow> fl" where
  "fl_map r (Fin x) = r x"
| "fl_map r PInf = PInf"
| "fl_map r NInf = NInf"
| "fl_map r NaN = NaN"

definition to_f32 :: "fl \<Rightarrow> fl" where
  "to_f32 = fl_map rnd32"

fun is_finite :: "fl \<Rightarrow> bool" where
  "is_finite (Fin x) = True"
| "is_finite x = False"

fun fl_neg :: "fl \<Rightarrow> fl" where
  "fl_neg (Fin x) = Fin (- x)"
| "fl_neg PInf = NInf"
| "fl_neg NInf = PInf"
| "fl_neg NaN = NaN"

text \<open>Sum, product and quotient for a given rounding of the finite results.\<close>

fun fl_add_with :: "(rat \<Rightarrow> fl) \<Rightarrow> fl \<Rightarrow> fl \<Rightarrow> fl" where
  "fl_add_with r (Fin x) (Fin y) = r (x + y)"
| "fl_add_with r NaN y = NaN"
| "fl_add_with r x NaN = NaN"
| "fl_add_with r PInf NInf = NaN"
| "fl_add_with r NInf PInf = NaN"
| "fl_add_with r PInf y = PInf"
| "fl_add_with r NInf y = NInf"
| "fl_add_with r x PInf = PInf"
| "fl_add_with r x NInf = NInf"

fun fl_sgn :: "fl \<Rightarrow> int" where
  "fl_sgn (Fin x) = (if 0 < x then 1 else if x < 0 then -1 else 0)"
| "fl_sgn PInf = 1"
| "fl_sgn NInf = -1"
| "fl_sgn NaN = 0"

definition fl_inf_of_sgn :: "int \<Rightarrow> fl" where
  "fl_inf_of_sgn s = (if 0 < s then PInf else if s < 0 then NInf else NaN)"

fun fl_mul_with :: "(rat \<Rightarrow> fl) \<Rightarrow> fl \<Rightarrow> fl \<Rightarrow> fl" where
  "fl_mul_with r (Fin x) (Fin y) = r (x * y)"
| "fl_mul_with r x y = (if x = NaN \<or> y = NaN then NaN else fl_inf_of_sgn (fl_sgn x * fl_sgn y))"

instantiation fl :: "{zero, one, plus, minus, uminus, times, ord}"
begin

definition zero_fl :: fl where "0 = Fin 0"

definition one_fl :: fl where "1 = Fin 1"

definition plus_fl :: "fl \<Rightarrow> fl \<Rightarrow> fl" where "x + y = fl_add_with rnd64 x y"

definition uminus_fl :: "fl \<Rightarrow> fl" where "- x = fl_neg x"

definition minus_fl :: "fl \<Rightarrow> fl \<Rightarrow> fl" where "x - y = fl_add_with rnd64 x (fl_neg y)"

definition times_fl :: "fl \<Rightarrow> fl \<Rightarrow> fl" where "x * y = fl_mul_with rnd64 x y"

fun less_fl :: "fl \<Rightarrow> fl \<Rightarrow> bool" where
  "less_fl (Fin x) (Fin y) = (x < y)"
| "less_fl NaN y = False"
| "less_fl x NaN = False"
| "less_fl NInf y = (y \<noteq> NInf)"
| "less_fl x PInf = (x \<noteq> PInf)"
| "less_fl x y = False"

definition less_eq_fl :: "fl \<Rightarrow> fl \<Rightarrow> bool" where
  "less_eq_fl x y = (x < y \<or> (x = y \<and> x \<noteq> NaN))"

instance ..

end

text \<open>The quotient of finite numbers; no modelled code divides by zero.\<close>

fun fl_div :: "fl \<Rightarrow> fl \<Rightarrow> fl" where
  "fl_div (Fin x) (Fin y) = rnd64 (x / y)"
| "fl_div x y = NaN"

text \<open>Python's \<open>min\<close> and \<open>max\<close> of two floats keep the first unless the second wins.\<close>

definition fl_min :: "fl \<Rightarrow> fl \<Rightarrow> fl" where
  "fl_min a b = (if b < a then b else a)"

definition fl_max :: "fl \<Rightarrow> fl \<Rightarrow> fl" where
  "fl_max a b = (if a < b then b else a)"

lemma fl_less_Fin [simp]: "Fin x < Fin y \<longleftrightarrow> x < y"
  by simp

lemma fl_le_Fin [simp]: "Fin x \<le> Fin y \<longleftrightarrow> x \<le> y"
  by (auto simp: less_eq_fl_def)

lemma is_finite_iff: "is_finite x \<longleftrightarrow> (\<exists>r. x = Fin r)"
  by (cases x) auto

lemma fl_not_less: "is_finite x \<Longrightarrow> is_finite y \<Longrightarrow> \<not> x < y \<longleftrightarrow> y \<le> (x :: fl)"
  by (auto simp: is_finite_iff)

lemma fl_not_le: "is_finite x \<Longrightarrow> is_finite y \<Longrightarrow> \<not> x \<le> y \<longleftrightarrow> y < (x :: fl)"
  by (auto simp: is_finite_iff)

lemma fl_less_not_refl [simp]: "\<not> (x :: fl) < x"
  by (cases x) auto

lemma fl_le_refl: "is_finite x \<Longrightarrow> x \<le> (x :: fl)"
  by (auto simp: is_finite_iff)

lemma fl_less_trans: "(x :: fl) < y \<Longrightarrow> y < z \<Longrightarrow> x < z"
  by (cases x; cases y; cases z) auto

lemma fl_le_trans: "(x :: fl) \<le> y \<Longrightarrow> y \<le> z \<Longrightarrow> x \<le> z"
  by (cases x; cases y; cases z) (auto simp: less_eq_fl_def)

lemma fl_le_less_trans: "(x :: fl) \<le> y \<Longrightarrow> y < z \<Longrightarrow> x < z"
  by (cases x; cases y; cases z) (auto simp: less_eq_fl_def)

lemma fl_less_le_trans: "(x :: fl) < y \<Longrightarrow> y \<le> z \<Longrightarrow> x < z"
  by (cases x; cases y; cases z) (auto simp: less_eq_fl_def)

lemma fl_less_imp_le: "(x :: fl) < y \<Longrightarrow> x \<le> y"
  by (simp add: less_eq_fl_def)

lemma fl_less_asym: "(x :: fl) < y \<Longrightarrow> \<not> y < x"
  by (cases x; cases y) auto

lemma fl_less_le_not: "(x :: fl) < y \<Longrightarrow> \<not> y \<le> x"
  by (cases x; cases y) (auto simp: less_eq_fl_def)

section \<open>Exceptions and untyped objects\<close>

datatype exc_class =
    TypeError | ValueError | OverflowError | RuntimeError | StructError
  | ClosedLoopProtocolError
  | RH56TransactionalError | RH56TransportError | RH56DeadlineExceeded | RH56StopUnconfirmed
  | RH56LinuxTransportError | RH56LinuxDeadlineExceeded | RH56Error
  | KeyboardInterrupt | SystemExit
  | OtherException string

datatype exn = Exn (exn_class: exc_class) (exn_msg: string)

text \<open>\<open>except Exception\<close> does not catch these two.\<close>

definition is_exit :: "exn \<Rightarrow> bool" where
  "is_exit e = (exn_class e = KeyboardInterrupt \<or> exn_class e = SystemExit)"

fun class_name :: "exc_class \<Rightarrow> string" where
  "class_name TypeError = ''TypeError''"
| "class_name ValueError = ''ValueError''"
| "class_name OverflowError = ''OverflowError''"
| "class_name RuntimeError = ''RuntimeError''"
| "class_name StructError = ''error''"
| "class_name ClosedLoopProtocolError = ''ClosedLoopProtocolError''"
| "class_name RH56TransactionalError = ''RH56TransactionalError''"
| "class_name RH56TransportError = ''RH56TransportError''"
| "class_name RH56DeadlineExceeded = ''RH56DeadlineExceeded''"
| "class_name RH56StopUnconfirmed = ''RH56StopUnconfirmed''"
| "class_name RH56LinuxTransportError = ''RH56LinuxTransportError''"
| "class_name RH56LinuxDeadlineExceeded = ''RH56LinuxDeadlineExceeded''"
| "class_name RH56Error = ''RH56Error''"
| "class_name KeyboardInterrupt = ''KeyboardInterrupt''"
| "class_name SystemExit = ''SystemExit''"
| "class_name (OtherException n) = n"

text \<open>
  An object of unknown type, as the validators see it. \<open>PyOther f\<close> is any other object
  (a string, an array, a user class): \<open>f\<close> is what \<open>float()\<close> makes of it, \<open>None\<close> where
  \<open>float()\<close> raises TypeError or ValueError.
\<close>

datatype pyval =
    PyNone
  | PyBool bool
  | PyInt int
  | PyFloat fl
  | PySeq "pyval list"
  | PyOther "fl option"

text \<open>\<open>float(value)\<close>: an integer beyond the binary64 range raises OverflowError.\<close>

fun py_float :: "pyval \<Rightarrow> exn + fl" where
  "py_float PyNone = Inl (Exn TypeError ''float() argument must be a string or a real number'')"
| "py_float (PyBool b) = Inr (if b then Fin 1 else Fin 0)"
| "py_float (PyInt n) =
     (if is_finite (rnd64 (of_int n)) then Inr (rnd64 (of_int n))
      else Inl (Exn OverflowError ''int too large to convert to float''))"
| "py_float (PyFloat x) = Inr x"
| "py_float (PySeq xs) = Inl (Exn TypeError ''float() argument must be a string or a real number'')"
| "py_float (PyOther (Some x)) = Inr x"
| "py_float (PyOther None) = Inl (Exn ValueError ''could not convert to float'')"

fun is_py_bool :: "pyval \<Rightarrow> bool" where
  "is_py_bool (PyBool b) = True"
| "is_py_bool v = False"

text \<open>\<open>x.is_integer()\<close>, and \<open>int(x)\<close> of a finite float (truncation).\<close>

fun fl_is_integer :: "fl \<Rightarrow> bool" where
  "fl_is_integer (Fin x) = (of_int (floor x) = x)"
| "fl_is_integer x = False"

fun fl_trunc :: "fl \<Rightarrow> int" where
  "fl_trunc (Fin x) = (if 0 \<le> x then floor x else - floor (- x))"
| "fl_trunc x = 0"

section \<open>Text\<close>

definition is_space :: "char \<Rightarrow> bool" where
  "is_space c = (let n = (of_char c :: int) in n = 32 \<or> (9 \<le> n \<and> n \<le> 13) \<or> (28 \<le> n \<and> n \<le> 31))"

definition py_strip :: "string \<Rightarrow> string" where
  "py_strip s = rev (dropWhile is_space (rev (dropWhile is_space s)))"

definition py_lower_char :: "char \<Rightarrow> char" where
  "py_lower_char c =
     (let n = (of_char c :: int) in if 65 \<le> n \<and> n \<le> 90 then char_of (n + 32) else c)"

definition py_lower :: "string \<Rightarrow> string" where
  "py_lower s = map py_lower_char s"

text \<open>\<open>str(x).strip() or default\<close>\<close>

definition strip_or :: "string \<Rightarrow> string \<Rightarrow> string" where
  "strip_or s d = (if py_strip s = [] then d else py_strip s)"

definition digit_char :: "int \<Rightarrow> char" where
  "digit_char d = char_of (48 + d)"

function digits :: "int \<Rightarrow> string" where
  "digits n = (if n < 10 then [digit_char n] else digits (n div 10) @ [digit_char (n mod 10)])"
  by pat_completeness auto
termination
  by (relation "measure nat") auto

declare digits.simps [simp del]

definition int_str :: "int \<Rightarrow> string" where
  "int_str n = (if n < 0 then ''-'' @ digits (- n) else digits n)"

definition pad_zeros :: "nat \<Rightarrow> string \<Rightarrow> string" where
  "pad_zeros n s = replicate (n - length s) (CHR ''0'') @ s"

text \<open>The \<open>.nf\<close> format of a float.\<close>

fun fixed_str :: "nat \<Rightarrow> fl \<Rightarrow> string" where
  "fixed_str n (Fin x) =
     (let k = round_half_even (\<bar>x\<bar> * 10 ^ n); p = 10 ^ n
      in (if x < 0 then ''-'' else []) @ int_str (k div p)
         @ (if n = 0 then [] else ''.'' @ pad_zeros n (int_str (k mod p))))"
| "fixed_str n PInf = ''inf''"
| "fixed_str n NInf = ''-inf''"
| "fixed_str n NaN = ''nan''"

fun join :: "string \<Rightarrow> string list \<Rightarrow> string" where
  "join sep [] = []"
| "join sep [x] = x"
| "join sep (x # xs) = x @ sep @ join sep xs"

definition tuple_str :: "int list \<Rightarrow> string" where
  "tuple_str xs =
     (case xs of [x] \<Rightarrow> ''('' @ int_str x @ '',)'' | _ \<Rightarrow> ''('' @ join '', '' (map int_str xs) @ '')'')"

definition list_str :: "int list \<Rightarrow> string" where
  "list_str xs = ''['' @ join '', '' (map int_str xs) @ '']''"

definition opt_int_str :: "int option \<Rightarrow> string" where
  "opt_int_str v = (case v of None \<Rightarrow> ''None'' | Some n \<Rightarrow> int_str n)"

lemma strip_or_nonempty: "d \<noteq> [] \<Longrightarrow> strip_or s d \<noteq> []"
  by (simp add: strip_or_def)

end
