(* ===== verification/Programs.thy ===== *)
theory Programs
  imports Py_Prelude
begin

text \<open>
  How stateful Python is written down, and how it is reasoned about.

  A method that runs under one lock is a function \<open>'s \<Rightarrow> (exn + 'a) \<times> 's\<close>: its result or
  the exception it raises, and the state it leaves. A longer method is a \<open>prog\<close>: the same
  with \<open>None\<close> for a run that never returns, built from the combinators below in the order
  of the source. \<open>wp m Q E s\<close> says that, run from \<open>s\<close>, if \<open>m\<close> returns it does so with
  \<open>Q\<close>, and if it raises it does so with \<open>E\<close>; \<open>returns m s\<close> says that it does one of the
  two. The simp rules compute \<open>wp\<close> along the text of a program.

  The locales state what several components share: a state with an invariant that every
  step keeps, and a sticky fault.
\<close>

type_synonym ('s, 'a) op = "'s \<Rightarrow> (exn + 'a) \<times> 's"

type_synonym ('s, 'a) prog = "'s \<Rightarrow> ((exn + 'a) \<times> 's) option"

named_theorems wp_rules "weakest preconditions of the operations a component calls"

section \<open>Combinators\<close>

definition ret :: "'a \<Rightarrow> ('s, 'a) prog" where
  "ret x s = Some (Inr x, s)"

definition throw :: "exn \<Rightarrow> ('s, 'a) prog" where
  "throw e s = Some (Inl e, s)"

definition bindP :: "('s, 'a) prog \<Rightarrow> ('a \<Rightarrow> ('s, 'b) prog) \<Rightarrow> ('s, 'b) prog" where
  "bindP m f s =
     (case m s of
        None \<Rightarrow> None
      | Some (r, s') \<Rightarrow> (case r of Inl e \<Rightarrow> Some (Inl e, s') | Inr x \<Rightarrow> f x s'))"

definition thenP :: "('s, 'a) prog \<Rightarrow> ('s, 'b) prog \<Rightarrow> ('s, 'b) prog" where
  "thenP m k = bindP m (\<lambda>_. k)"

text \<open>\<open>try: m except BaseException as e: h e\<close>\<close>

definition catchP :: "('s, 'a) prog \<Rightarrow> (exn \<Rightarrow> ('s, 'a) prog) \<Rightarrow> ('s, 'a) prog" where
  "catchP m h s =
     (case m s of
        None \<Rightarrow> None
      | Some (r, s') \<Rightarrow> (case r of Inl e \<Rightarrow> h e s' | Inr x \<Rightarrow> Some (Inr x, s')))"

text \<open>\<open>try: m\<close> with the outcome as a value: what \<open>try/except/else\<close> looks at.\<close>

definition tryP :: "('s, 'a) prog \<Rightarrow> ('s, exn + 'a) prog" where
  "tryP m s = (case m s of None \<Rightarrow> None | Some (r, s') \<Rightarrow> Some (Inr r, s'))"

text \<open>\<open>try: m finally: c\<close>, for a cleanup that cannot raise.\<close>

definition finallyP :: "('s, 'a) prog \<Rightarrow> ('s \<Rightarrow> 's) \<Rightarrow> ('s, 'a) prog" where
  "finallyP m c s = (case m s of None \<Rightarrow> None | Some (r, s') \<Rightarrow> Some (r, c s'))"

definition gets :: "('s \<Rightarrow> 'a) \<Rightarrow> ('s, 'a) prog" where
  "gets f s = Some (Inr (f s), s)"

definition modify :: "('s \<Rightarrow> 's) \<Rightarrow> ('s, unit) prog" where
  "modify f s = Some (Inr (), f s)"

definition lift_res :: "exn + 'a \<Rightarrow> ('s, 'a) prog" where
  "lift_res r s = Some (r, s)"

text \<open>A call of a method of a part of the state.\<close>

definition call_part :: "('s \<Rightarrow> 'p) \<Rightarrow> ('p \<Rightarrow> 's \<Rightarrow> 's) \<Rightarrow> ('p, 'a) op \<Rightarrow> ('s, 'a) prog" where
  "call_part get put m s = (let (r, p) = m (get s) in Some (r, put p s))"

text \<open>A longer call on a part of the state.\<close>

definition on_part :: "('s \<Rightarrow> 'p) \<Rightarrow> ('p \<Rightarrow> 's \<Rightarrow> 's) \<Rightarrow> ('p, 'a) prog \<Rightarrow> ('s, 'a) prog" where
  "on_part get put m s = map_option (\<lambda>(r, p). (r, put p s)) (m (get s))"

text \<open>A method body over its locals: they start from the state and give it back at the end.\<close>

definition with_locals :: "('s \<Rightarrow> 'x) \<Rightarrow> ('x \<Rightarrow> 's) \<Rightarrow> ('x, 'a) prog \<Rightarrow> ('s, 'a) prog" where
  "with_locals init state m s = map_option (\<lambda>(r, x). (r, state x)) (m (init s))"

text \<open>\<open>if c: raise e\<close>\<close>

definition raise_if :: "bool \<Rightarrow> exn \<Rightarrow> ('s, unit) prog" where
  "raise_if c e = (if c then throw e else ret ())"

text \<open>Result of a check in pure code: the first exception wins.\<close>

fun res_bind :: "exn + 'a \<Rightarrow> ('a \<Rightarrow> exn + 'b) \<Rightarrow> exn + 'b" where
  "res_bind (Inl e) f = Inl e"
| "res_bind (Inr x) f = f x"

lemma res_bind_Inr_iff: "res_bind m f = Inr y \<longleftrightarrow> (\<exists>x. m = Inr x \<and> f x = Inr y)"
  by (cases m) auto

lemma res_bind_Inl_iff:
  "res_bind m f = Inl e \<longleftrightarrow> m = Inl e \<or> (\<exists>x. m = Inr x \<and> f x = Inl e)"
  by (cases m) auto

text \<open>A check of every element of a list, in order.\<close>

fun res_map :: "('a \<Rightarrow> exn + 'b) \<Rightarrow> 'a list \<Rightarrow> exn + 'b list" where
  "res_map f [] = Inr []"
| "res_map f (x # xs) = res_bind (f x) (\<lambda>y. res_bind (res_map f xs) (\<lambda>ys. Inr (y # ys)))"

lemma res_map_Inr_iff: "res_map f xs = Inr ys \<longleftrightarrow> list_all2 (\<lambda>x y. f x = Inr y) xs ys"
  by (induction xs arbitrary: ys) (auto simp: res_bind_Inr_iff list_all2_Cons1)

lemma res_map_length: "res_map f xs = Inr ys \<Longrightarrow> length ys = length xs"
  by (simp add: res_map_Inr_iff list_all2_lengthD)

section \<open>Weakest preconditions\<close>

definition wp :: "('s, 'a) prog \<Rightarrow> ('a \<Rightarrow> 's \<Rightarrow> bool) \<Rightarrow> (exn \<Rightarrow> 's \<Rightarrow> bool) \<Rightarrow> 's \<Rightarrow> bool" where
  "wp m Q E s =
     (case m s of
        None \<Rightarrow> True
      | Some (r, s') \<Rightarrow> (case r of Inl e \<Rightarrow> E e s' | Inr x \<Rightarrow> Q x s'))"

definition returns :: "('s, 'a) prog \<Rightarrow> 's \<Rightarrow> bool" where
  "returns m s = (m s \<noteq> None)"

lemma wp_ret [simp]: "wp (ret x) Q E s = Q x s"
  by (simp add: wp_def ret_def)

lemma wp_throw [simp]: "wp (throw e) Q E s = E e s"
  by (simp add: wp_def throw_def)

lemma wp_bindP [simp]: "wp (bindP m f) Q E s = wp m (\<lambda>x. wp (f x) Q E) E s"
  by (auto simp: wp_def bindP_def split: option.splits prod.splits sum.splits)

lemma wp_thenP [simp]: "wp (thenP m k) Q E s = wp m (\<lambda>_. wp k Q E) E s"
  by (simp add: thenP_def)

lemma wp_catchP [simp]: "wp (catchP m h) Q E s = wp m Q (\<lambda>e. wp (h e) Q E) s"
  by (auto simp: wp_def catchP_def split: option.splits prod.splits sum.splits)

lemma wp_tryP [simp]: "wp (tryP m) Q E s = wp m (\<lambda>x. Q (Inr x)) (\<lambda>e. Q (Inl e)) s"
  by (auto simp: wp_def tryP_def split: option.splits prod.splits sum.splits)

lemma wp_finallyP [simp]:
  "wp (finallyP m c) Q E s = wp m (\<lambda>x t. Q x (c t)) (\<lambda>e t. E e (c t)) s"
  by (auto simp: wp_def finallyP_def split: option.splits prod.splits sum.splits)

lemma wp_gets [simp]: "wp (gets f) Q E s = Q (f s) s"
  by (simp add: wp_def gets_def)

lemma wp_modify [simp]: "wp (modify f) Q E s = Q () (f s)"
  by (simp add: wp_def modify_def)

lemma wp_lift_res [simp]: "wp (lift_res r) Q E s = (case r of Inl e \<Rightarrow> E e s | Inr x \<Rightarrow> Q x s)"
  by (simp add: wp_def lift_res_def split: sum.splits)

lemma wp_call_part [simp]:
  "wp (call_part get put m) Q E s =
     (case m (get s) of (r, p) \<Rightarrow> (case r of Inl e \<Rightarrow> E e (put p s) | Inr x \<Rightarrow> Q x (put p s)))"
  by (simp add: wp_def call_part_def split: prod.splits sum.splits)

lemma wp_on_part [simp]:
  "wp (on_part get put m) Q E s = wp m (\<lambda>x p. Q x (put p s)) (\<lambda>e p. E e (put p s)) (get s)"
  by (auto simp: wp_def on_part_def split: option.splits sum.splits)

lemma wp_with_locals [simp]:
  "wp (with_locals init state m) Q E s = wp m (\<lambda>a x. Q a (state x)) (\<lambda>e x. E e (state x)) (init s)"
  by (auto simp: wp_def with_locals_def split: option.splits sum.splits)

lemma wp_raise_if [simp]:
  "wp (raise_if c e) Q E s = ((c \<longrightarrow> E e s) \<and> (\<not> c \<longrightarrow> Q () s))"
  by (simp add: raise_if_def)

lemma wp_if [simp]:
  "wp (if c then m else k) Q E s = ((c \<longrightarrow> wp m Q E s) \<and> (\<not> c \<longrightarrow> wp k Q E s))"
  by simp

lemma wp_case_option [simp]:
  "wp (case v of None \<Rightarrow> m | Some x \<Rightarrow> f x) Q E s =
     ((v = None \<longrightarrow> wp m Q E s) \<and> (\<forall>x. v = Some x \<longrightarrow> wp (f x) Q E s))"
  by (cases v) auto

lemma wp_case_sum [simp]:
  "wp (case v of Inl e \<Rightarrow> g e | Inr x \<Rightarrow> f x) Q E s =
     ((\<forall>e. v = Inl e \<longrightarrow> wp (g e) Q E s) \<and> (\<forall>x. v = Inr x \<longrightarrow> wp (f x) Q E s))"
  by (cases v) auto

lemma wp_mono:
  assumes "wp m Q E s" and "\<And>x t. Q x t \<Longrightarrow> Q' x t" and "\<And>e t. E e t \<Longrightarrow> E' e t"
  shows "wp m Q' E' s"
  using assms by (auto simp: wp_def split: option.splits prod.splits sum.splits)

lemma wp_conj: "wp m Q E s \<Longrightarrow> wp m Q' E' s \<Longrightarrow> wp m (\<lambda>x t. Q x t \<and> Q' x t) (\<lambda>e t. E e t \<and> E' e t) s"
  by (auto simp: wp_def split: option.splits prod.splits sum.splits)

lemma wp_Inr: "m s = Some (Inr x, t) \<Longrightarrow> wp m Q E s \<Longrightarrow> Q x t"
  by (simp add: wp_def)

lemma wp_Inl: "m s = Some (Inl e, t) \<Longrightarrow> wp m Q E s \<Longrightarrow> E e t"
  by (simp add: wp_def)

lemma wp_True [simp]: "wp m (\<lambda>_ _. True) (\<lambda>_ _. True) s"
  by (auto simp: wp_def split: option.splits prod.splits sum.splits)

lemma wp_I:
  assumes "\<And>x t. m s = Some (Inr x, t) \<Longrightarrow> Q x t" and "\<And>e t. m s = Some (Inl e, t) \<Longrightarrow> E e t"
  shows "wp m Q E s"
  using assms by (auto simp: wp_def split: option.splits prod.splits sum.splits)

lemma wp_alt:
  "wp m Q E s \<longleftrightarrow> (\<forall>z. m s = Some z \<longrightarrow> (case fst z of Inl e \<Rightarrow> E e (snd z) | Inr x \<Rightarrow> Q x (snd z)))"
  by (auto simp: wp_def split: option.splits prod.splits sum.splits)

text \<open>The combinators keep a recursive call monotone, so loops may be defined over them.\<close>

lemma bindP_alt:
  "bindP m f s = Option.bind (m s)
     (\<lambda>p. case fst p of Inl e \<Rightarrow> Some (Inl e, snd p) | Inr x \<Rightarrow> f x (snd p))"
  by (auto simp: bindP_def split: option.split prod.split sum.split)

lemma bindP_mono [partial_function_mono]:
  assumes m: "\<And>s. mono_option (\<lambda>f. m f s)" and g: "\<And>x s. mono_option (\<lambda>f. g x f s)"
  shows "mono_option (\<lambda>f. bindP (m f) (\<lambda>x. g x f) s)"
proof -
  have "mono_option (\<lambda>f. Option.bind (m f s)
      (\<lambda>p. case fst p of Inl e \<Rightarrow> Some (Inl e, snd p) | Inr x \<Rightarrow> g x f (snd p)))"
  proof (rule bind_mono [OF m])
    fix p :: "(exn + 'd) \<times> 'a"
    show "mono_option (\<lambda>f. case fst p of Inl e \<Rightarrow> Some (Inl e, snd p) | Inr x \<Rightarrow> g x f (snd p))"
      by (cases "fst p") (simp_all add: g option.const_mono)
  qed
  then show ?thesis by (simp only: bindP_alt)
qed

lemma case_sum_prog_mono [partial_function_mono]:
  assumes "\<And>x. mono_option (\<lambda>f. m x f s)" and "\<And>x. mono_option (\<lambda>f. k x f s)"
  shows "mono_option (\<lambda>f. (case v of Inl x \<Rightarrow> m x f | Inr x \<Rightarrow> k x f) s)"
  using assms by (cases v) simp_all

section \<open>Loops\<close>

text \<open>
  A loop over a value \<open>c\<close>: the body continues with a new value or ends the loop with a
  result. \<open>while\<close> loops with their \<open>break\<close>, \<open>continue\<close> and \<open>return\<close> are written with it.
\<close>

partial_function (option) loopP ::
    "('c \<Rightarrow> ('s, 'c + 'a) prog) \<Rightarrow> 'c \<Rightarrow> 's \<Rightarrow> ((exn + 'a) \<times> 's) option" where
  "loopP body c s = bindP (body c) (\<lambda>r. case r of Inl c' \<Rightarrow> loopP body c' | Inr x \<Rightarrow> ret x) s"

declare loopP.simps [code]

lemma wp_loopP:
  fixes body :: "'c \<Rightarrow> ('s, 'c + 'a) prog"
  assumes step: "\<And>c s. I c s \<Longrightarrow> wp (body c) (\<lambda>r t. case r of Inl c' \<Rightarrow> I c' t | Inr x \<Rightarrow> Q x t) E s"
    and init: "I c s"
  shows "wp (loopP body c) Q E s"
proof -
  have "b = body \<longrightarrow> I c s \<longrightarrow> (case fst z of Inl e \<Rightarrow> E e (snd z) | Inr x \<Rightarrow> Q x (snd z))"
    if "loopP b c s = Some z" for b c s z
    using that
  proof (rule loopP.raw_induct [rotated])
    fix loop :: "('c \<Rightarrow> ('s, 'c + 'a) prog) \<Rightarrow> 'c \<Rightarrow> ('s, 'a) prog" and b c s z
    assume IH: "\<And>b c s z. loop b c s = Some z \<Longrightarrow>
        b = body \<longrightarrow> I c s \<longrightarrow> (case fst z of Inl e \<Rightarrow> E e (snd z) | Inr x \<Rightarrow> Q x (snd z))"
      and z: "bindP (b c) (\<lambda>r. case r of Inl c' \<Rightarrow> loop b c' | Inr x \<Rightarrow> ret x) s = Some z"
    show "b = body \<longrightarrow> I c s \<longrightarrow> (case fst z of Inl e \<Rightarrow> E e (snd z) | Inr x \<Rightarrow> Q x (snd z))"
    proof (intro impI)
      assume b: "b = body" and i: "I c s"
      have "wp (loop body c') Q E t" if "I c' t" for c' t
        using IH that by (auto simp: wp_alt)
      then have "wp (bindP (body c) (\<lambda>r. case r of Inl c' \<Rightarrow> loop body c' | Inr x \<Rightarrow> ret x)) Q E s"
        using step [OF i] by (auto intro: wp_mono split: sum.splits)
      then show "case fst z of Inl e \<Rightarrow> E e (snd z) | Inr x \<Rightarrow> Q x (snd z)"
        using z unfolding wp_alt b by blast
    qed
  qed
  with init show ?thesis by (simp add: wp_alt)
qed

lemma returns_ret [simp]: "returns (ret x) s"
  by (simp add: returns_def ret_def)

lemma returns_throw [simp]: "returns (throw e) s"
  by (simp add: returns_def throw_def)

lemma returns_bindP [simp]:
  "returns (bindP m f) s \<longleftrightarrow> returns m s \<and> wp m (\<lambda>x t. returns (f x) t) (\<lambda>_ _. True) s"
  by (auto simp: returns_def wp_def bindP_def split: option.splits prod.splits sum.splits)

lemma returns_thenP [simp]:
  "returns (thenP m k) s \<longleftrightarrow> returns m s \<and> wp m (\<lambda>_ t. returns k t) (\<lambda>_ _. True) s"
  by (simp add: thenP_def)

lemma returns_catchP [simp]:
  "returns (catchP m h) s \<longleftrightarrow> returns m s \<and> wp m (\<lambda>_ _. True) (\<lambda>e t. returns (h e) t) s"
  by (auto simp: returns_def wp_def catchP_def split: option.splits prod.splits sum.splits)

lemma returns_tryP [simp]: "returns (tryP m) s = returns m s"
  by (auto simp: returns_def tryP_def split: option.splits prod.splits)

lemma returns_finallyP [simp]: "returns (finallyP m c) s = returns m s"
  by (auto simp: returns_def finallyP_def split: option.splits prod.splits)

lemma returns_gets [simp]: "returns (gets f) s"
  by (simp add: returns_def gets_def)

lemma returns_modify [simp]: "returns (modify f) s"
  by (simp add: returns_def modify_def)

lemma returns_lift_res [simp]: "returns (lift_res r) s"
  by (simp add: returns_def lift_res_def)

lemma returns_call_part [simp]: "returns (call_part get put m) s"
  by (simp add: returns_def call_part_def split: prod.splits)

lemma returns_on_part [simp]: "returns (on_part get put m) s = returns m (get s)"
  by (auto simp: returns_def on_part_def)

lemma returns_with_locals [simp]: "returns (with_locals init state m) s = returns m (init s)"
  by (auto simp: returns_def with_locals_def)

lemma returns_raise_if [simp]: "returns (raise_if c e) s"
  by (simp add: raise_if_def)

lemma returns_if [simp]: "returns (if c then m else k) s = (if c then returns m s else returns k s)"
  by simp

lemma returns_case_option [simp]:
  "returns (case v of None \<Rightarrow> m | Some x \<Rightarrow> f x) s =
     ((v = None \<longrightarrow> returns m s) \<and> (\<forall>x. v = Some x \<longrightarrow> returns (f x) s))"
  by (cases v) auto

lemma returns_loopP:
  fixes measure_of :: "'c \<Rightarrow> 's \<Rightarrow> nat"
  assumes body: "\<And>c s. I c s \<Longrightarrow> returns (body c) s"
    and step: "\<And>c s. I c s \<Longrightarrow>
      wp (body c) (\<lambda>r t. case r of Inl c' \<Rightarrow> I c' t \<and> measure_of c' t < measure_of c s | Inr x \<Rightarrow> True)
        (\<lambda>_ _. True) s"
    and init: "I c s"
  shows "returns (loopP body c) s"
  using init
proof (induction "measure_of c s" arbitrary: c s rule: less_induct)
  case less
  have eq: "loopP body c = bindP (body c) (\<lambda>r. case r of Inl c' \<Rightarrow> loopP body c' | Inr x \<Rightarrow> ret x)"
    by (rule ext) (simp add: loopP.simps)
  show ?case
    unfolding eq returns_bindP
    using body [OF less.prems] step [OF less.prems] less.hyps
    by (auto elim!: wp_mono split: sum.splits)
qed

section \<open>Reachable states, invariants and sticky faults\<close>

inductive reach :: "('s \<Rightarrow> bool) \<Rightarrow> ('s \<Rightarrow> 's \<Rightarrow> bool) \<Rightarrow> 's \<Rightarrow> bool" for init step where
  reach_init: "init s \<Longrightarrow> reach init step s"
| reach_step: "reach init step s \<Longrightarrow> step s t \<Longrightarrow> reach init step t"

locale invariant_system =
  fixes init :: "'s \<Rightarrow> bool" and step :: "'s \<Rightarrow> 's \<Rightarrow> bool" and inv :: "'s \<Rightarrow> bool"
  assumes inv_init: "init s \<Longrightarrow> inv s"
    and inv_step: "step s t \<Longrightarrow> inv s \<Longrightarrow> inv t"
begin

lemma reach_inv: "reach init step s \<Longrightarrow> inv s"
  by (induction rule: reach.induct) (auto intro: inv_init inv_step)

lemma run_inv: "step\<^sup>*\<^sup>* s t \<Longrightarrow> inv s \<Longrightarrow> inv t"
  by (induction rule: rtranclp_induct) (auto intro: inv_step)

end

text \<open>
  A component that fails closed: once it has latched a fault no step removes or replaces
  it, and a step that does its guarded work cannot start in a faulted state.
\<close>

locale fault_latch =
  fixes fault :: "'s \<Rightarrow> 'r option" and step :: "'s \<Rightarrow> 's \<Rightarrow> bool"
    and works :: "'s \<Rightarrow> 's \<Rightarrow> bool"
  assumes latched: "step s t \<Longrightarrow> fault s = Some r \<Longrightarrow> fault t = Some r"
    and fail_closed: "works s t \<Longrightarrow> fault s = None"
begin

lemma run_latched: "step\<^sup>*\<^sup>* s t \<Longrightarrow> fault s = Some r \<Longrightarrow> fault t = Some r"
  by (induction rule: rtranclp_induct) (auto intro: latched)

lemma no_work_after_fault: "fault s = Some r \<Longrightarrow> step\<^sup>*\<^sup>* s t \<Longrightarrow> \<not> works t u"
  by (auto dest!: run_latched fail_closed)

end

end
