(* ===== verification/Rounding.thy ===== *)
theory Rounding
  imports Py_Prelude
begin

text \<open>
  Facts about the rounding of the prelude: the binary logarithm brackets its argument, a
  rounded result is representable in the format, and a representable value rounds to
  itself. Converting a checked \<open>float32\<close> vector again therefore changes nothing.
\<close>

lemma int_log2_nonneg: "0 \<le> int_log2 n"
proof (induction n rule: int_log2.induct)
  case (1 n)
  then show ?case by (subst int_log2.simps) auto
qed

lemma int_log2_bounds:
  "1 \<le> n \<Longrightarrow> (2 :: rat) powi int_log2 n \<le> of_int n \<and> of_int n < (2 :: rat) powi (int_log2 n + 1)"
proof (induction n rule: int_log2.induct)
  case (1 n)
  show ?case
  proof (cases "n < 2")
    case True
    with "1.prems" have "n = 1" by simp
    then show ?thesis by (simp add: int_log2.simps)
  next
    case False
    let ?k = "int_log2 (n div 2)"
    have IH: "(2 :: rat) powi ?k \<le> of_int (n div 2) \<and> of_int (n div 2) < (2 :: rat) powi (?k + 1)"
      using "1.IH" False by simp
    have eq: "int_log2 n = 1 + ?k"
      using False by (subst int_log2.simps) simp
    have p1: "(2 :: rat) powi (1 + ?k) = 2 * 2 powi ?k" "(2 :: rat) powi (1 + ?k + 1) = 2 * 2 powi (?k + 1)"
      by (simp_all add: power_int_add)
    have lo: "(2 :: rat) * of_int (n div 2) \<le> of_int n"
      by (metis mult_div_mod_eq of_int_le_iff of_int_mult of_int_numeral
          add.commute le_add_same_cancel2 pos_mod_sign zero_less_numeral)
    obtain m :: nat where m: "?k = int m"
      using int_log2_nonneg by (metis nonneg_int_cases)
    have "of_int (n div 2) < (of_int (2 ^ (m + 1)) :: rat)"
      using IH by (simp add: m power_int_add)
    then have "n div 2 < 2 ^ (m + 1)" by (simp only: of_int_less_iff)
    then have "n < 2 * 2 ^ (m + 1)" by linarith
    then have "(of_int n :: rat) < of_int (2 * 2 ^ (m + 1))" by (simp only: of_int_less_iff)
    then have hi: "(of_int n :: rat) < 2 * 2 powi (?k + 1)"
      by (simp add: m power_int_add)
    show ?thesis unfolding eq p1 using IH lo hi by linarith
  qed
qed

lemma rat_log2_bounds:
  assumes "0 < x"
  shows "2 powi rat_log2 x \<le> x \<and> x < 2 powi (rat_log2 x + 1)"
proof -
  obtain n d where q: "quotient_of x = (n, d)" by fastforce
  have d: "0 < d" using quotient_of_denom_pos [OF q] .
  have x: "x = of_int n / of_int d" using quotient_of_div [OF q] .
  have n: "0 < n" using assms d x by (simp add: zero_less_divide_iff)
  let ?a = "int_log2 n" and ?b = "int_log2 d"
  have A: "(2 :: rat) powi ?a \<le> of_int n" "(of_int n :: rat) < 2 powi (?a + 1)"
    using int_log2_bounds [of n] n by auto
  have B: "(2 :: rat) powi ?b \<le> of_int d" "(of_int d :: rat) < 2 powi (?b + 1)"
    using int_log2_bounds [of d] d by auto
  have pos: "(0 :: rat) < 2 powi k" for k by simp
  have up: "x < 2 powi (?a - ?b + 1)"
  proof -
    have "x < 2 powi (?a + 1) / of_int d"
      using A d x by (simp add: divide_strict_right_mono)
    also have "\<dots> \<le> 2 powi (?a + 1) / 2 powi ?b"
      using B d by (intro divide_left_mono mult_pos_pos) auto
    also have "\<dots> = 2 powi (?a - ?b + 1)"
      by (simp add: power_int_diff power_int_add)
    finally show ?thesis .
  qed
  have lo: "2 powi (?a - ?b - 1) \<le> x"
  proof -
    have "2 powi (?a - ?b - 1) = 2 powi ?a / (2 powi (?b + 1) :: rat)"
      by (simp add: power_int_diff power_int_add)
    also have "\<dots> \<le> 2 powi ?a / of_int d"
      using B d pos [of ?a] by (intro divide_left_mono) auto
    also have "\<dots> \<le> x"
      using A d x by (simp add: divide_right_mono)
    finally show ?thesis .
  qed
  show ?thesis
    using up lo by (auto simp: rat_log2_def q Let_def)
qed

lemma rat_log2_less:
  assumes "0 < x" and "x < 2 powi k"
  shows "rat_log2 x < k"
proof (rule ccontr)
  assume "\<not> rat_log2 x < k"
  then have "(2 :: rat) powi k \<le> 2 powi rat_log2 x"
    by (simp add: power_int_increasing)
  with rat_log2_bounds [OF assms(1)] assms(2) show False by linarith
qed

lemma rat_log2_eq:
  assumes "2 powi k \<le> x" and "x < 2 powi (k + 1)"
  shows "rat_log2 x = k"
proof -
  have pos: "0 < x"
    using assms(1) by (rule less_le_trans [rotated]) simp
  have "rat_log2 x < k + 1" using rat_log2_less [OF pos assms(2)] .
  moreover have "\<not> rat_log2 x < k"
  proof
    assume "rat_log2 x < k"
    then have "(2 :: rat) powi (rat_log2 x + 1) \<le> 2 powi k"
      by (simp add: power_int_increasing)
    with rat_log2_bounds [OF pos] assms(1) show False by linarith
  qed
  ultimately show ?thesis by linarith
qed

lemma round_half_even_of_int [simp]: "round_half_even (of_int n) = n"
  by (simp add: round_half_even_def)

lemma round_half_even_le: "x \<le> of_int n \<Longrightarrow> round_half_even x \<le> n"
proof -
  assume x: "x \<le> of_int n"
  have "\<lfloor>x\<rfloor> \<le> n" using x by linarith
  moreover have "\<lfloor>x\<rfloor> < n" if "\<not> x - of_int \<lfloor>x\<rfloor> < 1 / 2"
    using x that calculation by (cases "\<lfloor>x\<rfloor> = n") auto
  ultimately show ?thesis by (auto simp: round_half_even_def Let_def)
qed

lemma round_half_even_ge:
  assumes "of_int n \<le> x"
  shows "n \<le> round_half_even x"
proof -
  have "n \<le> \<lfloor>x\<rfloor>" using assms by (simp add: le_floor_iff)
  then show ?thesis by (auto simp: round_half_even_def Let_def)
qed

lemma round_half_even_minus_bound:
  assumes "\<bar>x\<bar> \<le> of_int n"
  shows "\<bar>round_half_even x\<bar> \<le> n"
  using round_half_even_le [of x n] round_half_even_ge [of "- n" x] assms by (simp add: abs_le_iff)

definition representable :: "nat \<Rightarrow> int \<Rightarrow> int \<Rightarrow> rat \<Rightarrow> bool" where
  "representable p emin emax y \<longleftrightarrow>
     (\<exists>m e. y = of_int m * 2 powi e \<and> \<bar>m\<bar> < 2 ^ p \<and> emin \<le> e \<and> e \<le> emax - int p)"


text \<open>Rounding keeps the sign.\<close>

lemma round_to_nonpos: "x \<le> 0 \<Longrightarrow> round_to p emin emax x \<le> Fin 0"
proof (cases "x = 0")
  case False
  moreover assume "x \<le> 0"
  ultimately have "x * 2 powi k \<le> of_int 0" for k by (simp add: mult_nonpos_nonneg)
  then have "round_half_even (x * 2 powi k) \<le> 0" for k by (rule round_half_even_le)
  then show ?thesis
    using \<open>x \<le> 0\<close> by (auto simp: round_to_def Let_def less_eq_fl_def mult_le_0_iff less_le)
qed (simp add: round_to_def)

lemma round_to_nonneg: "0 \<le> x \<Longrightarrow> Fin 0 \<le> round_to p emin emax x"
proof (cases "x = 0")
  case False
  moreover assume "0 \<le> x"
  ultimately have "of_int 0 \<le> x * 2 powi k" for k by simp
  then have "0 \<le> round_half_even (x * 2 powi k)" for k by (rule round_half_even_ge)
  then show ?thesis
    using \<open>0 \<le> x\<close> False by (auto simp: round_to_def Let_def less_eq_fl_def zero_le_mult_iff less_le)
qed (simp add: round_to_def)

lemma fl_diff_not_pos:
  assumes "is_finite d" "is_finite t" "\<not> t < (d :: fl)"
  shows "d - t \<le> 0"
  using assms round_to_nonpos
  by (auto simp: is_finite_iff minus_fl_def zero_fl_def rnd64_def not_less)

text \<open>The scaled argument of a rounding stays within the precision.\<close>

lemma scaled_bound:
  assumes "x \<noteq> 0" and "rat_log2 \<bar>x\<bar> - int p + 1 \<le> e"
  shows "\<bar>x * 2 powi (- e)\<bar> \<le> of_int (2 ^ p)"
proof -
  have "\<bar>x\<bar> < 2 powi (rat_log2 \<bar>x\<bar> + 1)"
    using rat_log2_bounds [of "\<bar>x\<bar>"] assms(1) by simp
  also have "\<dots> \<le> 2 powi (int p + e)"
    using assms(2) by (intro power_int_increasing) auto
  finally have "\<bar>x\<bar> * 2 powi (- e) \<le> 2 powi (int p + e) * 2 powi (- e)"
    by (simp add: mult_right_mono)
  also have "\<dots> = of_int (2 ^ p)"
    by (simp add: power_int_add power_int_minus)
  finally show ?thesis by (simp add: abs_mult)
qed

lemma round_to_representable:
  assumes "round_to p emin emax x = Fin y" and "0 < p" and "emin \<le> emax - int p"
  shows "representable p emin emax y"
proof (cases "x = 0")
  case True
  then have "y = of_int 0 * 2 powi emin" using assms(1) by (simp add: round_to_def)
  then show ?thesis
    unfolding representable_def using assms(2,3) by (intro exI [of _ 0] exI [of _ emin]) auto
next
  case False
  define e where "e = max emin (rat_log2 \<bar>x\<bar> - int p + 1)"
  define m where "m = round_half_even (x * 2 powi (- e))"
  have ok: "\<not> (emax - int p < e \<or> (e = emax - int p \<and> 2 ^ p \<le> \<bar>m\<bar>))" and y: "y = of_int m * 2 powi e"
    using assms(1) False by (auto simp: round_to_def Let_def e_def m_def split: if_splits)
  have m: "\<bar>m\<bar> \<le> 2 ^ p"
    unfolding m_def using scaled_bound [OF False, of p e]
    by (intro round_half_even_minus_bound) (simp add: e_def)
  show ?thesis
  proof (cases "\<bar>m\<bar> = 2 ^ p")
    case True
    have two: "(2 :: int) ^ p = 2 * 2 ^ (p - 1)"
      using assms(2) by (simp flip: power_Suc)
    have half: "m = 2 * (sgn m * 2 ^ (p - 1))"
      using True two by (metis abs_mult_sgn mult.assoc mult.commute)
    have "y = of_int (sgn m * 2 ^ (p - 1)) * 2 powi (e + 1)"
      unfolding y by (subst half) (simp add: power_int_add)
    moreover have "\<bar>sgn m * 2 ^ (p - 1)\<bar> < (2 :: int) ^ p"
      using two by (simp add: abs_mult sgn_if)
    moreover have "emin \<le> e + 1" "e + 1 \<le> emax - int p"
      using ok True by (auto simp: e_def)
    ultimately show ?thesis
      unfolding representable_def by blast
  next
    case False
    then show ?thesis
      unfolding representable_def using ok m y e_def by (intro exI [of _ m] exI [of _ e]) auto
  qed
qed

lemma round_to_of_representable:
  assumes "representable p emin emax y"
  shows "round_to p emin emax y = Fin y"
proof (cases "y = 0")
  case True
  then show ?thesis by (simp add: round_to_def)
next
  case False
  obtain m e where y: "y = of_int m * 2 powi e" and m: "\<bar>m\<bar> < 2 ^ p"
    and e: "emin \<le> e" "e \<le> emax - int p"
    using assms by (auto simp: representable_def)
  define e' where "e' = max emin (rat_log2 \<bar>y\<bar> - int p + 1)"
  have "\<bar>y\<bar> < 2 powi (int p + e)"
  proof -
    have "(of_int \<bar>m\<bar> :: rat) < of_int (2 ^ p)" using m by (simp only: of_int_less_iff)
    then show ?thesis by (simp add: y abs_mult power_int_add)
  qed
  then have "rat_log2 \<bar>y\<bar> < int p + e"
    using False by (intro rat_log2_less) auto
  then have e': "e' \<le> e" using e by (simp add: e'_def)
  define m' where "m' = m * 2 ^ nat (e - e')"
  have "(2 :: rat) powi (int k + e') = 2 ^ k * 2 powi e'" for k
    by (simp add: power_int_add)
  from this [of "nat (e - e')"] have split: "(2 :: rat) powi e = 2 ^ nat (e - e') * 2 powi e'"
    using e' by simp
  have ym: "y = of_int m' * 2 powi e'"
    unfolding y m'_def split by simp
  then have scaled: "y * 2 powi (- e') = of_int m'"
    by (simp add: power_int_minus)
  have "\<not> (emax - int p < e' \<or> (e' = emax - int p \<and> 2 ^ p \<le> \<bar>m'\<bar>))"
    using e e' m by (auto simp: m'_def)
  moreover have "round_to p emin emax y =
      (if emax - int p < e' \<or> (e' = emax - int p \<and> 2 ^ p \<le> \<bar>m'\<bar>)
       then (if 0 < y then PInf else NInf) else Fin (of_int m' * 2 powi e'))"
    unfolding round_to_def Let_def e'_def [symmetric] scaled round_half_even_of_int
    using False by (simp only: if_False)
  ultimately show ?thesis by (simp only: if_False ym [symmetric])
qed

theorem round_to_idem:
  assumes "round_to p emin emax x = Fin y" and "0 < p" and "emin \<le> emax - int p"
  shows "round_to p emin emax y = Fin y"
  using round_to_representable [OF assms] by (rule round_to_of_representable)

lemma to_f32_idem [simp]: "to_f32 (to_f32 x) = to_f32 x"
proof (cases x)
  case (Fin r)
  show ?thesis
  proof (cases "rnd32 r")
    case (Fin y)
    then have "rnd32 y = Fin y"
      unfolding rnd32_def by (rule round_to_idem) auto
    with Fin \<open>x = Fin r\<close> show ?thesis by (simp add: to_f32_def)
  qed (simp_all add: to_f32_def Fin)
qed (simp_all add: to_f32_def)

end
