(* ===== verification/Validation.thy ===== *)
theory Validation
  imports Programs Rounding
begin

text \<open>
  \<open>sim2real/closed_loop/validation.py\<close>: the checks every public entry of the closed loop
  runs on its arguments. Each returns the checked value or the exception it raises.

  An array argument is a \<open>Vec\<close> of its elements, or \<open>OtherShape\<close> for an array that is not
  one-dimensional. A checked float vector is a list of binary32 values, a checked register
  vector a list of integers.
\<close>

datatype ndarray = Vec "fl list" | OtherShape

text \<open>\<open>except (TypeError, ValueError)\<close> around \<open>float(value)\<close>.\<close>

definition float_or :: "pyval \<Rightarrow> exn \<Rightarrow> exn + fl" where
  "float_or v err =
     (case py_float v of
        Inl e \<Rightarrow> if exn_class e = TypeError \<or> exn_class e = ValueError then Inl err else Inl e
      | Inr x \<Rightarrow> Inr x)"

definition finite_scalar :: "pyval \<Rightarrow> string \<Rightarrow> exn + fl" where
  "finite_scalar v name =
     (let err = Exn ValueError (name @ '' must be finite'')
      in res_bind (float_or v err) (\<lambda>x. if is_finite x then Inr x else Inl err))"

fun strict_bool :: "pyval \<Rightarrow> string \<Rightarrow> exn + bool" where
  "strict_bool (PyBool b) name = Inr b"
| "strict_bool v name = Inl (Exn ValueError (name @ '' must be boolean''))"

definition readonly_float_vector :: "ndarray \<Rightarrow> nat \<Rightarrow> string \<Rightarrow> exn + fl list" where
  "readonly_float_vector v sz name =
     (let err = Exn ValueError (name @ '' must contain '' @ int_str (int sz) @ '' finite values'')
      in case v of
           OtherShape \<Rightarrow> Inl err
         | Vec xs \<Rightarrow>
             (let result = map to_f32 xs
              in if length result \<noteq> sz \<or> \<not> list_all is_finite result then Inl err
                 else Inr result))"

text \<open>\<open>x.astype(np.int32)\<close>: out of range gives the least 32-bit integer.\<close>

definition cast_int32 :: "fl \<Rightarrow> int" where
  "cast_int32 x =
     (let n = fl_trunc x in if - (2 ^ 31) \<le> n \<and> n < 2 ^ 31 then n else - (2 ^ 31))"

definition readonly_register_vector :: "ndarray \<Rightarrow> string \<Rightarrow> exn + int list" where
  "readonly_register_vector v name =
     (case v of
        OtherShape \<Rightarrow> Inl (Exn ValueError (name @ '' must contain six finite integer values''))
      | Vec xs \<Rightarrow>
          if length xs \<noteq> 6 \<or> \<not> list_all is_finite xs
          then Inl (Exn ValueError (name @ '' must contain six finite integer values''))
          else if \<not> list_all fl_is_integer xs
          then Inl (Exn ValueError (name @ '' must contain integer values''))
          else
            let result = map cast_int32 xs
            in if list_ex (\<lambda>n. n < 0) result \<or> list_ex (\<lambda>n. 1000 < n) result
               then Inl (Exn ValueError (name @ '' must lie in [0,1000]''))
               else Inr result)"

text \<open>\<open>math.isclose(a, b, rel_tol=0.0, abs_tol=1.0e-12)\<close> of finite floats.\<close>

definition isclose :: "fl \<Rightarrow> fl \<Rightarrow> bool" where
  "isclose a b =
     (a = b \<or> (is_finite a \<and> is_finite b \<and>
        fl_max (b - a) (a - b) \<le> rnd64 (1 / 10 ^ 12)))"

definition positive_integer :: "pyval \<Rightarrow> string \<Rightarrow> exn + int" where
  "positive_integer v name =
     (let err = Exn ValueError (name @ '' must be a positive integer'')
      in if is_py_bool v then Inl err
         else res_bind (float_or v err)
           (\<lambda>x. if \<not> is_finite x \<or> \<not> fl_is_integer x \<or> x \<le> 0 then Inl err
                else Inr (fl_trunc x)))"

text \<open>A rate limit is absent, one scalar for every axis, or a vector.\<close>

datatype rate_arg = NoRate | ScalarRate fl | RateArray ndarray

definition optional_positive_rate_vector ::
    "rate_arg \<Rightarrow> nat \<Rightarrow> string \<Rightarrow> exn + fl list option" where
  "optional_positive_rate_vector v sz name =
     (let err = Exn ValueError
                  (name @ '' must be a positive scalar or '' @ int_str (int sz) @ ''-vector'');
          checked = (\<lambda>raw. if length raw \<noteq> sz \<or> \<not> list_all is_finite raw \<or> list_ex (\<lambda>x. x \<le> 0) raw
                           then Inl err else Inr (Some raw))
      in case v of
           NoRate \<Rightarrow> Inr None
         | ScalarRate x \<Rightarrow> checked (replicate sz x)
         | RateArray OtherShape \<Rightarrow> Inl err
         | RateArray (Vec xs) \<Rightarrow> checked xs)"

text \<open>\<open>V94MappedAction\<close> (\<open>sim2real/contracts/actions.py\<close>) and its checked copy.\<close>

record mapped_action =
  raw_policy_action13 :: "fl list"
  executed_policy_action13 :: "fl list"
  franka_target_q_rad :: "fl list"
  rh56_target_q_policy_order_rad :: "fl list"
  rh56_angle_set_register_order :: "int list"
  clipped :: bool
  reasons :: "string list"
  hold_arm_target :: bool

definition vec_of_ints :: "int list \<Rightarrow> ndarray" where
  "vec_of_ints ns = Vec (map (\<lambda>n. Fin (of_int n)) ns)"

definition immutable_mapped_action :: "mapped_action \<Rightarrow> exn + mapped_action" where
  "immutable_mapped_action m =
     res_bind (readonly_float_vector (Vec (raw_policy_action13 m)) 13 ''raw_policy_action13'') (\<lambda>raw.
     res_bind (readonly_float_vector (Vec (executed_policy_action13 m)) 13 ''executed_policy_action13'') (\<lambda>exe.
     res_bind (readonly_float_vector (Vec (franka_target_q_rad m)) 7 ''franka_target_q_rad'') (\<lambda>arm.
     res_bind (readonly_float_vector (Vec (rh56_target_q_policy_order_rad m)) 6
                 ''rh56_target_q_policy_order_rad'') (\<lambda>hand.
     res_bind (readonly_register_vector (vec_of_ints (rh56_angle_set_register_order m))
                 ''rh56_angle_set_register_order'') (\<lambda>reg.
     Inr \<lparr>raw_policy_action13 = raw, executed_policy_action13 = exe, franka_target_q_rad = arm,
          rh56_target_q_policy_order_rad = hand, rh56_angle_set_register_order = reg,
          clipped = clipped m, reasons = reasons m, hold_arm_target = hold_arm_target m\<rparr>)))))"

section \<open>What a passed check says\<close>

lemma float_or_Inr: "float_or v err = Inr x \<Longrightarrow> py_float v = Inr x"
  by (auto simp: float_or_def split: sum.splits if_splits)

lemma finite_scalar_Inr: "finite_scalar v name = Inr x \<Longrightarrow> is_finite x \<and> py_float v = Inr x"
  by (auto simp: finite_scalar_def res_bind_Inr_iff Let_def dest: float_or_Inr split: if_splits)

lemma finite_scalar_PyFloat [simp]: "finite_scalar (PyFloat (Fin x)) name = Inr (Fin x)"
  by (simp add: finite_scalar_def float_or_def)

lemma strict_bool_Inr: "strict_bool v name = Inr b \<longleftrightarrow> v = PyBool b"
  by (cases v) auto

definition float_vector :: "nat \<Rightarrow> fl list \<Rightarrow> bool" where
  "float_vector n xs = (length xs = n \<and> list_all is_finite xs \<and> map to_f32 xs = xs)"

lemma readonly_float_vector_Inr:
  "readonly_float_vector v n name = Inr xs \<Longrightarrow> float_vector n xs"
  by (auto simp: readonly_float_vector_def float_vector_def Let_def split: ndarray.splits if_splits)

lemma readonly_float_vector_idem:
  "float_vector n xs \<Longrightarrow> readonly_float_vector (Vec xs) n name = Inr xs"
  by (simp add: readonly_float_vector_def float_vector_def Let_def)

definition register_vector :: "int list \<Rightarrow> bool" where
  "register_vector ns = (length ns = 6 \<and> list_all (\<lambda>n. 0 \<le> n \<and> n \<le> 1000) ns)"

lemma readonly_register_vector_Inr:
  "readonly_register_vector v name = Inr ns \<Longrightarrow> register_vector ns"
  by (fastforce simp: readonly_register_vector_def register_vector_def Let_def list_all_iff list_ex_iff
      split: ndarray.splits if_splits)

lemma fl_trunc_of_int [simp]: "fl_trunc (Fin (of_int n)) = n"
  by (simp flip: of_int_minus)

lemma cast_int32_of_int: "0 \<le> n \<Longrightarrow> n \<le> 1000 \<Longrightarrow> cast_int32 (Fin (of_int n)) = n"
  by (simp add: cast_int32_def del: fl_trunc.simps)

lemma readonly_register_vector_idem:
  assumes "register_vector ns"
  shows "readonly_register_vector (vec_of_ints ns) name = Inr ns"
proof -
  have "map (\<lambda>n. cast_int32 (Fin (of_int n))) ns = ns"
    using assms by (intro map_idI) (auto simp: register_vector_def list_all_iff cast_int32_of_int)
  then show ?thesis
    using assms
    by (auto simp: readonly_register_vector_def vec_of_ints_def register_vector_def list_all_iff
        list_ex_iff comp_def Let_def not_less)
qed

lemma positive_integer_Inr:
  assumes "positive_integer v name = Inr n"
  shows "0 < n \<and> py_float v = Inr (Fin (of_int n)) \<and> \<not> is_py_bool v"
proof -
  obtain x where x: "py_float v = Inr x" "is_finite x" "fl_is_integer x" "\<not> x \<le> 0" "n = fl_trunc x"
      and nb: "\<not> is_py_bool v"
    using assms by (auto simp: positive_integer_def Let_def res_bind_Inr_iff dest!: float_or_Inr split: if_splits)
  then obtain r where r: "x = Fin r" "of_int \<lfloor>r\<rfloor> = r" "0 < r"
    by (cases x) (auto simp: zero_fl_def)
  obtain k where k: "r = of_int k"
    using r(2) by metis
  with r have "0 < k" by simp
  with k r(1) x nb show ?thesis by (simp del: fl_trunc.simps)
qed

end
