(* ===== verification/RH56_Frames.thy ===== *)
theory RH56_Frames
  imports Validation "HOL-Library.Word"
begin

unbundle bit_operations_syntax

text \<open>
  The RH56 wire format of \<open>examples/inspire_rh56_test.py\<close>: the request builders, the
  response parser and the functions that recognise a frame. A frame is a list of bytes
  (\<open>8 word\<close>); a hand number, a register address and a length are Python integers.
  \<open>response_frame\<close> is the reference encoding of a reply by the device: the code has no such
  function, the parser is proved to accept exactly what it produces.
\<close>

section \<open>The code\<close>

type_synonym byte = "8 word"

definition REQUEST_HEADER :: "byte list" where
  "REQUEST_HEADER = [0xEB, 0x90]"

definition RESPONSE_HEADER :: "byte list" where
  "RESPONSE_HEADER = [0x90, 0xEB]"

definition READ_COMMAND :: byte where
  "READ_COMMAND = 0x11"

definition WRITE_COMMAND :: byte where
  "WRITE_COMMAND = 0x12"

definition hex_digit :: "int \<Rightarrow> char" where
  "hex_digit d = (if d < 10 then char_of (48 + d) else char_of (55 + d))"

definition hex_byte :: "byte \<Rightarrow> string" where
  "hex_byte b = [hex_digit (uint b div 16), hex_digit (uint b mod 16)]"

definition hex_bytes :: "byte list \<Rightarrow> string" where
  "hex_bytes f = join '' '' (map hex_byte f)"

definition checksum :: "byte list \<Rightarrow> byte" where
  "checksum f = word_of_int (sum_list (map uint (drop 2 f)) AND 0xFF)"

definition validate_common :: "int \<Rightarrow> int \<Rightarrow> exn + unit" where
  "validate_common hand_id address =
     (if \<not> (1 \<le> hand_id \<and> hand_id \<le> 254)
      then Inl (Exn ValueError ''hand ID must be in 1..254'')
      else if \<not> (0 \<le> address \<and> address \<le> 0xFFFF)
      then Inl (Exn ValueError ''register address must be in 0..65535'')
      else Inr ())"

text \<open>A Python integer in 0..255 as an element of \<open>bytearray\<close>, and the two address bytes.\<close>

definition byte_of :: "int \<Rightarrow> byte" where
  "byte_of n = word_of_int n"

definition address_bytes :: "int \<Rightarrow> byte list" where
  "address_bytes address = [byte_of (address AND 0xFF), byte_of (drop_bit 8 address AND 0xFF)]"

definition build_read_frame :: "int \<Rightarrow> int \<Rightarrow> int \<Rightarrow> exn + byte list" where
  "build_read_frame hand_id address n =
     res_bind (validate_common hand_id address) (\<lambda>_.
       if \<not> (1 \<le> n \<and> n \<le> 255)
       then Inl (Exn ValueError ''read length must be in 1..255 bytes'')
       else
         let frame = REQUEST_HEADER @ [byte_of hand_id, 0x04, READ_COMMAND]
                       @ address_bytes address @ [byte_of n]
         in Inr (frame @ [checksum frame]))"

definition build_write_frame :: "int \<Rightarrow> int \<Rightarrow> byte list \<Rightarrow> exn + byte list" where
  "build_write_frame hand_id address data =
     res_bind (validate_common hand_id address) (\<lambda>_.
       if \<not> (1 \<le> length data \<and> length data \<le> 252)
       then Inl (Exn ValueError ''write data length must be in 1..252 bytes'')
       else
         let frame = REQUEST_HEADER @ [byte_of hand_id, byte_of (int (length data) + 3), WRITE_COMMAND]
                       @ address_bytes address @ data
         in Inr (frame @ [checksum frame]))"

definition frame_address :: "byte list \<Rightarrow> int" where
  "frame_address f = uint (f ! 5) OR push_bit 8 (uint (f ! 6))"

definition rh56_error :: "string \<Rightarrow> exn + 'a" where
  "rh56_error m = Inl (Exn RH56Error m)"

definition parse_response :: "byte list \<Rightarrow> int \<Rightarrow> byte \<Rightarrow> int \<Rightarrow> int \<Rightarrow> exn + byte list" where
  "parse_response f hand_id command address expected_data_length =
     (if length f < 8 \<or> take 2 f \<noteq> RESPONSE_HEADER
      then rh56_error (''invalid response header: '' @ hex_bytes f)
      else if int (length f) \<noteq> uint (f ! 3) + 5
      then rh56_error (''invalid response length: field='' @ int_str (uint (f ! 3))
                       @ '', bytes='' @ int_str (int (length f)))
      else if checksum (butlast f) \<noteq> last f
      then rh56_error (''bad response checksum: '' @ hex_bytes f)
      else if uint (f ! 2) \<noteq> hand_id
      then rh56_error (''response ID '' @ int_str (uint (f ! 2)) @ '' does not match requested ID ''
                       @ int_str hand_id)
      else if f ! 4 \<noteq> command
      then rh56_error (''unexpected response command 0x'' @ hex_byte (f ! 4))
      else if frame_address f \<noteq> address
      then rh56_error (''response address '' @ int_str (frame_address f) @ '' does not match ''
                       @ int_str address)
      else
        let data = butlast (drop 7 f)
        in if int (length data) \<noteq> expected_data_length
           then rh56_error (''expected '' @ int_str expected_data_length
                            @ '' data bytes, received '' @ int_str (int (length data)))
           else Inr data)"

definition request_identity :: "byte list \<Rightarrow> (int \<times> byte \<times> int) option" where
  "request_identity f =
     (if length f < 8 \<or> take 2 f \<noteq> REQUEST_HEADER \<or> int (length f) \<noteq> uint (f ! 3) + 5
         \<or> checksum (butlast f) \<noteq> last f
      then None
      else
        let hand_id = uint (f ! 2); command = f ! 4
        in if \<not> (1 \<le> hand_id \<and> hand_id \<le> 254) then None
           else if command \<noteq> READ_COMMAND \<and> command \<noteq> WRITE_COMMAND then None
           else if (command = READ_COMMAND \<and> f ! 3 \<noteq> 4) \<or> (command = WRITE_COMMAND \<and> uint (f ! 3) < 4)
           then None
           else Some (hand_id, command, frame_address f))"

definition exact_write_ack_identity :: "byte list \<Rightarrow> (int \<times> int) option" where
  "exact_write_ack_identity f =
     (if length f \<noteq> 9 \<or> take 2 f \<noteq> RESPONSE_HEADER \<or> f ! 3 \<noteq> 4
         \<or> checksum (butlast f) \<noteq> last f \<or> \<not> (1 \<le> uint (f ! 2) \<and> uint (f ! 2) \<le> 254)
         \<or> f ! 4 \<noteq> WRITE_COMMAND \<or> f ! 7 \<noteq> 0x01
      then None
      else Some (uint (f ! 2), frame_address f))"

definition is_exact_read_response :: "byte list \<Rightarrow> int \<Rightarrow> int \<Rightarrow> int \<Rightarrow> bool" where
  "is_exact_read_response f hand_id address n =
     (case parse_response f hand_id READ_COMMAND address n of Inr _ \<Rightarrow> True | Inl _ \<Rightarrow> False)"

section \<open>The reference encoding of a reply\<close>

definition response_frame :: "int \<Rightarrow> byte \<Rightarrow> int \<Rightarrow> byte list \<Rightarrow> byte list" where
  "response_frame hand_id command address data =
     (let frame = RESPONSE_HEADER @ [byte_of hand_id, byte_of (int (length data) + 3), command]
                    @ address_bytes address @ data
      in frame @ [checksum frame])"

section \<open>Bytes, addresses and the checksum\<close>

lemma sum_list_words: "word_of_int (sum_list (map uint xs)) = sum_list (xs :: byte list)"
  by (induction xs) (simp_all flip: wi_hom_add)

lemma checksum_sum: "checksum f = sum_list (drop 2 f)"
proof -
  have "word_of_int (n AND 0xFF) = (word_of_int n :: byte)" for n :: int
    by (rule bit_word_eqI) (auto simp: bit_simps numeral_eq_Suc less_Suc_eq)
  then show ?thesis by (simp add: checksum_def sum_list_words)
qed

lemma uint_byte_of: "0 \<le> n \<Longrightarrow> n \<le> 255 \<Longrightarrow> uint (byte_of n) = n"
  by (simp add: byte_of_def uint_word_of_int)

lemma byte_of_uint [simp]: "byte_of (uint b) = b"
  by (simp add: byte_of_def)

lemma address_sum:
  fixes lo hi :: byte
  shows "uint lo OR push_bit 8 (uint hi) = uint lo + 256 * uint hi"
proof -
  have "uint lo AND push_bit 8 (uint hi) = 0"
    by (intro bit_eqI) (auto simp: bit_simps dest!: bit_imp_le_length)
  then have "uint lo OR push_bit 8 (uint hi) = uint lo + push_bit 8 (uint hi)"
    using plus_and_or [of "uint lo" "push_bit 8 (uint hi)"] by linarith
  then show ?thesis by (simp add: push_bit_eq_mult)
qed

lemma low_byte: "(n :: int) AND 0xFF = n mod 256"
  using take_bit_eq_mask [of 8 n] by (simp add: take_bit_eq_mod mask_eq_exp_minus_1)

lemma byte_below: "uint (b :: byte) < 256"
  using uint_lt2p [of b] by simp

lemma frame_address_sum: "frame_address f = uint (f ! 5) + 256 * uint (f ! 6)"
  by (simp only: frame_address_def address_sum)

lemma frame_address_range: "0 \<le> frame_address f" "frame_address f \<le> 0xFFFF"
  using byte_below [of "f ! 5"] byte_below [of "f ! 6"] by (simp_all add: frame_address_sum)

lemma address_bytes_div: "address_bytes a = [byte_of (a mod 256), byte_of ((a div 256) mod 256)]"
  by (simp add: address_bytes_def low_byte drop_bit_eq_div)

lemma address_bytes_frame [simp]: "address_bytes (frame_address f) = [f ! 5, f ! 6]"
  using byte_below [of "f ! 5"] byte_below [of "f ! 6"]
  by (simp add: address_bytes_div frame_address_sum mod_pos_pos_trivial)

lemma address_join:
  assumes "0 \<le> a" "a \<le> 0xFFFF"
  shows "uint (byte_of (a mod 256)) + 256 * uint (byte_of ((a div 256) mod 256)) = a"
proof -
  have "a div 256 < 256" using assms by auto
  then have "(a div 256) mod 256 = a div 256" using assms by (simp add: mod_pos_pos_trivial)
  then show ?thesis using assms by (simp add: uint_byte_of)
qed

lemma length_address_bytes [simp]: "length (address_bytes a) = 2"
  by (simp add: address_bytes_def)

lemma update_sum:
  "i < length xs \<Longrightarrow> sum_list (xs[i := y]) = sum_list xs - xs ! i + (y :: byte)"
  by (induction xs arbitrary: i) (auto simp: algebra_simps split: nat.splits)

text \<open>A frame of at least eight bytes, taken apart.\<close>

lemma frame_cases:
  assumes "8 \<le> length f"
  obtains a b h n c lo hi d s where "f = a # b # h # n # c # lo # hi # d @ [s]"
proof -
  obtain a b h n c lo hi r where f: "f = a # b # h # n # c # lo # hi # r" "r \<noteq> []"
    using assms by (auto simp: Suc_le_length_iff numeral_eq_Suc)
  then show ?thesis using that [of a b h n c lo hi "butlast r" "last r"] by simp
qed

section \<open>Parsing is the inverse of the reference encoding\<close>

lemma parse_response_Inr:
  "parse_response f hand_id command address n = Inr d \<longleftrightarrow>
     8 \<le> length f \<and> take 2 f = RESPONSE_HEADER \<and> int (length f) = uint (f ! 3) + 5 \<and>
     checksum (butlast f) = last f \<and> uint (f ! 2) = hand_id \<and> f ! 4 = command \<and>
     frame_address f = address \<and> d = butlast (drop 7 f) \<and> int (length d) = n"
  by (auto simp: parse_response_def rh56_error_def Let_def)

lemma parse_response_Inl: "parse_response f h c a n = Inl e \<Longrightarrow> \<exists>m. e = Exn RH56Error m"
  by (auto simp: parse_response_def rh56_error_def Let_def split: if_splits)

lemma response_frame_parses:
  assumes "0 \<le> hand_id" "hand_id \<le> 255" "0 \<le> address" "address \<le> 0xFFFF" "length d \<le> 252"
  shows "parse_response (response_frame hand_id command address d) hand_id command address (int (length d)) = Inr d"
  using assms address_join [of address]
  by (simp add: parse_response_Inr response_frame_def Let_def RESPONSE_HEADER_def address_bytes_div
      uint_byte_of frame_address_sum nth_append butlast_append)

lemma parsed_is_response_frame:
  assumes "parse_response f hand_id command address n = Inr d"
  shows "f = response_frame hand_id command address d \<and> int (length d) = n \<and> length d \<le> 252"
proof -
  have 8: "8 \<le> length f" using assms by (simp add: parse_response_Inr)
  obtain a b h m c lo hi e s where f: "f = a # b # h # m # c # lo # hi # e @ [s]"
    using frame_cases [OF 8] .
  have p: "a = 0x90" "b = 0xEB" "uint h = hand_id" "c = command" "d = e" "int (length e) = n"
      "frame_address f = address"
    and len: "int (length e) + 3 = uint m"
    and sum: "checksum (butlast f) = last f"
    using assms by (auto simp: parse_response_Inr f RESPONSE_HEADER_def)
  have "address_bytes address = [f ! 5, f ! 6]"
    using address_bytes_frame [of f] p(7) by simp
  then have "address_bytes address = [lo, hi]" by (simp add: f)
  moreover have "byte_of hand_id = h" "byte_of (int (length e) + 3) = m"
    using len by (simp_all flip: p(3))
  moreover have "s = checksum (a # b # h # m # c # lo # hi # e)"
    using sum by (simp add: f butlast_append)
  ultimately have "f = response_frame hand_id command address d"
    by (simp add: response_frame_def Let_def RESPONSE_HEADER_def f p(1,2,4,5))
  then show ?thesis using p len byte_below [of m] by simp
qed

text \<open>The response parser is exactly the inverse of the wire encoding: it accepts a byte
  string for a hand, command, address and length when and only when it is the reply frame
  encoding some data of that length, and then returns that data.\<close>

theorem parse_response_exact:
  assumes "0 \<le> hand_id" "hand_id \<le> 255" "0 \<le> address" "address \<le> 0xFFFF"
  shows "parse_response f hand_id command address n = Inr d \<longleftrightarrow>
    f = response_frame hand_id command address d \<and> int (length d) = n \<and> length d \<le> 252"
  using parsed_is_response_frame [of f hand_id command address n d] response_frame_parses [OF assms]
  by auto

theorem parse_response_exact_witness:
  "parse_response [0x90, 0xEB, 1, 4, 0x12, 0xCE, 5, 1, 0xEB] 1 WRITE_COMMAND 1486 1 = Inr [1]"
  by (subst parse_response_exact; code_simp)

text \<open>C23. Every corruption of a single byte of an accepted reply is detected: the altered frame
  is rejected for the same request.\<close>

theorem single_byte_corruption_rejected:
  assumes "parse_response f hand_id command address n = Inr d" and "i < length f" and "b \<noteq> f ! i"
  shows "\<exists>m. parse_response (f[i := b]) hand_id command address n = Inl (Exn RH56Error m)"
proof -
  have "parse_response (f[i := b]) hand_id command address n \<noteq> Inr d'" for d'
  proof
    assume "parse_response (f[i := b]) hand_id command address n = Inr d'"
    then have q: "take 2 (f[i := b]) = RESPONSE_HEADER" "checksum (butlast (f[i := b])) = last (f[i := b])"
      by (simp_all add: parse_response_Inr)
    have p: "8 \<le> length f" "take 2 f = RESPONSE_HEADER" "checksum (butlast f) = last f"
      using assms(1) by (simp_all add: parse_response_Inr)
    consider "i < 2" | "2 \<le> i" "i < length f - 1" | "i = length f - 1"
      using assms(2) by linarith
    then show False
    proof cases
      case 1
      then have "take 2 (f[i := b]) ! i = b" using assms(2) by simp
      moreover have "take 2 f ! i = f ! i" using 1 by simp
      ultimately show False using p(2) q(1) assms(3) by simp
    next
      case 2
      then have "drop 2 (butlast (f[i := b])) = (drop 2 (butlast f))[i - 2 := b]"
        by (simp add: butlast_list_update drop_update_swap)
      moreover have "Suc (Suc (i - 2)) = i" using 2 by simp
      ultimately have "checksum (butlast (f[i := b])) = checksum (butlast f) - f ! i + b"
        using 2 by (simp add: checksum_sum update_sum nth_butlast)
      moreover have "last (f[i := b]) = last f"
        using 2 by (cases "f = []") (auto simp: last_list_update)
      ultimately show False using p(3) q(2) assms(3) by (simp add: algebra_simps)
    next
      case 3
      have "f \<noteq> []" using p(1) by auto
      with 3 have "butlast (f[i := b]) = butlast f" "last (f[i := b]) = b" "last f = f ! i"
        by (simp_all add: butlast_list_update last_list_update last_conv_nth)
      then show False using p(3) q(2) assms(3) by simp
    qed
  qed
  then show ?thesis
    using parse_response_Inl by (cases "parse_response (f[i := b]) hand_id command address n") blast+
qed

theorem single_byte_corruption_rejected_witness:
  "\<exists>m. parse_response [0x90, 0xEB, 1, 4, 0x12, 0xCE, 5, 1, 0xEC] 1 WRITE_COMMAND 1486 1 = Inl (Exn RH56Error m)"
proof -
  have "parse_response [0x90, 0xEB, 1, 4, 0x12, 0xCE, 5, 1, 0xEB] 1 WRITE_COMMAND 1486 1 = Inr [1]"
    by code_simp
  from single_byte_corruption_rejected [OF this, of 8 "0xEC"] show ?thesis by simp
qed

section \<open>Requests and write acknowledgements\<close>

lemma request_identity_Some:
  "request_identity f = Some (h, c, a) \<longleftrightarrow>
     8 \<le> length f \<and> take 2 f = REQUEST_HEADER \<and> int (length f) = uint (f ! 3) + 5 \<and>
     checksum (butlast f) = last f \<and> uint (f ! 2) = h \<and> 1 \<le> h \<and> h \<le> 254 \<and> f ! 4 = c \<and>
     (c = READ_COMMAND \<and> f ! 3 = 4 \<or> c = WRITE_COMMAND \<and> 4 \<le> uint (f ! 3)) \<and> frame_address f = a"
  by (auto simp: request_identity_def Let_def READ_COMMAND_def WRITE_COMMAND_def)

lemma validate_common_Inr:
  "validate_common h a = Inr u \<longleftrightarrow> 1 \<le> h \<and> h \<le> 254 \<and> 0 \<le> a \<and> a \<le> 0xFFFF"
  by (auto simp: validate_common_def)

lemma read_frame_identity:
  assumes "build_read_frame h a n = Inr f"
  shows "request_identity f = Some (h, READ_COMMAND, a) \<and> length f = 9 \<and> uint (f ! 7) = n"
  using assms address_join [of a]
  by (auto simp: build_read_frame_def res_bind_Inr_iff validate_common_Inr Let_def request_identity_Some
      REQUEST_HEADER_def READ_COMMAND_def address_bytes_div uint_byte_of frame_address_sum
      split: if_splits)

lemma write_frame_identity:
  assumes "build_write_frame h a d = Inr f"
  shows "request_identity f = Some (h, WRITE_COMMAND, a) \<and> butlast (drop 7 f) = d"
  using assms address_join [of a]
  by (auto simp: build_write_frame_def res_bind_Inr_iff validate_common_Inr Let_def request_identity_Some
      REQUEST_HEADER_def WRITE_COMMAND_def READ_COMMAND_def address_bytes_div uint_byte_of frame_address_sum
      nth_append butlast_append split: if_splits)

lemma read_frame_accepts: "(\<exists>f. build_read_frame h a n = Inr f) \<longleftrightarrow>
    1 \<le> h \<and> h \<le> 254 \<and> 0 \<le> a \<and> a \<le> 0xFFFF \<and> 1 \<le> n \<and> n \<le> 255"
  by (auto simp: build_read_frame_def res_bind_Inr_iff validate_common_Inr Let_def)

lemma write_frame_accepts: "(\<exists>f. build_write_frame h a d = Inr f) \<longleftrightarrow>
    1 \<le> h \<and> h \<le> 254 \<and> 0 \<le> a \<and> a \<le> 0xFFFF \<and> 1 \<le> length d \<and> length d \<le> 252"
  by (auto simp: build_write_frame_def res_bind_Inr_iff validate_common_Inr Let_def)

text \<open>C24. A request frame names its transaction: a read request that was built decodes to its
  hand, the read command and its register, with the byte count at index 7; a write request
  decodes to its hand, the write command and its register, and carries its data between
  the address and the checksum.\<close>

theorem request_roundtrip:
  assumes "build_read_frame h a n = Inr f" and "build_write_frame h' a' d = Inr g"
  shows "request_identity f = Some (h, READ_COMMAND, a) \<and> length f = 9 \<and> uint (f ! 7) = n \<and>
    request_identity g = Some (h', WRITE_COMMAND, a') \<and> butlast (drop 7 g) = d"
  using read_frame_identity [OF assms(1)] write_frame_identity [OF assms(2)] by simp

theorem request_roundtrip_witness:
  "request_identity [0xEB, 0x90, 1, 4, 0x12, 0xCE, 5, 1, 0xEB] = Some (1, WRITE_COMMAND, 1486)"
proof -
  have "build_read_frame 1 1486 12 = Inr [0xEB, 0x90, 1, 4, 0x11, 0xCE, 5, 12, 0xF5]"
    and "build_write_frame 1 1486 [1] = Inr [0xEB, 0x90, 1, 4, 0x12, 0xCE, 5, 1, 0xEB]"
    by code_simp+
  from request_roundtrip [OF this] show ?thesis by simp
qed

text \<open>A write acknowledgement is the reply to a write with the single data byte 1.\<close>

lemma write_ack_Some:
  "exact_write_ack_identity f = Some (h, a) \<longleftrightarrow>
     parse_response f h WRITE_COMMAND a 1 = Inr [1] \<and> 1 \<le> h \<and> h \<le> 254"
proof -
  have data: "[1] = butlast (drop 7 f) \<longleftrightarrow> length f = 9 \<and> f ! 7 = 1"
  proof
    assume d: "[1] = butlast (drop 7 f)"
    have "length f - 8 = 1" using arg_cong [OF d, of length] by simp
    then have "length f = 9" by simp
    with d show "length f = 9 \<and> f ! 7 = 1"
      by (auto simp: numeral_eq_Suc length_Suc_conv)
  next
    show "length f = 9 \<and> f ! 7 = 1 \<Longrightarrow> [1] = butlast (drop 7 f)"
      by (auto simp: numeral_eq_Suc length_Suc_conv)
  qed
  have len: "(9 :: int) = uint w + 5 \<longleftrightarrow> w = 4" for w :: byte
    by (auto simp: word_uint_eq_iff)
  show ?thesis
    unfolding exact_write_ack_identity_def parse_response_Inr data
    by (cases "length f = 9") (simp_all add: len conj_ac, blast)
qed

lemma parsed_write_ack:
  assumes "parse_response f h WRITE_COMMAND a 1 = Inr [1]" and "1 \<le> h" "h \<le> 254"
  shows "exact_write_ack_identity f = Some (h, a)"
  using assms by (simp add: write_ack_Some)

lemma ack_is_no_read_response:
  "exact_write_ack_identity f = Some k \<Longrightarrow> \<not> is_exact_read_response f h a n"
  by (cases k) (auto simp: write_ack_Some is_exact_read_response_def parse_response_Inr READ_COMMAND_def
      WRITE_COMMAND_def split: sum.splits)

end
