(* ===== verification/Linux_Serial.thy ===== *)
theory Linux_Serial
  imports RH56_Frames
begin

text \<open>
  \<open>LinuxSerial\<close> of \<open>examples/inspire_rh56_test.py\<close>: one request and its reply over a serial
  line that may still deliver acknowledgements of earlier writes. The kernel is a
  parameter: \<open>os_calls\<close> has one function per call the code makes on a state \<open>'w\<close> of its
  own, each may raise (a call that raises \<open>BlockingIOError\<close> returns \<open>None\<close>). The serial
  object is \<open>serial_port\<close>, the locals of one \<open>exchange\<close> are the record \<open>exchange_run\<close>. The
  debug output is left out.
\<close>

section \<open>State\<close>

record 'w os_calls =
  os_now :: "('w, fl) op"
  os_open :: "('w, unit) op"
  os_configure :: "('w, unit) op"
  os_close :: "('w, unit) op"
  os_flush_input :: "('w, unit) op"
  os_write :: "byte list \<Rightarrow> ('w, int option) op"
  os_wait_writable :: "fl \<Rightarrow> ('w, bool) op"
  os_wait_readable :: "fl \<Rightarrow> ('w, bool) op"
  os_read :: "('w, byte list option) op"

record 'w serial_port =
  ser_open :: bool
  ser_timeout :: fl
  late_write_acks :: "int \<times> int \<rightharpoonup> int"
  frames_taken :: "byte list list"
  kernel :: 'w

definition new_serial :: "fl \<Rightarrow> 'w \<Rightarrow> 'w serial_port" where
  "new_serial timeout w =
     \<lparr>ser_open = False, ser_timeout = timeout, late_write_acks = Map.empty, frames_taken = [], kernel = w\<rparr>"

text \<open>
  \<open>frames_taken\<close> is a history that no operation reads: every complete frame that was taken off the
  input buffer, in order, whether it was returned or skipped as a late acknowledgement.
\<close>

text \<open>\<open>self._pending_late_write_acks.get(key, 0)\<close>\<close>

definition ack_debt :: "(int \<times> int \<rightharpoonup> int) \<Rightarrow> int \<times> int \<Rightarrow> int" where
  "ack_debt late k = (case late k of None \<Rightarrow> 0 | Some n \<Rightarrow> n)"

record 'w exchange_run =
  run_port :: "'w serial_port"
  rx_buffer :: "byte list"
  late_write_acks_skipped :: int
  write_may_have_been_sent :: bool
  write_debt_recorded :: bool

text \<open>The request and what \<open>exchange\<close> derives from it.\<close>

definition write_key :: "byte list \<Rightarrow> (int \<times> int) option" where
  "write_key request =
     (case request_identity request of
        None \<Rightarrow> None
      | Some (h, c, a) \<Rightarrow> if c = WRITE_COMMAND then Some (h, a) else None)"

section \<open>The inner functions of exchange\<close>

definition remember_unproven_write :: "byte list \<Rightarrow> 'w exchange_run \<Rightarrow> 'w exchange_run" where
  "remember_unproven_write request x =
     (case write_key request of
        None \<Rightarrow> x
      | Some k \<Rightarrow>
          if write_may_have_been_sent x \<and> \<not> write_debt_recorded x
          then x\<lparr>run_port := (run_port x)\<lparr>late_write_acks :=
                   (late_write_acks (run_port x))(k \<mapsto> ack_debt (late_write_acks (run_port x)) k + 1)\<rparr>,
                 write_debt_recorded := True\<rparr>
          else x)"

text \<open>The buffer from the first response header on, if there is one.\<close>

fun from_header :: "byte list \<Rightarrow> byte list option" where
  "from_header (a # b # r) = (if [a, b] = RESPONSE_HEADER then Some (a # b # r) else from_header (b # r))"
| "from_header b = None"

text \<open>Discharging one debt, and dropping every debt of a hand.\<close>

definition discharge :: "int \<times> int \<Rightarrow> (int \<times> int \<rightharpoonup> int) \<Rightarrow> int \<times> int \<rightharpoonup> int" where
  "discharge k late =
     (let remaining = ack_debt late k - 1
      in if remaining \<noteq> 0 then late(k \<mapsto> remaining) else late(k := None))"

definition drop_hand :: "int \<Rightarrow> (int \<times> int \<rightharpoonup> int) \<Rightarrow> int \<times> int \<rightharpoonup> int" where
  "drop_hand h late = (\<lambda>k. if fst k = h then None else late k)"

definition answers_read :: "byte list \<Rightarrow> byte list \<Rightarrow> bool" where
  "answers_read request response =
     (case request_identity request of
        None \<Rightarrow> False
      | Some (h, c, a) \<Rightarrow>
          c = READ_COMMAND \<and> 9 \<le> length request
          \<and> is_exact_read_response response h a (uint (request ! 7)))"

lemma from_header_length: "from_header b = Some b' \<Longrightarrow> length b' \<le> length b"
  by (induction b rule: from_header.induct) (fastforce split: if_splits)+

function pop_buffered_response ::
    "byte list \<Rightarrow> 'w exchange_run \<Rightarrow> byte list option \<times> 'w exchange_run" where
  "pop_buffered_response request x =
     (case from_header (rx_buffer x) of
        None \<Rightarrow> (None, x)
      | Some b \<Rightarrow>
          if length b < 4 then (None, x\<lparr>rx_buffer := b\<rparr>)
          else
            let total_length = unat (b ! 3) + 5
            in if length b < total_length then (None, x\<lparr>rx_buffer := b\<rparr>)
               else
                 let response = take total_length b;
                     x1 = x\<lparr>rx_buffer := drop total_length b,
                            run_port := (run_port x)\<lparr>frames_taken := frames_taken (run_port x) @ [response]\<rparr>\<rparr>;
                     late = late_write_acks (run_port x);
                     ack_key = exact_write_ack_identity response
                 in if (case ack_key of None \<Rightarrow> False | Some k \<Rightarrow> 0 < ack_debt late k)
                    then pop_buffered_response request
                           (x1\<lparr>run_port := (run_port x1)\<lparr>late_write_acks := discharge (the ack_key) late\<rparr>,
                               late_write_acks_skipped := late_write_acks_skipped x + 1\<rparr>)
                    else if answers_read request response
                    then (Some response,
                          x1\<lparr>run_port := (run_port x1)\<lparr>late_write_acks :=
                               drop_hand (fst (the (request_identity request))) late\<rparr>\<rparr>)
                    else if write_key request \<noteq> None \<and> ack_key \<noteq> write_key request
                    then (Some response, remember_unproven_write request x1)
                    else (Some response, x1))"
  by pat_completeness auto
termination
  by (relation "measure (\<lambda>(request, x). length (rx_buffer x))")
    (auto dest!: from_header_length)

declare pop_buffered_response.simps [simp del]

section \<open>exchange\<close>

definition os_call :: "('w, 'a) op \<Rightarrow> ('w exchange_run, 'a) prog" where
  "os_call f = call_part (\<lambda>x. kernel (run_port x))
                 (\<lambda>w x. x\<lparr>run_port := (run_port x)\<lparr>kernel := w\<rparr>\<rparr>) f"

definition pop_response :: "byte list \<Rightarrow> ('w exchange_run, byte list option) prog" where
  "pop_response request x = (case pop_buffered_response request x of (r, x') \<Rightarrow> Some (Inr r, x'))"

definition fail_rh56 :: "string \<Rightarrow> ('s, 'a) prog" where
  "fail_rh56 m = throw (Exn RH56Error m)"

text \<open>\<open>while view: ...\<close>\<close>

definition send_step ::
    "'w os_calls \<Rightarrow> byte list \<Rightarrow> fl \<Rightarrow> byte list \<Rightarrow> ('w exchange_run, byte list + unit) prog" where
  "send_step os request deadline view =
     (if view = [] then ret (Inr ())
      else
        bindP (os_call (os_now os)) (\<lambda>now.
        let remaining = deadline - now in
        thenP (raise_if (remaining \<le> 0) (Exn RH56Error ''timeout while writing request to the hand''))
       (thenP (modify (\<lambda>x. if write_key request \<noteq> None then x\<lparr>write_may_have_been_sent := True\<rparr> else x))
       (bindP (os_call (os_write os view)) (\<lambda>written.
        case written of
          None \<Rightarrow>
            bindP (os_call (os_wait_writable os remaining)) (\<lambda>writable.
            if \<not> writable then fail_rh56 ''timeout while waiting for serial write readiness''
            else ret (Inl view))
        | Some n \<Rightarrow>
            if n \<le> 0 then fail_rh56 ''serial write made no progress''
            else ret (Inl (drop (nat n) view)))))))"

definition send_request ::
    "'w os_calls \<Rightarrow> byte list \<Rightarrow> fl \<Rightarrow> ('w exchange_run, unit) prog" where
  "send_request os request deadline = loopP (send_step os request deadline) request"

text \<open>\<open>while time.monotonic() < deadline: ...\<close>; \<open>None\<close> is leaving the loop without a reply.\<close>

definition await_step ::
    "'w os_calls \<Rightarrow> byte list \<Rightarrow> fl \<Rightarrow> unit \<Rightarrow> ('w exchange_run, unit + byte list option) prog" where
  "await_step os request deadline _ =
     bindP (os_call (os_now os)) (\<lambda>now.
      if \<not> now < deadline then ret (Inr None)
      else
        bindP (pop_response request) (\<lambda>response.
        case response of
          Some r \<Rightarrow> ret (Inr (Some r))
        | None \<Rightarrow>
            bindP (os_call (os_now os)) (\<lambda>now2.
            bindP (os_call (os_wait_readable os (fl_max 0 (deadline - now2)))) (\<lambda>readable.
            if \<not> readable then ret (Inr None)
            else
              bindP (os_call (os_read os)) (\<lambda>chunk.
              case chunk of
                None \<Rightarrow> ret (Inl ())
              | Some bytes \<Rightarrow>
                  if bytes = [] then ret (Inl ())
                  else
                    thenP (modify (\<lambda>x. x\<lparr>rx_buffer := rx_buffer x @ bytes\<rparr>))
                   (bindP (pop_response request) (\<lambda>response2.
                    case response2 of
                      Some r \<Rightarrow> ret (Inr (Some r))
                    | None \<Rightarrow> ret (Inl ()))))))))"

definition await_response ::
    "'w os_calls \<Rightarrow> byte list \<Rightarrow> fl \<Rightarrow> ('w exchange_run, byte list option) prog" where
  "await_response os request deadline = loopP (await_step os request deadline) ()"

definition timeout_message :: "'w exchange_run \<Rightarrow> string" where
  "timeout_message x =
     (let n = late_write_acks_skipped x in
      ''timeout waiting for hand response; received ''
      @ (if rx_buffer x = [] then ''<nothing>'' else hex_bytes (rx_buffer x))
      @ (if n = 0 then []
         else ''; validated '' @ (if n = 1 then ''one'' else int_str n) @ '' late write ACK''
              @ (if n \<noteq> 1 then ''s'' else []) @ '' while awaiting current response''))"

definition exchange_body ::
    "'w os_calls \<Rightarrow> byte list \<Rightarrow> fl \<Rightarrow> ('w exchange_run, byte list) prog" where
  "exchange_body os request deadline =
     bindP (catchP (thenP (send_request os request deadline) (await_response os request deadline))
             (\<lambda>e. thenP (modify (remember_unproven_write request)) (throw e))) (\<lambda>response.
     case response of
       Some r \<Rightarrow> ret r
     | None \<Rightarrow>
         bindP (pop_response request) (\<lambda>last_response.
         case last_response of
           Some r \<Rightarrow> ret r
         | None \<Rightarrow>
             thenP (modify (remember_unproven_write request))
            (bindP (gets timeout_message) fail_rh56)))"

definition new_run :: "'w serial_port \<Rightarrow> 'w exchange_run" where
  "new_run s = \<lparr>run_port = s, rx_buffer = [], late_write_acks_skipped = 0,
     write_may_have_been_sent = False, write_debt_recorded = False\<rparr>"

text \<open>A call on the serial object outside the \<open>try\<close>.\<close>

definition port_call :: "('w, 'a) op \<Rightarrow> ('w serial_port, 'a) prog" where
  "port_call f = call_part kernel (\<lambda>w s. s\<lparr>kernel := w\<rparr>) f"

definition discard_input :: "'w os_calls \<Rightarrow> ('w serial_port, unit) prog" where
  "discard_input os =
     bindP (gets ser_open) (\<lambda>is_open.
       if \<not> is_open then fail_rh56 ''serial port is not open'' else port_call (os_flush_input os))"

definition exchange :: "'w os_calls \<Rightarrow> byte list \<Rightarrow> ('w serial_port, byte list) prog" where
  "exchange os request =
     bindP (gets ser_open) (\<lambda>is_open.
     if \<not> is_open then fail_rh56 ''serial port is not open''
     else
       thenP (discard_input os)
      (bindP (port_call (os_now os)) (\<lambda>now.
       bindP (gets ser_timeout) (\<lambda>timeout.
         with_locals new_run run_port (exchange_body os request (now + timeout))))))"

section \<open>Opening and closing\<close>

text \<open>
  \<open>__enter__\<close>: a failure to open is reported as \<open>RH56Error\<close>, a failure to configure closes the
  descriptor again; \<open>OSError\<close> is \<open>OtherException ''OSError''\<close>, raised by the parameter.
\<close>

definition serial_enter :: "'w os_calls \<Rightarrow> ('w serial_port, unit) prog" where
  "serial_enter os =
     thenP (catchP (port_call (os_open os)) (\<lambda>e.
              if exn_class e = OtherException ''OSError''
              then fail_rh56 (''cannot open '' @ exn_msg e) else throw e))
    (thenP (modify (\<lambda>s. s\<lparr>ser_open := True\<rparr>))
     (catchP (port_call (os_configure os)) (\<lambda>e.
        if is_exit e then throw e
        else thenP (port_call (os_close os)) (thenP (modify (\<lambda>s. s\<lparr>ser_open := False\<rparr>)) (throw e)))))"

definition serial_exit :: "'w os_calls \<Rightarrow> ('w serial_port, unit) prog" where
  "serial_exit os =
     thenP (bindP (gets ser_open) (\<lambda>is_open.
              if is_open then thenP (port_call (os_close os)) (modify (\<lambda>s. s\<lparr>ser_open := False\<rparr>))
              else ret ()))
       (modify (\<lambda>s. s\<lparr>late_write_acks := Map.empty\<rparr>))"

section \<open>Debts\<close>

text \<open>Every recorded debt is positive.\<close>

definition debts_ok :: "(int \<times> int \<rightharpoonup> int) \<Rightarrow> bool" where
  "debts_ok late = (\<forall>k n. late k = Some n \<longrightarrow> 0 < n)"

abbreviation run_late :: "'w exchange_run \<Rightarrow> int \<times> int \<rightharpoonup> int" where
  "run_late x \<equiv> late_write_acks (run_port x)"

lemma debts_ok_nonneg: "debts_ok late \<Longrightarrow> 0 \<le> ack_debt late k"
  by (auto simp: debts_ok_def ack_debt_def less_imp_le simp del: split_paired_All split: option.split)

lemma debts_ok_none: "debts_ok late \<Longrightarrow> \<not> 0 < ack_debt late k \<Longrightarrow> late k = None"
  by (auto simp: debts_ok_def ack_debt_def simp del: split_paired_All split: option.splits)

lemma debts_ok_discharge: "debts_ok late \<Longrightarrow> 0 < ack_debt late k \<Longrightarrow> debts_ok (discharge k late)"
  by (auto simp: debts_ok_def discharge_def Let_def)

lemma debts_ok_drop_hand: "debts_ok late \<Longrightarrow> debts_ok (drop_hand h late)"
  by (auto simp: debts_ok_def drop_hand_def split: if_splits)

lemma debts_ok_add: "debts_ok late \<Longrightarrow> debts_ok (late(k \<mapsto> ack_debt late k + 1))"
  using debts_ok_nonneg [of late k] by (auto simp: debts_ok_def)

text \<open>What is known of the debts once a reply ends an exchange, and once an exchange failed.\<close>

definition answered :: "byte list \<Rightarrow> byte list \<Rightarrow> (int \<times> int \<rightharpoonup> int) \<Rightarrow> bool" where
  "answered request response late =
     (debts_ok late \<and>
      (\<forall>k. exact_write_ack_identity response = Some k \<longrightarrow> late k = None) \<and>
      (\<forall>k. write_key request = Some k \<and> exact_write_ack_identity response \<noteq> Some k \<longrightarrow>
         0 < ack_debt late k))"

definition unanswered :: "byte list \<Rightarrow> bool \<Rightarrow> (int \<times> int \<rightharpoonup> int) \<Rightarrow> bool" where
  "unanswered request sent late =
     (debts_ok late \<and> (\<forall>k. write_key request = Some k \<and> sent \<longrightarrow> 0 < ack_debt late k))"

abbreviation settled :: "byte list \<Rightarrow> byte list \<Rightarrow> 'w exchange_run \<Rightarrow> bool" where
  "settled request response x \<equiv> answered request response (run_late x)"

text \<open>While no reply has been taken no debt of this request is recorded.\<close>

definition unsettled :: "byte list \<Rightarrow> 'w exchange_run \<Rightarrow> bool" where
  "unsettled request x =
     (debts_ok (run_late x) \<and> \<not> write_debt_recorded x \<and>
      (write_key request \<noteq> None \<longrightarrow> write_may_have_been_sent x))"

lemma answers_read_no_ack:
  assumes "answers_read request r"
  shows "exact_write_ack_identity r = None" "write_key request = None"
proof -
  obtain h c a where i: "request_identity request = Some (h, c, a)" and c: "c = READ_COMMAND"
    and r: "is_exact_read_response r h a (uint (request ! 7))"
    using assms by (auto simp: answers_read_def split: option.splits)
  show "exact_write_ack_identity r = None"
    using ack_is_no_read_response r by (cases "exact_write_ack_identity r") auto
  show "write_key request = None"
    by (simp add: write_key_def i c READ_COMMAND_def WRITE_COMMAND_def)
qed

lemma remember_settles:
  assumes "unsettled request x" and "write_key request \<noteq> None"
    and "exact_write_ack_identity r \<noteq> write_key request"
    and "\<And>k. exact_write_ack_identity r = Some k \<Longrightarrow> \<not> 0 < ack_debt (run_late x) k"
  shows "settled request r (remember_unproven_write request x)"
  using assms debts_ok_none [of "run_late x"] debts_ok_add [of "run_late x"] debts_ok_nonneg [of "run_late x"]
  by (auto simp: answered_def unsettled_def remember_unproven_write_def ack_debt_def [of "_(_ \<mapsto> _)"]
      simp del: split_paired_All split_paired_Ex)

text \<open>Taking a frame off the buffer.\<close>

definition take_frame :: "byte list \<Rightarrow> byte list \<Rightarrow> 'w exchange_run \<Rightarrow> 'w exchange_run" where
  "take_frame f rest x =
     x\<lparr>rx_buffer := rest, run_port := (run_port x)\<lparr>frames_taken := frames_taken (run_port x) @ [f]\<rparr>\<rparr>"

lemma take_frame_simps [simp]:
  "rx_buffer (take_frame f rest x) = rest" "run_late (take_frame f rest x) = run_late x"
  "frames_taken (run_port (take_frame f rest x)) = frames_taken (run_port x) @ [f]"
  "kernel (run_port (take_frame f rest x)) = kernel (run_port x)"
  "late_write_acks_skipped (take_frame f rest x) = late_write_acks_skipped x"
  "write_may_have_been_sent (take_frame f rest x) = write_may_have_been_sent x"
  "write_debt_recorded (take_frame f rest x) = write_debt_recorded x"
  by (simp_all add: take_frame_def)

text \<open>The run after a late acknowledgement of \<open>k\<close> was skipped.\<close>

definition skip_late :: "int \<times> int \<Rightarrow> byte list \<Rightarrow> byte list \<Rightarrow> 'w exchange_run \<Rightarrow> 'w exchange_run" where
  "skip_late k f rest x =
     (take_frame f rest x)\<lparr>run_port := (run_port (take_frame f rest x))\<lparr>late_write_acks := discharge k (run_late x)\<rparr>,
        late_write_acks_skipped := late_write_acks_skipped x + 1\<rparr>"

lemma skip_late_simps [simp]:
  "rx_buffer (skip_late k f rest x) = rest" "run_late (skip_late k f rest x) = discharge k (run_late x)"
  "frames_taken (run_port (skip_late k f rest x)) = frames_taken (run_port x) @ [f]"
  "kernel (run_port (skip_late k f rest x)) = kernel (run_port x)"
  "late_write_acks_skipped (skip_late k f rest x) = late_write_acks_skipped x + 1"
  "write_may_have_been_sent (skip_late k f rest x) = write_may_have_been_sent x"
  "write_debt_recorded (skip_late k f rest x) = write_debt_recorded x"
  by (simp_all add: skip_late_def)

lemma unsettled_buffer [simp]: "unsettled request (take_frame f rest x) = unsettled request x"
  "unsettled request (x\<lparr>rx_buffer := b\<rparr>) = unsettled request x"
  by (simp_all add: unsettled_def)

text \<open>One turn of \<open>pop_buffered_response\<close>, by what is at the front of the buffer.\<close>

text \<open>\<open>front x f rest\<close>: the first complete frame of the buffer is \<open>f\<close>, followed by \<open>rest\<close>.\<close>

definition front :: "'w exchange_run \<Rightarrow> byte list \<Rightarrow> byte list \<Rightarrow> bool" where
  "front x f rest =
     (\<exists>b. from_header (rx_buffer x) = Some b \<and> 4 \<le> length b \<and> unat (b ! 3) + 5 \<le> length b \<and>
        f = take (unat (b ! 3) + 5) b \<and> rest = drop (unat (b ! 3) + 5) b)"

definition incomplete :: "'w exchange_run \<Rightarrow> 'w exchange_run \<Rightarrow> bool" where
  "incomplete x x' =
     (case from_header (rx_buffer x) of
        None \<Rightarrow> x' = x
      | Some b \<Rightarrow> (length b < 4 \<or> length b < unat (b ! 3) + 5) \<and> x' = x\<lparr>rx_buffer := b\<rparr>)"

lemma front_or_incomplete:
  obtains (front) f rest where "front x f rest" | (incomplete) x' where "incomplete x x'"
  by (cases "from_header (rx_buffer x)") (fastforce simp: front_def incomplete_def not_less)+

lemma front_shorter: "front x f rest \<Longrightarrow> length rest < length (rx_buffer x)"
  by (auto simp: front_def dest!: from_header_length)

lemma pop_incomplete: "incomplete x x' \<Longrightarrow> pop_buffered_response request x = (None, x')"
  by (subst pop_buffered_response.simps) (auto simp: incomplete_def Let_def split: option.splits)

lemma pop_late:
  assumes "front x f rest" "exact_write_ack_identity f = Some k" "0 < ack_debt (run_late x) k"
  shows "pop_buffered_response request x =
    pop_buffered_response request (skip_late k f rest x)"
proof -
  obtain b where b: "from_header (rx_buffer x) = Some b" "\<not> length b < 4" "\<not> length b < unat (b ! 3) + 5"
    and f: "f = take (unat (b ! 3) + 5) b" "rest = drop (unat (b ! 3) + 5) b"
    using assms(1) by (auto simp: front_def not_less)
  show ?thesis
    using assms(2,3) unfolding f
    by (subst pop_buffered_response.simps)
      (simp add: b Let_def skip_late_def take_frame_def del: split_paired_All split_paired_Ex)
qed

lemma pop_current:
  assumes "front x f rest" "\<And>k. exact_write_ack_identity f = Some k \<Longrightarrow> \<not> 0 < ack_debt (run_late x) k"
  shows "pop_buffered_response request x =
    (Some f,
     let x1 = take_frame f rest x
     in if answers_read request f
        then x1\<lparr>run_port := (run_port x1)\<lparr>late_write_acks :=
               drop_hand (fst (the (request_identity request))) (run_late x)\<rparr>\<rparr>
        else if write_key request \<noteq> None \<and> exact_write_ack_identity f \<noteq> write_key request
        then remember_unproven_write request x1
        else x1)"
proof -
  obtain b where b: "from_header (rx_buffer x) = Some b" "\<not> length b < 4" "\<not> length b < unat (b ! 3) + 5"
    and f: "f = take (unat (b ! 3) + 5) b" "rest = drop (unat (b ! 3) + 5) b"
    using assms(1) by (auto simp: front_def not_less)
  have "(case exact_write_ack_identity f of None \<Rightarrow> False | Some k \<Rightarrow> 0 < ack_debt (run_late x) k) \<longleftrightarrow> False"
    using assms(2) by (auto split: option.split)
  note no = this [unfolded f]
  show ?thesis
    unfolding f
    by (subst pop_buffered_response.simps) (simp add: b no Let_def take_frame_def del: split_paired_All split_paired_Ex)
qed

text \<open>Induction along the frames taken off the buffer.\<close>

lemma pop_induct [consumes 1, case_names incomplete late current]:
  assumes "pop_buffered_response request x = r"
    and "\<And>x x'. incomplete x x' \<Longrightarrow> P x (None, x')"
    and "\<And>x f rest k. front x f rest \<Longrightarrow> exact_write_ack_identity f = Some k \<Longrightarrow>
      0 < ack_debt (run_late x) k \<Longrightarrow>
      P (skip_late k f rest x) r \<Longrightarrow> P x r"
    and "\<And>x f rest. front x f rest \<Longrightarrow>
      (\<And>k. exact_write_ack_identity f = Some k \<Longrightarrow> \<not> 0 < ack_debt (run_late x) k) \<Longrightarrow>
      pop_buffered_response request x = r \<Longrightarrow> P x r"
  shows "P x r"
  using assms(1)
proof (induction "length (rx_buffer x)" arbitrary: x rule: less_induct)
  case less
  show ?case
  proof (cases x rule: front_or_incomplete)
    case (incomplete x')
    then show ?thesis using assms(2) less.prems pop_incomplete by metis
  next
    case (front f rest)
    show ?thesis
    proof (cases "\<exists>k. exact_write_ack_identity f = Some k \<and> 0 < ack_debt (run_late x) k")
      case True
      then obtain k where k: "exact_write_ack_identity f = Some k" "0 < ack_debt (run_late x) k" by blast
      show ?thesis
        by (rule assms(3) [OF front k less.hyps])
          (use front_shorter [OF front] less.prems pop_late [OF front k] in auto)
    next
      case False
      with assms(4) [OF front _ less.prems] show ?thesis by blast
    qed
  qed
qed

lemma pop_kernel':
  "pop_buffered_response request x = p \<Longrightarrow> kernel (run_port (snd p)) = kernel (run_port x)"
proof (induction x p rule: pop_induct)
  case (incomplete x x')
  then show ?case by (auto simp: incomplete_def split: option.splits)
next
  case (current x f rest)
  with pop_current [OF current(1,2), of request] show ?case
    by (auto simp: Let_def remember_unproven_write_def split: option.splits)
qed simp

lemma pop_kernel: "pop_buffered_response request x = (r, x') \<Longrightarrow> kernel (run_port x') = kernel (run_port x)"
  using pop_kernel' [of request x "(r, x')"] by simp

lemma pop_settles':
  "pop_buffered_response request x = p \<Longrightarrow> unsettled request x \<Longrightarrow>
     (case fst p of None \<Rightarrow> unsettled request (snd p) | Some f \<Rightarrow> settled request f (snd p))"
proof (induction x p rule: pop_induct)
  case (incomplete x x')
  then show ?case by (auto simp: incomplete_def split: option.splits)
next
  case (late x f rest k)
  then show ?case by (simp add: unsettled_def debts_ok_discharge)
next
  case (current x f rest)
  have x1: "unsettled request (take_frame f rest x)" using current.prems by simp
  have none: "run_late x k = None" if "exact_write_ack_identity f = Some k" for k
    using current that by (auto simp: unsettled_def intro: debts_ok_none)
  show ?case
  proof (cases "answers_read request f")
    case True
    with answers_read_no_ack [OF True] pop_current [OF current(1,2), of request] current show ?thesis
      by (auto simp: Let_def answered_def unsettled_def intro: debts_ok_drop_hand)
  next
    case False
    with pop_current [OF current(1,2), of request] current x1 none remember_settles [OF x1, of f]
    show ?thesis
      by (auto simp: Let_def answered_def unsettled_def simp del: split_paired_All split: if_splits)
  qed
qed

lemma pop_settles:
  "pop_buffered_response request x = (r, x') \<Longrightarrow> unsettled request x \<Longrightarrow>
     (case r of None \<Rightarrow> unsettled request x' | Some f \<Rightarrow> settled request f x')"
  using pop_settles' [of request x "(r, x')"] by (cases r) simp_all

section \<open>What an exchange leaves\<close>

lemma wp_os_call [simp]:
  "wp (os_call f) Q E x =
     (case f (kernel (run_port x)) of
        (r, w) \<Rightarrow>
          let x' = x\<lparr>run_port := (run_port x)\<lparr>kernel := w\<rparr>\<rparr>
          in case r of Inl e \<Rightarrow> E e x' | Inr v \<Rightarrow> Q v x')"
  by (simp add: os_call_def Let_def)

lemma wp_port_call [simp]:
  "wp (port_call f) Q E s =
     (case f (kernel s) of
        (r, w) \<Rightarrow> let s' = s\<lparr>kernel := w\<rparr> in case r of Inl e \<Rightarrow> E e s' | Inr v \<Rightarrow> Q v s')"
  by (simp add: port_call_def Let_def)

lemma wp_pop_response:
  "wp (pop_response request) Q E x = (case pop_buffered_response request x of (r, x') \<Rightarrow> Q r x')"
  by (simp add: wp_def pop_response_def split: prod.splits)

lemma wp_fail_rh56 [simp]: "wp (fail_rh56 m) Q E s = E (Exn RH56Error m) s"
  by (simp add: fail_rh56_def)

text \<open>
  \<open>unsent\<close> is any property of the kernel state that no call but \<open>os_write\<close> can end: in
  particular that no byte of this request was offered to the device.
\<close>

definition keeps_unsent :: "'w os_calls \<Rightarrow> ('w \<Rightarrow> bool) \<Rightarrow> bool" where
  "keeps_unsent os unsent =
     (\<forall>w. unsent w \<longrightarrow> unsent (snd (os_now os w)) \<and> unsent (snd (os_flush_input os w)) \<and>
       (\<forall>t. unsent (snd (os_wait_writable os t w)) \<and> unsent (snd (os_wait_readable os t w))) \<and>
       unsent (snd (os_read os w)))"

text \<open>The invariant of the write loop.\<close>

definition sending :: "byte list \<Rightarrow> ('w \<Rightarrow> bool) \<Rightarrow> 'w exchange_run \<Rightarrow> bool" where
  "sending request unsent x =
     (debts_ok (run_late x) \<and> \<not> write_debt_recorded x \<and>
      (write_key request \<noteq> None \<longrightarrow> write_may_have_been_sent x \<or> unsent (kernel (run_port x))))"

lemma sending_call:
  "sending request unsent x \<Longrightarrow>
   (unsent (kernel (run_port x)) \<Longrightarrow> unsent w \<or> write_may_have_been_sent x) \<Longrightarrow>
   sending request unsent (x\<lparr>run_port := (run_port x)\<lparr>kernel := w\<rparr>\<rparr>)"
  by (auto simp: sending_def)

lemma unsettled_call:
  "unsettled request (x\<lparr>run_port := (run_port x)\<lparr>kernel := w\<rparr>\<rparr>) = unsettled request x"
  by (simp add: unsettled_def)

lemma unsettled_sending: "unsettled request x \<Longrightarrow> sending request unsent x"
  by (auto simp: unsettled_def sending_def)

lemma send_request_wp:
  assumes u: "keeps_unsent os unsent" and x: "sending request unsent x" and ne: "request \<noteq> []"
  shows "wp (send_request os request deadline) (\<lambda>_. unsettled request) (\<lambda>_. sending request unsent) x"
proof -
  have step: "wp (send_step os request deadline view)
      (\<lambda>r y. case r of Inl v \<Rightarrow> unsettled request y | Inr _ \<Rightarrow> unsettled request y)
      (\<lambda>_. sending request unsent) y"
    if "sending request unsent y" "view = [] \<Longrightarrow> unsettled request y" for view y
    using that u
    by (auto simp: send_step_def Let_def sending_def unsettled_def keeps_unsent_def
        split: prod.splits sum.splits option.splits)
  show ?thesis
    unfolding send_request_def
    by (rule wp_loopP [where I = "\<lambda>v y. sending request unsent y \<and> (v = [] \<longrightarrow> unsettled request y)"])
      (use x ne in \<open>auto intro!: wp_mono [OF step] intro: unsettled_sending split: sum.splits\<close>)
qed

lemma pop_response_wp:
  assumes "unsettled request x"
  shows "wp (pop_response request)
    (\<lambda>r y. case r of None \<Rightarrow> unsettled request y | Some f \<Rightarrow> settled request f y) E x"
  using assms pop_settles by (auto simp: wp_pop_response split: prod.splits)

lemma await_response_wp:
  assumes "unsettled request x"
  shows "wp (await_response os request deadline)
    (\<lambda>r y. case r of None \<Rightarrow> unsettled request y | Some f \<Rightarrow> settled request f y)
    (\<lambda>_. unsettled request) x"
  unfolding await_response_def
  by (rule wp_loopP [where I = "\<lambda>_. unsettled request"])
    (use assms in \<open>auto simp: await_step_def Let_def unsettled_call
        intro!: wp_mono [OF pop_response_wp] split: prod.splits sum.splits option.splits\<close>)

lemma exchange_body_wp:
  assumes u: "keeps_unsent os unsent" and x: "sending request unsent x" and ne: "request \<noteq> []"
  shows "wp (exchange_body os request deadline) (\<lambda>f y. settled request f y)
    (\<lambda>_ y. unanswered request (\<not> unsent (kernel (run_port y))) (run_late y)) x"
proof -
  have rem: "unanswered request (\<not> unsent (kernel (run_port (remember_unproven_write request y))))
      (run_late (remember_unproven_write request y))" if "sending request unsent y" for y
  proof (cases "write_key request")
    case None
    with that show ?thesis by (simp add: sending_def remember_unproven_write_def unanswered_def)
  next
    case (Some k)
    with that show ?thesis
      using debts_ok_add [of "run_late y" k] debts_ok_nonneg [of "run_late y" k]
      by (auto simp: sending_def remember_unproven_write_def unanswered_def ack_debt_def [of "_(_ \<mapsto> _)"])
  qed
  have await: "wp (await_response os request deadline)
      (\<lambda>r y. case r of None \<Rightarrow> unsettled request y | Some f \<Rightarrow> settled request f y)
      (\<lambda>_. sending request unsent) y" if "unsettled request y" for y
    by (rule wp_mono [OF await_response_wp [OF that]]) (auto intro: unsettled_sending)
  show ?thesis
    unfolding exchange_body_def
    by (auto intro!: wp_mono [OF send_request_wp [OF u x ne]] wp_mono [OF await] rem
        wp_mono [OF pop_response_wp] unsettled_sending split: option.splits)
qed

lemma unanswered_early:
  "debts_ok late \<Longrightarrow> (write_key request \<noteq> None \<longrightarrow> \<not> sent) \<Longrightarrow> unanswered request sent late"
  by (auto simp: unanswered_def)

lemma exchange_wp:
  assumes u: "keeps_unsent os unsent" and s: "debts_ok (late_write_acks s)"
    and k: "write_key request \<noteq> None \<longrightarrow> unsent (kernel s)" and ne: "request \<noteq> []"
  shows "wp (exchange os request) (\<lambda>f t. answered request f (late_write_acks t))
    (\<lambda>_ t. unanswered request (\<not> unsent (kernel t)) (late_write_acks t)) s"
proof -
  have body: "wp (exchange_body os request d) (\<lambda>f x. answered request f (run_late x))
      (\<lambda>_ x. unanswered request (\<not> unsent (kernel (run_port x))) (run_late x)) (new_run t)"
    if "debts_ok (late_write_acks t)" "write_key request \<noteq> None \<longrightarrow> unsent (kernel t)" for d t
    using exchange_body_wp [OF u _ ne, of "new_run t" d] that
    by (auto simp: wp_def sending_def new_run_def split: option.splits prod.splits sum.splits)
  have now: "os_now os w = (r, w') \<Longrightarrow> unsent w \<Longrightarrow> unsent w'"
    and flush: "os_flush_input os w = (q, w') \<Longrightarrow> unsent w \<Longrightarrow> unsent w'" for w r q w'
    using u by (metis keeps_unsent_def snd_conv)+
  show ?thesis
    unfolding exchange_def discard_input_def
    using s k
    by (auto simp: Let_def intro!: body unanswered_early dest: now flush
        simp del: split_paired_All split_paired_Ex split: prod.splits sum.splits)
qed

lemma write_key_nonempty: "write_key request = Some k \<Longrightarrow> request \<noteq> []"
  by (auto simp: write_key_def request_identity_Some split: option.splits prod.splits)

section \<open>Which frames an exchange took\<close>

text \<open>How many of the frames acknowledge a write of \<open>k\<close>.\<close>

definition acks_of :: "int \<times> int \<Rightarrow> byte list list \<Rightarrow> int" where
  "acks_of k fs = int (length (filter (\<lambda>f. exact_write_ack_identity f = Some k) fs))"

lemma acks_of_simps [simp]:
  "acks_of k [] = 0" "acks_of k (a @ b) = acks_of k a + acks_of k b"
  "acks_of k [f] = (if exact_write_ack_identity f = Some k then 1 else 0)"
  by (simp_all add: acks_of_def)

text \<open>
  \<open>skipped late fs x\<close>: since the port had the debts \<open>late\<close> the frames \<open>fs\<close> were taken, each of them an
  acknowledgement that was owed, and each lowered the debt of its own register by one.
\<close>

definition skipped :: "byte list list \<Rightarrow> (int \<times> int \<rightharpoonup> int) \<Rightarrow> byte list list \<Rightarrow> 'w exchange_run \<Rightarrow> bool" where
  "skipped before late fs x =
     (frames_taken (run_port x) = before @ fs \<and> debts_ok (run_late x) \<and>
      (\<forall>f \<in> set fs. exact_write_ack_identity f \<noteq> None) \<and>
      (\<forall>k. ack_debt (run_late x) k = ack_debt late k - acks_of k fs))"

text \<open>The frame an exchange returns, after the late acknowledgements it skipped.\<close>

definition accepted :: "byte list list \<Rightarrow> (int \<times> int \<rightharpoonup> int) \<Rightarrow> byte list \<Rightarrow> byte list list \<Rightarrow> bool" where
  "accepted before late f after =
     (\<exists>fs. after = before @ fs @ [f] \<and> (\<forall>g \<in> set fs. exact_write_ack_identity g \<noteq> None) \<and>
        (\<forall>k. acks_of k fs \<le> ack_debt late k) \<and>
        (\<forall>k. exact_write_ack_identity f = Some k \<longrightarrow> acks_of k fs = ack_debt late k))"

definition in_progress :: "byte list list \<Rightarrow> (int \<times> int \<rightharpoonup> int) \<Rightarrow> 'w exchange_run \<Rightarrow> bool" where
  "in_progress before late x = (\<exists>fs. skipped before late fs x)"

abbreviation took :: "byte list list \<Rightarrow> (int \<times> int \<rightharpoonup> int) \<Rightarrow> byte list \<Rightarrow> 'w exchange_run \<Rightarrow> bool" where
  "took before late f x \<equiv> accepted before late f (frames_taken (run_port x))"

lemma discharge_debt: "ack_debt (discharge k late) j = ack_debt late j - (if j = k then 1 else 0)"
  by (auto simp: discharge_def ack_debt_def Let_def)

lemma skipped_late:
  assumes "skipped before late fs x" "exact_write_ack_identity f = Some k" "0 < ack_debt (run_late x) k"
  shows "skipped before late (fs @ [f]) (skip_late k f rest x)"
  using assms by (auto simp: skipped_def discharge_debt debts_ok_discharge)

lemma in_progress_buffer [simp]: "in_progress before late (x\<lparr>rx_buffer := b\<rparr>) = in_progress before late x"
  "in_progress before late (x\<lparr>write_may_have_been_sent := u\<rparr>) = in_progress before late x"
  "in_progress before late (x\<lparr>write_may_have_been_sent := u, run_port := (run_port x)\<lparr>kernel := w\<rparr>\<rparr>) = in_progress before late x"
  "in_progress before late (x\<lparr>run_port := (run_port x)\<lparr>kernel := w\<rparr>\<rparr>) = in_progress before late x"
  by (simp_all add: in_progress_def skipped_def)

lemma frames_remember [simp]:
  "frames_taken (run_port (remember_unproven_write request x)) = frames_taken (run_port x)"
  by (auto simp: remember_unproven_write_def split: option.split)

lemma pop_frames':
  "pop_buffered_response request x = p \<Longrightarrow> in_progress before late x \<Longrightarrow>
     (case fst p of None \<Rightarrow> in_progress before late (snd p) | Some f \<Rightarrow> took before late f (snd p))"
proof (induction x p rule: pop_induct)
  case (incomplete x x')
  then show ?case by (auto simp: incomplete_def split: option.splits)
next
  case (late x f rest k)
  then show ?case unfolding in_progress_def using skipped_late by blast
next
  case (current x f rest)
  then obtain fs where fs: "skipped before late fs x" by (auto simp: in_progress_def)
  have none: "ack_debt (run_late x) k = 0" if "exact_write_ack_identity f = Some k" for k
    using current(2) [OF that] debts_ok_nonneg [of "run_late x" k] fs by (simp add: skipped_def)
  have le: "acks_of k fs \<le> ack_debt late k" for k
    using fs debts_ok_nonneg [of "run_late x" k] by (simp add: skipped_def del: split_paired_All)
  have "accepted before late f (frames_taken (run_port x) @ [f])"
    unfolding accepted_def using fs none le
    by (intro exI [of _ fs]) (auto simp: skipped_def simp del: split_paired_All)
  with pop_current [OF current(1,2), of request] current(3) show ?case
    by (auto simp: Let_def)
qed

lemma pop_frames:
  "pop_buffered_response request x = (r, x') \<Longrightarrow> in_progress before late x \<Longrightarrow>
     (case r of None \<Rightarrow> in_progress before late x' | Some f \<Rightarrow> took before late f x')"
  using pop_frames' [of request x "(r, x')"] by (cases r) simp_all

lemma send_frames:
  assumes "in_progress before late x"
  shows "wp (send_request os request deadline) (\<lambda>_. in_progress before late) (\<lambda>_ _. True) x"
  unfolding send_request_def
  by (rule wp_loopP [where I = "\<lambda>_. in_progress before late"])
    (use assms in \<open>auto simp: send_step_def Let_def split: prod.splits sum.splits option.splits\<close>)

lemma pop_response_frames:
  assumes "in_progress before late x"
  shows "wp (pop_response request)
    (\<lambda>r y. case r of None \<Rightarrow> in_progress before late y | Some f \<Rightarrow> took before late f y) E x"
  using assms pop_frames by (auto simp: wp_pop_response split: prod.splits)

lemma await_frames:
  assumes "in_progress before late x"
  shows "wp (await_response os request deadline)
    (\<lambda>r y. case r of None \<Rightarrow> in_progress before late y | Some f \<Rightarrow> took before late f y) (\<lambda>_ _. True) x"
  unfolding await_response_def
  by (rule wp_loopP [where I = "\<lambda>_. in_progress before late"])
    (use assms in \<open>auto simp: await_step_def Let_def
        intro!: wp_mono [OF pop_response_frames] split: prod.splits sum.splits option.splits\<close>)

lemma exchange_frames:
  assumes "debts_ok (late_write_acks s)"
  shows "wp (exchange os request)
    (\<lambda>f t. accepted (frames_taken s) (late_write_acks s) f (frames_taken t)) (\<lambda>_ _. True) s"
proof -
  have body: "wp (exchange_body os request d) (\<lambda>f y. took before late f y) (\<lambda>_ _. True) x"
    if "in_progress before late x" for before late d and x :: "'a exchange_run"
    unfolding exchange_body_def
    using that by (auto intro!: wp_mono [OF send_frames] wp_mono [OF await_frames] wp_mono [OF pop_response_frames]
        split: option.splits)
  have start: "in_progress (frames_taken s) (late_write_acks s) (new_run (s\<lparr>kernel := w\<rparr>))" for w
    unfolding in_progress_def skipped_def new_run_def using assms by (intro exI [of _ "[]"]) simp
  show ?thesis
    unfolding exchange_def discard_input_def
    by (auto simp: Let_def intro!: body start split: prod.splits sum.splits)
qed

text \<open>C25. A stale acknowledgement is never taken for the current one. The port owes some number of
  acknowledgements of earlier writes of the register; when an exchange returns an acknowledgement
  of that register, it took exactly that number of acknowledgements of it off the line before
  and skipped them, whatever the line delivered. Every other frame it skipped was an
  acknowledgement owed to another write, no register lost more than it owed, and nothing is
  owed for this one any more.\<close>

theorem stale_ack_never_accepted:
  assumes "debts_ok (late_write_acks s)" and "exchange os request s = Some (Inr f, s')"
    and "exact_write_ack_identity f = Some k" and "request \<noteq> []"
  shows "\<exists>late. frames_taken s' = frames_taken s @ late @ [f] \<and>
    acks_of k late = ack_debt (late_write_acks s) k \<and>
    (\<forall>g \<in> set late. \<exists>j. exact_write_ack_identity g = Some j \<and> acks_of j late \<le> ack_debt (late_write_acks s) j) \<and>
    late_write_acks s' k = None \<and> debts_ok (late_write_acks s')"
proof -
  obtain late where "frames_taken s' = frames_taken s @ late @ [f]" "acks_of k late = ack_debt (late_write_acks s) k"
    "\<forall>g \<in> set late. exact_write_ack_identity g \<noteq> None" "\<forall>j. acks_of j late \<le> ack_debt (late_write_acks s) j"
    using wp_Inr [OF assms(2) exchange_frames [OF assms(1)]] assms(3) unfolding accepted_def by blast
  moreover have "late_write_acks s' k = None \<and> debts_ok (late_write_acks s')"
    using wp_Inr [OF assms(2) exchange_wp [of os "\<lambda>_. True" s request]] assms
    by (simp add: keeps_unsent_def answered_def)
  ultimately show ?thesis by blast
qed

text \<open>C26. A write that is not proven leaves a debt: when the exchange of a write request raises
  after the request was offered to the kernel, or returns anything but that write's
  acknowledgement, the register owes at least one acknowledgement.\<close>

theorem unproven_write_leaves_debt:
  assumes "debts_ok (late_write_acks s)" and "write_key request = Some k"
    and "keeps_unsent os unsent" and "unsent (kernel s)" and "exchange os request s = Some (r, s')"
    and "case r of Inl e \<Rightarrow> \<not> unsent (kernel s') | Inr f \<Rightarrow> exact_write_ack_identity f \<noteq> Some k"
  shows "\<exists>n > 0. late_write_acks s' k = Some n"
proof -
  have ne: "request \<noteq> []" using assms(2) by (rule write_key_nonempty)
  have "0 < ack_debt (late_write_acks s') k"
    using wp_Inr [OF _ exchange_wp [OF assms(3,1) _ ne]] wp_Inl [OF _ exchange_wp [OF assms(3,1) _ ne]] assms
    by (cases r) (auto simp: answered_def unanswered_def simp del: split_paired_All)
  then show ?thesis by (auto simp: ack_debt_def split: option.splits)
qed

section \<open>Exactly the owed acknowledgements are skipped\<close>

lemma from_header_start: "take 2 f = RESPONSE_HEADER \<Longrightarrow> from_header (f @ r) = Some (f @ r)"
  by (cases f rule: from_header.cases) (auto simp: RESPONSE_HEADER_def)

lemma ack_frame_front:
  assumes "exact_write_ack_identity f = Some k" and "rx_buffer x = f @ r"
  shows "front x f r"
proof -
  have f: "length f = 9" "take 2 f = RESPONSE_HEADER" "f ! 3 = 4"
    using assms(1) by (auto simp: exact_write_ack_identity_def split: if_splits)
  then show ?thesis
    by (auto simp: front_def from_header_start assms(2) nth_append)
qed

text \<open>Acknowledgements are matched to writes by counting: with \<open>n\<close> acknowledgements owed for a
  register and \<open>n\<close> late ones at the front of the buffer, the next acknowledgement after them
  is the one returned for the current write, and the debt is then paid off.\<close>

theorem owed_acknowledgements_skipped:
  assumes "\<forall>f \<in> set late. exact_write_ack_identity f = Some k"
    and "ack_debt (run_late x) k = int (length late)" and "debts_ok (run_late x)"
    and "exact_write_ack_identity own = Some k" and "write_key request = Some k"
    and "rx_buffer x = concat late @ own @ rest"
  shows "\<exists>x'. pop_buffered_response request x = (Some own, x') \<and> rx_buffer x' = rest \<and>
    run_late x' = (run_late x)(k := None) \<and>
    late_write_acks_skipped x' = late_write_acks_skipped x + int (length late)"
  using assms
proof (induction late arbitrary: x)
  case Nil
  have "front x own rest" using Nil by (intro ack_frame_front) simp_all
  from pop_current [OF this, of request] have "pop_buffered_response request x = (Some own, take_frame own rest x)"
    if "\<not> answers_read request own"
    using Nil that by (simp add: Let_def)
  moreover have "\<not> answers_read request own"
    using Nil(4) answers_read_no_ack(1) by fastforce
  moreover have none: "run_late x k = None"
    using Nil by (intro debts_ok_none) simp_all
  ultimately show ?case
    by (simp add: fun_upd_idem)
next
  case (Cons f late)
  have "front x f (concat late @ own @ rest)"
    using Cons by (intro ack_frame_front [of f k]) simp_all
  then have step: "pop_buffered_response request x =
      pop_buffered_response request (skip_late k f (concat late @ own @ rest) x)"
    using Cons by (intro pop_late [of x f]) simp_all
  have d: "ack_debt (discharge k (run_late x)) k = int (length late)"
    using Cons(3) by (auto simp: discharge_def ack_debt_def [of "_(_ := _)"] Let_def)
  have u: "(discharge k (run_late x))(k := None) = (run_late x)(k := None)"
    by (simp add: discharge_def Let_def)
  show ?case
    unfolding step using Cons.IH [of "skip_late k f (concat late @ own @ rest) x"] Cons.prems d
    by (auto simp: u debts_ok_discharge)
qed

section \<open>An exchange ends\<close>

text \<open>
  \<open>clock_reaches os deadline left\<close>: \<open>left\<close> bounds how many more clock readings are below
  the deadline; no call raises the bound, and each reading below the deadline lowers it.
\<close>

definition clock_reaches :: "'w os_calls \<Rightarrow> fl \<Rightarrow> ('w \<Rightarrow> nat) \<Rightarrow> bool" where
  "clock_reaches os deadline left =
     ((\<forall>w v w'. os_now os w = (Inr v, w') \<longrightarrow> is_finite v \<and> left w' \<le> left w \<and> (v < deadline \<longrightarrow> left w' < left w)) \<and>
      (\<forall>data w v w'. os_write os data w = (Inr v, w') \<longrightarrow> left w' \<le> left w) \<and>
      (\<forall>t w v w'. os_wait_writable os t w = (Inr v, w') \<longrightarrow> left w' \<le> left w) \<and>
      (\<forall>t w v w'. os_wait_readable os t w = (Inr v, w') \<longrightarrow> left w' \<le> left w) \<and>
      (\<forall>w v w'. os_read os w = (Inr v, w') \<longrightarrow> left w' \<le> left w))"

lemma clock_step:
  assumes "clock_reaches os deadline left"
  shows "os_now os w = (Inr v, w') \<Longrightarrow> is_finite v \<and> left w' \<le> left w \<and> (v < deadline \<longrightarrow> left w' < left w)"
    and "os_write os data w = (Inr n, w') \<Longrightarrow> left w' \<le> left w"
    and "os_wait_writable os t w = (Inr b, w') \<Longrightarrow> left w' \<le> left w"
    and "os_wait_readable os t w = (Inr b, w') \<Longrightarrow> left w' \<le> left w"
    and "os_read os w = (Inr c, w') \<Longrightarrow> left w' \<le> left w"
  using assms unfolding clock_reaches_def by blast+

lemma returns_os_call [simp]: "returns (os_call f) x"
  by (simp add: os_call_def)

lemma returns_port_call [simp]: "returns (port_call f) s"
  by (simp add: port_call_def)

lemma returns_pop_response [simp]: "returns (pop_response request) x"
  by (simp add: returns_def pop_response_def split: prod.splits)

lemma returns_fail_rh56 [simp]: "returns (fail_rh56 m) s"
  by (simp add: fail_rh56_def)

lemma send_request_returns:
  assumes "clock_reaches os deadline left" "is_finite deadline"
  shows "returns (send_request os request deadline) x"
  unfolding send_request_def
proof (rule returns_loopP [where I = "\<lambda>_ _. True" and measure_of = "\<lambda>_ x. left (kernel (run_port x))"])
  fix view :: "byte list" and x
  show "returns (send_step os request deadline view) x"
    by (auto simp: send_step_def Let_def split: prod.splits sum.splits)
  have late: "deadline - v \<le> 0" if "os_now os w = (Inr v, w')" "\<not> v < deadline" for v w w'
    using fl_diff_not_pos [OF assms(2) _ that(2)] clock_step(1) [OF assms(1) that(1)] by blast
  show "wp (send_step os request deadline view)
      (\<lambda>r y. case r of
         Inl c' \<Rightarrow> True \<and> left (kernel (run_port y)) < left (kernel (run_port x))
       | Inr _ \<Rightarrow> True) (\<lambda>_ _. True) x"
    using late clock_step [OF assms(1)]
    by (auto simp: send_step_def Let_def split: prod.splits sum.splits option.splits)
      (meson le_less_trans less_le_trans order_trans)+
qed simp

lemma await_response_returns:
  assumes "clock_reaches os deadline left"
  shows "returns (await_response os request deadline) x"
  unfolding await_response_def
proof (rule returns_loopP [where I = "\<lambda>_ _. True" and measure_of = "\<lambda>_ x. left (kernel (run_port x))"])
  fix u :: unit and x
  show "returns (await_step os request deadline u) x"
    by (auto simp: await_step_def Let_def split: prod.splits sum.splits)
  have pop: "kernel (run_port x') = kernel (run_port x)" if "pop_buffered_response request x = (r, x')" for x x' r
    using that pop_kernel by blast
  show "wp (await_step os request deadline u)
      (\<lambda>r y. case r of
         Inl c' \<Rightarrow> True \<and> left (kernel (run_port y)) < left (kernel (run_port x))
       | Inr _ \<Rightarrow> True) (\<lambda>_ _. True) x"
    using clock_step [OF assms]
    by (auto simp: await_step_def Let_def wp_pop_response dest!: pop split: prod.splits sum.splits option.splits)
      (meson le_less_trans less_le_trans order_trans)+
qed simp

text \<open>C27. An exchange always ends: on a kernel whose clock passes the deadline after finitely many
  readings, it returns a reply or raises.\<close>

theorem exchange_returns:
  fixes os :: "'w os_calls"
  assumes "\<And>w t w'. os_flush_input os (kernel s) = (Inr (), w) \<Longrightarrow> os_now os w = (Inr t, w') \<Longrightarrow>
      is_finite (t + ser_timeout s) \<and> (\<exists>left. clock_reaches os (t + ser_timeout s) left)"
  shows "\<exists>r s'. exchange os request s = Some (r, s')"
proof -
  have body: "returns (exchange_body os request (t + ser_timeout s)) x"
    if h: "os_flush_input os (kernel s) = (Inr (), w)" "os_now os w = (Inr t, w')" for t w w' x
  proof -
    obtain left where left: "clock_reaches os (t + ser_timeout s) left" and d: "is_finite (t + ser_timeout s)"
      using assms [OF h] by blast
    show ?thesis
      by (auto simp: exchange_body_def send_request_returns [OF left d] await_response_returns [OF left]
          intro!: wp_I split: option.splits)
  qed
  have "returns (exchange os request) s"
    using body by (auto simp: exchange_def discard_input_def Let_def split: prod.splits sum.splits)
  then show ?thesis by (auto simp: returns_def)
qed

section \<open>Instances: a scripted line\<close>

text \<open>A line whose clock advances 1/1024 s per reading and that delivers given chunks.\<close>

record script =
  ticks :: nat
  inbox :: "byte list list"
  sent :: "byte list list"

definition script_os :: "script os_calls" where
  "script_os =
     \<lparr>os_now = (\<lambda>w. (Inr (Fin (of_nat (ticks w) / 1024)), w\<lparr>ticks := ticks w + 1\<rparr>)),
      os_open = (\<lambda>w. (Inr (), w)), os_configure = (\<lambda>w. (Inr (), w)), os_close = (\<lambda>w. (Inr (), w)),
      os_flush_input = (\<lambda>w. (Inr (), w)),
      os_write = (\<lambda>data w. (Inr (Some (int (length data))), w\<lparr>sent := sent w @ [data]\<rparr>)),
      os_wait_writable = (\<lambda>t w. (Inr True, w)),
      os_wait_readable = (\<lambda>t w. (Inr (inbox w \<noteq> []), w)),
      os_read = (\<lambda>w. case inbox w of
                   [] \<Rightarrow> (Inr None, w)
                 | c # cs \<Rightarrow> (Inr (Some c), w\<lparr>inbox := cs\<rparr>))\<rparr>"

definition ack_ex :: "byte list" where
  "ack_ex = [0x90, 0xEB, 1, 4, 0x12, 0xCE, 5, 1, 0xEB]"

definition write_ex :: "byte list" where
  "write_ex = [0xEB, 0x90, 1, 4, 0x12, 0xCE, 5, 1, 0xEB]"

text \<open>A port that owes \<open>n\<close> acknowledgements of register 1486, on a line with the given input.\<close>

definition port_ex :: "int \<Rightarrow> byte list list \<Rightarrow> script serial_port" where
  "port_ex n chunks =
     \<lparr>ser_open = True, ser_timeout = Fin (1 / 64),
      late_write_acks = (if n = 0 then Map.empty else [(1, 1486) \<mapsto> n]), frames_taken = [],
      kernel = \<lparr>ticks = 0, inbox = chunks, sent = []\<rparr>\<rparr>"

lemma ack_ex_identity: "exact_write_ack_identity ack_ex = Some (1, 1486)"
  by code_simp

lemma write_ex_key: "write_key write_ex = Some (1, 1486)"
  by code_simp

lemma debts_ok_ex: "0 \<le> n \<Longrightarrow> debts_ok (late_write_acks (port_ex n c))"
  by (simp add: debts_ok_def port_ex_def)

lemma script_unsent: "keeps_unsent script_os (\<lambda>w. sent w = [])"
  by (simp add: keeps_unsent_def script_os_def split: list.split)

definition outcome :: "((exn + byte list) \<times> script serial_port) option \<Rightarrow> (bool \<times> byte list \<times> int \<times> byte list list) option" where
  "outcome = map_option (\<lambda>(r, s). (case r of Inl _ \<Rightarrow> False | Inr _ \<Rightarrow> True, case r of Inl _ \<Rightarrow> [] | Inr f \<Rightarrow> f,
     ack_debt (late_write_acks s) (1, 1486), sent (kernel s)))"

lemma outcome_Some:
  "outcome x = Some (ok, f, n, out) \<Longrightarrow> \<exists>r s. x = Some (r, s) \<and> sent (kernel s) = out \<and>
     (if ok then r = Inr f else \<exists>e. r = Inl e)"
  by (auto simp: outcome_def split: sum.splits)

lemma exchange_ex_ack: "outcome (exchange script_os write_ex (port_ex 1 [ack_ex @ ack_ex])) = Some (True, ack_ex, 0, [write_ex])"
  by code_simp

lemma exchange_ex_timeout: "outcome (exchange script_os write_ex (port_ex 0 [])) = Some (False, [], 1, [write_ex])"
  by code_simp

theorem stale_ack_never_accepted_witness:
  "\<exists>s' late. exchange script_os write_ex (port_ex 1 [ack_ex @ ack_ex]) = Some (Inr ack_ex, s') \<and>
     frames_taken s' = late @ [ack_ex] \<and> acks_of (1, 1486) late = 1 \<and> late_write_acks s' (1, 1486) = None"
proof -
  obtain s' where s': "exchange script_os write_ex (port_ex 1 [ack_ex @ ack_ex]) = Some (Inr ack_ex, s')"
    using outcome_Some [OF exchange_ex_ack] by auto
  have "write_ex \<noteq> []" by (simp add: write_ex_def)
  from stale_ack_never_accepted [OF debts_ok_ex s' ack_ex_identity this] s' show ?thesis
    by (auto simp: port_ex_def ack_debt_def)
qed

theorem unproven_write_leaves_debt_witness:
  "\<exists>r s' n. exchange script_os write_ex (port_ex 0 []) = Some (r, s') \<and> 0 < n \<and>
     late_write_acks s' (1, 1486) = Some n"
proof -
  obtain e s' where s': "exchange script_os write_ex (port_ex 0 []) = Some (Inl e, s')"
    and out: "sent (kernel s') = [write_ex]"
    using outcome_Some [OF exchange_ex_timeout] by auto
  have "\<exists>n > 0. late_write_acks s' (1, 1486) = Some n"
    by (rule unproven_write_leaves_debt [OF debts_ok_ex write_ex_key script_unsent _ s'])
      (simp_all add: out, simp add: port_ex_def)
  with s' show ?thesis by blast
qed

theorem owed_acknowledgements_skipped_witness:
  "\<exists>x'. pop_buffered_response write_ex ((new_run (port_ex 1 []))\<lparr>rx_buffer := ack_ex @ ack_ex\<rparr>)
      = (Some ack_ex, x') \<and> late_write_acks_skipped x' = 1"
  using owed_acknowledgements_skipped [of "[ack_ex]" "(1, 1486)" "(new_run (port_ex 1 []))\<lparr>rx_buffer := ack_ex @ ack_ex\<rparr>"
      ack_ex write_ex "[]"] debts_ok_ex [of 1 "[]"]
  by (auto simp: ack_ex_identity write_ex_key new_run_def port_ex_def ack_debt_def)

definition script_left :: "rat \<Rightarrow> script \<Rightarrow> nat" where
  "script_left d w = nat \<lceil>d * 1024 - of_nat (ticks w)\<rceil>"

lemma script_clock: "clock_reaches script_os (Fin d) (script_left d)"
proof -
  have e: "\<lceil>d * 1024 - (1 + of_nat n)\<rceil> = \<lceil>d * 1024 - of_nat n\<rceil> - 1" for n :: nat
    using ceiling_diff_of_int [of "d * 1024 - of_nat n" 1] by (simp add: algebra_simps)
  have "0 < \<lceil>d * 1024 - of_nat n\<rceil>" if "of_nat n < d * 1024" for n :: nat
    using that by (simp add: zero_less_ceiling)
  then show ?thesis
    by (auto simp: clock_reaches_def script_os_def script_left_def e split: list.splits)
qed

theorem exchange_returns_witness:
  "\<exists>r s'. exchange script_os write_ex (port_ex 0 []) = Some (r, s')"
proof (rule exchange_returns)
  fix w t w'
  assume "os_flush_input script_os (kernel (port_ex 0 [])) = (Inr (), w)"
    and "os_now script_os w = (Inr t, w')"
  then have "t = Fin 0" by (auto simp: script_os_def port_ex_def)
  moreover have "Fin 0 + Fin (1 / 64) = Fin (1 / 64)" by code_simp
  ultimately show "is_finite (t + ser_timeout (port_ex 0 [])) \<and>
      (\<exists>left. clock_reaches script_os (t + ser_timeout (port_ex 0 [])) left)"
    using script_clock [of "1 / 64"] by (auto simp: port_ex_def)
qed

end
