(* ===== verification/RH56_Hand.thy ===== *)
theory RH56_Hand
  imports Linux_Serial
begin

text \<open>
  \<open>RH56Hand\<close> of \<open>examples/inspire_rh56_test.py\<close>: register reads and writes over an object
  with an \<open>exchange\<close> method, and the little-endian 16-bit encoding (\<open>struct\<close> format
  \<open><6h\<close>) of the six-axis registers. The serial object and \<open>time.sleep\<close> are arguments.
\<close>

section \<open>Registers\<close>

definition REG_ANGLE_SET :: int where "REG_ANGLE_SET = 1486"
definition REG_FORCE_SET :: int where "REG_FORCE_SET = 1498"
definition REG_SPEED_SET :: int where "REG_SPEED_SET = 1522"
definition REG_POS_ACT :: int where "REG_POS_ACT = 1534"
definition REG_ANGLE_ACT :: int where "REG_ANGLE_ACT = 1546"
definition REG_FORCE_ACT :: int where "REG_FORCE_ACT = 1582"
definition REG_CURRENT :: int where "REG_CURRENT = 1594"
definition REG_ERROR :: int where "REG_ERROR = 1606"
definition REG_STATUS :: int where "REG_STATUS = 1612"
definition REG_TEMP :: int where "REG_TEMP = 1618"

section \<open>The struct formats\<close>

text \<open>\<open>struct.pack\<close> and \<open>struct.unpack\<close> of little-endian signed 16-bit values.\<close>

definition pack_short :: "int \<Rightarrow> exn + byte list" where
  "pack_short n =
     (if - 32768 \<le> n \<and> n \<le> 32767 then Inr [byte_of (n mod 256), byte_of ((n div 256) mod 256)]
      else Inl (Exn StructError ''short format requires (-32768) <= number <= 32767''))"

definition pack_shorts :: "int list \<Rightarrow> exn + byte list" where
  "pack_shorts ns = res_bind (res_map pack_short ns) (\<lambda>bs. Inr (concat bs))"

definition unpack_short :: "byte \<Rightarrow> byte \<Rightarrow> int" where
  "unpack_short lo hi = sint (word_of_int (uint lo + 256 * uint hi) :: 16 word)"

fun unpack_shorts :: "byte list \<Rightarrow> int list" where
  "unpack_shorts (lo # hi # bs) = unpack_short lo hi # unpack_shorts bs"
| "unpack_shorts bs = []"

section \<open>RH56Hand\<close>

text \<open>\<open>read\<close>: the attempts left are the loop variable, with the last error seen.\<close>

definition hand_read_step ::
    "(byte list \<Rightarrow> ('s, byte list) prog) \<Rightarrow> (fl \<Rightarrow> ('s, unit) prog) \<Rightarrow> int \<Rightarrow> byte list \<Rightarrow> int \<Rightarrow> int \<Rightarrow>
     nat \<times> string \<Rightarrow> ('s, nat \<times> string + byte list) prog" where
  "hand_read_step exch slp hand_id request address n = (\<lambda>(attempts, last_error).
     if attempts = 0
     then fail_rh56 (''read register '' @ int_str address @ '' failed: '' @ last_error)
     else
       bindP (tryP (bindP (exch request) (\<lambda>response.
                lift_res (parse_response response hand_id READ_COMMAND address n)))) (\<lambda>r.
       case r of
         Inr data \<Rightarrow> ret (Inr data)
       | Inl e \<Rightarrow>
           if exn_class e = RH56Error
           then thenP (if 1 < attempts then slp (rnd64 (1 / 20)) else ret ())
                  (ret (Inl (attempts - 1, exn_msg e)))
           else throw e))"

definition hand_read ::
    "(byte list \<Rightarrow> ('s, byte list) prog) \<Rightarrow> (fl \<Rightarrow> ('s, unit) prog) \<Rightarrow> int \<Rightarrow> int \<Rightarrow> int \<Rightarrow> nat \<Rightarrow>
     ('s, byte list) prog" where
  "hand_read exch slp hand_id address n retries =
     bindP (lift_res (build_read_frame hand_id address n)) (\<lambda>request.
       loopP (hand_read_step exch slp hand_id request address n) (retries + 1, ''None''))"

definition hand_write_step ::
    "(byte list \<Rightarrow> ('s, byte list) prog) \<Rightarrow> (fl \<Rightarrow> ('s, unit) prog) \<Rightarrow> int \<Rightarrow> byte list \<Rightarrow> int \<Rightarrow>
     nat \<times> string \<Rightarrow> ('s, nat \<times> string + unit) prog" where
  "hand_write_step exch slp hand_id request address = (\<lambda>(attempts, last_error).
     if attempts = 0
     then fail_rh56 (''write register '' @ int_str address @ '' failed: '' @ last_error)
     else
       bindP (tryP (bindP (exch request) (\<lambda>response.
                    bindP (lift_res (parse_response response hand_id WRITE_COMMAND address 1)) (\<lambda>ack.
                    if ack \<noteq> [0x01]
                    then fail_rh56 (''write register '' @ int_str address @ '' returned ACK ''
                                   @ py_lower (concat (map hex_byte ack)))
                    else ret ())))) (\<lambda>r.
       case r of
         Inr _ \<Rightarrow> ret (Inr ())
       | Inl e \<Rightarrow>
           if exn_class e = RH56Error
           then thenP (if 1 < attempts then slp (rnd64 (1 / 20)) else ret ())
                  (ret (Inl (attempts - 1, exn_msg e)))
           else throw e))"

definition hand_write ::
    "(byte list \<Rightarrow> ('s, byte list) prog) \<Rightarrow> (fl \<Rightarrow> ('s, unit) prog) \<Rightarrow> int \<Rightarrow> int \<Rightarrow> byte list \<Rightarrow> nat \<Rightarrow>
     ('s, unit) prog" where
  "hand_write exch slp hand_id address data retries =
     bindP (lift_res (build_write_frame hand_id address data)) (\<lambda>request.
       loopP (hand_write_step exch slp hand_id request address) (retries + 1, ''None''))"

definition write_six_shorts ::
    "(byte list \<Rightarrow> ('s, byte list) prog) \<Rightarrow> (fl \<Rightarrow> ('s, unit) prog) \<Rightarrow> int \<Rightarrow> int \<Rightarrow> int list \<Rightarrow> nat \<Rightarrow>
     ('s, unit) prog" where
  "write_six_shorts exch slp hand_id address values retries =
     (if length values \<noteq> 6 then throw (Exn ValueError ''expected exactly six values'')
      else bindP (lift_res (pack_shorts values)) (\<lambda>data.
             hand_write exch slp hand_id address data retries))"

section \<open>The encoding is lossless\<close>

lemma unpack_pack_short:
  assumes "- 32768 \<le> n" "n \<le> 32767"
  shows "unpack_short (byte_of (n mod 256)) (byte_of ((n div 256) mod 256)) = n"
proof -
  have b: "uint (byte_of (n mod 256)) = n mod 256" "uint (byte_of ((n div 256) mod 256)) = (n div 256) mod 256"
    by (simp_all add: uint_byte_of)
  have "n mod 256 + 256 * ((n div 256) mod 256) = n mod (2 ^ 16)"
    using zmod_zmult2_eq [of 256 n 256] by simp
  then have "(word_of_int (n mod 256 + 256 * ((n div 256) mod 256)) :: 16 word) = word_of_int n"
    by (simp add: word_of_int_eq_iff take_bit_eq_mod)
  moreover have "sint (word_of_int n :: 16 word) = n"
    using assms by (simp add: signed_take_bit_int_eq_self sint_sbintrunc')
  ultimately show ?thesis by (simp only: unpack_short_def b)
qed

lemma pack_short_Inr: "pack_short n = Inr b \<longleftrightarrow>
    - 32768 \<le> n \<and> n \<le> 32767 \<and> b = [byte_of (n mod 256), byte_of ((n div 256) mod 256)]"
  by (auto simp: pack_short_def)

lemma pack_shorts_Cons:
  "pack_shorts (n # ns) = Inr bs \<longleftrightarrow> (\<exists>b bs'. pack_short n = Inr b \<and> pack_shorts ns = Inr bs' \<and> bs = b @ bs')"
  by (auto simp: pack_shorts_def res_bind_Inr_iff)

lemma pack_shorts_Nil: "pack_shorts [] = Inr bs \<longleftrightarrow> bs = []"
  by (auto simp: pack_shorts_def)

lemma pack_shorts_length: "pack_shorts ns = Inr bs \<Longrightarrow> length bs = 2 * length ns"
  by (induction ns arbitrary: bs) (auto simp: pack_shorts_Cons pack_shorts_Nil pack_short_Inr)

lemma unpack_shorts_length: "even (length bs) \<Longrightarrow> length (unpack_shorts bs) = length bs div 2"
  by (induction bs rule: unpack_shorts.induct) auto

lemma unpack_short_range: "- 32768 \<le> unpack_short lo hi" "unpack_short lo hi \<le> 32767"
  using sint_range_size [of "word_of_int (uint lo + 256 * uint hi) :: 16 word"]
  by (simp_all add: unpack_short_def word_size)

lemma unpack_pack_shorts: "pack_shorts ns = Inr bs \<Longrightarrow> unpack_shorts bs = ns"
  by (induction ns arbitrary: bs)
    (auto simp: pack_shorts_Cons pack_shorts_Nil pack_short_Inr unpack_pack_short)

lemma pack_unpack_short: "pack_short (unpack_short lo hi) = Inr [lo, hi]"
proof -
  let ?v = "uint lo + 256 * uint hi" and ?n = "unpack_short lo hi"
  have r: "0 \<le> uint lo" "uint lo < 256" "0 \<le> uint hi" "uint hi < 256"
    by (simp_all add: byte_below)
  have "(word_of_int ?n :: 16 word) = word_of_int ?v"
    by (simp add: unpack_short_def)
  then have "uint (word_of_int ?n :: 16 word) = uint (word_of_int ?v :: 16 word)" by (simp only:)
  then have m: "?n mod 65536 = ?v mod 65536"
    by (simp only: uint_word_of_int) simp
  have "?v mod 65536 = ?v" using r by (intro mod_pos_pos_trivial) auto
  with m have v: "?n mod 65536 = ?v" by simp
  have "?n mod 256 = (?n mod 65536) mod 256" by (simp add: mod_mod_cancel)
  moreover have "(?n div 256) mod 256 = (?n mod 65536) div 256"
    using zmod_zmult2_eq [of 256 ?n 256] by simp
  ultimately have "?n mod 256 = uint lo" "(?n div 256) mod 256 = uint hi"
    using r unfolding v by simp_all
  then show ?thesis using unpack_short_range [of lo hi] by (simp add: pack_short_def)
qed

lemma pack_unpack_shorts: "even (length bs) \<Longrightarrow> pack_shorts (unpack_shorts bs) = Inr bs"
  by (induction bs rule: unpack_shorts.induct)
    (auto simp: pack_shorts_Cons pack_shorts_Nil pack_unpack_short)

text \<open>The register encoding is a bijection between lists of 16-bit signed values and byte
  strings of even length: packing and unpacking undo each other in both directions.\<close>

theorem register_encoding_roundtrip:
  "(pack_shorts ns = Inr bs \<longleftrightarrow> even (length bs) \<and> unpack_shorts bs = ns)"
proof
  assume p: "pack_shorts ns = Inr bs"
  then show "even (length bs) \<and> unpack_shorts bs = ns"
    by (simp add: unpack_pack_shorts pack_shorts_length)
next
  assume "even (length bs) \<and> unpack_shorts bs = ns"
  then show "pack_shorts ns = Inr bs" using pack_unpack_shorts by blast
qed

section \<open>A write that returns was acknowledged\<close>

lemma build_frame_nonempty:
  "build_read_frame h a n = Inr f \<Longrightarrow> f \<noteq> []" "build_write_frame h a d = Inr f \<Longrightarrow> f \<noteq> []"
  by (auto simp: build_read_frame_def build_write_frame_def res_bind_Inr_iff Let_def split: if_splits)

lemma wp_hand_write:
  assumes exch: "\<And>request s. request \<noteq> [] \<Longrightarrow> Pre s \<Longrightarrow>
      wp (exch request) (\<lambda>f t. Pre t \<and> G f t) (\<lambda>_. Pre) s"
    and slp: "\<And>d s. Pre s \<Longrightarrow> wp (slp d) (\<lambda>_. Pre) (\<lambda>_. Pre) s"
    and s: "Pre s"
  shows "wp (hand_write exch slp hand_id address data retries)
    (\<lambda>_ t. Pre t \<and> (\<exists>f. G f t \<and> exact_write_ack_identity f = Some (hand_id, address))) (\<lambda>_. Pre) s"
proof (cases "build_write_frame hand_id address data")
  case (Inr request)
  have h: "1 \<le> hand_id" "hand_id \<le> 254"
    using write_frame_accepts [of hand_id address data] Inr by auto
  have step: "wp (hand_write_step exch slp hand_id request address c)
      (\<lambda>r t. case r of Inl c' \<Rightarrow> Pre t
        | Inr _ \<Rightarrow> Pre t \<and> (\<exists>f. G f t \<and> exact_write_ack_identity f = Some (hand_id, address)))
      (\<lambda>_. Pre) t" if "Pre t" for c t
    using that build_frame_nonempty(2) [OF Inr]
    by (auto simp: hand_write_step_def fail_rh56_def write_ack_Some h Inr case_prod_beta
        intro!: wp_mono [OF exch] wp_mono [OF slp] split: sum.splits)
  show ?thesis
    unfolding hand_write_def
    using s by (simp add: Inr, intro wp_loopP [where I = "\<lambda>_. Pre"])
      (auto intro!: wp_mono [OF step] split: sum.splits)
qed (simp add: hand_write_def s)

text \<open>Without retries the one exchange starts in the state of the call.\<close>

lemma wp_hand_write_once:
  assumes exch: "\<And>request. request \<noteq> [] \<Longrightarrow> wp (exch request) G (\<lambda>_ _. True) s"
  shows "wp (hand_write exch slp hand_id address data 0)
    (\<lambda>_ t. \<exists>f. G f t \<and> exact_write_ack_identity f = Some (hand_id, address)) (\<lambda>_ _. True) s"
proof (cases "build_write_frame hand_id address data")
  case (Inr request)
  have h: "1 \<le> hand_id" "hand_id \<le> 254"
    using write_frame_accepts [of hand_id address data] Inr by auto
  have step: "wp (hand_write_step exch slp hand_id request address c)
      (\<lambda>r t. case r of Inl c' \<Rightarrow> fst c' = 0
        | Inr _ \<Rightarrow> \<exists>f. G f t \<and> exact_write_ack_identity f = Some (hand_id, address))
      (\<lambda>_ _. True) t" if "fst c = 1 \<and> t = s \<or> fst c = 0" for c t
    using that build_frame_nonempty(2) [OF Inr]
    by (auto simp: hand_write_step_def fail_rh56_def write_ack_Some h Inr case_prod_beta
        intro!: wp_mono [OF exch] split: sum.splits)
  show ?thesis
    unfolding hand_write_def
    by (simp add: Inr, intro wp_loopP [where I = "\<lambda>c t. fst c = 1 \<and> t = s \<or> fst c = 0"])
      (auto intro!: wp_mono [OF step] split: sum.splits)
qed (simp add: hand_write_def)

lemma wp_hand_read:
  assumes exch: "\<And>request s. request \<noteq> [] \<Longrightarrow> Pre s \<Longrightarrow> wp (exch request) (\<lambda>_. Pre) (\<lambda>_. Pre) s"
    and slp: "\<And>d s. Pre s \<Longrightarrow> wp (slp d) (\<lambda>_. Pre) (\<lambda>_. Pre) s"
    and s: "Pre s"
  shows "wp (hand_read exch slp hand_id address n retries)
    (\<lambda>data t. Pre t \<and> int (length data) = n) (\<lambda>_. Pre) s"
proof (cases "build_read_frame hand_id address n")
  case (Inr request)
  have step: "wp (hand_read_step exch slp hand_id request address n c)
      (\<lambda>r t. case r of Inl c' \<Rightarrow> Pre t | Inr data \<Rightarrow> Pre t \<and> int (length data) = n)
      (\<lambda>_. Pre) t" if "Pre t" for c t
    using that build_frame_nonempty(1) [OF Inr]
    by (auto simp: hand_read_step_def fail_rh56_def case_prod_beta parse_response_Inr
        intro!: wp_mono [OF exch] wp_mono [OF slp] split: sum.splits)
  show ?thesis
    unfolding hand_read_def
    using s by (simp add: Inr, intro wp_loopP [where I = "\<lambda>_. Pre"])
      (auto intro!: wp_mono [OF step] split: sum.splits)
qed (simp add: hand_read_def s)

section \<open>How often a request is transmitted\<close>

text \<open>\<open>exch\<close> next to a count of its calls.\<close>

definition counted :: "(byte list \<Rightarrow> ('s, byte list) prog) \<Rightarrow> byte list \<Rightarrow> ('s \<times> nat, byte list) prog" where
  "counted exch request = (\<lambda>(s, n). map_option (\<lambda>(r, t). (r, (t, n + 1))) (exch request s))"

lemma wp_counted:
  assumes "\<And>x t. Q x (t, Suc (snd z))" "\<And>e t. E e (t, Suc (snd z))"
  shows "wp (counted exch request) Q E z"
  using assms by (auto simp: wp_def counted_def split: option.splits sum.splits prod.splits)

lemma counted_write:
  "wp (hand_write (counted exch) (\<lambda>_. ret ()) hand_id address data retries)
    (\<lambda>_ z. snd z \<le> n + retries + 1) (\<lambda>_ z. snd z \<le> n + retries + 1) (s, n)"
proof -
  have step: "wp (hand_write_step (counted exch) (\<lambda>_. ret ()) hand_id request address c)
      (\<lambda>r z. case r of Inl c' \<Rightarrow> snd z + fst c' \<le> N | Inr _ \<Rightarrow> snd z \<le> N) (\<lambda>_ z. snd z \<le> N) z"
    if "snd z + fst c \<le> N" for c z request N
    using that
    by (auto simp: hand_write_step_def fail_rh56_def case_prod_beta intro!: wp_counted split: sum.splits)
  show ?thesis
    unfolding hand_write_def
    by (cases "build_write_frame hand_id address data")
      (auto intro!: wp_loopP [where I = "\<lambda>c z. snd z + fst c \<le> n + retries + 1"] wp_mono [OF step]
        split: sum.splits)
qed

lemma counted_read:
  "wp (hand_read (counted exch) (\<lambda>_. ret ()) hand_id address len retries)
    (\<lambda>_ z. snd z \<le> n + retries + 1) (\<lambda>_ z. snd z \<le> n + retries + 1) (s, n)"
proof -
  have step: "wp (hand_read_step (counted exch) (\<lambda>_. ret ()) hand_id request address len c)
      (\<lambda>r z. case r of Inl c' \<Rightarrow> snd z + fst c' \<le> N | Inr _ \<Rightarrow> snd z \<le> N) (\<lambda>_ z. snd z \<le> N) z"
    if "snd z + fst c \<le> N" for c z request N
    using that
    by (auto simp: hand_read_step_def fail_rh56_def case_prod_beta intro!: wp_counted split: sum.splits)
  show ?thesis
    unfolding hand_read_def
    by (cases "build_read_frame hand_id address len")
      (auto intro!: wp_loopP [where I = "\<lambda>c z. snd z + fst c \<le> n + retries + 1"] wp_mono [OF step]
        split: sum.splits)
qed

text \<open>A register operation with \<open>r\<close> retries transmits at most \<open>r + 1\<close> requests: in
  particular a call with no retries, as the transactional transport makes them, never sends
  a request a second time, whatever the exchange does.\<close>

theorem bounded_transmissions:
  assumes "hand_write (counted exch) (\<lambda>_. ret ()) hand_id address data retries (s, n) = Some (r, (t, m))"
    and "hand_read (counted exch) (\<lambda>_. ret ()) hand_id address len retries (s, n) = Some (r', (t', m'))"
  shows "m \<le> n + retries + 1 \<and> m' \<le> n + retries + 1"
  using assms counted_write [of exch hand_id address data retries n s]
    counted_read [of exch hand_id address len retries n s]
  by (cases r; cases r') (auto simp: wp_def)

theorem bounded_transmissions_witness:
  "\<exists>r m. hand_write (counted (\<lambda>_. fail_rh56 ''x'')) (\<lambda>_. ret ()) 1 1486 [1] 1 ((), 0) = Some (r, ((), m)) \<and> m \<le> 2"
proof -
  have w: "hand_write (counted (\<lambda>_. fail_rh56 ''x'')) (\<lambda>_. ret ()) 1 1486 [1] 1 ((), 0)
      = Some (Inl (Exn RH56Error ''write register 1486 failed: x''), ((), 2))"
    and r: "hand_read (counted (\<lambda>_. fail_rh56 ''x'')) (\<lambda>_. ret ()) 1 1486 12 1 ((), 0)
      = Some (Inl (Exn RH56Error ''read register 1486 failed: x''), ((), 2))"
    by code_simp+
  show ?thesis using w bounded_transmissions [OF w r] by auto
qed

end
