(* ===== verification/RH56_Feedback.thy ===== *)
theory RH56_Feedback
  imports Validation
begin

text \<open>
  The value checks of \<open>robot_control/rh56/actuator.py\<close>, its constants and the safety
  feedback sample, shared by the actuator and the Linux transport. An iterable argument is a
  \<open>PySeq\<close>.
\<close>

section \<open>Constants\<close>

definition RH56_AXIS_COUNT :: nat where
  "RH56_AXIS_COUNT = 6"

definition RH56_DISABLED_TARGETS :: "int list" where
  "RH56_DISABLED_TARGETS = replicate RH56_AXIS_COUNT (-1)"

definition RH56_FAULT_STATUSES :: "int list" where
  "RH56_FAULT_STATUSES = [5, 6, 7]"

definition RH56_IDLE_STATUSES :: "int list" where
  "RH56_IDLE_STATUSES = [2, 0xFF]"

definition RH56_MAX_POLICY_WATCHDOG_S :: fl where
  "RH56_MAX_POLICY_WATCHDOG_S = rnd64 (50 / 1000)"

definition RH56_MAX_SUPERVISED_INTER_COMMAND_WATCHDOG_S :: fl where
  "RH56_MAX_SUPERVISED_INTER_COMMAND_WATCHDOG_S = rnd64 (500 / 1000)"

definition RH56_SUPERVISED_WRITE_RESPONSE_GRACE_S :: fl where
  "RH56_SUPERVISED_WRITE_RESPONSE_GRACE_S = rnd64 (20 / 1000)"

definition RH56_SUPERVISED_EXCHANGE_TIMEOUT_S :: fl where
  "RH56_SUPERVISED_EXCHANGE_TIMEOUT_S = rnd64 (50 / 1000)"

definition RH56_STOP_RELEASE_SCHEDULING_MARGIN_S :: fl where
  "RH56_STOP_RELEASE_SCHEDULING_MARGIN_S = rnd64 (100 / 1000)"

section \<open>Checks\<close>

definition finite_float :: "pyval \<Rightarrow> string \<Rightarrow> exn + fl" where
  "finite_float v name =
     (let err = Exn ValueError (name @ '' must be finite'')
      in if is_py_bool v then Inl err
         else res_bind (float_or v err) (\<lambda>x. if is_finite x then Inr x else Inl err))"

definition positive_float :: "pyval \<Rightarrow> string \<Rightarrow> exn + fl" where
  "positive_float v name =
     res_bind (finite_float v name) (\<lambda>x.
       if x \<le> 0 then Inl (Exn ValueError (name @ '' must be positive'')) else Inr x)"

definition bounded_integer :: "pyval \<Rightarrow> string \<Rightarrow> int \<Rightarrow> int \<Rightarrow> exn + int" where
  "bounded_integer v name lo hi =
     (let err = Exn ValueError (name @ '' must be an integer in '' @ int_str lo @ ''..'' @ int_str hi)
      in if is_py_bool v then Inl err
         else res_bind (float_or v err) (\<lambda>numeric.
           if \<not> is_finite numeric \<or> \<not> fl_is_integer numeric
              \<or> \<not> (lo \<le> fl_trunc numeric \<and> fl_trunc numeric \<le> hi)
           then Inl err else Inr (fl_trunc numeric)))"

text \<open>\<open>enumerate(values)\<close> with a check that names the index.\<close>

fun check_indexed :: "(pyval \<Rightarrow> string \<Rightarrow> exn + 'a) \<Rightarrow> string \<Rightarrow> nat \<Rightarrow> pyval list \<Rightarrow> exn + 'a list" where
  "check_indexed f name i [] = Inr []"
| "check_indexed f name i (v # vs) =
     res_bind (f v (name @ ''['' @ int_str (int i) @ '']'')) (\<lambda>x.
     res_bind (check_indexed f name (i + 1) vs) (\<lambda>xs. Inr (x # xs)))"

text \<open>\<open>except ValueError as exc: raise RH56TransportError(str(exc))\<close>\<close>

definition as_transport_error :: "exn + 'a \<Rightarrow> exn + 'a" where
  "as_transport_error r =
     (case r of
        Inl e \<Rightarrow> if exn_class e = ValueError then Inl (Exn RH56TransportError (exn_msg e)) else Inl e
      | Inr x \<Rightarrow> Inr x)"

definition six_integers :: "pyval \<Rightarrow> string \<Rightarrow> int \<Rightarrow> int \<Rightarrow> exn + int list" where
  "six_integers values name lo hi =
     (case values of
        PySeq raw \<Rightarrow>
          if length raw \<noteq> RH56_AXIS_COUNT
          then Inl (Exn RH56TransportError
                 (name @ '' returned '' @ int_str (int (length raw)) @ '' values, expected six''))
          else as_transport_error (check_indexed (\<lambda>v n. bounded_integer v n lo hi) name 0 raw)
      | _ \<Rightarrow> Inl (Exn RH56TransportError (name @ '' must contain exactly six integers'')))"

definition six_targets :: "pyval \<Rightarrow> string \<Rightarrow> bool \<Rightarrow> exn + int list" where
  "six_targets values name allow_disabled =
     six_integers values name (if allow_disabled then -1 else 0) 1000"

definition require_bool :: "pyval \<Rightarrow> string \<Rightarrow> exn + bool" where
  "require_bool v name = strict_bool v name"

section \<open>RH56SafetyFeedback\<close>

record safety_feedback =
  captured_monotonic_s :: fl
  positions :: "int list"
  angles :: "int list"
  forces_g :: "int list"
  currents_ma :: "int list"
  errors :: "int list"
  statuses :: "int list"
  temperatures_c :: "int list"

definition make_feedback ::
    "pyval \<Rightarrow> pyval \<Rightarrow> pyval \<Rightarrow> pyval \<Rightarrow> pyval \<Rightarrow> pyval \<Rightarrow> pyval \<Rightarrow> pyval \<Rightarrow> exn + safety_feedback" where
  "make_feedback captured0 positions0 angles0 forces0 currents0 errors0 statuses0 temperatures0 =
     res_bind (finite_float captured0 ''captured_monotonic_s'') (\<lambda>captured.
     res_bind (six_integers positions0 ''positions'' (-32768) 32767) (\<lambda>pos.
     res_bind (six_integers angles0 ''angles'' (-32768) 32767) (\<lambda>ang.
     res_bind (six_integers forces0 ''forces_g'' (-32768) 32767) (\<lambda>force.
     res_bind (six_integers currents0 ''currents_ma'' (-32768) 32767) (\<lambda>current.
     res_bind (six_integers errors0 ''errors'' 0 255) (\<lambda>err.
     res_bind (six_integers statuses0 ''statuses'' 0 255) (\<lambda>stat.
     res_bind (six_integers temperatures0 ''temperatures_c'' 0 255) (\<lambda>temp.
       Inr \<lparr>captured_monotonic_s = captured, positions = pos, angles = ang, forces_g = force,
            currents_ma = current, errors = err, statuses = stat, temperatures_c = temp\<rparr>))))))))"

section \<open>What a passed check says\<close>

definition six_within :: "int \<Rightarrow> int \<Rightarrow> int list \<Rightarrow> bool" where
  "six_within lo hi ns = (length ns = 6 \<and> (\<forall>n \<in> set ns. lo \<le> n \<and> n \<le> hi))"

definition valid_feedback :: "safety_feedback \<Rightarrow> bool" where
  "valid_feedback f =
     (is_finite (captured_monotonic_s f) \<and>
      six_within (-32768) 32767 (positions f) \<and> six_within (-32768) 32767 (angles f) \<and>
      six_within (-32768) 32767 (forces_g f) \<and> six_within (-32768) 32767 (currents_ma f) \<and>
      six_within 0 255 (errors f) \<and> six_within 0 255 (statuses f) \<and> six_within 0 255 (temperatures_c f))"

lemma finite_float_PyFloat [simp]: "finite_float (PyFloat x) name =
    (if is_finite x then Inr x else Inl (Exn ValueError (name @ '' must be finite'')))"
  by (simp add: finite_float_def float_or_def)

lemma finite_float_Inr: "finite_float v name = Inr x \<Longrightarrow> is_finite x"
  by (auto simp: finite_float_def Let_def res_bind_Inr_iff split: if_splits)

lemma positive_float_Inr: "positive_float v name = Inr x \<Longrightarrow> is_finite x \<and> 0 < x"
  by (cases x) (auto simp: positive_float_def res_bind_Inr_iff zero_fl_def dest: finite_float_Inr split: if_splits)

lemma bounded_integer_Inr: "bounded_integer v name lo hi = Inr n \<Longrightarrow> lo \<le> n \<and> n \<le> hi"
  by (auto simp: bounded_integer_def Let_def res_bind_Inr_iff split: if_splits)

lemma check_indexed_Inr:
  "check_indexed f name i vs = Inr xs \<Longrightarrow> length xs = length vs \<and> (\<forall>x \<in> set xs. \<exists>v nm. f v nm = Inr x)"
  by (induction f name i vs arbitrary: xs rule: check_indexed.induct) (fastforce simp: res_bind_Inr_iff)+

lemma as_transport_error_Inr [simp]: "as_transport_error r = Inr x \<longleftrightarrow> r = Inr x"
  by (cases r) (auto simp: as_transport_error_def)

lemma six_integers_Inr: "six_integers v name lo hi = Inr ns \<Longrightarrow> six_within lo hi ns"
  by (auto simp: six_integers_def six_within_def RH56_AXIS_COUNT_def split: pyval.splits if_splits
      dest!: check_indexed_Inr bounded_integer_Inr)

lemma make_feedback_valid: "make_feedback c p a f cu e s t = Inr fb \<Longrightarrow> valid_feedback fb"
  by (auto simp: make_feedback_def res_bind_Inr_iff valid_feedback_def dest: six_integers_Inr finite_float_Inr)

text \<open>Small integers pass unchanged.\<close>

lemma rnd64_of_int: "\<bar>n\<bar> < 2 ^ 53 \<Longrightarrow> rnd64 (of_int n) = Fin (of_int n)"
  unfolding rnd64_def
  by (rule round_to_of_representable, unfold representable_def, rule exI [of _ n], rule exI [of _ 0]) simp

lemma bounded_integer_PyInt:
  assumes "lo \<le> n" "n \<le> hi" "\<bar>n\<bar> < 2 ^ 53"
  shows "bounded_integer (PyInt n) name lo hi = Inr n"
  using assms rnd64_of_int [OF assms(3)]
  by (simp add: bounded_integer_def float_or_def del: fl_trunc.simps)

lemma check_indexed_PyInt:
  assumes "\<And>n nm. n \<in> set ns \<Longrightarrow> f (PyInt n) nm = Inr n"
  shows "check_indexed f name i (map PyInt ns) = Inr ns"
  using assms by (induction ns arbitrary: i) auto

lemma six_integers_PyInt:
  assumes "six_within lo hi ns" "- (2 ^ 52) < lo" "hi < 2 ^ 52"
  shows "six_integers (PySeq (map PyInt ns)) name lo hi = Inr ns"
proof -
  have "bounded_integer (PyInt n) nm lo hi = Inr n" if "n \<in> set ns" for n nm
    using assms that by (intro bounded_integer_PyInt) (auto simp: six_within_def)
  then have "check_indexed (\<lambda>v n. bounded_integer v n lo hi) name 0 (map PyInt ns) = Inr ns"
    by (intro check_indexed_PyInt)
  then show ?thesis using assms(1) by (simp add: six_integers_def six_within_def RH56_AXIS_COUNT_def)
qed

section \<open>The transport interface\<close>

text \<open>
  \<open>RH56TransactionalTransport\<close>: the object the actuator is given, on a state \<open>'s\<close> of its own.
  What it returns is untyped: a readback is any object, \<open>None\<close> as feedback is an object
  of another class.
\<close>

definition ints :: "int list \<Rightarrow> pyval" where
  "ints ns = PySeq (map PyInt ns)"

lemma bounded_integer_exact: "\<bar>n\<bar> < 2 ^ 53 \<Longrightarrow> bounded_integer (PyInt n) nm lo hi = Inr m \<Longrightarrow> m = n"
  using rnd64_of_int [of n]
  by (auto simp: bounded_integer_def float_or_def Let_def simp del: fl_trunc.simps split: if_splits)

lemma check_indexed_exact:
  assumes "\<And>n nm m. n \<in> set ns \<Longrightarrow> f (PyInt n) nm = Inr m \<Longrightarrow> m = n"
  shows "check_indexed f name i (map PyInt ns) = Inr ms \<Longrightarrow> ms = ns"
  using assms by (induction ns arbitrary: i ms) (auto simp: res_bind_Inr_iff)

text \<open>A check of small integers returns them or raises.\<close>

lemma ints_targets:
  assumes "six_targets (ints ns) nm b = Inr ms" and "six_within (-32768) 32767 ns"
  shows "ints ns = ints ms"
proof -
  have small: "\<bar>n\<bar> < 2 ^ 53" if "n \<in> set ns" for n
    using assms(2) that by (fastforce simp: six_within_def)
  have c: "check_indexed (\<lambda>v n. bounded_integer v n (if b then -1 else 0) 1000) nm 0 (map PyInt ns) = Inr ms"
    using assms by (simp add: six_targets_def six_integers_def ints_def six_within_def RH56_AXIS_COUNT_def)
  have "ms = ns"
    by (rule check_indexed_exact [OF bounded_integer_exact c]) (use small in auto)
  then show ?thesis by simp
qed

record 's rh56_transport =
  transport_name :: string
  hardware_backed :: pyval
  transport_baud_rate :: pyval
  write_angle_set :: "int list \<Rightarrow> fl \<Rightarrow> ('s, unit) prog"
  read_angle_set :: "fl \<Rightarrow> ('s, pyval) prog"
  read_safety_feedback :: "fl \<Rightarrow> ('s, safety_feedback option) prog"

text \<open>
  What the actuator's lemmas use of it: an open session stays one, whether an operation
  returns or raises; a readback is six 16-bit values; a feedback sample passed the checks of
  its constructor and was complete by the caller's deadline.
\<close>

locale rh56_transport_contract =
  fixes T :: "'s rh56_transport" and session :: "'s \<Rightarrow> bool"
  assumes write_law: "session s \<Longrightarrow> wp (write_angle_set T ns d) (\<lambda>_. session) (\<lambda>_. session) s"
    and readback_law: "session s \<Longrightarrow>
      wp (read_angle_set T d) (\<lambda>v t. session t \<and> (\<exists>ns. v = ints ns \<and> six_within (-32768) 32767 ns))
        (\<lambda>_. session) s"
    and feedback_law: "session s \<Longrightarrow>
      wp (read_safety_feedback T d)
        (\<lambda>v t. session t \<and> (\<exists>f. v = Some f \<and> valid_feedback f \<and> captured_monotonic_s f \<le> d))
        (\<lambda>_. session) s"
begin

lemma readback_targets:
  assumes "session s"
  shows "wp (read_angle_set T d)
    (\<lambda>v t. session t \<and> (\<forall>nm b ns. six_targets v nm b = Inr ns \<longrightarrow> v = ints ns)) (\<lambda>_. session) s"
proof (rule wp_mono [OF readback_law [OF assms]])
  fix v t
  assume "session t \<and> (\<exists>ns. v = ints ns \<and> six_within (-32768) 32767 ns)"
  then show "session t \<and> (\<forall>nm b ns. six_targets v nm b = Inr ns \<longrightarrow> v = ints ns)"
    using ints_targets by blast
qed

end

end
