(* ===== verification/Linux_Transport.thy ===== *)
theory Linux_Transport
  imports RH56_Hand RH56_Feedback
begin

text \<open>
  \<open>robot_control/rh56/linux_transport.py\<close>: the deadline-bound transport between the
  actuator and one \<open>LinuxSerial\<close>. The record \<open>link\<close> is the transport object together with
  its serial object and its proxy's deadline. The kernel (\<open>os_calls\<close>), the module loader
  and the port discovery are the parameter \<open>host\<close>; the injected \<open>monotonic\<close> is the kernel's
  clock, its default. The loaded module is the record \<open>rh56_api\<close> of what the code looks up
  in it. \<open>RH56Hand.__init__\<close> only stores its arguments, so nothing after \<open>__enter__\<close>
  raises inside \<open>open\<close>.
\<close>

section \<open>State\<close>

record rh56_api =
  api_registers :: "string \<rightharpoonup> int"
  api_has_serial :: bool
  api_has_hand :: bool
  api_has_finder :: bool

record 'w host =
  host_os :: "'w os_calls"
  host_load_api :: "string \<Rightarrow> ('w, rh56_api) op"
  host_find_port :: "('w, string) op"

record 'w link =
  link_port :: "string option"
  link_resolved_port :: "string option"
  link_baud :: int
  link_hand_id :: int
  link_module_name :: string
  link_api :: "rh56_api option"
  open_attempted :: bool
  link_closed :: bool
  proxy_deadline :: "fl option"
  link_serial :: "'w serial_port"

definition RH56_COMPACT_READ_TOTAL_TIMEOUT_S :: fl where
  "RH56_COMPACT_READ_TOTAL_TIMEOUT_S = rnd64 (50 / 1000)"

definition transport_error :: "string \<Rightarrow> exn" where
  "transport_error m = Exn RH56LinuxTransportError m"

definition deadline_error :: "string \<Rightarrow> exn" where
  "deadline_error m = Exn RH56LinuxDeadlineExceeded m"

section \<open>Checks\<close>

text \<open>\<open>_finite_float\<close> and \<open>_bounded_integer\<close> of this module are those of the actuator.\<close>

definition angle_targets :: "pyval \<Rightarrow> exn + int list" where
  "angle_targets values =
     (let err = Exn ValueError ''ANGLE_SET must contain exactly six integers''
      in case values of
           PySeq raw \<Rightarrow>
             if length raw \<noteq> 6 then Inl err
             else check_indexed (\<lambda>v n. bounded_integer v n (-1) 1000) ''ANGLE_SET'' 0 raw
         | _ \<Rightarrow> Inl err)"

definition six_unsigned_settings :: "pyval \<Rightarrow> string \<Rightarrow> exn + int list" where
  "six_unsigned_settings values name =
     (let err = Exn ValueError (name @ '' must contain exactly six integers'')
      in case values of
           PySeq raw \<Rightarrow>
             if length raw \<noteq> 6 then Inl err
             else check_indexed (\<lambda>v n. bounded_integer v n 0 1000) name 0 raw
         | _ \<Rightarrow> Inl err)"

definition exact_bytes :: "byte list \<Rightarrow> int \<Rightarrow> string \<Rightarrow> exn + byte list" where
  "exact_bytes value expected_length operation =
     (if int (length value) \<noteq> expected_length
      then Inl (transport_error (operation @ '' returned '' @ int_str (int (length value))
             @ '' bytes, expected '' @ int_str expected_length))
      else Inr value)"

definition required_registers :: "string list" where
  "required_registers =
     [''REG_ANGLE_SET'', ''REG_POS_ACT'', ''REG_ANGLE_ACT'', ''REG_FORCE_ACT'', ''REG_CURRENT'',
      ''REG_ERROR'', ''REG_STATUS'', ''REG_TEMP'']"

definition adjacency :: "(string \<times> string \<times> int) list" where
  "adjacency =
     [(''REG_POS_ACT'', ''REG_ANGLE_ACT'', 12), (''REG_FORCE_ACT'', ''REG_CURRENT'', 12),
      (''REG_CURRENT'', ''REG_ERROR'', 12), (''REG_ERROR'', ''REG_STATUS'', 6),
      (''REG_STATUS'', ''REG_TEMP'', 6)]"

definition validate_register_map :: "rh56_api \<Rightarrow> exn + unit" where
  "validate_register_map api =
     (let missing = filter (\<lambda>name. api_registers api name = None) required_registers;
          reg = (\<lambda>name. the (api_registers api name))
      in if missing \<noteq> []
         then Inl (transport_error (''RH56 register map is incomplete: '' @ join '', '' missing))
         else case filter (\<lambda>(first, second, width). reg second \<noteq> reg first + width) adjacency of
                [] \<Rightarrow> Inr ()
              | (first, second, width) # _ \<Rightarrow>
                  Inl (transport_error (''RH56 compact register map is not contiguous: ''
                         @ first @ ''->'' @ second)))"

text \<open>The module \<open>examples.inspire_rh56_test\<close> itself.\<close>

definition inspire_api :: rh56_api where
  "inspire_api =
     \<lparr>api_registers = map_of
        [(''REG_ANGLE_SET'', REG_ANGLE_SET), (''REG_FORCE_SET'', REG_FORCE_SET),
         (''REG_SPEED_SET'', REG_SPEED_SET), (''REG_POS_ACT'', REG_POS_ACT),
         (''REG_ANGLE_ACT'', REG_ANGLE_ACT), (''REG_FORCE_ACT'', REG_FORCE_ACT),
         (''REG_CURRENT'', REG_CURRENT), (''REG_ERROR'', REG_ERROR),
         (''REG_STATUS'', REG_STATUS), (''REG_TEMP'', REG_TEMP)],
      api_has_serial = True, api_has_hand = True, api_has_finder = True\<rparr>"

section \<open>Calls on the parts\<close>

definition on_serial :: "('w serial_port, 'a) prog \<Rightarrow> ('w link, 'a) prog" where
  "on_serial m = on_part link_serial (\<lambda>p s. s\<lparr>link_serial := p\<rparr>) m"

definition host_call :: "('w, 'a) op \<Rightarrow> ('w link, 'a) prog" where
  "host_call f = on_serial (port_call f)"

definition link_now :: "'w host \<Rightarrow> ('w link, fl) prog" where
  "link_now h = bindP (host_call (os_now (host_os h))) (\<lambda>t. lift_res (finite_float (PyFloat t) ''monotonic clock''))"

section \<open>The serial proxy\<close>

definition bind_deadline :: "fl \<Rightarrow> ('w link, unit) prog" where
  "bind_deadline d =
     bindP (gets proxy_deadline) (\<lambda>bound.
       if bound \<noteq> None
       then throw (transport_error ''a second serial exchange was bound before the first completed'')
       else modify (\<lambda>s. s\<lparr>proxy_deadline := Some d\<rparr>))"

definition clear_deadline :: "'w link \<Rightarrow> 'w link" where
  "clear_deadline s = s\<lparr>proxy_deadline := None\<rparr>"

definition proxy_exchange :: "'w host \<Rightarrow> byte list \<Rightarrow> ('w link, byte list) prog" where
  "proxy_exchange h request =
     bindP (gets proxy_deadline) (\<lambda>bound.
     case bound of
       None \<Rightarrow> throw (transport_error ''RH56 serial exchange has no caller deadline'')
     | Some deadline \<Rightarrow>
         bindP (link_now h) (\<lambda>now.
         let remaining = deadline - now in
         if remaining \<le> 0 then throw (deadline_error ''RH56 serial deadline expired before exchange'')
         else
           bindP (finallyP
                    (on_serial (thenP (modify (\<lambda>p. p\<lparr>ser_timeout := remaining\<rparr>))
                                      (exchange (host_os h) request)))
                    clear_deadline) (\<lambda>response.
           bindP (link_now h) (\<lambda>finished.
           if deadline < finished
           then throw (deadline_error (''RH56 serial exchange exceeded caller deadline by ''
                         @ fixed_str 6 (finished - deadline) @ ''s''))
           else ret response))))"

section \<open>Lifecycle\<close>

definition make_link ::
    "string option \<Rightarrow> pyval \<Rightarrow> pyval \<Rightarrow> string \<Rightarrow> 'w serial_port \<Rightarrow> exn + 'w link" where
  "make_link port baud0 hand0 module0 p =
     (if (\<exists>q. port = Some q \<and> py_strip q = [])
      then Inl (Exn ValueError ''port must be non-empty or None for delayed discovery'')
      else res_bind (bounded_integer baud0 ''baud_rate'' 1 10000000) (\<lambda>baud.
           res_bind (bounded_integer hand0 ''hand_id'' 0 254) (\<lambda>hand.
             if py_strip module0 = [] then Inl (Exn ValueError ''api_module_name must be non-empty'')
             else Inr \<lparr>link_port = map_option py_strip port, link_resolved_port = None, link_baud = baud,
                       link_hand_id = hand, link_module_name = py_strip module0, link_api = None,
                       open_attempted = False, link_closed = False, proxy_deadline = None,
                       link_serial = p\<rparr>)))"

definition is_open :: "'w link \<Rightarrow> bool" where
  "is_open s = (link_api s \<noteq> None \<and> \<not> link_closed s)"

definition BAUD_CONSTANTS :: "int list" where
  "BAUD_CONSTANTS = [115200, 57600, 19200]"

definition open_api :: "'w host \<Rightarrow> ('w link, rh56_api \<times> string) prog" where
  "open_api h =
     bindP (gets link_module_name) (\<lambda>name.
     bindP (host_call (host_load_api h name)) (\<lambda>api.
     thenP (lift_res (validate_register_map api))
    (thenP (raise_if (\<not> api_has_serial api) (transport_error ''RH56 API has no LinuxSerial''))
    (thenP (raise_if (\<not> api_has_hand api) (transport_error ''RH56 API has no RH56Hand''))
    (bindP (gets link_port) (\<lambda>port.
     bindP (case port of
              None \<Rightarrow>
                thenP (raise_if (\<not> api_has_finder api)
                         (transport_error ''RH56 API has no delayed serial-port discovery''))
                      (bindP (host_call (host_find_port h)) (\<lambda>q. ret (py_strip q)))
            | Some q \<Rightarrow> ret q) (\<lambda>resolved.
     thenP (raise_if (resolved = []) (transport_error ''RH56 serial port resolved empty''))
    (bindP (gets link_baud) (\<lambda>baud.
     thenP (raise_if (baud \<notin> set BAUD_CONSTANTS)
              (Exn ValueError (''unsupported baud rate: '' @ int_str baud)))
    (thenP (on_serial (modify (\<lambda>p. new_serial 0 (kernel p))))
    (thenP (on_serial (serial_enter (host_os h)))
           (ret (api, resolved)))))))))))))"

definition open_transport :: "'w host \<Rightarrow> ('w link, unit) prog" where
  "open_transport h =
     bindP (gets (\<lambda>s. s)) (\<lambda>s.
     if is_open s then ret ()
     else if link_closed s then throw (transport_error ''RH56 serial transport is closed'')
     else if open_attempted s
     then throw (transport_error ''RH56 serial transport open already failed; construct a new instance'')
     else
       thenP (modify (\<lambda>s. s\<lparr>open_attempted := True\<rparr>))
      (bindP (catchP (open_api h) (\<lambda>e.
                if is_exit e \<or> exn_class e = RH56LinuxTransportError \<or> exn_class e = RH56LinuxDeadlineExceeded
                then throw e
                else throw (transport_error (''opening RH56 serial transport failed: ''
                              @ strip_or (exn_msg e) (class_name (exn_class e)))))) (\<lambda>(api, resolved).
       modify (\<lambda>s. s\<lparr>link_api := Some api, link_resolved_port := Some resolved, proxy_deadline := None\<rparr>))))"

definition close_transport :: "'w host \<Rightarrow> ('w link, unit) prog" where
  "close_transport h =
     bindP (gets (\<lambda>s. s)) (\<lambda>s.
     if link_closed s then ret ()
     else
       thenP (modify (\<lambda>s. s\<lparr>link_api := None, link_closed := True, proxy_deadline := None\<rparr>))
      (if link_api s = None then ret ()
       else catchP (on_serial (serial_exit (host_os h))) (\<lambda>e.
              if is_exit e then throw e
              else throw (transport_error (''closing RH56 serial transport failed: ''
                            @ strip_or (exn_msg e) (class_name (exn_class e)))))))"

section \<open>One operation under one deadline\<close>

definition require_open :: "('w link, rh56_api) prog" where
  "require_open =
     bindP (gets (\<lambda>s. s)) (\<lambda>s.
     case link_api s of
       Some api \<Rightarrow>
         if link_closed s then throw (transport_error ''RH56 serial transport is closed'') else ret api
     | None \<Rightarrow>
         throw (transport_error (''RH56 serial transport is ''
           @ (if link_closed s then ''closed'' else ''not open''))))"

definition check_deadline_value :: "pyval \<Rightarrow> exn + fl" where
  "check_deadline_value v =
     (case finite_float v ''deadline_monotonic_s'' of
        Inl e \<Rightarrow> if exn_class e = ValueError then Inl (transport_error (exn_msg e)) else Inl e
      | Inr d \<Rightarrow> Inr d)"

definition link_deadline :: "'w host \<Rightarrow> pyval \<Rightarrow> string \<Rightarrow> ('w link, fl) prog" where
  "link_deadline h v operation =
     bindP (lift_res (check_deadline_value v)) (\<lambda>deadline.
     bindP (link_now h) (\<lambda>now.
       if deadline \<le> now
       then throw (deadline_error (''RH56 '' @ operation @ '' deadline already expired''))
       else ret deadline))"

definition wrap_failure :: "string \<Rightarrow> exn \<Rightarrow> exn" where
  "wrap_failure operation e =
     (if is_exit e \<or> exn_class e = RH56LinuxDeadlineExceeded then e
      else transport_error (''RH56 '' @ operation @ '' failed: '' @ class_name (exn_class e) @ '': ''
             @ strip_or (exn_msg e) (class_name (exn_class e))))"

definition invoke ::
    "'w host \<Rightarrow> string \<Rightarrow> pyval \<Rightarrow> ('w link, 'a) prog \<Rightarrow> ('w link, 'a \<times> fl) prog" where
  "invoke h operation deadline0 callback =
     bindP (link_deadline h deadline0 operation) (\<lambda>deadline.
     thenP (bind_deadline deadline)
    (bindP (finallyP (catchP callback (\<lambda>e. throw (wrap_failure operation e))) clear_deadline) (\<lambda>result.
     bindP (link_now h) (\<lambda>finished.
       if deadline < finished
       then throw (deadline_error (''RH56 '' @ operation @ '' exceeded caller deadline by ''
                     @ fixed_str 6 (finished - deadline) @ ''s''))
       else ret (result, finished)))))"

definition invoke_compact_read ::
    "'w host \<Rightarrow> string \<Rightarrow> pyval \<Rightarrow> ('w link, 'a) prog \<Rightarrow> ('w link, 'a \<times> fl) prog" where
  "invoke_compact_read h operation deadline0 callback =
     bindP (link_deadline h deadline0 operation) (\<lambda>caller_deadline.
     bindP (link_now h) (\<lambda>now.
       let total_deadline = fl_min caller_deadline (now + RH56_COMPACT_READ_TOTAL_TIMEOUT_S)
       in invoke h (operation @ '' single read'') (PyFloat total_deadline) callback))"

definition check_decode_deadline :: "'w host \<Rightarrow> pyval \<Rightarrow> string \<Rightarrow> ('w link, unit) prog" where
  "check_decode_deadline h deadline0 operation =
     bindP (link_now h) (\<lambda>now.
     bindP (lift_res (check_deadline_value deadline0)) (\<lambda>deadline.
       if deadline < now
       then throw (deadline_error (''RH56 '' @ operation @ '' decode exceeded caller deadline by ''
                     @ fixed_str 6 (now - deadline) @ ''s''))
       else ret ()))"

section \<open>Register operations\<close>

text \<open>The hand over the proxy; with \<open>retries=0\<close> \<open>time.sleep\<close> is never called.\<close>

definition link_read :: "'w host \<Rightarrow> int \<Rightarrow> int \<Rightarrow> ('w link, byte list) prog" where
  "link_read h register n =
     bindP (gets link_hand_id) (\<lambda>hand_id.
       hand_read (proxy_exchange h) (\<lambda>_. ret ()) hand_id register n 0)"

definition link_write :: "'w host \<Rightarrow> int \<Rightarrow> int list \<Rightarrow> ('w link, unit) prog" where
  "link_write h register values =
     bindP (gets link_hand_id) (\<lambda>hand_id.
       write_six_shorts (proxy_exchange h) (\<lambda>_. ret ()) hand_id register values 0)"

text \<open>\<open>int(api.REG_...)\<close>; a missing attribute raises AttributeError.\<close>

definition register_of :: "rh56_api \<Rightarrow> string \<Rightarrow> exn + int" where
  "register_of api name =
     (case api_registers api name of
        None \<Rightarrow> Inl (Exn (OtherException ''AttributeError'') name)
      | Some r \<Rightarrow> Inr r)"

definition link_write_angle_set :: "'w host \<Rightarrow> pyval \<Rightarrow> pyval \<Rightarrow> ('w link, unit) prog" where
  "link_write_angle_set h values deadline0 =
     bindP require_open (\<lambda>api.
     bindP (lift_res (angle_targets values)) (\<lambda>targets.
     thenP (invoke h ''ANGLE_SET batch write'' deadline0
              (bindP (lift_res (register_of api ''REG_ANGLE_SET'')) (\<lambda>r. link_write h r targets)))
           (ret ())))"

definition link_read_angle_set :: "'w host \<Rightarrow> pyval \<Rightarrow> ('w link, int list) prog" where
  "link_read_angle_set h deadline0 =
     bindP require_open (\<lambda>api.
     bindP (invoke_compact_read h ''ANGLE_SET batch readback'' deadline0
              (bindP (lift_res (register_of api ''REG_ANGLE_SET'')) (\<lambda>r. link_read h r 12))) (\<lambda>(raw, _).
     bindP (lift_res (exact_bytes raw 12 ''ANGLE_SET batch readback'')) (\<lambda>packed.
     thenP (check_decode_deadline h deadline0 ''ANGLE_SET batch readback'')
           (ret (unpack_shorts packed)))))"

definition write_six_settings :: "'w host \<Rightarrow> string \<Rightarrow> pyval \<Rightarrow> pyval \<Rightarrow> ('w link, unit) prog" where
  "write_six_settings h name values deadline0 =
     bindP require_open (\<lambda>api.
     case api_registers api name of
       None \<Rightarrow> throw (transport_error (''RH56 API has no '' @ name))
     | Some r \<Rightarrow>
         bindP (lift_res (six_unsigned_settings values name)) (\<lambda>settings.
         thenP (invoke h (name @ '' batch write'') deadline0 (link_write h r settings)) (ret ())))"

definition read_six_settings :: "'w host \<Rightarrow> string \<Rightarrow> pyval \<Rightarrow> ('w link, int list) prog" where
  "read_six_settings h name deadline0 =
     bindP require_open (\<lambda>api.
     case api_registers api name of
       None \<Rightarrow> throw (transport_error (''RH56 API has no '' @ name))
     | Some r \<Rightarrow>
         bindP (invoke h (name @ '' batch readback'') deadline0 (link_read h r 12)) (\<lambda>(raw, _).
         bindP (lift_res (exact_bytes raw 12 (name @ '' batch readback''))) (\<lambda>packed.
         bindP (lift_res (six_unsigned_settings (PySeq (map PyInt (unpack_shorts packed))) name)) (\<lambda>settings.
         thenP (check_decode_deadline h deadline0 (name @ '' batch readback'')) (ret settings)))))"

definition link_write_speed_set :: "'w host \<Rightarrow> pyval \<Rightarrow> pyval \<Rightarrow> ('w link, unit) prog" where
  "link_write_speed_set h = write_six_settings h ''REG_SPEED_SET''"

definition link_read_speed_set :: "'w host \<Rightarrow> pyval \<Rightarrow> ('w link, int list) prog" where
  "link_read_speed_set h = read_six_settings h ''REG_SPEED_SET''"

definition link_write_force_set :: "'w host \<Rightarrow> pyval \<Rightarrow> pyval \<Rightarrow> ('w link, unit) prog" where
  "link_write_force_set h = write_six_settings h ''REG_FORCE_SET''"

definition link_read_force_set :: "'w host \<Rightarrow> pyval \<Rightarrow> ('w link, int list) prog" where
  "link_read_force_set h = read_six_settings h ''REG_FORCE_SET''"

definition bytes_ints :: "byte list \<Rightarrow> int list" where
  "bytes_ints = map uint"

definition slice :: "nat \<Rightarrow> nat \<Rightarrow> 'a list \<Rightarrow> 'a list" where
  "slice a b xs = take (b - a) (drop a xs)"

definition link_read_safety_feedback :: "'w host \<Rightarrow> pyval \<Rightarrow> ('w link, safety_feedback) prog" where
  "link_read_safety_feedback h deadline0 =
     bindP require_open (\<lambda>api.
     bindP (invoke_compact_read h ''POS_ACT/ANGLE_ACT compact read'' deadline0
              (bindP (lift_res (register_of api ''REG_POS_ACT'')) (\<lambda>r. link_read h r 24))) (\<lambda>(raw1, _).
     bindP (lift_res (exact_bytes raw1 24 ''POS_ACT/ANGLE_ACT compact read'')) (\<lambda>packed1.
     let position_angle = unpack_shorts packed1 in
     bindP (invoke_compact_read h ''FORCE/CURRENT/ERROR/STATUS/TEMP compact read'' deadline0
              (bindP (lift_res (register_of api ''REG_FORCE_ACT'')) (\<lambda>r. link_read h r 42))) (\<lambda>(raw2, last_response).
     bindP (lift_res (exact_bytes raw2 42 ''FORCE/CURRENT/ERROR/STATUS/TEMP compact read'')) (\<lambda>safety.
     bindP (lift_res (make_feedback (PyFloat last_response)
              (ints (take 6 position_angle)) (ints (drop 6 position_angle))
              (ints (unpack_shorts (take 12 safety))) (ints (unpack_shorts (slice 12 24 safety)))
              (ints (bytes_ints (slice 24 30 safety))) (ints (bytes_ints (slice 30 36 safety)))
              (ints (bytes_ints (slice 36 42 safety))))) (\<lambda>feedback.
     thenP (check_decode_deadline h deadline0 ''compact safety feedback'')
           (ret feedback)))))))"

section \<open>What an operation keeps and gives\<close>

abbreviation link_late :: "'w link \<Rightarrow> int \<times> int \<rightharpoonup> int" where
  "link_late s \<equiv> late_write_acks (link_serial s)"

text \<open>The parts no register operation touches; the debts stay well formed.\<close>

definition steady :: "'w link \<Rightarrow> 'w link \<Rightarrow> bool" where
  "steady s t =
     (link_port t = link_port s \<and> link_resolved_port t = link_resolved_port s \<and>
      link_baud t = link_baud s \<and> link_hand_id t = link_hand_id s \<and>
      link_module_name t = link_module_name s \<and> link_api t = link_api s \<and>
      open_attempted t = open_attempted s \<and> link_closed t = link_closed s \<and>
      debts_ok (link_late t))"

lemma steady_refl: "debts_ok (link_late s) \<Longrightarrow> steady s s"
  by (simp add: steady_def)

lemma steady_simps [simp]:
  "steady s (t\<lparr>link_serial := (link_serial t)\<lparr>kernel := w\<rparr>\<rparr>) = steady s t"
  "steady s (t\<lparr>proxy_deadline := d\<rparr>) = steady s t"
  "steady s (t\<lparr>proxy_deadline := d, link_serial := p\<rparr>) = steady s (t\<lparr>link_serial := p\<rparr>)"
  "steady s (clear_deadline t) = steady s t"
  by (simp_all add: steady_def clear_deadline_def)

lemma steady_serial: "steady s t \<Longrightarrow> debts_ok (late_write_acks p) \<Longrightarrow> steady s (t\<lparr>link_serial := p\<rparr>)"
  by (simp add: steady_def)

lemma steady_hand: "steady s t \<Longrightarrow> link_hand_id t = link_hand_id s"
  by (simp add: steady_def)

lemma steady_debts: "steady s t \<Longrightarrow> debts_ok (link_late t)"
  by (simp add: steady_def)

lemma wp_on_serial [simp]:
  "wp (on_serial m) Q E s =
     wp m (\<lambda>x p. Q x (s\<lparr>link_serial := p\<rparr>)) (\<lambda>e p. E e (s\<lparr>link_serial := p\<rparr>)) (link_serial s)"
  by (simp add: on_serial_def)

lemma wp_link_now:
  assumes "\<And>v w. is_finite v \<Longrightarrow> Q v (s\<lparr>link_serial := (link_serial s)\<lparr>kernel := w\<rparr>\<rparr>)"
    and "\<And>e w. E e (s\<lparr>link_serial := (link_serial s)\<lparr>kernel := w\<rparr>\<rparr>)"
  shows "wp (link_now h) Q E s"
  using assms by (auto simp: link_now_def host_call_def Let_def split: prod.splits sum.splits)

lemma exchange_steady:
  assumes "debts_ok (late_write_acks p)" "request \<noteq> []"
  shows "wp (exchange os request)
    (\<lambda>f q. debts_ok (late_write_acks q) \<and> (\<forall>k. exact_write_ack_identity f = Some k \<longrightarrow> late_write_acks q k = None))
    (\<lambda>_ q. debts_ok (late_write_acks q)) p"
  by (rule wp_mono [OF exchange_wp [of os "\<lambda>_. True"]])
    (use assms in \<open>auto simp: keeps_unsent_def answered_def unanswered_def\<close>)

lemma wp_proxy_exchange:
  assumes s: "steady s0 s" and ne: "request \<noteq> []"
  shows "wp (proxy_exchange h request)
    (\<lambda>f t. steady s0 t \<and> (\<forall>k. exact_write_ack_identity f = Some k \<longrightarrow> link_late t k = None))
    (\<lambda>_. steady s0) s"
  using s unfolding proxy_exchange_def
  by (auto simp: Let_def clear_deadline_def ne steady_debts
      intro!: wp_link_now wp_mono [OF exchange_steady] steady_serial)

lemma wp_link_write:
  assumes "steady s0 s"
  shows "wp (link_write h register values)
    (\<lambda>_ t. steady s0 t \<and> link_late t (link_hand_id s0, register) = None) (\<lambda>_. steady s0) s"
proof -
  have "wp (hand_write (proxy_exchange h) (\<lambda>_. ret ()) (link_hand_id s) register data 0)
      (\<lambda>_ t. steady s0 t \<and> link_late t (link_hand_id s0, register) = None) (\<lambda>_. steady s0) s" for data
    by (rule wp_mono [OF wp_hand_write [where Pre = "steady s0" and
          G = "\<lambda>f t. \<forall>k. exact_write_ack_identity f = Some k \<longrightarrow> link_late t k = None"]])
      (use assms in \<open>auto intro: wp_proxy_exchange simp: steady_hand simp del: split_paired_All\<close>)
  then show ?thesis
    using assms by (auto simp: link_write_def write_six_shorts_def split: sum.splits)
qed

lemma wp_link_read:
  assumes "steady s0 s"
  shows "wp (link_read h register n) (\<lambda>data t. steady s0 t \<and> int (length data) = n) (\<lambda>_. steady s0) s"
  unfolding link_read_def
  by (auto intro!: wp_hand_read [where Pre = "steady s0"] wp_mono [OF wp_proxy_exchange] assms)

text \<open>Between operations no deadline is bound.\<close>

definition idle :: "'w link \<Rightarrow> 'w link \<Rightarrow> bool" where
  "idle s t = (steady s t \<and> proxy_deadline t = None)"

lemma check_deadline_value_Inr: "check_deadline_value v = Inr d \<Longrightarrow> is_finite d"
  by (auto simp: check_deadline_value_def dest: finite_float_Inr split: sum.splits if_splits)

lemma check_deadline_PyFloat: "check_deadline_value (PyFloat d) = Inr d' \<Longrightarrow> d' = d"
  by (auto simp: check_deadline_value_def split: if_splits)

lemma wp_invoke:
  assumes s: "idle s0 s"
    and cb: "\<And>t. steady s0 t \<Longrightarrow> wp callback (\<lambda>x t. steady s0 t \<and> G x (link_late t)) (\<lambda>_. steady s0) t"
  shows "wp (invoke h operation deadline0 callback)
    (\<lambda>(x, finished) t. idle s0 t \<and> G x (link_late t) \<and> is_finite finished \<and>
       (\<exists>d. check_deadline_value deadline0 = Inr d \<and> finished \<le> d))
    (\<lambda>_. idle s0) s"
proof -
  have le: "x \<le> d" if "is_finite x" "check_deadline_value deadline0 = Inr d" "\<not> d < x" for x d
    using that fl_not_less check_deadline_value_Inr by blast
  show ?thesis
    using s le unfolding invoke_def link_deadline_def bind_deadline_def idle_def
    by (auto simp: clear_deadline_def intro!: wp_link_now wp_mono [OF cb] split: if_splits sum.splits)
qed

lemma fl_min_le: "is_finite x \<Longrightarrow> z \<le> fl_min x y \<Longrightarrow> z \<le> x"
  using fl_le_trans fl_less_imp_le by (auto simp: fl_min_def split: if_splits)

lemma wp_invoke_compact_read:
  assumes s: "idle s0 s"
    and cb: "\<And>t. steady s0 t \<Longrightarrow> wp callback (\<lambda>x t. steady s0 t \<and> G x (link_late t)) (\<lambda>_. steady s0) t"
  shows "wp (invoke_compact_read h operation deadline0 callback)
    (\<lambda>(x, finished) t. idle s0 t \<and> G x (link_late t) \<and> is_finite finished \<and>
       (\<exists>d. check_deadline_value deadline0 = Inr d \<and> finished \<le> d))
    (\<lambda>_. idle s0) s"
proof -
  have inner: "wp (invoke h op (PyFloat (fl_min d e)) callback)
      (\<lambda>(x, finished) t. idle s0 t \<and> G x (link_late t) \<and> is_finite finished \<and>
         (\<exists>d'. check_deadline_value deadline0 = Inr d' \<and> finished \<le> d'))
      (\<lambda>_. idle s0) t"
    if d: "check_deadline_value deadline0 = Inr d" and t: "idle s0 t" for op d e t
  proof -
    have bound: "finished \<le> d" if "check_deadline_value (PyFloat (fl_min d e)) = Inr m" "finished \<le> m" for finished m
      using that check_deadline_PyFloat [of "fl_min d e" m] fl_min_le check_deadline_value_Inr [OF d] by blast
    show ?thesis
      by (rule wp_mono [OF wp_invoke [OF t cb]]) (use bound d in \<open>auto split: prod.splits\<close>)
  qed
  show ?thesis
    using s unfolding invoke_compact_read_def link_deadline_def
    by (auto simp: idle_def Let_def intro!: wp_link_now wp_mono [OF inner] split: sum.splits)
qed

lemma wp_require_open:
  assumes "idle s0 s"
  shows "wp require_open (\<lambda>api t. idle s0 t \<and> link_api s0 = Some api) (\<lambda>_. idle s0) s"
  using assms by (auto simp: require_open_def idle_def steady_def split: option.splits)

lemma wp_check_decode_deadline:
  "idle s0 s \<Longrightarrow> wp (check_decode_deadline h deadline0 op) (\<lambda>_. idle s0) (\<lambda>_. idle s0) s"
  by (auto simp: check_decode_deadline_def idle_def intro!: wp_link_now split: sum.splits)

lemma idle_steady: "idle s t \<Longrightarrow> steady s t"
  by (simp add: idle_def)

text \<open>A register callback, with the address looked up when it runs.\<close>

lemma read_callback:
  "steady s0 t \<Longrightarrow>
   wp (bindP (lift_res (register_of api name)) (\<lambda>r. link_read h r n))
     (\<lambda>x t. steady s0 t \<and> int (length x) = n) (\<lambda>_. steady s0) t"
  by (auto intro!: wp_link_read split: sum.splits)

lemma write_callback:
  "steady s0 t \<Longrightarrow>
   wp (bindP (lift_res (register_of api name)) (\<lambda>r. link_write h r ns))
     (\<lambda>x t. steady s0 t \<and> (\<forall>r. api_registers api name = Some r \<longrightarrow> link_late t (link_hand_id s0, r) = None))
     (\<lambda>_. steady s0) t"
  by (auto simp: register_of_def intro!: wp_mono [OF wp_link_write] split: sum.splits option.splits)

lemma wp_link_write_angle_set:
  assumes "idle s0 s"
  shows "wp (link_write_angle_set h values deadline0)
    (\<lambda>_ t. idle s0 t \<and> (\<forall>api r. link_api s0 = Some api \<and> api_registers api ''REG_ANGLE_SET'' = Some r \<longrightarrow>
       link_late t (link_hand_id s0, r) = None))
    (\<lambda>_. idle s0) s"
  unfolding link_write_angle_set_def
  using assms
  by (auto intro!: wp_mono [OF wp_require_open]
      wp_mono [OF wp_invoke [OF _ write_callback]] split: sum.splits)

lemma six_within_unpack:
  "even (length bs) \<Longrightarrow> length bs = 12 \<Longrightarrow> six_within (-32768) 32767 (unpack_shorts bs)"
proof -
  have "\<forall>n \<in> set (unpack_shorts bs). -32768 \<le> n \<and> n \<le> 32767" for bs
    by (induction bs rule: unpack_shorts.induct) (auto simp: unpack_short_range)
  then show "length bs = 12 \<Longrightarrow> six_within (-32768) 32767 (unpack_shorts bs)"
    by (simp add: six_within_def unpack_shorts_length)
qed

lemma wp_link_read_angle_set:
  assumes "idle s0 s"
  shows "wp (link_read_angle_set h deadline0) (\<lambda>ns t. idle s0 t \<and> six_within (-32768) 32767 ns) (\<lambda>_. idle s0) s"
  unfolding link_read_angle_set_def
  using assms
  by (auto simp: exact_bytes_def six_within_unpack intro!: wp_mono [OF wp_require_open]
      wp_mono [OF wp_invoke_compact_read [OF _ read_callback]] wp_mono [OF wp_check_decode_deadline]
      split: sum.splits if_splits)

lemma six_unsigned_settings_Inr: "six_unsigned_settings v name = Inr ns \<Longrightarrow> six_within 0 1000 ns"
  by (auto simp: six_unsigned_settings_def six_within_def Let_def split: pyval.splits if_splits
      dest!: check_indexed_Inr bounded_integer_Inr)

lemma angle_targets_Inr: "angle_targets v = Inr ns \<Longrightarrow> six_within (-1) 1000 ns"
  by (auto simp: angle_targets_def six_within_def Let_def split: pyval.splits if_splits
      dest!: check_indexed_Inr bounded_integer_Inr)

lemma wp_settings:
  assumes "idle s0 s"
  shows "wp (write_six_settings h name values deadline0) (\<lambda>_. idle s0) (\<lambda>_. idle s0) s"
    and "wp (read_six_settings h name deadline0) (\<lambda>ns t. idle s0 t \<and> six_within 0 1000 ns) (\<lambda>_. idle s0) s"
proof -
  have w: "wp (link_write h r ns) (\<lambda>x t. steady s0 t \<and> True) (\<lambda>_. steady s0) t" if "steady s0 t" for r ns t
    by (rule wp_mono [OF wp_link_write [OF that]]) auto
  show "wp (write_six_settings h name values deadline0) (\<lambda>_. idle s0) (\<lambda>_. idle s0) s"
    unfolding write_six_settings_def
    using assms
    by (auto intro!: wp_mono [OF wp_require_open] wp_mono [OF wp_invoke [OF _ w]] split: sum.splits)
  show "wp (read_six_settings h name deadline0) (\<lambda>ns t. idle s0 t \<and> six_within 0 1000 ns) (\<lambda>_. idle s0) s"
    unfolding read_six_settings_def
    using assms
    by (auto simp: six_unsigned_settings_Inr intro!: wp_mono [OF wp_require_open]
        wp_mono [OF wp_invoke [OF _ wp_link_read]] wp_mono [OF wp_check_decode_deadline]
        split: sum.splits)
qed

lemma make_feedback_captured:
  "make_feedback (PyFloat x) p a f c e s t = Inr fb \<Longrightarrow> valid_feedback fb \<and> captured_monotonic_s fb = x"
  by (frule make_feedback_valid) (auto simp: make_feedback_def res_bind_Inr_iff split: if_splits)

lemma wp_link_read_safety_feedback:
  assumes "idle s0 s"
  shows "wp (link_read_safety_feedback h deadline0)
    (\<lambda>f t. idle s0 t \<and> valid_feedback f \<and>
       (\<exists>d. check_deadline_value deadline0 = Inr d \<and> captured_monotonic_s f \<le> d))
    (\<lambda>_. idle s0) s"
  unfolding link_read_safety_feedback_def
  using assms
  by (auto simp: Let_def intro!: wp_mono [OF wp_require_open]
      wp_mono [OF wp_invoke_compact_read [OF _ read_callback]] wp_mono [OF wp_check_decode_deadline]
      dest!: make_feedback_captured split: sum.splits)

section \<open>Operations of an open transport\<close>

datatype link_op =
    WriteAngleSet pyval pyval | ReadAngleSet pyval | ReadSafetyFeedback pyval
  | WriteSpeedSet pyval pyval | ReadSpeedSet pyval | WriteForceSet pyval pyval | ReadForceSet pyval

definition discard :: "('s, 'a) prog \<Rightarrow> ('s, unit) prog" where
  "discard m = thenP m (ret ())"

fun link_run :: "'w host \<Rightarrow> link_op \<Rightarrow> ('w link, unit) prog" where
  "link_run h (WriteAngleSet v d) = link_write_angle_set h v d"
| "link_run h (ReadAngleSet d) = discard (link_read_angle_set h d)"
| "link_run h (ReadSafetyFeedback d) = discard (link_read_safety_feedback h d)"
| "link_run h (WriteSpeedSet v d) = link_write_speed_set h v d"
| "link_run h (ReadSpeedSet d) = discard (link_read_speed_set h d)"
| "link_run h (WriteForceSet v d) = link_write_force_set h v d"
| "link_run h (ReadForceSet d) = discard (link_read_force_set h d)"

lemma wp_link_run: "idle s0 s \<Longrightarrow> wp (link_run h op) (\<lambda>_. idle s0) (\<lambda>_. idle s0) s"
  by (cases op)
    (auto simp: discard_def link_write_speed_set_def link_read_speed_set_def link_write_force_set_def
      link_read_force_set_def intro!: wp_mono [OF wp_link_write_angle_set] wp_mono [OF wp_link_read_angle_set]
      wp_mono [OF wp_link_read_safety_feedback] wp_mono [OF wp_settings(1)] wp_mono [OF wp_settings(2)])

text \<open>An operation leaves the transport as it found it: whether it returns or raises, no
  deadline stays bound to the serial proxy, the lifecycle and the device address are
  unchanged and the recorded debts are well formed, so the next operation starts afresh.\<close>

theorem operation_leaves_transport_idle:
  assumes "link_run h op s = Some (r, t)" and "proxy_deadline s = None" and "debts_ok (link_late s)"
  shows "proxy_deadline t = None \<and> debts_ok (link_late t) \<and> link_api t = link_api s \<and>
    link_closed t = link_closed s \<and> link_hand_id t = link_hand_id s"
proof -
  have "idle s s" using assms by (simp add: idle_def steady_refl)
  from wp_link_run [OF this, of h op] have "idle s t"
    using assms(1) by (cases r) (auto simp: wp_def)
  then show ?thesis by (simp add: idle_def steady_def)
qed

text \<open>
  The frames of a write. \<open>offered_from s t\<close>: nothing was taken off the line since \<open>s\<close> and the debts
  are the same.
\<close>

definition offered_from :: "'w link \<Rightarrow> 'w link \<Rightarrow> bool" where
  "offered_from s t =
     (frames_taken (link_serial t) = frames_taken (link_serial s) \<and> link_late t = link_late s \<and>
      link_hand_id t = link_hand_id s \<and> link_api t = link_api s)"

lemma offered_from_simps [simp]:
  "offered_from s s" "offered_from s (t\<lparr>proxy_deadline := d\<rparr>) = offered_from s t"
  "offered_from s (t\<lparr>link_serial := (link_serial t)\<lparr>kernel := w\<rparr>\<rparr>) = offered_from s t"
  "offered_from s (t\<lparr>link_serial := (link_serial t)\<lparr>kernel := w\<rparr>, proxy_deadline := d\<rparr>) = offered_from s t"
  by (simp_all add: offered_from_def)

abbreviation link_accepted :: "'w link \<Rightarrow> byte list \<Rightarrow> 'w link \<Rightarrow> bool" where
  "link_accepted s f t \<equiv> accepted (frames_taken (link_serial s)) (link_late s) f (frames_taken (link_serial t))"

lemma proxy_frames:
  assumes "offered_from s t" "debts_ok (link_late s)"
  shows "wp (proxy_exchange h request) (link_accepted s) (\<lambda>_ _. True) t"
proof -
  have ex: "wp (exchange (host_os h) request)
      (\<lambda>f p. accepted (frames_taken (link_serial s)) (link_late s) f (frames_taken p)) (\<lambda>_ _. True)
      ((link_serial t)\<lparr>kernel := w, ser_timeout := d\<rparr>)" for w d
    using exchange_frames [of "(link_serial t)\<lparr>kernel := w, ser_timeout := d\<rparr>" "host_os h" request] assms
    by (simp add: offered_from_def)
  then show ?thesis
    unfolding proxy_exchange_def
    by (auto simp: Let_def clear_deadline_def intro!: wp_link_now wp_mono [OF ex])
qed

lemma link_write_frames:
  assumes "offered_from s t" "debts_ok (link_late s)"
  shows "wp (link_write h register values)
    (\<lambda>_ u. \<exists>f. link_accepted s f u \<and> exact_write_ack_identity f = Some (link_hand_id s, register)) (\<lambda>_ _. True) t"
proof -
  have "link_hand_id t = link_hand_id s" using assms(1) by (simp add: offered_from_def)
  then show ?thesis
    using wp_hand_write_once [where G = "link_accepted s" and s = t, OF proxy_frames [OF assms]]
    by (auto simp: link_write_def write_six_shorts_def split: sum.splits)
qed

lemma write_angle_set_frames:
  assumes "debts_ok (link_late s)" "link_api s = Some inspire_api"
  shows "wp (link_write_angle_set h values deadline0)
    (\<lambda>_ u. \<exists>f. link_accepted s f u \<and> exact_write_ack_identity f = Some (link_hand_id s, 1486)) (\<lambda>_ _. True) s"
proof -
  have reg: "register_of inspire_api ''REG_ANGLE_SET'' = Inr 1486"
    by (simp add: register_of_def inspire_api_def REG_ANGLE_SET_def)
  have inv: "wp (invoke h op deadline0 (bindP (lift_res (register_of inspire_api ''REG_ANGLE_SET'')) (\<lambda>r. link_write h r ts)))
      (\<lambda>_ u. \<exists>f. link_accepted s f u \<and> exact_write_ack_identity f = Some (link_hand_id s, 1486)) (\<lambda>_ _. True) s" for op ts
    unfolding invoke_def link_deadline_def bind_deadline_def
    by (auto simp: reg clear_deadline_def intro!: wp_link_now wp_mono [OF link_write_frames [OF _ assms(1)]]
        split: sum.splits) blast
  show ?thesis
    unfolding link_write_angle_set_def require_open_def
    using assms(2) by (auto intro!: wp_mono [OF inv] split: sum.splits option.splits)
qed

text \<open>C28. A numeric write that returns was acknowledged: a successful \<open>write_angle_set\<close> has taken an
  acknowledgement of ANGLE_SET of this hand off the line, and before it exactly as many of the same
  register as earlier writes still owed, so that the one it rests on is not a late one of theirs.
  After it none is outstanding for the register.\<close>

theorem acknowledged_write_settles_register:
  assumes "link_write_angle_set h values deadline0 s = Some (Inr (), t)"
    and "proxy_deadline s = None" and "debts_ok (link_late s)" and "link_api s = Some inspire_api"
  shows "\<exists>late f. frames_taken (link_serial t) = frames_taken (link_serial s) @ late @ [f] \<and>
    exact_write_ack_identity f = Some (link_hand_id s, 1486) \<and>
    acks_of (link_hand_id s, 1486) late = ack_debt (link_late s) (link_hand_id s, 1486) \<and>
    link_late t (link_hand_id s, 1486) = None"
proof -
  have "idle s s" using assms by (simp add: idle_def steady_refl)
  from wp_Inr [OF assms(1) wp_link_write_angle_set [OF this]]
  have "link_late t (link_hand_id s, 1486) = None"
    using assms(4) by (auto simp: inspire_api_def REG_ANGLE_SET_def)
  with wp_Inr [OF assms(1) write_angle_set_frames [OF assms(3,4)]] show ?thesis
    unfolding accepted_def by blast
qed

text \<open>A feedback sample is well formed and in time: every field is six integers of its
  register's range, and the completion time it carries is not after the caller's deadline.\<close>

theorem feedback_in_time:
  assumes "link_read_safety_feedback h (PyFloat d) s = Some (Inr f, t)"
    and "proxy_deadline s = None" and "debts_ok (link_late s)" and "is_finite d"
  shows "valid_feedback f \<and> captured_monotonic_s f \<le> d"
proof -
  have "idle s s" using assms by (simp add: idle_def steady_refl)
  from wp_Inr [OF assms(1) wp_link_read_safety_feedback [OF this]] show ?thesis
    using assms(4) by (auto simp: check_deadline_value_def)
qed

lemma require_open_closed:
  "link_closed s \<or> link_api s = None \<Longrightarrow> \<exists>m. require_open s = Some (Inl (Exn RH56LinuxTransportError m), s)"
  by (auto simp: require_open_def bindP_def gets_def throw_def transport_error_def split: option.split)

lemma link_run_closed:
  assumes "link_closed s \<or> link_api s = None"
  shows "\<exists>m. link_run h op s = Some (Inl (Exn RH56LinuxTransportError m), s)"
proof -
  obtain m where m: "require_open s = Some (Inl (Exn RH56LinuxTransportError m), s)"
    using require_open_closed [OF assms] by blast
  show ?thesis
    by (cases op)
      (auto simp: discard_def thenP_def link_write_speed_set_def link_read_speed_set_def
        link_write_force_set_def link_read_force_set_def link_write_angle_set_def link_read_angle_set_def
        link_read_safety_feedback_def write_six_settings_def read_six_settings_def bindP_def m)
qed

lemma close_transport_closes:
  fixes h :: "'w host"
  shows "wp (close_transport h) (\<lambda>_. link_closed) (\<lambda>_. link_closed) s"
proof -
  have m: "wp (on_serial m) (\<lambda>_. link_closed) (\<lambda>_. link_closed) t"
    if "link_closed t" for m :: "('w serial_port, unit) prog" and t :: "'w link"
    using that by (simp add: wp_def on_serial_def on_part_def split: option.split sum.split prod.split)
  then show ?thesis
    by (auto simp: close_transport_def simp del: wp_on_serial intro!: wp_mono [OF m])
qed

text \<open>A closed transport is inert: once \<open>close\<close> has run, even if it raised, every register
  operation and every attempt to reopen raises and leaves the transport, its serial port
  and the kernel exactly as they were.\<close>

theorem closed_transport_is_inert:
  assumes "close_transport h s = Some (r, t)"
  shows "(\<exists>m. link_run h op t = Some (Inl (Exn RH56LinuxTransportError m), t)) \<and>
    (\<exists>m. open_transport h t = Some (Inl (Exn RH56LinuxTransportError m), t))"
proof -
  have c: "link_closed t"
    using assms close_transport_closes [of h s] by (cases r) (auto simp: wp_def)
  then have "open_transport h t = Some (Inl (transport_error ''RH56 serial transport is closed''), t)"
    by (simp add: open_transport_def bindP_def gets_def is_open_def throw_def)
  with link_run_closed [of t h op] c show ?thesis by (auto simp: transport_error_def)
qed

section \<open>The interface contract holds\<close>

text \<open>The Linux transport as the object the actuator is given.\<close>

definition linux_transport :: "'w host \<Rightarrow> string \<Rightarrow> int \<Rightarrow> 'w link rh56_transport" where
  "linux_transport h name baud =
     \<lparr>transport_name = name, hardware_backed = PyBool True, transport_baud_rate = PyInt baud,
      write_angle_set = (\<lambda>ns d. link_write_angle_set h (ints ns) (PyFloat d)),
      read_angle_set = (\<lambda>d. bindP (link_read_angle_set h (PyFloat d)) (\<lambda>ns. ret (ints ns))),
      read_safety_feedback = (\<lambda>d. bindP (link_read_safety_feedback h (PyFloat d)) (\<lambda>f. ret (Some f)))\<rparr>"

definition link_session :: "'w link \<Rightarrow> bool" where
  "link_session s = (proxy_deadline s = None \<and> debts_ok (link_late s))"

lemma idle_session: "idle s0 s \<Longrightarrow> link_session s"
  by (simp add: idle_def link_session_def steady_def)

lemma session_idle: "link_session s \<Longrightarrow> idle s s"
  by (simp add: idle_def link_session_def steady_refl)

lemma check_deadline_le: "check_deadline_value (PyFloat d) = Inr m \<Longrightarrow> x \<le> m \<Longrightarrow> x \<le> d"
  using check_deadline_PyFloat by blast

interpretation linux: rh56_transport_contract "linux_transport h name baud" link_session
  for h :: "'w host" and name baud
proof
  fix s :: "'w link" and ns d
  assume s: "link_session s"
  note i = session_idle [OF s]
  show "wp (write_angle_set (linux_transport h name baud) ns d) (\<lambda>_. link_session) (\<lambda>_. link_session) s"
    by (auto simp: linux_transport_def intro!: wp_mono [OF wp_link_write_angle_set [OF i]] idle_session)
  show "wp (read_angle_set (linux_transport h name baud) d)
      (\<lambda>v t. link_session t \<and> (\<exists>ns. v = ints ns \<and> six_within (-32768) 32767 ns)) (\<lambda>_. link_session) s"
    by (auto simp: linux_transport_def intro!: wp_mono [OF wp_link_read_angle_set [OF i]] dest: idle_session)
  show "wp (read_safety_feedback (linux_transport h name baud) d)
      (\<lambda>v t. link_session t \<and> (\<exists>f. v = Some f \<and> valid_feedback f \<and> captured_monotonic_s f \<le> d))
      (\<lambda>_. link_session) s"
    by (auto simp: linux_transport_def intro!: wp_mono [OF wp_link_read_safety_feedback [OF i]]
        dest: idle_session check_deadline_le)
qed

section \<open>Instances\<close>

definition host_ex :: "script host" where
  "host_ex = \<lparr>host_os = script_os, host_load_api = (\<lambda>name w. (Inr inspire_api, w)),
     host_find_port = (\<lambda>w. (Inr ''/dev/ttyUSB0'', w))\<rparr>"

text \<open>An open transport to hand 1 whose line owes \<open>n\<close> acknowledgements and delivers \<open>chunks\<close>.\<close>

definition link_ex :: "int \<Rightarrow> byte list list \<Rightarrow> script link" where
  "link_ex n chunks =
     \<lparr>link_port = None, link_resolved_port = Some ''/dev/ttyUSB0'', link_baud = 115200, link_hand_id = 1,
      link_module_name = ''examples.inspire_rh56_test'', link_api = Some inspire_api,
      open_attempted = True, link_closed = False, proxy_deadline = None, link_serial = port_ex n chunks\<rparr>"

definition feedback_chunks :: "byte list list" where
  "feedback_chunks =
     [response_frame 1 READ_COMMAND 1534 (replicate 24 0),
      response_frame 1 READ_COMMAND 1582 (replicate 30 0 @ replicate 6 2 @ replicate 6 30)]"

definition succeeded :: "((exn + 'a) \<times> 's) option \<Rightarrow> bool" where
  "succeeded x = (case x of Some (Inr _, _) \<Rightarrow> True | _ \<Rightarrow> False)"

lemma succeeded_Some: "succeeded x \<Longrightarrow> \<exists>v t. x = Some (Inr v, t)"
  by (auto simp: succeeded_def split: option.splits sum.splits)

lemma link_ex_idle: "proxy_deadline (link_ex n c) = None" "0 \<le> n \<Longrightarrow> debts_ok (link_late (link_ex n c))"
  by (simp_all add: link_ex_def debts_ok_ex)

lemma inspire_api_valid: "validate_register_map inspire_api = Inr ()"
  by code_simp

lemma link_ex_write:
  "succeeded (link_write_angle_set host_ex (ints [0, 200, 400, 600, 800, 1000]) (PyFloat (Fin (1 / 32)))
     (link_ex 1 [ack_ex @ ack_ex]))"
  by code_simp

lemma link_ex_feedback:
  "succeeded (link_read_safety_feedback host_ex (PyFloat (Fin (1 / 32))) (link_ex 0 feedback_chunks))"
  by code_simp

theorem operation_leaves_transport_idle_witness:
  "\<exists>t. link_run host_ex (WriteAngleSet (ints [0, 200, 400, 600, 800, 1000]) (PyFloat (Fin (1 / 32))))
      (link_ex 1 [ack_ex @ ack_ex]) = Some (Inr (), t) \<and> proxy_deadline t = None"
proof -
  obtain t where t: "link_run host_ex (WriteAngleSet (ints [0, 200, 400, 600, 800, 1000]) (PyFloat (Fin (1 / 32))))
      (link_ex 1 [ack_ex @ ack_ex]) = Some (Inr (), t)"
    using succeeded_Some [OF link_ex_write] by auto
  with operation_leaves_transport_idle [OF t link_ex_idle] show ?thesis by simp
qed

theorem acknowledged_write_settles_register_witness:
  "\<exists>t late f. link_write_angle_set host_ex (ints [0, 200, 400, 600, 800, 1000]) (PyFloat (Fin (1 / 32)))
      (link_ex 1 [ack_ex @ ack_ex]) = Some (Inr (), t) \<and> frames_taken (link_serial t) = late @ [f] \<and>
    exact_write_ack_identity f = Some (1, 1486) \<and> acks_of (1, 1486) late = 1 \<and> link_late t (1, 1486) = None"
proof -
  obtain t where t: "link_write_angle_set host_ex (ints [0, 200, 400, 600, 800, 1000]) (PyFloat (Fin (1 / 32)))
      (link_ex 1 [ack_ex @ ack_ex]) = Some (Inr (), t)"
    using succeeded_Some [OF link_ex_write] by auto
  have "link_api (link_ex 1 [ack_ex @ ack_ex]) = Some inspire_api" by (simp add: link_ex_def)
  from acknowledged_write_settles_register [OF t link_ex_idle(1) _ this] t link_ex_idle(2) [of 1] show ?thesis
    by (auto simp: link_ex_def port_ex_def ack_debt_def)
qed

theorem feedback_in_time_witness:
  "\<exists>f t. link_read_safety_feedback host_ex (PyFloat (Fin (1 / 32))) (link_ex 0 feedback_chunks) = Some (Inr f, t) \<and>
     captured_monotonic_s f \<le> Fin (1 / 32)"
proof -
  obtain f t where t: "link_read_safety_feedback host_ex (PyFloat (Fin (1 / 32))) (link_ex 0 feedback_chunks)
      = Some (Inr f, t)"
    using succeeded_Some [OF link_ex_feedback] by auto
  with feedback_in_time [OF t link_ex_idle] show ?thesis by simp
qed

theorem closed_transport_is_inert_witness:
  "\<exists>t. close_transport host_ex (link_ex 0 []) = Some (Inr (), t) \<and>
     (\<exists>m. open_transport host_ex t = Some (Inl (Exn RH56LinuxTransportError m), t))"
proof -
  have "succeeded (close_transport host_ex (link_ex 0 []))" by code_simp
  then obtain t where t: "close_transport host_ex (link_ex 0 []) = Some (Inr (), t)"
    using succeeded_Some by fastforce
  with closed_transport_is_inert [OF t] show ?thesis by blast
qed

end
