(* ===== verification/Authorization.thy ===== *)
theory Authorization
  imports Validation
begin

text \<open>
  \<open>sim2real/closed_loop/authorization.py\<close>: the run-scoped motion authorization and the
  sticky safety gate. \<open>MotionAuthorization\<close> is the record \<open>motion_authorization\<close>, built by
  \<open>make_authorization\<close>; \<open>ClosedLoopSafetyGate\<close> is the record \<open>safety_gate\<close> with one
  function per method. Every method runs under the gate's lock, so calls from several
  threads are a sequence of these functions; \<open>threading.current_thread()\<close> is the argument
  \<open>tid\<close>. Arguments annotated \<open>str\<close> are strings, the ones annotated \<open>object\<close> are untyped.
\<close>

section \<open>State\<close>

definition AUTHORIZATION_SCOPE :: string where
  "AUTHORIZATION_SCOPE = ''v94_closed_loop_franka_rh56''"

datatype safety_state = DISARMED | ARMED | FAULT_LATCHED

record motion_authorization =
  auth_run_id :: string
  authorization_id :: string
  issued_monotonic_s :: fl
  expires_monotonic_s :: fl
  auth_scope :: string

definition make_authorization ::
    "string \<Rightarrow> string \<Rightarrow> pyval \<Rightarrow> pyval \<Rightarrow> string \<Rightarrow> exn + motion_authorization" where
  "make_authorization run_id0 auth_id0 issued0 expires0 scope0 =
     (let run_id = py_strip run_id0; auth_id = py_strip auth_id0; scope = py_strip scope0 in
      res_bind (finite_scalar issued0 ''issued_monotonic_s'') (\<lambda>issued.
      res_bind (finite_scalar expires0 ''expires_monotonic_s'') (\<lambda>expires.
        if run_id = [] then Inl (Exn ValueError ''run_id must be non-empty'')
        else if auth_id = [] then Inl (Exn ValueError ''authorization_id must be non-empty'')
        else if scope \<noteq> AUTHORIZATION_SCOPE
        then Inl (Exn ValueError ''motion authorization scope is invalid'')
        else if expires \<le> issued
        then Inl (Exn ValueError ''motion authorization must expire after it is issued'')
        else Inr \<lparr>auth_run_id = run_id, authorization_id = auth_id,
                  issued_monotonic_s = issued, expires_monotonic_s = expires,
                  auth_scope = scope\<rparr>)))"

record safety_gate =
  gate_state :: safety_state
  deadman_asserted :: "bool option"
  estop_healthy :: "bool option"
  gate_authorization :: "motion_authorization option"
  gate_fault_reason :: "string option"
  used_authorization_ids :: "string set"
  last_motion_check :: "fl option"
  last_motion_check_by_thread :: "nat \<rightharpoonup> fl"

definition new_gate :: safety_gate where
  "new_gate = \<lparr>gate_state = DISARMED, deadman_asserted = None, estop_healthy = None,
     gate_authorization = None, gate_fault_reason = None, used_authorization_ids = {},
     last_motion_check = None, last_motion_check_by_thread = Map.empty\<rparr>"

definition gate_authorization_id :: "safety_gate \<Rightarrow> string option" where
  "gate_authorization_id g = map_option authorization_id (gate_authorization g)"

section \<open>Methods\<close>

definition latch_locked :: "string \<Rightarrow> safety_gate \<Rightarrow> safety_gate" where
  "latch_locked reason g =
     (let detail = strip_or reason ''unspecified closed-loop fault'';
          g' = (if gate_state g \<noteq> FAULT_LATCHED then g\<lparr>gate_fault_reason := Some detail\<rparr> else g)
      in g'\<lparr>gate_authorization := None, gate_state := FAULT_LATCHED\<rparr>)"

definition gate_latch_fault :: "string \<Rightarrow> (safety_gate, unit) op" where
  "gate_latch_fault reason g = (Inr (), latch_locked reason g)"

text \<open>Latch a reason and raise it: what the methods do on a violation.\<close>

definition latch_and_raise :: "string \<Rightarrow> safety_gate \<Rightarrow> (exn + 'a) \<times> safety_gate" where
  "latch_and_raise reason g =
     (Inl (Exn ClosedLoopProtocolError reason), latch_locked reason g)"

definition update_interlocks :: "pyval \<Rightarrow> pyval \<Rightarrow> (safety_gate, unit) op" where
  "update_interlocks deadman0 estop0 g =
     (case res_bind (strict_bool deadman0 ''deadman_asserted'') (\<lambda>deadman.
           res_bind (strict_bool estop0 ''estop_healthy'') (\<lambda>estop. Inr (deadman, estop))) of
        Inl e \<Rightarrow> (Inl e, g)
      | Inr (deadman, estop) \<Rightarrow>
          let g' = g\<lparr>deadman_asserted := Some deadman, estop_healthy := Some estop\<rparr>
          in if gate_state g' = ARMED \<and> (\<not> deadman \<or> \<not> estop)
             then latch_and_raise (if \<not> estop then ''external emergency stop opened''
                                   else ''external deadman was released'') g'
             else (Inr (), g'))"

definition gate_fault_msg :: "safety_gate \<Rightarrow> string" where
  "gate_fault_msg g =
     ''closed-loop fault is latched: '' @
       (case gate_fault_reason g of None \<Rightarrow> ''None'' | Some r \<Rightarrow> r)"

definition proto :: "string \<Rightarrow> exn + 'a" where
  "proto m = Inl (Exn ClosedLoopProtocolError m)"

definition gate_arm ::
    "nat \<Rightarrow> motion_authorization \<Rightarrow> string \<Rightarrow> pyval \<Rightarrow> pyval \<Rightarrow> pyval \<Rightarrow> (safety_gate, unit) op" where
  "gate_arm tid auth run_id now0 franka0 rh56_0 g =
     (case res_bind (finite_scalar now0 ''now_monotonic_s'') (\<lambda>now.
           res_bind (strict_bool franka0 ''franka_rest_verified'') (\<lambda>franka.
           res_bind (strict_bool rh56_0 ''rh56_disabled_verified'') (\<lambda>hand.
             Inr (now, franka, hand)))) of
        Inl e \<Rightarrow> (Inl e, g)
      | Inr (now, franka_safe, hand_safe) \<Rightarrow>
          if gate_state g = FAULT_LATCHED then (proto (gate_fault_msg g), g)
          else if gate_state g \<noteq> DISARMED then (proto ''closed-loop gate is already armed'', g)
          else if auth_run_id auth \<noteq> py_strip run_id
          then (proto ''motion authorization run ID mismatch'', g)
          else if authorization_id auth \<in> used_authorization_ids g
          then (proto ''motion authorization was already consumed'', g)
          else if \<not> (issued_monotonic_s auth \<le> now \<and> now < expires_monotonic_s auth)
          then (proto ''motion authorization is not active'', g)
          else if deadman_asserted g \<noteq> Some True
          then (proto ''external deadman is not asserted'', g)
          else if estop_healthy g \<noteq> Some True
          then (proto ''external emergency stop is not healthy'', g)
          else if \<not> franka_safe then (proto ''Franka rest is not verified'', g)
          else if \<not> hand_safe then (proto ''RH56 disabled state is not verified'', g)
          else (Inr (), g\<lparr>gate_authorization := Some auth,
                  used_authorization_ids := insert (authorization_id auth) (used_authorization_ids g),
                  last_motion_check := Some now,
                  last_motion_check_by_thread := [tid \<mapsto> now],
                  gate_state := ARMED\<rparr>))"

definition require_motion :: "nat \<Rightarrow> string \<Rightarrow> pyval \<Rightarrow> (safety_gate, unit) op" where
  "require_motion tid run_id now0 g =
     (case finite_scalar now0 ''now_monotonic_s'' of
        Inl e \<Rightarrow> (Inl e, g)
      | Inr now \<Rightarrow>
          if gate_state g = FAULT_LATCHED then (proto (gate_fault_msg g), g)
          else case (gate_state g = ARMED, gate_authorization g) of
            (True, Some auth) \<Rightarrow>
              if auth_run_id auth \<noteq> py_strip run_id
              then latch_and_raise ''active run ID changed after authorization'' g
              else if (case last_motion_check_by_thread g tid of
                         None \<Rightarrow> False | Some prior \<Rightarrow> now < prior)
              then latch_and_raise ''motion authorization clock regressed'' g
              else
                let g' = g\<lparr>last_motion_check_by_thread := (last_motion_check_by_thread g)(tid \<mapsto> now),
                           last_motion_check := Some (fl_max now
                             (case last_motion_check g of None \<Rightarrow> now | Some p \<Rightarrow> p))\<rparr>
                in if expires_monotonic_s auth \<le> now
                   then latch_and_raise ''motion authorization expired'' g'
                   else if deadman_asserted g' \<noteq> Some True \<or> estop_healthy g' \<noteq> Some True
                   then latch_and_raise ''external motion interlock is not healthy'' g'
                   else (Inr (), g')
          | _ \<Rightarrow> (proto ''closed-loop motion is not authorized'', g))"

definition disarm_after_verified_stop :: "string \<Rightarrow> pyval \<Rightarrow> pyval \<Rightarrow> (safety_gate, unit) op" where
  "disarm_after_verified_stop run_id franka0 rh56_0 g =
     (case res_bind (strict_bool franka0 ''franka_stop_verified'') (\<lambda>franka.
           res_bind (strict_bool rh56_0 ''rh56_disabled_verified'') (\<lambda>hand. Inr (franka, hand))) of
        Inl e \<Rightarrow> (Inl e, g)
      | Inr (franka_safe, hand_safe) \<Rightarrow>
          if gate_state g = FAULT_LATCHED
          then (proto ''a fault-latched session cannot be re-used after stop'', g)
          else case (gate_state g = ARMED, gate_authorization g) of
            (True, Some auth) \<Rightarrow>
              if auth_run_id auth \<noteq> py_strip run_id
              then (proto ''active run ID mismatch during disarm'', g)
              else if \<not> franka_safe \<or> \<not> hand_safe
              then latch_and_raise
                     ''both Franka stop and RH56 disable must be verified before disarm'' g
              else (Inr (), g\<lparr>gate_authorization := None, last_motion_check := None,
                              last_motion_check_by_thread := Map.empty, gate_state := DISARMED\<rparr>)
          | _ \<Rightarrow> (proto ''closed-loop gate is not armed'', g))"

text \<open>The calls of the gate, and the step relation of a sequence of them.\<close>

datatype gate_call =
    LatchFault string
  | UpdateInterlocks pyval pyval
  | Arm nat motion_authorization string pyval pyval pyval
  | RequireMotion nat string pyval
  | Disarm string pyval pyval

fun gate_exec :: "gate_call \<Rightarrow> (safety_gate, unit) op" where
  "gate_exec (LatchFault r) g = gate_latch_fault r g"
| "gate_exec (UpdateInterlocks d e) g = update_interlocks d e g"
| "gate_exec (Arm tid a r n f h) g = gate_arm tid a r n f h g"
| "gate_exec (RequireMotion tid r n) g = require_motion tid r n g"
| "gate_exec (Disarm r f h) g = disarm_after_verified_stop r f h g"

fun gate_run :: "gate_call list \<Rightarrow> safety_gate \<Rightarrow> (exn + unit) list \<times> safety_gate" where
  "gate_run [] g = ([], g)"
| "gate_run (c # cs) g =
     (let (r, g') = gate_exec c g; (rs, g'') = gate_run cs g' in (r # rs, g''))"

inductive gate_step :: "safety_gate \<Rightarrow> safety_gate \<Rightarrow> bool" where
  "gate_exec c g = (r, g') \<Longrightarrow> gate_step g g'"

text \<open>The steps that grant something: an arming or a motion check that succeeds.\<close>

inductive gate_grants :: "safety_gate \<Rightarrow> safety_gate \<Rightarrow> bool" where
  "gate_arm tid a r n f h g = (Inr (), g') \<Longrightarrow> gate_grants g g'"
| "require_motion tid r n g = (Inr (), g') \<Longrightarrow> gate_grants g g'"

inductive_cases gate_stepE: "gate_step g g'"
inductive_cases gate_grantsE: "gate_grants g g'"

section \<open>Invariant\<close>

text \<open>
  Armed exactly while an authorization is held, and then it is a consumed one, both
  interlocks are asserted, and every thread's last check lies before its expiry; a reason
  is recorded exactly when a fault is latched.
\<close>

definition gate_inv :: "safety_gate \<Rightarrow> bool" where
  "gate_inv g =
     ((gate_state g = ARMED \<longleftrightarrow> gate_authorization g \<noteq> None) \<and>
      (gate_state g = FAULT_LATCHED \<longleftrightarrow> gate_fault_reason g \<noteq> None) \<and>
      (\<forall>a. gate_authorization g = Some a \<longrightarrow>
         authorization_id a \<in> used_authorization_ids g \<and>
         deadman_asserted g = Some True \<and> estop_healthy g = Some True \<and>
         (\<exists>m. last_motion_check g = Some m) \<and>
         (\<forall>t v. last_motion_check_by_thread g t = Some v \<longrightarrow> \<not> expires_monotonic_s a \<le> v)))"

lemma gate_inv_new: "gate_inv new_gate"
  by (simp add: gate_inv_def new_gate_def)

lemma latch_locked_simps [simp]:
  "gate_state (latch_locked r g) = FAULT_LATCHED"
  "gate_authorization (latch_locked r g) = None"
  "used_authorization_ids (latch_locked r g) = used_authorization_ids g"
  "deadman_asserted (latch_locked r g) = deadman_asserted g"
  "estop_healthy (latch_locked r g) = estop_healthy g"
  "gate_fault_reason (latch_locked r g) =
     (if gate_state g = FAULT_LATCHED then gate_fault_reason g
      else Some (strip_or r ''unspecified closed-loop fault''))"
  by (simp_all add: latch_locked_def Let_def)

lemma latch_locked_inv: "gate_inv g \<Longrightarrow> gate_inv (latch_locked r g)"
  by (simp add: gate_inv_def)

lemma latch_locked_inv': "gate_state g = ARMED \<Longrightarrow> gate_inv (latch_locked r g)"
  by (simp add: gate_inv_def)

lemma update_interlocks_inv: "gate_inv g \<Longrightarrow> gate_inv (snd (update_interlocks d e g))"
  by (auto simp: update_interlocks_def latch_and_raise_def Let_def latch_locked_inv' split: sum.splits)
    (auto simp: gate_inv_def)

lemma gate_arm_inv: "gate_inv g \<Longrightarrow> gate_inv (snd (gate_arm tid a r n f h g))"
  by (auto simp: gate_arm_def proto_def split: sum.splits)
    (auto simp: gate_inv_def res_bind_Inr_iff dest: fl_less_le_not split: if_splits)

lemma require_motion_inv:
  assumes "gate_inv g"
  shows "gate_inv (snd (require_motion tid r n g))"
proof -
  have "gate_inv (g\<lparr>last_motion_check_by_thread := (last_motion_check_by_thread g)(tid \<mapsto> now),
      last_motion_check := Some m\<rparr>)"
    if "gate_authorization g = Some a" "\<not> expires_monotonic_s a \<le> now" for a now m
    using assms that by (auto simp: gate_inv_def)
  then show ?thesis
    using assms
    by (auto simp: require_motion_def proto_def latch_and_raise_def Let_def latch_locked_inv latch_locked_inv'
        split: sum.splits bool.splits option.splits)
qed

lemma disarm_inv: "gate_inv g \<Longrightarrow> gate_inv (snd (disarm_after_verified_stop r f h g))"
  by (auto simp: disarm_after_verified_stop_def proto_def latch_and_raise_def latch_locked_inv
      split: sum.splits bool.splits option.splits)
    (auto simp: gate_inv_def)

lemma gate_exec_inv: "gate_inv g \<Longrightarrow> gate_inv (snd (gate_exec c g))"
  by (cases c) (simp_all add: gate_latch_fault_def latch_locked_inv update_interlocks_inv gate_arm_inv
      require_motion_inv disarm_inv)

interpretation gate: invariant_system "\<lambda>g. g = new_gate" gate_step gate_inv
proof
  show "gate_inv g" if "g = new_gate" for g
    using that by (simp add: gate_inv_new)
  show "gate_inv g'" if "gate_step g g'" "gate_inv g" for g g'
    using that gate_exec_inv by (auto elim!: gate_stepE) (metis snd_conv)
qed

section \<open>Fail-closed behaviour\<close>

definition gate_fault :: "safety_gate \<Rightarrow> string option option" where
  "gate_fault g = (if gate_state g = FAULT_LATCHED then Some (gate_fault_reason g) else None)"

lemma gate_exec_latched:
  "gate_state g = FAULT_LATCHED \<Longrightarrow>
     gate_state (snd (gate_exec c g)) = FAULT_LATCHED \<and>
     gate_fault_reason (snd (gate_exec c g)) = gate_fault_reason g"
  by (cases c)
    (auto simp: gate_latch_fault_def update_interlocks_def gate_arm_def require_motion_def
      disarm_after_verified_stop_def proto_def Let_def split: sum.splits)

lemma gate_arm_Inr:
  "gate_arm tid a r n f h g = (Inr (), g') \<longleftrightarrow>
     (\<exists>now. finite_scalar n ''now_monotonic_s'' = Inr now \<and> f = PyBool True \<and> h = PyBool True \<and>
        gate_state g = DISARMED \<and> auth_run_id a = py_strip r \<and>
        authorization_id a \<notin> used_authorization_ids g \<and>
        issued_monotonic_s a \<le> now \<and> now < expires_monotonic_s a \<and>
        deadman_asserted g = Some True \<and> estop_healthy g = Some True \<and>
        g' = g\<lparr>gate_authorization := Some a,
                used_authorization_ids := insert (authorization_id a) (used_authorization_ids g),
                last_motion_check := Some now,
                last_motion_check_by_thread := [tid \<mapsto> now],
                gate_state := ARMED\<rparr>)"
  by (auto simp: gate_arm_def proto_def res_bind_Inr_iff strict_bool_Inr split: sum.splits if_splits)

lemma require_motion_Inr:
  "require_motion tid r n g = (Inr (), g') \<longleftrightarrow>
     (\<exists>now a. finite_scalar n ''now_monotonic_s'' = Inr now \<and> gate_state g = ARMED \<and>
        gate_authorization g = Some a \<and> auth_run_id a = py_strip r \<and>
        (\<forall>p. last_motion_check_by_thread g tid = Some p \<longrightarrow> \<not> now < p) \<and>
        \<not> expires_monotonic_s a \<le> now \<and>
        deadman_asserted g = Some True \<and> estop_healthy g = Some True \<and>
        g' = g\<lparr>last_motion_check_by_thread := (last_motion_check_by_thread g)(tid \<mapsto> now),
                last_motion_check := Some (fl_max now
                  (case last_motion_check g of None \<Rightarrow> now | Some p \<Rightarrow> p))\<rparr>)"
  by (auto simp: require_motion_def proto_def latch_and_raise_def Let_def
      split: sum.splits bool.splits option.splits if_splits)

interpretation gate_latch: fault_latch gate_fault gate_step gate_grants
proof
  show "gate_fault g' = Some r" if "gate_step g g'" "gate_fault g = Some r" for g g' r
    using that gate_exec_latched by (auto simp: gate_fault_def elim!: gate_stepE split: if_splits) (metis snd_conv)+
  show "gate_fault g = None" if "gate_grants g g'" for g g'
    using that by (auto simp: gate_fault_def gate_arm_Inr require_motion_Inr elim!: gate_grantsE)
qed

section \<open>Runs\<close>

lemma gate_exec_used: "used_authorization_ids g \<subseteq> used_authorization_ids (snd (gate_exec c g))"
  by (cases c)
    (auto simp: gate_latch_fault_def update_interlocks_def gate_arm_def require_motion_def
      disarm_after_verified_stop_def proto_def latch_and_raise_def Let_def
      split: sum.splits bool.splits option.splits)

lemma gate_run_Cons:
  "gate_run (c # cs) g =
     (fst (gate_exec c g) # fst (gate_run cs (snd (gate_exec c g))),
      snd (gate_run cs (snd (gate_exec c g))))"
  by (simp add: case_prod_unfold Let_def)

declare gate_run.simps(2) [simp del]

lemma gate_run_length [simp]: "length (fst (gate_run cs g)) = length cs"
  by (induction cs arbitrary: g) (simp_all add: gate_run_Cons)

lemma gate_run_used: "used_authorization_ids g \<subseteq> used_authorization_ids (snd (gate_run cs g))"
proof (induction cs arbitrary: g)
  case (Cons c cs)
  then show ?case
    using gate_exec_used [of g c] by (auto simp: gate_run_Cons)
qed simp

lemma gate_run_append:
  "gate_run (cs @ ds) g =
     (fst (gate_run cs g) @ fst (gate_run ds (snd (gate_run cs g))),
      snd (gate_run ds (snd (gate_run cs g))))"
  by (induction cs arbitrary: g) (simp_all add: gate_run_Cons)

lemma gate_run_nth:
  assumes "i < length cs"
  shows "fst (gate_run cs g) ! i = fst (gate_exec (cs ! i) (snd (gate_run (take i cs) g)))"
proof -
  have "cs = take i cs @ cs ! i # drop (Suc i) cs"
    using assms by (simp add: id_take_nth_drop)
  then have "fst (gate_run cs g) ! i =
      fst (gate_run (take i cs @ cs ! i # drop (Suc i) cs) g) ! i"
    by simp
  also have "\<dots> = fst (gate_exec (cs ! i) (snd (gate_run (take i cs) g)))"
    using assms by (simp add: gate_run_append gate_run_Cons nth_append)
  finally show ?thesis .
qed

lemma gate_run_state_mono:
  assumes "i \<le> j"
  shows "used_authorization_ids (snd (gate_run (take i cs) g)) \<subseteq>
         used_authorization_ids (snd (gate_run (take j cs) g))"
proof -
  have "take j cs = take i cs @ drop i (take j cs)"
    using assms by (metis append_take_drop_id min.absorb1 take_take)
  then show ?thesis
    by (metis gate_run_append gate_run_used snd_conv)
qed

text \<open>
  While no call arms the gate, a thread's last check never moves back: it is kept with a
  finite time not below an earlier one for as long as the gate stays armed.
\<close>

fun is_arm :: "gate_call \<Rightarrow> bool" where
  "is_arm (Arm t a r n f h) = True"
| "is_arm c = False"

definition checked_from :: "nat \<Rightarrow> fl \<Rightarrow> safety_gate \<Rightarrow> bool" where
  "checked_from tid x g =
     (gate_state g = ARMED \<longrightarrow> (\<exists>p. last_motion_check_by_thread g tid = Some p \<and> is_finite p \<and> x \<le> p))"

lemma gate_exec_disarmed_stays:
  "\<not> is_arm c \<Longrightarrow> gate_state (snd (gate_exec c g)) = ARMED \<Longrightarrow> gate_state g = ARMED"
  by (cases c)
    (auto simp: gate_latch_fault_def update_interlocks_def require_motion_def
      disarm_after_verified_stop_def proto_def latch_and_raise_def Let_def
      split: sum.splits bool.splits option.splits if_splits)

lemma require_motion_checked_from:
  assumes "is_finite x" "checked_from tid x g"
  shows "checked_from tid x (snd (require_motion t r n g))"
  using assms
  by (auto simp: checked_from_def require_motion_def proto_def latch_and_raise_def Let_def
      fl_not_less split: sum.splits bool.splits option.splits if_splits
      dest!: finite_scalar_Inr intro: fl_le_trans)

lemma gate_exec_checked_from:
  assumes "\<not> is_arm c" "is_finite x" "checked_from tid x g"
  shows "checked_from tid x (snd (gate_exec c g))"
proof (cases c)
  case (RequireMotion t r n)
  then show ?thesis using assms by (simp add: require_motion_checked_from)
qed (use assms in \<open>auto simp: checked_from_def gate_latch_fault_def update_interlocks_def
      disarm_after_verified_stop_def proto_def latch_and_raise_def Let_def
      split: sum.splits bool.splits option.splits\<close>)

lemma gate_run_checked_from:
  assumes "\<forall>c \<in> set cs. \<not> is_arm c" "is_finite x" "checked_from tid x g"
  shows "checked_from tid x (snd (gate_run cs g))"
  using assms
proof (induction cs arbitrary: g)
  case (Cons c cs)
  then show ?case by (simp add: gate_run_Cons gate_exec_checked_from)
qed simp

section \<open>Properties\<close>

text \<open>A latched gate fault is terminal: whatever is called afterwards, the gate stays
  latched with its first reason, and neither an arming nor a motion check succeeds.\<close>

theorem gate_fault_is_terminal:
  assumes "gate_step\<^sup>*\<^sup>* g g'" and "gate_state g = FAULT_LATCHED"
  shows "gate_state g' = FAULT_LATCHED \<and> gate_fault_reason g' = gate_fault_reason g \<and>
    gate_arm tid a r n f h g' \<noteq> (Inr (), g'') \<and> require_motion tid r n g' \<noteq> (Inr (), g'')"
proof -
  have "gate_fault g = Some (gate_fault_reason g)"
    using assms(2) by (simp add: gate_fault_def)
  with assms(1) have *: "gate_fault g' = Some (gate_fault_reason g)"
    by (rule gate_latch.run_latched)
  then show ?thesis
    using gate_latch.no_work_after_fault [OF *, of g' g'']
    by (auto simp: gate_fault_def split: if_splits intro: gate_grants.intros)
qed

text \<open>In every reachable state the gate is armed exactly while it holds an authorization;
  that authorization has been consumed, both interlocks read healthy, no thread's last
  motion check reached its expiry, and a fault reason is recorded exactly in the latched
  state.\<close>

theorem gate_reachable_consistent:
  assumes "reach (\<lambda>g. g = new_gate) gate_step g"
  shows "(gate_state g = ARMED \<longleftrightarrow> gate_authorization g \<noteq> None) \<and>
    (gate_state g = FAULT_LATCHED \<longleftrightarrow> gate_fault_reason g \<noteq> None) \<and>
    (\<forall>a. gate_authorization g = Some a \<longrightarrow>
       authorization_id a \<in> used_authorization_ids g \<and>
       deadman_asserted g = Some True \<and> estop_healthy g = Some True \<and>
       (\<forall>t v. last_motion_check_by_thread g t = Some v \<longrightarrow> \<not> expires_monotonic_s a \<le> v))"
  using gate.reach_inv [OF assms] by (simp add: gate_inv_def)

text \<open>C22. An authorization id arms the gate at most once: in any sequence of calls, two armings that both succeed carry different authorization ids, disarming in
  between included.\<close>

theorem authorization_single_use:
  assumes "i < j" and "j < length cs"
    and "cs ! i = Arm t a r n f h" and "cs ! j = Arm t' a' r' n' f' h'"
    and "fst (gate_run cs g) ! i = Inr ()" and "fst (gate_run cs g) ! j = Inr ()"
  shows "authorization_id a \<noteq> authorization_id a'"
proof -
  define si where "si = snd (gate_run (take i cs) g)"
  have len: "i < length cs" using assms by simp
  have "fst (gate_arm t a r n f h si) = Inr ()"
    using assms gate_run_nth [OF len, of g] by (simp add: si_def)
  then have "gate_arm t a r n f h si = (Inr (), snd (gate_arm t a r n f h si))"
    by (metis prod.collapse)
  then have "authorization_id a \<in> used_authorization_ids (snd (gate_exec (cs ! i) si))"
    using assms(3) by (auto simp: gate_arm_Inr)
  moreover have "snd (gate_exec (cs ! i) si) = snd (gate_run (take (Suc i) cs) g)"
    using len by (simp add: si_def take_Suc_conv_app_nth gate_run_append gate_run_Cons)
  ultimately have "authorization_id a \<in> used_authorization_ids (snd (gate_run (take j cs) g))"
    using gate_run_state_mono [of "Suc i" j cs g] assms(1) by auto
  moreover have "fst (gate_arm t' a' r' n' f' h' (snd (gate_run (take j cs) g))) = Inr ()"
    using assms gate_run_nth [OF assms(2), of g] by simp
  then have "authorization_id a' \<notin> used_authorization_ids (snd (gate_run (take j cs) g))"
    by (metis gate_arm_Inr prod.collapse)
  ultimately show ?thesis by auto
qed

text \<open>On a reachable armed gate a motion check with a finite clock reading succeeds exactly
  when the run matches, the calling thread's clock did not regress and the authorization
  has not expired; otherwise it raises, and the gate is latched with its authorization
  withdrawn.\<close>

theorem require_motion_decides:
  assumes "reach (\<lambda>g. g = new_gate) gate_step g"
    and "gate_authorization g = Some a"
    and "finite_scalar n ''now_monotonic_s'' = Inr now"
    and "require_motion tid r n g = (res, g')"
  shows "(res = Inr () \<longleftrightarrow>
       auth_run_id a = py_strip r \<and>
       (\<forall>p. last_motion_check_by_thread g tid = Some p \<longrightarrow> \<not> now < p) \<and>
       \<not> expires_monotonic_s a \<le> now) \<and>
    (res \<noteq> Inr () \<longrightarrow> gate_state g' = FAULT_LATCHED \<and> gate_authorization g' = None)"
proof -
  have inv: "gate_inv g" using assms(1) by (rule gate.reach_inv)
  then have "gate_state g = ARMED" "deadman_asserted g = Some True" "estop_healthy g = Some True"
    using assms(2) by (auto simp: gate_inv_def)
  then show ?thesis
    using assms(2-4)
    by (auto simp: require_motion_def latch_and_raise_def Let_def split: option.splits if_splits)
qed

text \<open>Between two armings the times at which one thread's motion checks succeed never
  decrease, whatever the other threads call in between.\<close>

theorem thread_checks_monotone:
  assumes "gate_run (RequireMotion tid r n # cs @ [RequireMotion tid r' n']) g = (rs, g')"
    and "\<forall>c \<in> set cs. \<not> is_arm c"
    and "hd rs = Inr ()" and "last rs = Inr ()"
    and "finite_scalar n ''now_monotonic_s'' = Inr now"
    and "finite_scalar n' ''now_monotonic_s'' = Inr now'"
  shows "now \<le> now'"
proof -
  define g1 where "g1 = snd (require_motion tid r n g)"
  define g2 where "g2 = snd (gate_run cs g1)"
  have rs: "rs = fst (require_motion tid r n g) # fst (gate_run cs g1) @ [fst (require_motion tid r' n' g2)]"
    using assms(1) by (auto simp: gate_run_Cons gate_run_append g1_def g2_def)
  have fin: "is_finite now" "is_finite now'"
    using assms(5,6) finite_scalar_Inr by auto
  have "require_motion tid r n g = (Inr (), g1)"
    using assms(3) rs by (metis g1_def list.sel(1) prod.collapse)
  then have "checked_from tid now g1"
    using assms(5) fin by (auto simp: require_motion_Inr checked_from_def fl_le_refl)
  then have "checked_from tid now g2"
    unfolding g2_def using assms(2) fin(1) by (intro gate_run_checked_from)
  moreover have "fst (require_motion tid r' n' g2) = Inr ()"
    using assms(4) rs by simp
  then obtain g3 where "require_motion tid r' n' g2 = (Inr (), g3)"
    by (metis prod.collapse)
  ultimately show ?thesis
    using assms(6) fin by (auto simp: require_motion_Inr checked_from_def fl_not_less intro: fl_le_trans)
qed

text \<open>Releasing the deadman or opening the emergency stop while armed raises, latches the
  gate with the matching reason, and no motion check succeeds in any later state.\<close>

theorem interlock_loss_stops_motion:
  assumes "gate_state g = ARMED" and "\<not> (deadman \<and> estop)"
    and "update_interlocks (PyBool deadman) (PyBool estop) g = (res, g1)"
    and "gate_step\<^sup>*\<^sup>* g1 g2"
  shows "res = proto (if \<not> estop then ''external emergency stop opened''
                      else ''external deadman was released'') \<and>
    gate_state g2 = FAULT_LATCHED \<and> require_motion tid r n g2 \<noteq> (Inr (), g3)"
proof -
  have r: "res = proto (if \<not> estop then ''external emergency stop opened''
                      else ''external deadman was released'')" and l: "gate_state g1 = FAULT_LATCHED"
    using assms(1-3) by (auto simp: update_interlocks_def latch_and_raise_def proto_def)
  have "gate_fault g2 = Some (gate_fault_reason g1)"
    using gate_latch.run_latched [OF assms(4)] l by (simp add: gate_fault_def)
  then show ?thesis
    using r gate_latch.fail_closed [of g2 g3]
    by (auto simp: gate_fault_def split: if_splits intro: gate_grants.intros)
qed

section \<open>Instances\<close>

text \<open>A run used by the witnesses: the interlocks close, one authorization arms the gate.\<close>

definition auth_ex :: motion_authorization where
  "auth_ex = \<lparr>auth_run_id = ''run'', authorization_id = ''auth'', issued_monotonic_s = Fin 1,
     expires_monotonic_s = Fin 9, auth_scope = AUTHORIZATION_SCOPE\<rparr>"

definition gate_ready :: safety_gate where
  "gate_ready = new_gate\<lparr>deadman_asserted := Some True, estop_healthy := Some True\<rparr>"

definition gate_armed :: safety_gate where
  "gate_armed = gate_ready\<lparr>gate_authorization := Some auth_ex,
     used_authorization_ids := {''auth''}, last_motion_check := Some (Fin 2),
     last_motion_check_by_thread := [7 \<mapsto> Fin 2], gate_state := ARMED\<rparr>"

lemmas gate_ex_defs = auth_ex_def gate_ready_def gate_armed_def new_gate_def

lemma make_authorization_ex:
  "make_authorization '' run'' ''auth '' (PyFloat (Fin 1)) (PyFloat (Fin 9)) AUTHORIZATION_SCOPE
   = Inr auth_ex"
  by (simp add: make_authorization_def auth_ex_def py_strip_def is_space_def AUTHORIZATION_SCOPE_def)

lemma gate_ready_step: "gate_exec (UpdateInterlocks (PyBool True) (PyBool True)) new_gate = (Inr (), gate_ready)"
  by (simp add: update_interlocks_def gate_ex_defs Let_def)

lemma gate_armed_step:
  "gate_exec (Arm 7 auth_ex ''run'' (PyFloat (Fin 2)) (PyBool True) (PyBool True)) gate_ready
   = (Inr (), gate_armed)"
  by (simp add: gate_arm_Inr gate_ex_defs py_strip_def is_space_def)

lemma gate_armed_reach: "reach (\<lambda>g. g = new_gate) gate_step gate_armed"
  by (rule reach_step [OF reach_step [OF reach_init]])
    (auto intro: gate_step.intros [OF gate_ready_step] gate_step.intros [OF gate_armed_step])

theorem gate_fault_is_terminal_witness:
  "require_motion 7 ''run'' (PyFloat (Fin 3)) (latch_locked ''link lost'' gate_armed) \<noteq> (Inr (), gate_armed)"
  using gate_fault_is_terminal [of "latch_locked ''link lost'' gate_armed" "latch_locked ''link lost'' gate_armed"]
  by simp

theorem gate_reachable_consistent_witness:
  "deadman_asserted gate_armed = Some True \<and> gate_state gate_armed = ARMED"
  using gate_reachable_consistent [OF gate_armed_reach] by (simp add: gate_ex_defs)

theorem authorization_single_use_witness:
  "authorization_id auth_ex \<noteq> ''second'' "
proof -
  define cs where "cs = [Arm 7 auth_ex ''run'' (PyFloat (Fin 2)) (PyBool True) (PyBool True),
    Disarm ''run'' (PyBool True) (PyBool True),
    Arm 7 (auth_ex\<lparr>authorization_id := ''second''\<rparr>) ''run'' (PyFloat (Fin 3)) (PyBool True) (PyBool True)]"
  have "fst (gate_run cs gate_ready) = [Inr (), Inr (), Inr ()]"
    unfolding cs_def gate_run_Cons gate_armed_step
    by (simp add: disarm_after_verified_stop_def gate_arm_def gate_ex_defs py_strip_def is_space_def)
  then show ?thesis
    using authorization_single_use [of 0 2 cs 7 auth_ex "''run''" "PyFloat (Fin 2)" "PyBool True" "PyBool True"
        7 "auth_ex\<lparr>authorization_id := ''second''\<rparr>" "''run''" "PyFloat (Fin 3)" "PyBool True" "PyBool True" gate_ready]
    by (simp add: cs_def)
qed

theorem require_motion_decides_witness:
  "\<exists>g'. require_motion 7 ''run'' (PyFloat (Fin 1)) gate_armed = (proto ''motion authorization clock regressed'', g')
     \<and> gate_state g' = FAULT_LATCHED"
proof -
  obtain res g' where r: "require_motion 7 ''run'' (PyFloat (Fin 1)) gate_armed = (res, g')"
    by fastforce
  moreover from this have "res = proto ''motion authorization clock regressed''"
    by (simp add: require_motion_def latch_and_raise_def proto_def gate_ex_defs py_strip_def is_space_def)
  ultimately show ?thesis
    using require_motion_decides [OF gate_armed_reach _ _ r]
    by (simp add: gate_ex_defs proto_def)
qed

theorem thread_checks_monotone_witness: "Fin 3 \<le> Fin (7 / 2)"
proof -
  define cs where "cs = [RequireMotion 8 ''run'' (PyFloat (Fin 1))]"
  define g' where "g' = snd (gate_run (RequireMotion 7 ''run'' (PyFloat (Fin 3)) # cs
      @ [RequireMotion 7 ''run'' (PyFloat (Fin (7 / 2)))]) gate_armed)"
  have "gate_run (RequireMotion 7 ''run'' (PyFloat (Fin 3)) # cs
      @ [RequireMotion 7 ''run'' (PyFloat (Fin (7 / 2)))]) gate_armed = ([Inr (), Inr (), Inr ()], g')"
    by (simp add: g'_def cs_def prod_eq_iff gate_run_Cons require_motion_def gate_ex_defs py_strip_def
        is_space_def Let_def fl_max_def)
  from thread_checks_monotone [OF this] show ?thesis by (simp add: cs_def)
qed

theorem interlock_loss_stops_motion_witness:
  "require_motion 7 ''run'' (PyFloat (Fin 3))
     (snd (update_interlocks (PyBool False) (PyBool True) gate_armed)) \<noteq> (Inr (), gate_armed)"
  using interlock_loss_stops_motion [of gate_armed False True
      "fst (update_interlocks (PyBool False) (PyBool True) gate_armed)"
      "snd (update_interlocks (PyBool False) (PyBool True) gate_armed)"
      "snd (update_interlocks (PyBool False) (PyBool True) gate_armed)"]
  by (simp add: gate_armed_def)

end
