(* ===== verification/Preflight.thy ===== *)
theory Preflight
  imports RH56_Feedback Authorization "HOL-Library.List_Lexorder" "HOL-Library.Char_ord"
begin

text \<open>
  The sealed permits of \<open>robot_control/rh56/actuator.py\<close>: the proof that commissioning
  reached C2, built from an offline report, and the operator-supervised permit. The seal
  objects are private to the module: the only values of the two record types are those their
  constructors return, so a permit is a value of the record.

  A report is a decoded JSON value (\<open>json\<close>). Three things the code takes from the standard
  library on it are the parameter \<open>py_lib\<close>: \<open>repr\<close> (used only in messages), \<open>float\<close> of
  a string, and the digest (\<open>json.dumps\<close> and SHA-256), which may raise.
\<close>

section \<open>Reports\<close>

datatype json =
    JNull | JBool bool | JInt int | JFloat fl | JStr string | JList "json list" | JObj "(string \<times> json) list"

record py_lib =
  lib_repr :: "json \<Rightarrow> string"
  lib_str_float :: "string \<Rightarrow> fl option"
  lib_digest :: "json \<Rightarrow> exn + string"

text \<open>\<open>mapping.get(key)\<close>, with \<open>None\<close> as \<open>JNull\<close>.\<close>

fun json_get :: "json \<Rightarrow> string \<Rightarrow> json" where
  "json_get (JObj kvs) k = (case map_of kvs k of None \<Rightarrow> JNull | Some v \<Rightarrow> v)"
| "json_get v k = JNull"

text \<open>\<open>value == True\<close> and \<open>value == False\<close>: Python's numbers compare with booleans.\<close>

fun eq_bool :: "json \<Rightarrow> bool \<Rightarrow> bool" where
  "eq_bool (JBool c) b = (c = b)"
| "eq_bool (JInt n) b = (n = (if b then 1 else 0))"
| "eq_bool (JFloat x) b = (x = (if b then Fin 1 else Fin 0))"
| "eq_bool v b = False"

fun is_empty_list :: "json \<Rightarrow> bool" where
  "is_empty_list (JList xs) = (xs = [])"
| "is_empty_list v = False"

definition RH56_C2_READINESS_LEVEL :: string where
  "RH56_C2_READINESS_LEVEL = ''C2_BOUNDED_CLOSED_LOOP''"

definition REQUIRED_RH56_PREFLIGHT_CHECKS :: "string list" where
  "REQUIRED_RH56_PREFLIGHT_CHECKS =
     [''evidence_physical_deadman_acceptance'',
      ''evidence_physical_emergency_stop_acceptance'',
      ''evidence_rh56_single_owner_serial_session'',
      ''evidence_rh56_full_six_axis_and_fingertip_fk'',
      ''evidence_rh56_full_thumb_rotation_range'',
      ''evidence_rh56_60hz_write_readback'',
      ''evidence_rh56_fault_disable_and_verified_stop'',
      ''evidence_dual_device_same_sequence_ack_transaction'',
      ''evidence_dual_device_rate_and_max_gap'',
      ''evidence_metric_rh56_sustained_command_rate_hz'',
      ''evidence_metric_dual_device_sustained_ack_rate_hz'',
      ''evidence_metric_dual_device_max_interaction_gap_s'',
      ''evidence_metric_policy_command_watchdog_timeout_s'']"

text \<open>The fields with an exact expected value, and \<open>report.get(name) != expected\<close>.\<close>

definition required_exact :: "(string \<times> json) list" where
  "required_exact =
     [(''result'', JStr ''PASS''),
      (''readiness_level'', JStr RH56_C2_READINESS_LEVEL),
      (''offline_only'', JBool True),
      (''device_access'', JBool False),
      (''hardware_writes'', JBool False),
      (''robot_command_writes'', JBool False),
      (''arming_state'', JStr ''DISARMED''),
      (''motion_authorization_created'', JBool False),
      (''physical_motion_authorized'', JBool False),
      (''future_authorization_scope_required'', JStr AUTHORIZATION_SCOPE),
      (''eligible_for_operator_authorization'', JBool True)]"

fun equals_expected :: "json \<Rightarrow> json \<Rightarrow> bool" where
  "equals_expected got (JBool b) = eq_bool got b"
| "equals_expected got expected = (got = expected)"

text \<open>\<open>checks\<close> indexed by code, and the codes that occur more than once.\<close>

fun coded_checks :: "json \<Rightarrow> (string \<times> json) list" where
  "coded_checks (JList items) =
     concat (map (\<lambda>item. case item of
        JObj kvs \<Rightarrow> (case json_get item ''code'' of JStr c \<Rightarrow> [(c, item)] | _ \<Rightarrow> [])
      | _ \<Rightarrow> []) items)"
| "coded_checks v = []"

definition indexed_check :: "(string \<times> json) list \<Rightarrow> string \<Rightarrow> json" where
  "indexed_check cs code = (case map_of (rev cs) code of None \<Rightarrow> JObj [] | Some item \<Rightarrow> item)"

definition duplicate_codes :: "(string \<times> json) list \<Rightarrow> string list" where
  "duplicate_codes cs = remdups (filter (\<lambda>c. 1 < length (filter (\<lambda>d. d = c) (map fst cs))) (map fst cs))"

text \<open>\<open>metric(code)\<close>: a finite number, or NaN.\<close>

definition metric :: "py_lib \<Rightarrow> (string \<times> json) list \<Rightarrow> string \<Rightarrow> exn + fl" where
  "metric lib cs code =
     (case json_get (indexed_check cs code) ''actual'' of
        JInt n \<Rightarrow> py_float (PyInt n)
      | JFloat x \<Rightarrow> Inr (if is_finite x then x else NaN)
      | JStr t \<Rightarrow> (case lib_str_float lib t of
                     None \<Rightarrow> Inr NaN
                   | Some x \<Rightarrow> Inr (if is_finite x then x else NaN))
      | _ \<Rightarrow> Inr NaN)"

section \<open>RH56ActuationPreflight\<close>

record actuation_preflight =
  commissioning_run_id :: string
  report_sha256 :: string
  commissioning_profile_sha256 :: string
  verified_command_watchdog_timeout_s :: fl
  verified_rh56_command_rate_hz :: fl
  verified_dual_ack_rate_hz :: fl
  verified_dual_ack_max_gap_s :: fl

definition is_sha256_hex :: "string \<Rightarrow> bool" where
  "is_sha256_hex s = (length s = 64 \<and> list_all (\<lambda>c. c \<in> set ''0123456789abcdef'') s)"

definition make_preflight ::
    "string \<Rightarrow> string \<Rightarrow> string \<Rightarrow> pyval \<Rightarrow> pyval \<Rightarrow> pyval \<Rightarrow> pyval \<Rightarrow> string \<Rightarrow> exn + actuation_preflight" where
  "make_preflight run_id0 digest0 profile0 watchdog0 command0 dual0 gap0 readiness0 =
     (let run = py_strip run_id0; digest = py_lower (py_strip digest0);
          profile = py_lower (py_strip profile0); readiness = py_strip readiness0 in
      res_bind (positive_float watchdog0 ''verified_command_watchdog_timeout_s'') (\<lambda>watchdog.
      res_bind (positive_float command0 ''verified_rh56_command_rate_hz'') (\<lambda>command_rate.
      res_bind (positive_float dual0 ''verified_dual_ack_rate_hz'') (\<lambda>dual_rate.
      res_bind (positive_float gap0 ''verified_dual_ack_max_gap_s'') (\<lambda>gap.
        if run = [] then Inl (Exn ValueError ''commissioning_run_id must be non-empty'')
        else if \<not> is_sha256_hex digest
        then Inl (Exn ValueError ''preflight report_sha256 must be 64 lowercase hex digits'')
        else if \<not> is_sha256_hex profile
        then Inl (Exn ValueError ''commissioning_profile_sha256 must be 64 lowercase hex digits'')
        else if readiness \<noteq> RH56_C2_READINESS_LEVEL
        then Inl (Exn ValueError ''preflight readiness level is not V94 C2'')
        else if RH56_MAX_POLICY_WATCHDOG_S < watchdog
        then Inl (Exn ValueError ''verified RH56 watchdog exceeds the C2 maximum'')
        else if command_rate < Fin 60 \<or> dual_rate < Fin 60
        then Inl (Exn ValueError ''verified RH56/dual acknowledgement rate is below 60 Hz'')
        else if rnd64 (1 / 30) < gap
        then Inl (Exn ValueError ''verified dual acknowledgement gap exceeds 1/30 s'')
        else Inr \<lparr>commissioning_run_id = run, report_sha256 = digest,
                  commissioning_profile_sha256 = profile,
                  verified_command_watchdog_timeout_s = watchdog,
                  verified_rh56_command_rate_hz = command_rate,
                  verified_dual_ack_rate_hz = dual_rate, verified_dual_ack_max_gap_s = gap\<rparr>)))))"

definition report_mismatches :: "py_lib \<Rightarrow> json \<Rightarrow> string list" where
  "report_mismatches lib report =
     (let got = json_get report; cs = coded_checks (got ''checks'');
          named = (\<lambda>name. name @ ''='' @ lib_repr lib (got name)) in
      map (named \<circ> fst) (filter (\<lambda>(name, expected). \<not> equals_expected (got name) expected) required_exact)
      @ map named (filter (\<lambda>name. \<not> is_empty_list (got name)) [''failed_checks'', ''blockers''])
      @ (case got ''run_id'' of JStr t \<Rightarrow> if py_strip t = [] then [named ''run_id''] else [] | _ \<Rightarrow> [named ''run_id''])
      @ (let profile = json_get (json_get (got ''inputs'') ''sha256'') ''commissioning_profile_sha256''
         in case profile of JStr t \<Rightarrow> [] | _ \<Rightarrow> [''commissioning_profile_sha256='' @ lib_repr lib profile])
      @ (if duplicate_codes cs = [] then []
         else [''duplicate check codes='' @ join '','' (sort (duplicate_codes cs))])
      @ filter (\<lambda>code. json_get (indexed_check cs code) ''passed'' \<noteq> JBool True) REQUIRED_RH56_PREFLIGHT_CHECKS)"

text \<open>The body of \<open>from_report\<close> once the report is known to be a mapping.\<close>

definition eligible_preflight :: "py_lib \<Rightarrow> json \<Rightarrow> exn + actuation_preflight" where
  "eligible_preflight lib report =
     (let cs = coded_checks (json_get report ''checks'') in
      res_bind (metric lib cs ''evidence_metric_rh56_sustained_command_rate_hz'') (\<lambda>command_rate.
      res_bind (metric lib cs ''evidence_metric_dual_device_sustained_ack_rate_hz'') (\<lambda>dual_rate.
      res_bind (metric lib cs ''evidence_metric_dual_device_max_interaction_gap_s'') (\<lambda>dual_gap.
      res_bind (metric lib cs ''evidence_metric_policy_command_watchdog_timeout_s'') (\<lambda>watchdog.
        let mismatches = report_mismatches lib report
              @ (if \<not> Fin 60 \<le> command_rate then [''rh56_sustained_command_rate_hz''] else [])
              @ (if \<not> Fin 60 \<le> dual_rate then [''dual_device_sustained_ack_rate_hz''] else [])
              @ (if \<not> (0 < dual_gap \<and> dual_gap \<le> rnd64 (1 / 30))
                 then [''dual_device_max_interaction_gap_s''] else [])
              @ (if \<not> (0 < watchdog \<and> watchdog \<le> RH56_MAX_POLICY_WATCHDOG_S)
                 then [''policy_command_watchdog_timeout_s''] else [])
        in if mismatches \<noteq> []
           then Inl (Exn ValueError (''commissioning preflight is not eligible: '' @ join '', '' mismatches))
           else res_bind (lib_digest lib report) (\<lambda>digest.
             case (json_get report ''run_id'',
                   json_get (json_get (json_get report ''inputs'') ''sha256'') ''commissioning_profile_sha256'') of
               (JStr run, JStr profile) \<Rightarrow>
                 make_preflight (py_strip run) digest profile (PyFloat watchdog) (PyFloat command_rate)
                   (PyFloat dual_rate) (PyFloat dual_gap) RH56_C2_READINESS_LEVEL
             | _ \<Rightarrow> Inl (Exn ValueError ''commissioning preflight is not eligible'')))))))"

definition from_report :: "py_lib \<Rightarrow> json \<Rightarrow> exn + actuation_preflight" where
  "from_report lib report =
     (case report of
        JObj kvs \<Rightarrow> eligible_preflight lib report
      | _ \<Rightarrow> Inl (Exn TypeError ''commissioning preflight report must be a mapping''))"

section \<open>SupervisedRH56Preflight\<close>

record supervised_preflight =
  sup_commissioning_run_id :: string
  sup_report_sha256 :: string
  sup_profile_sha256 :: string
  sup_command_watchdog_timeout_s :: fl
  sup_inter_command_watchdog_timeout_s :: fl
  authorizes_c2 :: bool

definition make_supervised ::
    "string \<Rightarrow> string \<Rightarrow> string \<Rightarrow> pyval \<Rightarrow> pyval option \<Rightarrow> exn + supervised_preflight" where
  "make_supervised run_id0 permit0 profile0 watchdog0 inter0 =
     (let run = py_strip run_id0; permit = py_lower (py_strip permit0); profile = py_lower (py_strip profile0) in
      if run = [] then Inl (Exn ValueError ''run_id must be non-empty'')
      else if \<not> is_sha256_hex permit then Inl (Exn ValueError ''supervised permit SHA-256 is invalid'')
      else if \<not> is_sha256_hex profile then Inl (Exn ValueError ''supervised profile SHA-256 is invalid'')
      else
        res_bind (positive_float watchdog0 ''watchdog_timeout_s'') (\<lambda>watchdog.
          if RH56_MAX_POLICY_WATCHDOG_S < watchdog
          then Inl (Exn ValueError ''supervised RH56 watchdog exceeds 50ms'')
          else
        res_bind (positive_float (case inter0 of None \<Rightarrow> PyFloat watchdog | Some v \<Rightarrow> v)
                    ''inter_command_watchdog_timeout_s'') (\<lambda>inter.
          if inter < watchdog
          then Inl (Exn ValueError (''supervised RH56 inter-command watchdog cannot be below ''
                      @ ''the command freshness watchdog''))
          else if RH56_MAX_SUPERVISED_INTER_COMMAND_WATCHDOG_S < inter
          then Inl (Exn ValueError ''supervised RH56 inter-command watchdog exceeds 500ms'')
          else Inr \<lparr>sup_commissioning_run_id = ''interactive:'' @ run, sup_report_sha256 = permit,
                    sup_profile_sha256 = profile, sup_command_watchdog_timeout_s = watchdog,
                    sup_inter_command_watchdog_timeout_s = inter, authorizes_c2 = False\<rparr>)))"

text \<open>\<open>_issue_supervised_rh56_preflight\<close> passes the seal and its arguments on.\<close>

definition issue_supervised_preflight ::
    "string \<Rightarrow> string \<Rightarrow> string \<Rightarrow> pyval option \<Rightarrow> pyval option \<Rightarrow> exn + supervised_preflight" where
  "issue_supervised_preflight run_id permit profile watchdog inter_timeout =
     make_supervised run_id permit profile
       (case watchdog of None \<Rightarrow> PyFloat RH56_MAX_POLICY_WATCHDOG_S | Some v \<Rightarrow> v) inter_timeout"

section \<open>The wire-rate estimate\<close>

definition RH56_COMPACT_TRANSACTION_WIRE_BYTES :: int where
  "RH56_COMPACT_TRANSACTION_WIRE_BYTES = 158"

definition RH56_COMPACT_TRANSACTION_EXCHANGES :: int where
  "RH56_COMPACT_TRANSACTION_EXCHANGES = 4"

definition RH56_SERIAL_BITS_PER_BYTE_8N1 :: int where
  "RH56_SERIAL_BITS_PER_BYTE_8N1 = 10"

record wire_rate_estimate =
  est_baud_rate :: int
  wire_bytes_per_transaction :: int
  request_response_exchanges :: int
  bits_per_byte :: int
  ideal_wire_time_s :: fl
  ideal_wire_only_max_rate_hz :: fl
  ideal_wire_utilization_at_60hz :: fl
  wire_only_60hz_possible :: bool
  real_hardware_60hz_verified :: bool
  feasibility :: string

definition estimate_compact_transaction_wire_rate :: "pyval \<Rightarrow> exn + wire_rate_estimate" where
  "estimate_compact_transaction_wire_rate baud0 =
     res_bind (bounded_integer baud0 ''baud_rate'' 1 10000000) (\<lambda>baud.
       let bits = RH56_COMPACT_TRANSACTION_WIRE_BYTES * RH56_SERIAL_BITS_PER_BYTE_8N1;
           wire_time = fl_div (Fin (of_int bits)) (rnd64 (of_int baud))
       in Inr \<lparr>est_baud_rate = baud,
               wire_bytes_per_transaction = RH56_COMPACT_TRANSACTION_WIRE_BYTES,
               request_response_exchanges = RH56_COMPACT_TRANSACTION_EXCHANGES,
               bits_per_byte = RH56_SERIAL_BITS_PER_BYTE_8N1,
               ideal_wire_time_s = wire_time,
               ideal_wire_only_max_rate_hz = fl_div 1 wire_time,
               ideal_wire_utilization_at_60hz = Fin 60 * wire_time,
               wire_only_60hz_possible = (wire_time \<le> rnd64 (1 / 60)),
               real_hardware_60hz_verified = False,
               feasibility = ''UNKNOWN_UNTIL_HARDWARE_COMMISSIONING''\<rparr>)"

section \<open>Properties\<close>

lemma make_preflight_bounds:
  assumes "make_preflight run digest profile w c d g readiness = Inr p"
  shows "Fin 60 \<le> verified_rh56_command_rate_hz p \<and> Fin 60 \<le> verified_dual_ack_rate_hz p \<and>
    0 < verified_dual_ack_max_gap_s p \<and> verified_dual_ack_max_gap_s p \<le> rnd64 (1 / 30) \<and>
    0 < verified_command_watchdog_timeout_s p \<and>
    verified_command_watchdog_timeout_s p \<le> RH56_MAX_POLICY_WATCHDOG_S"
proof -
  have fin: "is_finite RH56_MAX_POLICY_WATCHDOG_S" "is_finite (rnd64 (1 / 30))" "is_finite (Fin 60)"
    by code_simp+
  note le = fl_not_less [THEN iffD1]
  obtain w' c' d' g' where v: "positive_float w ''verified_command_watchdog_timeout_s'' = Inr w'"
      "positive_float c ''verified_rh56_command_rate_hz'' = Inr c'"
      "positive_float d ''verified_dual_ack_rate_hz'' = Inr d'"
      "positive_float g ''verified_dual_ack_max_gap_s'' = Inr g'"
    using assms by (auto simp: make_preflight_def Let_def res_bind_Inr_iff)
  have p: "verified_rh56_command_rate_hz p = c'" "verified_dual_ack_rate_hz p = d'"
      "verified_dual_ack_max_gap_s p = g'" "verified_command_watchdog_timeout_s p = w'"
      "\<not> RH56_MAX_POLICY_WATCHDOG_S < w'" "\<not> c' < Fin 60" "\<not> d' < Fin 60" "\<not> rnd64 (1 / 30) < g'"
    using assms by (auto simp: make_preflight_def Let_def v split: if_splits)
  show ?thesis
    unfolding p(1-4) using v [THEN positive_float_Inr] p(5-8) fin by (blast intro: le)
qed

lemma from_report_Inr:
  assumes "from_report lib report = Inr p"
  shows "report_mismatches lib report = [] \<and>
    (\<exists>run digest profile w c d g. make_preflight run digest profile w c d g RH56_C2_READINESS_LEVEL = Inr p)"
proof -
  have "eligible_preflight lib report = Inr p"
    using assms by (auto simp: from_report_def split: json.splits)
  then show ?thesis
    by (cases "json_get report ''run_id''";
        cases "json_get (json_get (json_get report ''inputs'') ''sha256'') ''commissioning_profile_sha256''")
      (auto simp: eligible_preflight_def Let_def res_bind_Inr_iff simp del: json_get.simps split: if_splits, blast)
qed

text \<open>C33. A C2 permit exists only with complete evidence: when \<open>from_report\<close> returns one, every
  check the module requires is recorded as passed, the report's own failure lists are
  empty, it claims no device access and no authorization, and the verified rates, gap and
  watchdog are within the C2 bounds.\<close>

theorem c2_permit_needs_evidence:
  assumes "from_report lib report = Inr p"
  shows "(\<forall>code \<in> set REQUIRED_RH56_PREFLIGHT_CHECKS.
       json_get (indexed_check (coded_checks (json_get report ''checks'')) code) ''passed'' = JBool True) \<and>
    is_empty_list (json_get report ''failed_checks'') \<and> is_empty_list (json_get report ''blockers'') \<and>
    json_get report ''result'' = JStr ''PASS'' \<and>
    eq_bool (json_get report ''motion_authorization_created'') False \<and>
    eq_bool (json_get report ''hardware_writes'') False \<and>
    Fin 60 \<le> verified_rh56_command_rate_hz p \<and> Fin 60 \<le> verified_dual_ack_rate_hz p \<and>
    0 < verified_dual_ack_max_gap_s p \<and> verified_dual_ack_max_gap_s p \<le> rnd64 (1 / 30) \<and>
    0 < verified_command_watchdog_timeout_s p \<and>
    verified_command_watchdog_timeout_s p \<le> RH56_MAX_POLICY_WATCHDOG_S"
proof -
  note none = from_report_Inr [OF assms, THEN conjunct1]
  have checks: "filter (\<lambda>code. json_get (indexed_check (coded_checks (json_get report ''checks'')) code) ''passed''
      \<noteq> JBool True) REQUIRED_RH56_PREFLIGHT_CHECKS = []"
    and exact: "filter (\<lambda>(name, expected). \<not> equals_expected (json_get report name) expected) required_exact = []"
    and empties: "filter (\<lambda>name. \<not> is_empty_list (json_get report name)) [''failed_checks'', ''blockers''] = []"
    using none unfolding report_mismatches_def Let_def append_is_Nil_conv map_is_Nil_conv by blast+
  have "equals_expected (json_get report n) e" if "(n, e) \<in> set required_exact" for n e
    using exact that unfolding filter_empty_conv by blast
  then have req: "json_get report ''result'' = JStr ''PASS''"
    "eq_bool (json_get report ''motion_authorization_created'') False"
    "eq_bool (json_get report ''hardware_writes'') False"
    by (force simp: required_exact_def)+
  note bounds = make_preflight_bounds
  obtain run digest profile w c d g where
    m: "make_preflight run digest profile w c d g RH56_C2_READINESS_LEVEL = Inr p"
    using from_report_Inr [OF assms] by blast
  show ?thesis
    using checks empties req bounds [OF m] unfolding filter_empty_conv by simp
qed

text \<open>C29. A supervised permit is never C2 evidence, and its watchdogs are ordered and bounded:
  the command freshness bound is positive and at most 50 ms, the inter-command bound lies
  between it and 500 ms; the run id it carries cannot be the execution run's own.\<close>

theorem supervised_permit_bounds:
  assumes "issue_supervised_preflight run permit profile watchdog between = Inr p"
  shows "\<not> authorizes_c2 p \<and> 0 < sup_command_watchdog_timeout_s p \<and>
    sup_command_watchdog_timeout_s p \<le> RH56_MAX_POLICY_WATCHDOG_S \<and>
    sup_command_watchdog_timeout_s p \<le> sup_inter_command_watchdog_timeout_s p \<and>
    sup_inter_command_watchdog_timeout_s p \<le> RH56_MAX_SUPERVISED_INTER_COMMAND_WATCHDOG_S \<and>
    sup_commissioning_run_id p \<noteq> py_strip run"
proof -
  have fin: "is_finite RH56_MAX_POLICY_WATCHDOG_S" "is_finite RH56_MAX_SUPERVISED_INTER_COMMAND_WATCHDOG_S"
    by code_simp+
  have run: "''interactive:'' @ r \<noteq> r" for r :: string by simp
  show ?thesis
    using assms fin
    by (auto simp: issue_supervised_preflight_def make_supervised_def Let_def res_bind_Inr_iff
        dest!: positive_float_Inr split: if_splits option.splits)
      (auto simp: fl_not_less)
qed

text \<open>Of the baud rates the serial port supports, only 115200 leaves room on the wire for
  60 transactions per second, and no estimate claims that the hardware reaches it.\<close>

theorem wire_rate_of_supported_bauds:
  assumes "baud \<in> {115200, 57600, 19200}"
  shows "\<exists>e. estimate_compact_transaction_wire_rate (PyInt baud) = Inr e \<and>
    (wire_only_60hz_possible e \<longleftrightarrow> baud = 115200) \<and> \<not> real_hardware_60hz_verified e"
proof -
  let ?ok = "\<lambda>b. case estimate_compact_transaction_wire_rate (PyInt b) of
      Inl _ \<Rightarrow> False | Inr e \<Rightarrow> wire_only_60hz_possible e = (b = 115200) \<and> \<not> real_hardware_60hz_verified e"
  have ok: "?ok 115200" "?ok 57600" "?ok 19200" by code_simp+
  have ex: "\<exists>e. estimate_compact_transaction_wire_rate (PyInt b) = Inr e \<and>
      (wire_only_60hz_possible e \<longleftrightarrow> b = 115200) \<and> \<not> real_hardware_60hz_verified e" if "?ok b" for b
    using that by (cases "estimate_compact_transaction_wire_rate (PyInt b)") auto
  from assms show ?thesis
    using ok [THEN ex] by blast
qed

section \<open>Instances\<close>

definition hex_ex :: string where
  "hex_ex = replicate 64 (CHR ''a'')"

definition lib_ex :: py_lib where
  "lib_ex = \<lparr>lib_repr = (\<lambda>_. ''?''), lib_str_float = (\<lambda>_. None), lib_digest = (\<lambda>_. Inr hex_ex)\<rparr>"

definition check_ex :: "string \<Rightarrow> json" where
  "check_ex code = JObj [(''code'', JStr code), (''passed'', JBool True),
     (''actual'', if code = ''evidence_metric_dual_device_max_interaction_gap_s'' then JFloat (Fin (1 / 32))
                  else if code = ''evidence_metric_policy_command_watchdog_timeout_s'' then JFloat (Fin (1 / 32))
                  else JInt 60)]"

definition report_ex :: json where
  "report_ex = JObj (required_exact @
     [(''failed_checks'', JList []), (''blockers'', JList []), (''run_id'', JStr ''commissioning-7''),
      (''inputs'', JObj [(''sha256'', JObj [(''commissioning_profile_sha256'', JStr hex_ex)])]),
      (''checks'', JList (map check_ex REQUIRED_RH56_PREFLIGHT_CHECKS))])"

definition preflight_ex :: actuation_preflight where
  "preflight_ex = \<lparr>commissioning_run_id = ''commissioning-7'', report_sha256 = hex_ex,
     commissioning_profile_sha256 = hex_ex, verified_command_watchdog_timeout_s = Fin (1 / 32),
     verified_rh56_command_rate_hz = Fin 60, verified_dual_ack_rate_hz = Fin 60,
     verified_dual_ack_max_gap_s = Fin (1 / 32)\<rparr>"

lemma preflight_ex_made: "from_report lib_ex report_ex = Inr preflight_ex"
  by code_simp

definition supervised_ex :: supervised_preflight where
  "supervised_ex = \<lparr>sup_commissioning_run_id = ''interactive:run-1'', sup_report_sha256 = hex_ex,
     sup_profile_sha256 = hex_ex, sup_command_watchdog_timeout_s = Fin (1 / 32),
     sup_inter_command_watchdog_timeout_s = Fin (1 / 4), authorizes_c2 = False\<rparr>"

lemma supervised_ex_made:
  "issue_supervised_preflight ''run-1'' hex_ex hex_ex (Some (PyFloat (Fin (1 / 32)))) (Some (PyFloat (Fin (1 / 4))))
    = Inr supervised_ex"
  by code_simp

theorem c2_permit_needs_evidence_witness:
  "verified_command_watchdog_timeout_s preflight_ex \<le> RH56_MAX_POLICY_WATCHDOG_S"
  using c2_permit_needs_evidence [OF preflight_ex_made] by blast

theorem supervised_permit_bounds_witness:
  "sup_inter_command_watchdog_timeout_s supervised_ex \<le> RH56_MAX_SUPERVISED_INTER_COMMAND_WATCHDOG_S"
  using supervised_permit_bounds [OF supervised_ex_made] by blast

theorem wire_rate_of_supported_bauds_witness:
  "\<exists>e. estimate_compact_transaction_wire_rate (PyInt 57600) = Inr e \<and> \<not> wire_only_60hz_possible e"
  using wire_rate_of_supported_bauds [of 57600] by auto

end
