(* ===== verification/Commands.thy ===== *)
theory Commands
  imports Authorization
begin

text \<open>
  \<open>sim2real/closed_loop/commands.py\<close> and \<open>ownership.py\<close>: the command shared by both
  actuator owners, the atomic commit view, the mapper's proposal, the latest-command
  sample/hold, and the one-thread ownership guard of a hardware endpoint. The frozen
  dataclasses are records built by checked constructors: a value of the record that the
  code can hold is one that its constructor returned.
\<close>

section \<open>ClosedLoopCommand\<close>

record closed_loop_command =
  cmd_sequence :: int
  produced_monotonic_s :: fl
  observation_realtime_s :: fl
  cmd_previous_action13 :: "fl list"
  cmd_raw_action13 :: "fl list"
  cmd_executed_action13 :: "fl list"
  cmd_franka_target :: "fl list"
  cmd_rh56_register :: "int list"
  cmd_hold_arm :: bool
  cmd_policy_previous_action13 :: "fl list"

definition make_command ::
    "pyval \<Rightarrow> pyval \<Rightarrow> pyval \<Rightarrow> ndarray \<Rightarrow> ndarray \<Rightarrow> ndarray \<Rightarrow> ndarray \<Rightarrow> ndarray \<Rightarrow> pyval \<Rightarrow>
     ndarray option \<Rightarrow> exn + closed_loop_command" where
  "make_command sequence0 produced0 observation0 previous0 raw0 executed0 franka0 rh56_0 hold0 policy_previous0 =
     res_bind (positive_integer sequence0 ''command sequence'') (\<lambda>sequence.
     res_bind (finite_scalar produced0 ''produced_monotonic_s'') (\<lambda>produced.
     res_bind (finite_scalar observation0 ''observation_realtime_s'') (\<lambda>observation.
     res_bind (readonly_float_vector previous0 13 ''previous_executed_action13_used'') (\<lambda>previous.
     res_bind (readonly_float_vector raw0 13 ''raw_policy_action13'') (\<lambda>raw.
     res_bind (readonly_float_vector executed0 13 ''executed_policy_action13'') (\<lambda>executed.
       if list_ex (\<lambda>x. x < Fin (-1)) executed \<or> list_ex (\<lambda>x. Fin 1 < x) executed
       then Inl (Exn ValueError ''executed_policy_action13 must lie in [-1,1]'')
       else
     res_bind (readonly_float_vector franka0 7 ''franka_target_q_rad'') (\<lambda>arm.
     res_bind (readonly_register_vector rh56_0 ''rh56_angle_set_register_order'') (\<lambda>hand.
     res_bind (strict_bool hold0 ''hold_arm_target'') (\<lambda>hold.
     res_bind (case policy_previous0 of None \<Rightarrow> Inr previous
               | Some v \<Rightarrow> readonly_float_vector v 13 ''previous_policy_action13_used'') (\<lambda>policy_previous.
       Inr \<lparr>cmd_sequence = sequence, produced_monotonic_s = produced,
            observation_realtime_s = observation, cmd_previous_action13 = previous,
            cmd_raw_action13 = raw, cmd_executed_action13 = executed, cmd_franka_target = arm,
            cmd_rh56_register = hand, cmd_hold_arm = hold,
            cmd_policy_previous_action13 = policy_previous\<rparr>))))))))))"

text \<open>What every command that exists satisfies.\<close>

definition valid_command :: "closed_loop_command \<Rightarrow> bool" where
  "valid_command c =
     (0 < cmd_sequence c \<and> is_finite (produced_monotonic_s c) \<and>
      float_vector 13 (cmd_executed_action13 c) \<and>
      list_all (\<lambda>x. Fin (-1) \<le> x \<and> x \<le> Fin 1) (cmd_executed_action13 c) \<and>
      float_vector 13 (cmd_previous_action13 c) \<and> float_vector 7 (cmd_franka_target c) \<and>
      register_vector (cmd_rh56_register c))"

lemma unit_box:
  assumes "readonly_float_vector v n name = Inr xs"
    and "\<not> list_ex (\<lambda>x. x < Fin (-1)) xs" and "\<not> list_ex (\<lambda>x. Fin 1 < x) xs"
  shows "list_all (\<lambda>x. Fin (-1) \<le> x \<and> x \<le> Fin 1) xs"
  using assms by (fastforce simp: list_all_iff list_ex_iff fl_not_less is_finite_iff float_vector_def
      dest: readonly_float_vector_Inr)

lemma make_command_valid:
  "make_command s p ob prev raw ex fr rh h pp = Inr c \<Longrightarrow> valid_command c"
  by (auto simp: make_command_def res_bind_Inr_iff valid_command_def split: if_splits
      dest: unit_box readonly_float_vector_Inr readonly_register_vector_Inr positive_integer_Inr
        finite_scalar_Inr)

section \<open>ExecutedActionCommit and the mapper's proposal\<close>

record executed_action_commit =
  commit_sequence :: int
  commit_action13 :: "fl list"

definition make_commit :: "int \<Rightarrow> ndarray \<Rightarrow> exn + executed_action_commit" where
  "make_commit sequence action =
     (if sequence < 0 then Inl (Exn ValueError ''committed sequence cannot be negative'')
      else res_bind (readonly_float_vector action 13 ''executed_policy_action13'') (\<lambda>a.
        Inr \<lparr>commit_sequence = sequence, commit_action13 = a\<rparr>))"

text \<open>
  \<open>prop_oid\<close> is the identity of the proposal object, which \<open>is\<close> compares; it is given by
  whoever creates the object.
\<close>

record action_proposal =
  prop_oid :: nat
  prop_sequence :: int
  prop_mapped :: mapped_action
  prior_arm_target :: "fl list"
  prior_hand_target :: "fl list"
  arm_target_rate :: "fl list"
  hand_target_rate :: "fl list"

definition make_proposal ::
    "nat \<Rightarrow> pyval \<Rightarrow> mapped_action \<Rightarrow> ndarray \<Rightarrow> ndarray \<Rightarrow> ndarray \<Rightarrow> ndarray \<Rightarrow> exn + action_proposal" where
  "make_proposal oid sequence0 mapped0 prior_arm0 prior_hand0 arm_rate0 hand_rate0 =
     res_bind (positive_integer sequence0 ''proposal sequence'') (\<lambda>sequence.
     res_bind (immutable_mapped_action mapped0) (\<lambda>mapped.
     res_bind (readonly_float_vector prior_arm0 7 ''prior_arm_target_q_rad'') (\<lambda>prior_arm.
     res_bind (readonly_float_vector prior_hand0 6 ''prior_hand_target_q_policy_order_rad'') (\<lambda>prior_hand.
     res_bind (readonly_float_vector arm_rate0 7 ''arm_target_rate_rad_s'') (\<lambda>arm_rate.
     res_bind (readonly_float_vector hand_rate0 6 ''hand_target_rate_rad_s'') (\<lambda>hand_rate.
       Inr \<lparr>prop_oid = oid, prop_sequence = sequence, prop_mapped = mapped,
            prior_arm_target = prior_arm, prior_hand_target = prior_hand,
            arm_target_rate = arm_rate, hand_target_rate = hand_rate\<rparr>))))))"

section \<open>PolicyCommandSampleHold\<close>

record sample_hold =
  held_command :: "closed_loop_command option"

definition new_sample_hold :: sample_hold where
  "new_sample_hold = \<lparr>held_command = None\<rparr>"

definition hold_publish :: "closed_loop_command \<Rightarrow> (sample_hold, unit) op" where
  "hold_publish c h =
     (let expected = (case held_command h of None \<Rightarrow> 1 | Some d \<Rightarrow> cmd_sequence d + 1)
      in if cmd_sequence c \<noteq> expected
         then (proto (''command sequence gap: expected='' @ int_str expected @ '', actual=''
                      @ int_str (cmd_sequence c)), h)
         else (Inr (), h\<lparr>held_command := Some c\<rparr>))"

definition hold_sample :: "pyval \<Rightarrow> pyval \<Rightarrow> (sample_hold, closed_loop_command) op" where
  "hold_sample now0 maximum_age0 h =
     (res_bind (finite_scalar now0 ''now_monotonic_s'') (\<lambda>now.
      res_bind (finite_scalar maximum_age0 ''maximum_age_s'') (\<lambda>maximum_age.
        if maximum_age \<le> 0 then Inl (Exn ValueError ''maximum_age_s must be positive'')
        else case held_command h of
          None \<Rightarrow> proto ''no policy command is available''
        | Some command \<Rightarrow>
            (let age = now - produced_monotonic_s command
             in if age < 0 then proto ''policy command timestamp is in the future''
                else if maximum_age < age
                then proto (''policy command is stale: age='' @ fixed_str 6 age @ ''s, limit=''
                            @ fixed_str 6 maximum_age @ ''s'')
                else Inr command))), h)"

text \<open>Publishing a list of commands, stopping at the first that raises.\<close>

fun publish_all :: "closed_loop_command list \<Rightarrow> (sample_hold, unit) op" where
  "publish_all [] h = (Inr (), h)"
| "publish_all (c # cs) h =
     (case hold_publish c h of (Inl e, h') \<Rightarrow> (Inl e, h') | (Inr _, h') \<Rightarrow> publish_all cs h')"

section \<open>SingleThreadOwner\<close>

record thread_owner =
  endpoint_name :: string
  owner_thread :: "nat option"

definition make_owner :: "string \<Rightarrow> exn + thread_owner" where
  "make_owner name0 =
     (let name = py_strip name0
      in if name = [] then Inl (Exn ValueError ''endpoint_name must be non-empty'')
         else Inr \<lparr>endpoint_name = name, owner_thread = None\<rparr>)"

definition claim_for_current_thread :: "nat \<Rightarrow> (thread_owner, unit) op" where
  "claim_for_current_thread tid w =
     (case owner_thread w of
        None \<Rightarrow> (Inr (), w\<lparr>owner_thread := Some tid\<rparr>)
      | Some t \<Rightarrow>
          if t \<noteq> tid then (proto (endpoint_name w @ '' already has a different owner thread''), w)
          else (Inr (), w))"

definition require_current_thread :: "nat \<Rightarrow> (thread_owner, unit) op" where
  "require_current_thread tid w =
     (case owner_thread w of
        None \<Rightarrow> (proto (endpoint_name w @ '' has no bound owner thread''), w)
      | Some t \<Rightarrow>
          if t \<noteq> tid then (proto (endpoint_name w @ '' access attempted by a non-owner thread''), w)
          else (Inr (), w))"

inductive owner_step :: "thread_owner \<Rightarrow> thread_owner \<Rightarrow> bool" where
  "claim_for_current_thread tid w = (r, w') \<Longrightarrow> owner_step w w'"
| "require_current_thread tid w = (r, w') \<Longrightarrow> owner_step w w'"

inductive_cases owner_stepE: "owner_step w w'"

lemma owner_step_bound: "owner_step w w' \<Longrightarrow> owner_thread w = Some t \<Longrightarrow> owner_thread w' = Some t"
  by (auto simp: claim_for_current_thread_def require_current_thread_def elim!: owner_stepE split: if_splits)

lemma owner_run_bound: "owner_step\<^sup>*\<^sup>* w w' \<Longrightarrow> owner_thread w = Some t \<Longrightarrow> owner_thread w' = Some t"
  by (induction rule: rtranclp_induct) (auto intro: owner_step_bound)

section \<open>Properties\<close>

text \<open>Once a thread has claimed an endpoint, every later access check succeeds for that
  thread and raises for any other, whatever claims and checks happen in between.\<close>

theorem owner_is_forever:
  assumes "claim_for_current_thread t w = (Inr (), w0)" and "owner_step\<^sup>*\<^sup>* w0 w'"
  shows "fst (require_current_thread tid w') = Inr () \<longleftrightarrow> tid = t"
proof -
  have "owner_thread w0 = Some t"
    using assms(1) by (auto simp: claim_for_current_thread_def proto_def split: option.splits if_splits)
  with assms(2) have "owner_thread w' = Some t" by (rule owner_run_bound)
  then show ?thesis by (auto simp: require_current_thread_def proto_def)
qed

theorem owner_is_forever_witness:
  "fst (require_current_thread 4 \<lparr>endpoint_name = ''RH56'', owner_thread = Some 3\<rparr>) \<noteq> Inr ()"
  using owner_is_forever [of 3 "\<lparr>endpoint_name = ''RH56'', owner_thread = None\<rparr>"
      "\<lparr>endpoint_name = ''RH56'', owner_thread = Some 3\<rparr>"
      "\<lparr>endpoint_name = ''RH56'', owner_thread = Some 3\<rparr>" 4]
  by (simp add: claim_for_current_thread_def)

lemma publish_all_hold:
  "publish_all cs h = (Inr (), h') \<Longrightarrow>
     map cmd_sequence cs =
       map (\<lambda>k. (case held_command h of None \<Rightarrow> 0 | Some d \<Rightarrow> cmd_sequence d) + int k) [1..<Suc (length cs)] \<and>
     held_command h' = (if cs = [] then held_command h else Some (last cs))"
proof (induction cs arbitrary: h)
  case (Cons c cs)
  obtain h1 where h1: "hold_publish c h = (Inr (), h1)" "publish_all cs h1 = (Inr (), h')"
    using Cons.prems by (auto split: prod.splits sum.splits)
  then have seq: "cmd_sequence c = (case held_command h of None \<Rightarrow> 0 | Some d \<Rightarrow> cmd_sequence d) + 1"
    and held: "held_command h1 = Some c"
    by (auto simp: hold_publish_def proto_def Let_def split: option.splits if_splits)
  have "[1..<Suc (length (c # cs))] = 1 # map Suc [1..<Suc (length cs)]"
    by (metis One_nat_def length_Cons map_Suc_upt upt_rec zero_less_Suc Suc_less_eq)
  with Cons.IH [OF h1(2)] held seq show ?case
    by (simp add: comp_def algebra_simps)
qed simp

text \<open>A new sample/hold that has published a list of commands without raising holds the
  last of them, and their sequences are exactly 1, 2, 3, ...: no gap, repetition or
  reordering reaches the arm loop.\<close>

theorem sample_hold_sequences:
  assumes "publish_all cs new_sample_hold = (Inr (), h)"
  shows "map cmd_sequence cs = map int [1..<Suc (length cs)] \<and>
    held_command h = (if cs = [] then None else Some (last cs))"
  using publish_all_hold [OF assms] by (simp add: new_sample_hold_def)

text \<open>Sampling with a finite clock and a finite age bound never changes the hold; it
  returns the held command exactly when the bound is positive and the command's age, as
  the binary64 difference, is between zero and the bound, and raises in every other case.\<close>

theorem sample_freshness:
  "hold_sample (PyFloat (Fin now)) (PyFloat (Fin maximum_age)) h = (Inr c, h') \<longleftrightarrow>
    h' = h \<and> held_command h = Some c \<and> 0 < maximum_age \<and>
    \<not> Fin now - produced_monotonic_s c < 0 \<and> \<not> Fin maximum_age < Fin now - produced_monotonic_s c"
  by (auto simp: hold_sample_def proto_def Let_def zero_fl_def split: option.splits if_splits)

section \<open>Instances\<close>

definition cmd_ex :: "int \<Rightarrow> rat \<Rightarrow> closed_loop_command" where
  "cmd_ex k t = \<lparr>cmd_sequence = k, produced_monotonic_s = Fin t, observation_realtime_s = Fin 0,
     cmd_previous_action13 = replicate 7 (Fin 0) @ replicate 6 (Fin (-1)),
     cmd_raw_action13 = replicate 13 (Fin 2), cmd_executed_action13 = replicate 13 (Fin 1),
     cmd_franka_target = replicate 7 (Fin 0), cmd_rh56_register = [0, 200, 400, 600, 800, 1000],
     cmd_hold_arm = False,
     cmd_policy_previous_action13 = replicate 7 (Fin 0) @ replicate 6 (Fin (-1))\<rparr>"

lemma cmd_ex_made:
  "make_command (PyInt 1) (PyFloat (Fin 2)) (PyInt 0) (Vec (replicate 7 (Fin 0) @ replicate 6 (Fin (-1))))
     (Vec (replicate 13 (Fin 2))) (Vec (replicate 13 (Fin 1))) (Vec (replicate 7 (Fin 0)))
     (Vec (map (\<lambda>n. Fin (of_int n)) [0, 200, 400, 600, 800, 1000])) (PyBool False) None
   = Inr (cmd_ex 1 2)"
  by code_simp

theorem sample_hold_sequences_witness: "map cmd_sequence [cmd_ex 1 2, cmd_ex 2 3] = [1, 2]"
proof -
  have "publish_all [cmd_ex 1 2, cmd_ex 2 3] new_sample_hold = (Inr (), \<lparr>held_command = Some (cmd_ex 2 3)\<rparr>)"
    by (simp add: hold_publish_def new_sample_hold_def cmd_ex_def)
  from sample_hold_sequences [OF this] show ?thesis
    by (simp add: upt_rec)
qed

end
