(* ===== verification/Two_Phase.thy ===== *)
theory Two_Phase
  imports Programs
begin

text \<open>
  The transaction discipline that the executed-action ledger, the transactional action mapper
  and the RH56 command shaper share, as an abstract machine: a value moves only when the one
  pending proposal is committed, under consecutive sequence numbers, and never after a
  fault. The locale carries what follows from it to every component that simulates it.
\<close>

record 'v two_phase =
  tp_value :: 'v
  tp_count :: int
  tp_proposed :: "'v option"
  tp_failed :: "string option"

inductive tp_step :: "'v two_phase \<Rightarrow> 'v two_phase \<Rightarrow> bool" where
  tp_stutter: "tp_step s s"
| tp_propose: "tp_failed s = None \<Longrightarrow> tp_proposed s = None \<Longrightarrow> tp_step s (s\<lparr>tp_proposed := Some v\<rparr>)"
| tp_discard: "tp_failed s = None \<Longrightarrow> tp_step s (s\<lparr>tp_proposed := None\<rparr>)"
| tp_commit: "tp_failed s = None \<Longrightarrow> tp_proposed s = Some v \<Longrightarrow>
    tp_step s (s\<lparr>tp_value := v, tp_count := tp_count s + 1, tp_proposed := None\<rparr>)"
| tp_latch: "tp_failed s = None \<Longrightarrow> tp_step s (s\<lparr>tp_failed := Some r\<rparr>)"
| tp_abort: "tp_step s (s\<lparr>tp_failed := Some (case tp_failed s of None \<Rightarrow> r | Some r' \<Rightarrow> r'), tp_proposed := None\<rparr>)"

inductive_cases tp_stepE: "tp_step s t"

lemma tp_step_effect:
  assumes "tp_step s t"
  shows "(tp_value t = tp_value s \<and> tp_count t = tp_count s) \<or>
    (tp_failed s = None \<and> tp_proposed s = Some (tp_value t) \<and> tp_count t = tp_count s + 1)"
  using assms by (cases rule: tp_step.cases) auto

lemma tp_step_failed: "tp_step s t \<Longrightarrow> tp_failed s = Some r \<Longrightarrow> tp_failed t = Some r"
  by (cases rule: tp_step.cases) auto

text \<open>The values committed along a run, newest first, next to the state it reaches.\<close>

inductive tp_run :: "'v two_phase \<Rightarrow> 'v list \<Rightarrow> 'v two_phase \<Rightarrow> bool" where
  tp_run_start: "tp_run s [] s"
| tp_run_quiet: "tp_run s vs t \<Longrightarrow> tp_step t u \<Longrightarrow> tp_count u = tp_count t \<Longrightarrow> tp_run s vs u"
| tp_run_commit: "tp_run s vs t \<Longrightarrow> tp_step t u \<Longrightarrow> tp_count u = tp_count t + 1 \<Longrightarrow> tp_run s (tp_value u # vs) u"

lemma tp_run_value:
  "tp_run s vs t \<Longrightarrow> tp_count t = tp_count s + int (length vs) \<and> tp_value t = hd (vs @ [tp_value s])"
proof (induction rule: tp_run.induct)
  case (tp_run_quiet s vs t u)
  then show ?case using tp_step_effect [OF tp_run_quiet.hyps(2)] by auto
qed auto

lemma tp_run_failed:
  "tp_run s vs t \<Longrightarrow> tp_failed s = Some r \<Longrightarrow> vs = [] \<and> tp_failed t = Some r"
proof (induction rule: tp_run.induct)
  case (tp_run_commit s vs t u)
  then show ?case using tp_step_effect [OF tp_run_commit.hyps(2)] by auto
qed (auto intro: tp_step_failed)

locale two_phase_system = invariant_system init step inv
  for init :: "'s \<Rightarrow> bool" and step :: "'s \<Rightarrow> 's \<Rightarrow> bool" and inv :: "'s \<Rightarrow> bool" +
  fixes abs :: "'s \<Rightarrow> 'v two_phase"
  assumes simulates: "inv s \<Longrightarrow> step s t \<Longrightarrow> tp_step (abs s) (abs t)"
begin

lemma refines: "reach init step s \<Longrightarrow> step s t \<Longrightarrow> tp_step (abs s) (abs t)"
  by (intro simulates reach_inv)

lemma run_refines: "step\<^sup>*\<^sup>* s t \<Longrightarrow> inv s \<Longrightarrow> \<exists>vs. tp_run (abs s) vs (abs t)"
proof (induction rule: rtranclp_induct)
  case (step t u)
  obtain vs where vs: "tp_run (abs s) vs (abs t)" using step by blast
  have tu: "tp_step (abs t) (abs u)" using step run_inv simulates by blast
  from tp_step_effect [OF this] show ?case
    using tp_run_quiet [OF vs tu] tp_run_commit [OF vs tu] by blast
qed (auto intro: tp_run_start)

text \<open>After a fault nothing moves.\<close>

lemma frozen:
  assumes "step\<^sup>*\<^sup>* s t" "inv s" "tp_failed (abs s) = Some r"
  shows "tp_failed (abs t) = Some r \<and> tp_value (abs t) = tp_value (abs s) \<and> tp_count (abs t) = tp_count (abs s)"
proof -
  obtain vs where "tp_run (abs s) vs (abs t)" using run_refines [OF assms(1,2)] by blast
  with tp_run_failed [OF this assms(3)] tp_run_value [OF this] show ?thesis by auto
qed

text \<open>The sequence counts the commits, and without a commit the value stays.\<close>

lemma counts:
  assumes "step\<^sup>*\<^sup>* s t" "inv s"
  shows "tp_count (abs s) \<le> tp_count (abs t) \<and>
    (tp_count (abs t) = tp_count (abs s) \<longrightarrow> tp_value (abs t) = tp_value (abs s))"
proof -
  obtain vs where "tp_run (abs s) vs (abs t)" using run_refines [OF assms] by blast
  from tp_run_value [OF this] show ?thesis by (cases vs) auto
qed

end

end
