(* ===== verification/Ledger.thy ===== *)
theory Ledger
  imports Commands Two_Phase
begin

text \<open>
  \<open>sim2real/closed_loop/ledger.py\<close>: \<open>ExecutedActionLedger\<close>, the two-consumer commit barrier
  that advances the previous action only after both actuator owners acknowledged the same
  sequence in time. Every method runs under the ledger's lock: one function per method.
\<close>

section \<open>State\<close>

definition COMMAND_CONSUMERS :: "string list" where
  "COMMAND_CONSUMERS = [''franka'', ''rh56'']"

definition INITIAL_PREVIOUS_ACTION13 :: "fl list" where
  "INITIAL_PREVIOUS_ACTION13 = replicate 7 (Fin 0) @ replicate 6 (Fin (-1))"

record action_ledger =
  maximum_commit_latency :: fl
  previous_action13 :: "fl list"
  last_committed_sequence :: int
  ledger_pending :: "closed_loop_command option"
  acknowledged :: "string set"
  ledger_fault_reason :: "string option"

definition make_ledger :: "pyval \<Rightarrow> ndarray \<Rightarrow> exn + action_ledger" where
  "make_ledger maximum_latency0 initial0 =
     res_bind (finite_scalar maximum_latency0 ''maximum_commit_latency_s'') (\<lambda>maximum_latency.
       if maximum_latency \<le> 0
       then Inl (Exn ValueError ''maximum_commit_latency_s must be positive'')
       else res_bind (readonly_float_vector initial0 13 ''initial_previous_action13'') (\<lambda>initial.
         Inr \<lparr>maximum_commit_latency = maximum_latency, previous_action13 = initial,
              last_committed_sequence = 0, ledger_pending = None, acknowledged = {},
              ledger_fault_reason = None\<rparr>))"

definition ledger_pending_sequence :: "action_ledger \<Rightarrow> int option" where
  "ledger_pending_sequence l = map_option cmd_sequence (ledger_pending l)"

definition committed_snapshot :: "action_ledger \<Rightarrow> exn + executed_action_commit" where
  "committed_snapshot l = make_commit (last_committed_sequence l) (Vec (previous_action13 l))"

section \<open>Methods\<close>

definition ledger_fault_locked :: "string \<Rightarrow> action_ledger \<Rightarrow> action_ledger" where
  "ledger_fault_locked reason l =
     (case ledger_fault_reason l of
        None \<Rightarrow> l\<lparr>ledger_fault_reason := Some (strip_or reason ''unspecified commit fault'')\<rparr>
      | Some _ \<Rightarrow> l)"

text \<open>\<open>self._fault_locked(reason); raise ClosedLoopProtocolError(...)\<close>\<close>

definition ledger_fault_raise :: "string \<Rightarrow> action_ledger \<Rightarrow> (exn + 'a) \<times> action_ledger" where
  "ledger_fault_raise reason l =
     (let l' = ledger_fault_locked reason l
      in (proto (case ledger_fault_reason l' of None \<Rightarrow> ''None'' | Some r \<Rightarrow> r), l'))"

definition ledger_health :: "action_ledger \<Rightarrow> exn option" where
  "ledger_health l =
     (case ledger_fault_reason l of
        None \<Rightarrow> None
      | Some r \<Rightarrow> Some (Exn ClosedLoopProtocolError (''action commit ledger fault is latched: '' @ r)))"

definition consumer_name :: "string \<Rightarrow> exn + string" where
  "consumer_name consumer =
     (let name = py_lower (py_strip consumer)
      in if name \<in> set COMMAND_CONSUMERS then Inr name
         else Inl (Exn ValueError ''consumer must be one of ('franka', 'rh56')''))"

definition consumer_acknowledged :: "string \<Rightarrow> pyval \<Rightarrow> (action_ledger, bool) op" where
  "consumer_acknowledged consumer sequence0 l =
     (res_bind (consumer_name consumer) (\<lambda>name.
      res_bind (positive_integer sequence0 ''acknowledged sequence'') (\<lambda>sequence.
        case ledger_health l of
          Some e \<Rightarrow> Inl e
        | None \<Rightarrow>
            if sequence = last_committed_sequence l then Inr True
            else if ledger_pending_sequence l \<noteq> Some sequence
            then proto (''acknowledgement query sequence is neither pending nor the last committed sequence: query=''
                   @ int_str sequence @ '', pending='' @ opt_int_str (ledger_pending_sequence l)
                   @ '', committed='' @ int_str (last_committed_sequence l))
            else Inr (name \<in> acknowledged l))), l)"

definition ledger_stage :: "closed_loop_command \<Rightarrow> pyval \<Rightarrow> (action_ledger, unit) op" where
  "ledger_stage command now0 l =
     (case finite_scalar now0 ''now_monotonic_s'' of
        Inl e \<Rightarrow> (Inl e, l)
      | Inr now \<Rightarrow>
          (case ledger_health l of
             Some e \<Rightarrow> (Inl e, l)
           | None \<Rightarrow>
               if ledger_pending l \<noteq> None
               then ledger_fault_raise ''cannot stage a new command while another is uncommitted'' l
               else if cmd_sequence command \<noteq> last_committed_sequence l + 1
               then ledger_fault_raise ''command sequence does not follow the last committed command'' l
               else if cmd_previous_action13 command \<noteq> previous_action13 l
               then ledger_fault_raise ''policy observation used an uncommitted previous action'' l
               else
                 let age = now - produced_monotonic_s command
                 in if age < 0 then (proto ''staged command timestamp is in the future'', l)
                    else if maximum_commit_latency l < age
                    then ledger_fault_raise ''command was already too old when staged'' l
                    else (Inr (), l\<lparr>ledger_pending := Some command, acknowledged := {}\<rparr>)))"

definition ledger_acknowledge :: "string \<Rightarrow> pyval \<Rightarrow> pyval \<Rightarrow> (action_ledger, bool) op" where
  "ledger_acknowledge consumer sequence0 now0 l =
     (case res_bind (consumer_name consumer) (\<lambda>name.
           res_bind (finite_scalar now0 ''now_monotonic_s'') (\<lambda>now. Inr (name, now))) of
        Inl e \<Rightarrow> (Inl e, l)
      | Inr (name, now) \<Rightarrow>
     (case ledger_health l of
        Some e \<Rightarrow> (Inl e, l)
      | None \<Rightarrow>
     (case ledger_pending l of
        None \<Rightarrow> (proto ''there is no command awaiting commit'', l)
      | Some command \<Rightarrow>
     (case positive_integer sequence0 ''acknowledged sequence'' of
        Inl e \<Rightarrow> (Inl e, l)
      | Inr sequence \<Rightarrow>
          if sequence \<noteq> cmd_sequence command
          then ledger_fault_raise (name @ '' acknowledged sequence '' @ int_str sequence
                 @ '', expected '' @ int_str (cmd_sequence command)) l
          else
            let latency = now - produced_monotonic_s command
            in if latency < 0
               then ledger_fault_raise (name @ '' acknowledgement timestamp is in the future'') l
               else if maximum_commit_latency l < latency
               then ledger_fault_raise (name @ '' acknowledgement exceeded commit latency: actual=''
                      @ fixed_str 6 latency @ ''s, limit='' @ fixed_str 6 (maximum_commit_latency l) @ ''s'') l
               else
                 let l' = l\<lparr>acknowledged := insert name (acknowledged l)\<rparr>
                 in if acknowledged l' \<noteq> set COMMAND_CONSUMERS then (Inr False, l')
                    else (case readonly_float_vector (Vec (cmd_executed_action13 command)) 13
                                 ''committed executed_policy_action13'' of
                            Inl e \<Rightarrow> (Inl e, l')
                          | Inr previous \<Rightarrow>
                              (Inr True, l'\<lparr>previous_action13 := previous,
                                 last_committed_sequence := cmd_sequence command,
                                 ledger_pending := None, acknowledged := {}\<rparr>))))))"

definition require_commit_deadline :: "pyval \<Rightarrow> (action_ledger, unit) op" where
  "require_commit_deadline now0 l =
     (case finite_scalar now0 ''now_monotonic_s'' of
        Inl e \<Rightarrow> (Inl e, l)
      | Inr now \<Rightarrow>
          (case ledger_health l of
             Some e \<Rightarrow> (Inl e, l)
           | None \<Rightarrow>
               (case ledger_pending l of
                  None \<Rightarrow> (Inr (), l)
                | Some command \<Rightarrow>
                    let latency = now - produced_monotonic_s command
                    in if latency < 0 then ledger_fault_raise ''commit deadline clock regressed'' l
                       else if maximum_commit_latency l < latency
                       then ledger_fault_raise
                              (''command commit deadline expired; missing acknowledgements=''
                               @ join '','' (filter (\<lambda>c. c \<notin> acknowledged l) COMMAND_CONSUMERS)) l
                       else (Inr (), l))))"

definition ledger_fail :: "string \<Rightarrow> int \<Rightarrow> string \<Rightarrow> (action_ledger, unit) op" where
  "ledger_fail consumer sequence reason l =
     (case consumer_name consumer of
        Inl e \<Rightarrow> (Inl e, l)
      | Inr name \<Rightarrow>
          (Inr (), ledger_fault_locked
             (name @ '' failed sequence '' @ int_str sequence @ '' (pending=''
              @ opt_int_str (ledger_pending_sequence l) @ ''): ''
              @ strip_or reason ''unspecified actuator failure'') l))"

section \<open>What a successful call says\<close>

lemma ledger_fault_raise_not_Inr [simp]: "ledger_fault_raise r l \<noteq> (Inr x, l')"
  by (simp add: ledger_fault_raise_def proto_def Let_def)

lemma ledger_stage_Inr:
  "ledger_stage c n l = (Inr u, l') \<longleftrightarrow>
     (\<exists>now. finite_scalar n ''now_monotonic_s'' = Inr now \<and> ledger_fault_reason l = None \<and>
        ledger_pending l = None \<and> cmd_sequence c = last_committed_sequence l + 1 \<and>
        cmd_previous_action13 c = previous_action13 l \<and>
        \<not> now - produced_monotonic_s c < 0 \<and>
        \<not> maximum_commit_latency l < now - produced_monotonic_s c \<and>
        l' = l\<lparr>ledger_pending := Some c, acknowledged := {}\<rparr>)"
  by (auto simp: ledger_stage_def ledger_health_def proto_def Let_def split: sum.splits option.splits if_splits)

text \<open>The state after an acknowledgement that did not raise.\<close>

definition acked_state :: "string \<Rightarrow> closed_loop_command \<Rightarrow> action_ledger \<Rightarrow> action_ledger" where
  "acked_state name c l =
     (if insert name (acknowledged l) = set COMMAND_CONSUMERS
      then l\<lparr>previous_action13 := cmd_executed_action13 c, last_committed_sequence := cmd_sequence c,
             ledger_pending := None, acknowledged := {}\<rparr>
      else l\<lparr>acknowledged := insert name (acknowledged l)\<rparr>)"

lemma ledger_acknowledge_Inr:
  assumes "\<And>c. ledger_pending l = Some c \<Longrightarrow> valid_command c"
  shows "ledger_acknowledge con s n l = (Inr b, l') \<longleftrightarrow>
     (\<exists>name now c. consumer_name con = Inr name \<and> finite_scalar n ''now_monotonic_s'' = Inr now \<and>
        ledger_fault_reason l = None \<and> ledger_pending l = Some c \<and>
        positive_integer s ''acknowledged sequence'' = Inr (cmd_sequence c) \<and>
        \<not> now - produced_monotonic_s c < 0 \<and>
        \<not> maximum_commit_latency l < now - produced_monotonic_s c \<and>
        b = (insert name (acknowledged l) = set COMMAND_CONSUMERS) \<and> l' = acked_state name c l)"
proof -
  have "readonly_float_vector (Vec (cmd_executed_action13 c)) 13 nm = Inr (cmd_executed_action13 c)"
    if "ledger_pending l = Some c" for c nm
    using assms [OF that] by (intro readonly_float_vector_idem) (simp add: valid_command_def)
  then show ?thesis
    by (auto simp: ledger_acknowledge_def ledger_health_def acked_state_def proto_def res_bind_Inr_iff Let_def
        split: sum.splits option.splits if_splits)
qed

text \<open>An operation that raises may latch a fault; it changes nothing else.\<close>

definition same_but_fault :: "action_ledger \<Rightarrow> action_ledger \<Rightarrow> bool" where
  "same_but_fault l l' =
     (l' = l \<or> (ledger_fault_reason l = None \<and> (\<exists>r. l' = l\<lparr>ledger_fault_reason := Some r\<rparr>)))"

lemma same_but_fault_refl [simp]: "same_but_fault l l"
  by (simp add: same_but_fault_def)

lemma ledger_fault_locked_same: "same_but_fault l (ledger_fault_locked r l)"
  by (auto simp: ledger_fault_locked_def same_but_fault_def split: option.splits)

lemma ledger_fault_raise_same: "ledger_fault_raise r l = (res, l') \<Longrightarrow> same_but_fault l l'"
  using ledger_fault_locked_same by (auto simp: ledger_fault_raise_def Let_def)

lemma ledger_stage_Inl: "ledger_stage c n l = (Inl e, l') \<Longrightarrow> same_but_fault l l'"
  by (auto simp: ledger_stage_def ledger_health_def Let_def split: sum.splits option.splits if_splits
      dest: ledger_fault_raise_same)

lemma ledger_acknowledge_Inl:
  assumes "\<And>c. ledger_pending l = Some c \<Longrightarrow> valid_command c"
    and "ledger_acknowledge con s n l = (Inl e, l')"
  shows "same_but_fault l l'"
proof -
  have "readonly_float_vector (Vec (cmd_executed_action13 c)) 13 nm = Inr (cmd_executed_action13 c)"
    if "ledger_pending l = Some c" for c nm
    using assms(1) [OF that] by (intro readonly_float_vector_idem) (simp add: valid_command_def)
  with assms(2) show ?thesis
    by (auto simp: ledger_acknowledge_def ledger_health_def Let_def
        split: sum.splits option.splits if_splits dest: ledger_fault_raise_same)
qed

lemma require_commit_deadline_same: "require_commit_deadline n l = (r, l') \<Longrightarrow> same_but_fault l l'"
  by (auto simp: require_commit_deadline_def ledger_health_def Let_def
      split: sum.splits option.splits if_splits dest: ledger_fault_raise_same)

lemma ledger_fail_same: "ledger_fail con k r l = (res, l') \<Longrightarrow> same_but_fault l l'"
  using ledger_fault_locked_same by (auto simp: ledger_fail_def split: sum.splits)

section \<open>Runs with their history\<close>

text \<open>
  A run of the ledger next to the history of what it accepted: the commands it staged and
  the acknowledgements it took. Only checked commands exist, so only those are staged.
\<close>

datatype ledger_event = Staged closed_loop_command | Acked string int

inductive ledger_step ::
    "action_ledger \<times> ledger_event list \<Rightarrow> action_ledger \<times> ledger_event list \<Rightarrow> bool" where
  stage_ok: "valid_command c \<Longrightarrow> ledger_stage c n l = (Inr (), l') \<Longrightarrow>
     ledger_step (l, h) (l', h @ [Staged c])"
| stage_err: "ledger_stage c n l = (Inl e, l') \<Longrightarrow> ledger_step (l, h) (l', h)"
| ack_ok: "ledger_acknowledge con s n l = (Inr b, l') \<Longrightarrow> consumer_name con = Inr name \<Longrightarrow>
     positive_integer s ''acknowledged sequence'' = Inr k \<Longrightarrow>
     ledger_step (l, h) (l', h @ [Acked name k])"
| ack_err: "ledger_acknowledge con s n l = (Inl e, l') \<Longrightarrow> ledger_step (l, h) (l', h)"
| deadline: "require_commit_deadline n l = (r, l') \<Longrightarrow> ledger_step (l, h) (l', h)"
| device_fail: "ledger_fail con k reason l = (r, l') \<Longrightarrow> ledger_step (l, h) (l', h)"

fun staged_commands :: "ledger_event list \<Rightarrow> closed_loop_command list" where
  "staged_commands [] = []"
| "staged_commands (Staged c # h) = c # staged_commands h"
| "staged_commands (Acked n k # h) = staged_commands h"

lemma staged_commands_append [simp]:
  "staged_commands (h @ h') = staged_commands h @ staged_commands h'"
  by (induction h rule: staged_commands.induct) auto

text \<open>The action the observation of the \<open>k\<close>-th staged command must have used.\<close>

definition action_before :: "fl list \<Rightarrow> closed_loop_command list \<Rightarrow> nat \<Rightarrow> fl list" where
  "action_before p0 cs k = (if k = 0 then p0 else cmd_executed_action13 (cs ! (k - 1)))"

definition ledger_inv :: "fl list \<Rightarrow> action_ledger \<times> ledger_event list \<Rightarrow> bool" where
  "ledger_inv p0 = (\<lambda>(l, h).
     let cs = staged_commands h; n = nat (last_committed_sequence l) in
     0 \<le> last_committed_sequence l \<and>
     length cs = (case ledger_pending l of None \<Rightarrow> n | Some _ \<Rightarrow> Suc n) \<and>
     (\<forall>c. ledger_pending l = Some c \<longrightarrow> cs ! n = c) \<and>
     (\<forall>k < length cs. valid_command (cs ! k) \<and> cmd_sequence (cs ! k) = int k + 1 \<and>
        cmd_previous_action13 (cs ! k) = action_before p0 cs k) \<and>
     previous_action13 l = action_before p0 cs n \<and>
     acknowledged l \<subset> set COMMAND_CONSUMERS \<and> (ledger_pending l = None \<longrightarrow> acknowledged l = {}) \<and>
     (\<forall>name \<in> acknowledged l. Acked name (int n + 1) \<in> set h) \<and>
     (\<forall>k. 1 \<le> k \<and> k \<le> int n \<longrightarrow> (\<forall>name \<in> set COMMAND_CONSUMERS. Acked name k \<in> set h)))"

definition ledger_init :: "fl list \<Rightarrow> action_ledger \<times> ledger_event list \<Rightarrow> bool" where
  "ledger_init p0 = (\<lambda>(l, h).
     (\<exists>latency initial. make_ledger latency initial = Inr l) \<and> previous_action13 l = p0 \<and> h = [])"

lemma make_ledger_Inr:
  "make_ledger latency initial = Inr l \<Longrightarrow>
     last_committed_sequence l = 0 \<and> ledger_pending l = None \<and> acknowledged l = {} \<and>
     ledger_fault_reason l = None \<and> float_vector 13 (previous_action13 l)"
  by (auto simp: make_ledger_def res_bind_Inr_iff dest: readonly_float_vector_Inr split: if_splits)

lemma ledger_inv_init: "ledger_init p0 s \<Longrightarrow> ledger_inv p0 s"
  by (auto simp: ledger_init_def ledger_inv_def action_before_def COMMAND_CONSUMERS_def Let_def
      dest!: make_ledger_Inr)

lemma consumers_nonempty: "{} \<subset> set COMMAND_CONSUMERS"
  by (simp add: COMMAND_CONSUMERS_def psubset_eq)

lemma ledger_inv_pending_valid:
  "ledger_inv p0 (l, h) \<Longrightarrow> ledger_pending l = Some c \<Longrightarrow> valid_command c"
  by (auto simp: ledger_inv_def Let_def)

lemma ledger_inv_same: "same_but_fault l l' \<Longrightarrow> ledger_inv p0 (l, h) \<Longrightarrow> ledger_inv p0 (l', h)"
  by (cases "ledger_pending l") (auto simp: same_but_fault_def ledger_inv_def Let_def)

lemma ledger_inv_stage:
  assumes inv: "ledger_inv p0 (l, h)" and v: "valid_command c"
    and st: "ledger_stage c n l = (Inr (), l')"
  shows "ledger_inv p0 (l', h @ [Staged c])"
proof -
  define cs where "cs = staged_commands h"
  have p: "ledger_pending l = None" "cmd_sequence c = last_committed_sequence l + 1"
    "cmd_previous_action13 c = previous_action13 l"
    and l': "l' = l\<lparr>ledger_pending := Some c, acknowledged := {}\<rparr>"
    using st by (auto simp: ledger_stage_Inr)
  have ab: "action_before p0 (cs @ [c]) k = action_before p0 cs k" if "k \<le> length cs" for k
    using that by (auto simp: action_before_def nth_append)
  show ?thesis
    using inv v p unfolding l'
    by (auto simp: ledger_inv_def Let_def nth_append less_Suc_eq ab COMMAND_CONSUMERS_def simp flip: cs_def)
qed

lemma ledger_inv_ack:
  assumes inv: "ledger_inv p0 (l, h)" and name: "consumer_name con = Inr name"
    and k: "positive_integer s ''acknowledged sequence'' = Inr k"
    and ack: "ledger_acknowledge con s n l = (Inr b, l')"
  shows "ledger_inv p0 (l', h @ [Acked name k])"
proof -
  define cs where "cs = staged_commands h"
  obtain c where c: "ledger_pending l = Some c" "k = cmd_sequence c" "l' = acked_state name c l"
    using ack name k ledger_inv_pending_valid [OF inv] by (auto simp: ledger_acknowledge_Inr)
  have nm: "name \<in> set COMMAND_CONSUMERS"
    using name by (auto simp: consumer_name_def Let_def split: if_splits)
  have seq: "cmd_sequence c = last_committed_sequence l + 1"
    using inv c(1) by (auto simp: ledger_inv_def Let_def)
  show ?thesis
  proof (cases "insert name (acknowledged l) = set COMMAND_CONSUMERS")
    case True
    define n where "n = nat (last_committed_sequence l)"
    have n: "last_committed_sequence l = int n" "k = int n + 1" "cmd_sequence c = int n + 1"
      using inv c(2) seq by (auto simp: ledger_inv_def n_def Let_def)
    have cs: "length cs = Suc n" "cs ! n = c"
      and each: "\<forall>j < Suc n. valid_command (cs ! j) \<and> cmd_sequence (cs ! j) = int j + 1 \<and>
        cmd_previous_action13 (cs ! j) = action_before p0 cs j"
      and acked: "\<forall>nm \<in> acknowledged l. Acked nm (int n + 1) \<in> set h"
      and old: "\<forall>j. 1 \<le> j \<and> j \<le> int n \<longrightarrow> (\<forall>nm \<in> set COMMAND_CONSUMERS. Acked nm j \<in> set h)"
      using inv c(1) by (auto simp: ledger_inv_def Let_def n(1) simp flip: cs_def)
    have "\<forall>nm \<in> set COMMAND_CONSUMERS. Acked nm (int n + 1) \<in> set (h @ [Acked name k])"
      using acked n(2) by (auto simp flip: True)
    with old have all: "\<forall>j. 1 \<le> j \<and> j \<le> int n + 1 \<longrightarrow>
        (\<forall>nm \<in> set COMMAND_CONSUMERS. Acked nm j \<in> set (h @ [Acked name k]))"
      by (metis Un_iff order_le_less set_append zle_add1_eq_le)
    have "l' = l\<lparr>previous_action13 := cmd_executed_action13 c, last_committed_sequence := int n + 1,
        ledger_pending := None, acknowledged := {}\<rparr>"
      using True by (simp add: c(3) acked_state_def n(3))
    then show ?thesis
      using cs each all
      by (simp add: ledger_inv_def Let_def nat_add_distrib action_before_def consumers_nonempty
          flip: cs_def)
  next
    case False
    then show ?thesis
      using inv c(1,2) seq nm unfolding c(3)
      by (auto simp: ledger_inv_def acked_state_def Let_def simp flip: cs_def)
  qed
qed

interpretation ledger: invariant_system "ledger_init p0" ledger_step "ledger_inv p0"
proof
  show "ledger_inv p0 s" if "ledger_init p0 s" for s
    using that by (rule ledger_inv_init)
  show "ledger_inv p0 t" if "ledger_step s t" "ledger_inv p0 s" for s t
    using that
  proof (induction rule: ledger_step.induct)
    case (ack_err con s n l e l' h)
    then show ?case
      by (blast intro: ledger_inv_same ledger_acknowledge_Inl dest: ledger_inv_pending_valid)
  qed (auto intro: ledger_inv_stage ledger_inv_ack ledger_inv_same ledger_stage_Inl
      require_commit_deadline_same ledger_fail_same)
qed

section \<open>Fail-closed behaviour\<close>

text \<open>The steps that move the barrier: a staged command or an accepted acknowledgement.\<close>

inductive ledger_works ::
    "action_ledger \<times> ledger_event list \<Rightarrow> action_ledger \<times> ledger_event list \<Rightarrow> bool" where
  "ledger_stage c n l = (Inr (), l') \<Longrightarrow> ledger_works (l, h) (l', h')"
| "ledger_acknowledge con s n l = (Inr b, l') \<Longrightarrow> ledger_works (l, h) (l', h')"

inductive_cases ledger_worksE: "ledger_works s t"

lemma ledger_acknowledge_healthy: "ledger_acknowledge con s n l = (Inr b, l') \<Longrightarrow> ledger_fault_reason l = None"
  by (auto simp: ledger_acknowledge_def ledger_health_def split: sum.splits option.splits)

lemma ledger_step_latched:
  assumes "ledger_step s t" and "ledger_fault_reason (fst s) = Some r"
  shows "fst t = fst s"
  using assms
  by (induction rule: ledger_step.induct)
    (auto simp: ledger_stage_def ledger_acknowledge_def require_commit_deadline_def ledger_fail_def
      ledger_fault_locked_def ledger_health_def split: sum.splits option.splits)

interpretation ledger_latch: fault_latch "\<lambda>s. ledger_fault_reason (fst s)" ledger_step ledger_works
proof
  show "ledger_fault_reason (fst t) = Some r"
    if "ledger_step s t" "ledger_fault_reason (fst s) = Some r" for s t r
    using that ledger_step_latched by fastforce
  show "ledger_fault_reason (fst s) = None" if "ledger_works s t" for s t
    using that by (auto simp: ledger_stage_Inr dest: ledger_acknowledge_healthy elim!: ledger_worksE)
qed

lemma ledger_run_latched:
  "ledger_step\<^sup>*\<^sup>* s t \<Longrightarrow> ledger_fault_reason (fst s) = Some r \<Longrightarrow> fst t = fst s"
  by (induction rule: rtranclp_induct) (auto dest: ledger_step_latched)

section \<open>Refinement of the abstract transaction\<close>

text \<open>The ledger's value is the previous action, its proposal the pending command's action.\<close>

definition ledger_abs :: "action_ledger \<times> ledger_event list \<Rightarrow> fl list two_phase" where
  "ledger_abs = (\<lambda>(l, h). \<lparr>tp_value = previous_action13 l, tp_count = last_committed_sequence l,
     tp_proposed = map_option cmd_executed_action13 (ledger_pending l), tp_failed = ledger_fault_reason l\<rparr>)"

lemma same_but_fault_abs: "same_but_fault l l' \<Longrightarrow> tp_step (ledger_abs (l, h)) (ledger_abs (l', h'))"
  using tp_stutter [of "ledger_abs (l, h)"] tp_latch [of "ledger_abs (l, h)"]
  by (auto simp: same_but_fault_def ledger_abs_def)

lemma ledger_ack_abs:
  assumes inv: "ledger_inv p0 (l, h)" and ack: "ledger_acknowledge con s n l = (Inr b, l')"
  shows "tp_step (ledger_abs (l, h)) (ledger_abs (l', h'))"
proof -
  obtain name c where c: "ledger_pending l = Some c" "ledger_fault_reason l = None" "l' = acked_state name c l"
    using ack ledger_inv_pending_valid [OF inv] by (auto simp: ledger_acknowledge_Inr)
  have "cmd_sequence c = last_committed_sequence l + 1"
    using inv c(1) by (auto simp: ledger_inv_def Let_def)
  then show ?thesis
    using c tp_stutter [of "ledger_abs (l, h)"] tp_commit [of "ledger_abs (l, h)" "cmd_executed_action13 c"]
    by (auto simp: ledger_abs_def acked_state_def)
qed

lemma ledger_simulates:
  assumes "ledger_inv p0 s" and "ledger_step s t"
  shows "tp_step (ledger_abs s) (ledger_abs t)"
  using assms(2,1)
proof (induction rule: ledger_step.induct)
  case (stage_ok c n l l' h)
  then show ?case
    using tp_propose [of "ledger_abs (l, h)" "cmd_executed_action13 c"]
    by (auto simp: ledger_stage_Inr ledger_abs_def)
next
  case (ack_err con s n l e l' h)
  then show ?case
    by (blast intro: same_but_fault_abs ledger_acknowledge_Inl dest: ledger_inv_pending_valid)
next
  case (ack_ok con s n l b l' name k h)
  then show ?case by (blast intro: ledger_ack_abs)
qed (auto intro: same_but_fault_abs ledger_stage_Inl require_commit_deadline_same ledger_fail_same)

interpretation ledger_tp: two_phase_system "ledger_init p0" ledger_step "ledger_inv p0" ledger_abs
  by unfold_locales (rule ledger_simulates)

section \<open>Properties\<close>

text \<open>C1. The commit barrier: in every reachable state, each committed sequence was staged as a
  checked command of that number and acknowledged under that number by both consumers;
  what is pending is the next number, and at least one of its acknowledgements is missing.\<close>

theorem commit_needs_both_acknowledgements:
  assumes "reach (ledger_init p0) ledger_step (l, h)"
  shows "(\<forall>k. 1 \<le> k \<and> k \<le> last_committed_sequence l \<longrightarrow>
      Acked ''franka'' k \<in> set h \<and> Acked ''rh56'' k \<in> set h \<and>
      (\<exists>c. Staged c \<in> set h \<and> valid_command c \<and> cmd_sequence c = k)) \<and>
    (\<forall>c. ledger_pending l = Some c \<longrightarrow>
      cmd_sequence c = last_committed_sequence l + 1 \<and>
      \<not> {''franka'', ''rh56''} \<subseteq> acknowledged l)"
proof -
  have inv: "ledger_inv p0 (l, h)" using ledger.reach_inv [OF assms] .
  have mem: "Staged c \<in> set h" if "c \<in> set (staged_commands h)" for c
    using that by (induction h rule: staged_commands.induct) auto
  have "\<exists>c. Staged c \<in> set h \<and> valid_command c \<and> cmd_sequence c = k"
    if "1 \<le> k" "k \<le> last_committed_sequence l" for k
  proof -
    have "nat (k - 1) < length (staged_commands h)"
      using inv that by (auto simp: ledger_inv_def Let_def split: option.splits)
    with inv that(1) mem show ?thesis
      by (intro exI [of _ "staged_commands h ! nat (k - 1)"]) (auto simp: ledger_inv_def Let_def)
  qed
  moreover have "Acked ''franka'' k \<in> set h \<and> Acked ''rh56'' k \<in> set h"
    if "1 \<le> k" "k \<le> last_committed_sequence l" for k
    using inv that by (simp add: ledger_inv_def Let_def COMMAND_CONSUMERS_def)
  moreover have "cmd_sequence c = last_committed_sequence l + 1 \<and> \<not> {''franka'', ''rh56''} \<subseteq> acknowledged l"
    if "ledger_pending l = Some c" for c
    using inv that by (auto simp: ledger_inv_def Let_def COMMAND_CONSUMERS_def)
  ultimately show ?thesis by blast
qed

text \<open>Exact previous-action semantics: in every reachable state the ledger's previous action
  is the executed action of the last committed command (the initial action before the
  first commit), and every command it staged carried as its previous action the executed
  action of the command before it.\<close>

theorem previous_action_chain:
  assumes "reach (ledger_init p0) ledger_step (l, h)"
  shows "previous_action13 l = action_before p0 (staged_commands h) (nat (last_committed_sequence l)) \<and>
    (\<forall>k < length (staged_commands h).
       cmd_sequence (staged_commands h ! k) = int k + 1 \<and>
       cmd_previous_action13 (staged_commands h ! k) = action_before p0 (staged_commands h) k)"
  using ledger.reach_inv [OF assms] by (auto simp: ledger_inv_def Let_def)

text \<open>An acknowledgement of a reachable ledger is accepted exactly when the consumer is
  known, no fault is latched, the sequence is the pending one and the command's age at the
  reading is between zero and the commit latency; it reports a commit exactly when it
  completes the pair, and only then moves the previous action and the sequence.\<close>

theorem acknowledge_accepts:
  assumes "reach (ledger_init p0) ledger_step (l, h)"
  shows "ledger_acknowledge con s n l = (Inr b, l') \<longleftrightarrow>
     (\<exists>name now c. consumer_name con = Inr name \<and> finite_scalar n ''now_monotonic_s'' = Inr now \<and>
        ledger_fault_reason l = None \<and> ledger_pending l = Some c \<and>
        positive_integer s ''acknowledged sequence'' = Inr (cmd_sequence c) \<and>
        \<not> now - produced_monotonic_s c < 0 \<and>
        \<not> maximum_commit_latency l < now - produced_monotonic_s c \<and>
        b = (insert name (acknowledged l) = {''franka'', ''rh56''}) \<and>
        l' = (if b then l\<lparr>previous_action13 := cmd_executed_action13 c,
                          last_committed_sequence := cmd_sequence c,
                          ledger_pending := None, acknowledged := {}\<rparr>
              else l\<lparr>acknowledged := insert name (acknowledged l)\<rparr>))"
  using ledger_inv_pending_valid [OF ledger.reach_inv [OF assms]]
  by (subst ledger_acknowledge_Inr, blast)
    (intro ex_cong1 conj_cong refl, simp_all add: acked_state_def COMMAND_CONSUMERS_def)

text \<open>A late acknowledgement is terminal: when the pending command is older than the commit
  latency at the reading, acknowledging it raises and latches a fault, and in no later
  state is anything staged, acknowledged or committed.\<close>

theorem late_acknowledgement_is_terminal:
  assumes "ledger_pending l = Some c" and "ledger_fault_reason l = None"
    and "consumer_name con = Inr name" and "finite_scalar n ''now_monotonic_s'' = Inr now"
    and "positive_integer s ''acknowledged sequence'' = Inr (cmd_sequence c)"
    and "maximum_commit_latency l < now - produced_monotonic_s c"
    and "ledger_acknowledge con s n l = (r, l1)" and "ledger_step\<^sup>*\<^sup>* (l1, h) (l2, h2)"
  shows "(\<exists>e. r = Inl e) \<and> ledger_fault_reason l2 \<noteq> None \<and>
    last_committed_sequence l2 = last_committed_sequence l \<and> previous_action13 l2 = previous_action13 l \<and>
    \<not> ledger_works (l2, h2) t"
proof -
  have r: "(\<exists>e. r = Inl e) \<and> (\<exists>reason. l1 = l\<lparr>ledger_fault_reason := Some reason\<rparr>)"
    using assms(1-7)
    by (auto simp: ledger_acknowledge_def ledger_health_def ledger_fault_raise_def
        ledger_fault_locked_def proto_def Let_def split: if_splits)
  then have l2: "l2 = l1" using ledger_run_latched [OF assms(8)] by auto
  then show ?thesis
    using r ledger_latch.fail_closed [of "(l2, h2)" t] by auto
qed

text \<open>A latched ledger fault is never cleared or replaced, and no command is staged or
  acknowledged afterwards.\<close>

theorem ledger_fault_is_terminal:
  assumes "ledger_step\<^sup>*\<^sup>* (l, h) (l', h')" and "ledger_fault_reason l = Some reason"
  shows "l' = l \<and> ledger_stage c n l' \<noteq> (Inr (), l'') \<and> ledger_acknowledge con s n l' \<noteq> (Inr b, l'')"
proof -
  have "l' = l" using ledger_run_latched [OF assms(1)] assms(2) by simp
  then show ?thesis
    using assms(2) ledger_acknowledge_healthy by (fastforce simp: ledger_stage_Inr)
qed

section \<open>Instances\<close>

definition ledger_ex :: action_ledger where
  "ledger_ex = \<lparr>maximum_commit_latency = Fin (1 / 2), previous_action13 = INITIAL_PREVIOUS_ACTION13,
     last_committed_sequence = 0, ledger_pending = None, acknowledged = {}, ledger_fault_reason = None\<rparr>"

definition ledger_ex_staged :: action_ledger where
  "ledger_ex_staged = ledger_ex\<lparr>ledger_pending := Some (cmd_ex 1 2)\<rparr>"

definition ledger_ex_half :: action_ledger where
  "ledger_ex_half = ledger_ex_staged\<lparr>acknowledged := {''franka''}\<rparr>"

definition ledger_ex_done :: action_ledger where
  "ledger_ex_done = ledger_ex\<lparr>previous_action13 := replicate 13 (Fin 1), last_committed_sequence := 1\<rparr>"

lemmas ledger_ex_defs = ledger_ex_def ledger_ex_staged_def ledger_ex_half_def ledger_ex_done_def

lemma ledger_ex_made: "make_ledger (PyFloat (Fin (1 / 2))) (Vec INITIAL_PREVIOUS_ACTION13) = Inr ledger_ex"
proof -
  have "readonly_float_vector (Vec INITIAL_PREVIOUS_ACTION13) 13 ''initial_previous_action13''
      = Inr INITIAL_PREVIOUS_ACTION13"
    by code_simp
  then show ?thesis
    by (simp add: make_ledger_def ledger_ex_def zero_fl_def)
qed

lemma age_ex: "Fin 2 - Fin 2 = Fin 0" "Fin (9 / 4) - Fin 2 = Fin (1 / 4)" "Fin 3 - Fin 2 = Fin 1"
  by code_simp+

lemma consumer_name_ex [simp]: "consumer_name ''franka'' = Inr ''franka''" "consumer_name ''rh56'' = Inr ''rh56''"
  by code_simp+

lemma positive_integer_ex [simp]: "positive_integer (PyInt 1) nm = Inr 1"
proof -
  have "rnd64 1 = Fin 1" by code_simp
  then show ?thesis by (simp add: positive_integer_def float_or_def zero_fl_def Let_def)
qed

lemma cmd_ex_valid: "valid_command (cmd_ex 1 2)"
  by (rule make_command_valid [OF cmd_ex_made])

lemma cmd_ex_simps [simp]:
  "produced_monotonic_s (cmd_ex k t) = Fin t" "cmd_sequence (cmd_ex k t) = k"
  "cmd_previous_action13 (cmd_ex k t) = INITIAL_PREVIOUS_ACTION13"
  "cmd_executed_action13 (cmd_ex k t) = replicate 13 (Fin 1)"
  "cmd_rh56_register (cmd_ex k t) = [0, 200, 400, 600, 800, 1000]"
  by (simp_all add: cmd_ex_def INITIAL_PREVIOUS_ACTION13_def)

lemma ledger_ex_stage: "ledger_stage (cmd_ex 1 2) (PyFloat (Fin 2)) ledger_ex = (Inr (), ledger_ex_staged)"
  by (simp add: ledger_stage_Inr ledger_ex_defs age_ex zero_fl_def)

lemma ledger_ex_ack1:
  "ledger_acknowledge ''franka'' (PyInt 1) (PyFloat (Fin (9 / 4))) ledger_ex_staged = (Inr False, ledger_ex_half)"
  using cmd_ex_valid
  by (subst ledger_acknowledge_Inr) (auto simp: ledger_ex_defs age_ex zero_fl_def acked_state_def COMMAND_CONSUMERS_def)

lemma ledger_ex_ack2:
  "ledger_acknowledge ''rh56'' (PyInt 1) (PyFloat (Fin (9 / 4))) ledger_ex_half = (Inr True, ledger_ex_done)"
  using cmd_ex_valid
  by (subst ledger_acknowledge_Inr) (auto simp: ledger_ex_defs age_ex zero_fl_def acked_state_def COMMAND_CONSUMERS_def)

lemma ledger_ex_init: "ledger_init INITIAL_PREVIOUS_ACTION13 (ledger_ex, [])"
  using ledger_ex_made by (auto simp: ledger_init_def ledger_ex_def)

lemma ledger_ex_reach_half:
  "reach (ledger_init INITIAL_PREVIOUS_ACTION13) ledger_step
     (ledger_ex_half, [Staged (cmd_ex 1 2), Acked ''franka'' 1])"
proof -
  have "reach (ledger_init INITIAL_PREVIOUS_ACTION13) ledger_step (ledger_ex, [])"
    by (rule reach_init) (rule ledger_ex_init)
  from reach_step [OF this stage_ok [OF cmd_ex_valid ledger_ex_stage]]
  have "reach (ledger_init INITIAL_PREVIOUS_ACTION13) ledger_step (ledger_ex_staged, [Staged (cmd_ex 1 2)])"
    by simp
  from reach_step [OF this ack_ok [OF ledger_ex_ack1]] show ?thesis by simp
qed

lemma ledger_ex_reach:
  "reach (ledger_init INITIAL_PREVIOUS_ACTION13) ledger_step
     (ledger_ex_done, [Staged (cmd_ex 1 2), Acked ''franka'' 1, Acked ''rh56'' 1])"
  using reach_step [OF ledger_ex_reach_half ack_ok [OF ledger_ex_ack2]] by simp

theorem commit_needs_both_acknowledgements_witness:
  "last_committed_sequence ledger_ex_done = 1 \<and>
   Acked ''rh56'' 1 \<in> set [Staged (cmd_ex 1 2), Acked ''franka'' 1, Acked ''rh56'' 1]"
  using commit_needs_both_acknowledgements [OF ledger_ex_reach] by (simp add: ledger_ex_defs)

theorem previous_action_chain_witness:
  "previous_action13 ledger_ex_done = cmd_executed_action13 (cmd_ex 1 2)"
  using previous_action_chain [OF ledger_ex_reach] by (simp add: ledger_ex_defs action_before_def)

theorem acknowledge_accepts_witness:
  "\<exists>l'. ledger_acknowledge ''rh56'' (PyInt 1) (PyFloat (Fin (9 / 4))) ledger_ex_half = (Inr True, l') \<and>
     last_committed_sequence l' = 1"
  by (subst acknowledge_accepts [OF ledger_ex_reach_half])
    (auto simp: ledger_ex_defs age_ex zero_fl_def)

theorem late_acknowledgement_is_terminal_witness:
  "last_committed_sequence (snd (ledger_acknowledge ''rh56'' (PyInt 1) (PyFloat (Fin 3)) ledger_ex_half)) = 0"
  using late_acknowledgement_is_terminal [of ledger_ex_half "cmd_ex 1 2" "''rh56''" "''rh56''" "PyFloat (Fin 3)"
      "Fin 3" "PyInt 1" "fst (ledger_acknowledge ''rh56'' (PyInt 1) (PyFloat (Fin 3)) ledger_ex_half)"
      "snd (ledger_acknowledge ''rh56'' (PyInt 1) (PyFloat (Fin 3)) ledger_ex_half)" "[]"
      "snd (ledger_acknowledge ''rh56'' (PyInt 1) (PyFloat (Fin 3)) ledger_ex_half)" "[]"]
  by (simp add: ledger_ex_defs age_ex)

theorem ledger_fault_is_terminal_witness:
  "ledger_stage (cmd_ex 1 2) (PyFloat (Fin 2)) (ledger_fault_locked ''stop'' ledger_ex) \<noteq> (Inr (), ledger_ex_staged)"
  using ledger_fault_is_terminal [of "ledger_fault_locked ''stop'' ledger_ex" "[]"
      "ledger_fault_locked ''stop'' ledger_ex" "[]"]
  by (simp add: ledger_fault_locked_def ledger_ex_def)

end
