(* ===== verification/Actuator.thy ===== *)
theory Actuator
  imports Preflight Ledger
begin

text \<open>
  \<open>RH56TransactionalActuator\<close> of \<open>robot_control/rh56/actuator.py\<close>: construction, state,
  arming and the transport helpers. The object is the record \<open>actuator\<close> (its settings the
  record \<open>settings\<close>). A method runs on \<open>'s system\<close>: the actuator, the safety gate it was
  armed with, the action ledger of the session, and the state \<open>'s\<close> of the outside world,
  which the transport, the clock and \<open>sleep\<close> (the parameter \<open>env\<close>) read and change. One
  session has one gate and one ledger; \<open>safety_gate_bound\<close> says that the actuator holds its
  reference to the gate. \<open>tid\<close> is the calling thread.

  \<open>io_log\<close> is a history: the transport calls the actuator made, each before it runs, and the
  readbacks and samples it accepted. No operation reads it.
\<close>

section \<open>State\<close>

datatype actuator_state = AS_DISARMED | AS_ARMED | AS_FAULT_LATCHED

record settings =
  cfg_transport_name :: string
  cfg_hardware_backed :: bool
  cfg_baud_rate :: int
  command_watchdog_timeout_s :: fl
  supervised_inter_command_watchdog_timeout_s :: fl
  maximum_feedback_age_s :: fl
  maximum_running_axis_current_ma :: int
  maximum_temperature_c :: int
  stop_timeout_s :: fl
  stop_verify_samples :: int
  stop_verify_interval_s :: fl
  stop_max_axis_current_ma :: int
  stop_settle_max_axis_current_ma :: int
  stop_max_angle_drift_units :: int
  stop_max_position_drift_units :: int
  feedback_to_command_offset_units :: "int list"
  stop_hold_command_minimum :: "int list"
  stop_hold_command_maximum :: "int list"

record actuator =
  settings_of :: settings
  act_owner :: thread_owner
  act_state :: actuator_state
  act_fault_reason :: "string option"
  stop_confirmed :: bool
  act_run_id :: "string option"
  act_authorization_id :: "string option"
  preflight_sha256 :: "string option"
  safety_gate_bound :: bool
  act_pending_sequence :: "int option"
  last_acknowledged_sequence :: int
  armed_monotonic_s :: "fl option"
  last_command_monotonic_s :: "fl option"
  last_feedback_monotonic_s :: "fl option"
  supervised_session :: bool
  supervised_awaiting_first_numeric_command :: bool
  last_supervised_target :: "int list option"

datatype io_event =
    WriteTargets "int list" | ReadTargets | ReadFeedback
  | GotTargets "int list" | GotFeedback safety_feedback
  | LateWrite "int list" fl fl | WriteClockLost | StopClockLost

record 's system =
  act :: actuator
  gate_of :: safety_gate
  ledger_of :: action_ledger
  world :: 's
  io_log :: "io_event list"

record 's env =
  transport_of :: "'s rh56_transport"
  env_monotonic :: "('s, fl) op"
  env_sleep :: "fl \<Rightarrow> ('s, unit) op"

section \<open>Construction\<close>

text \<open>The keyword arguments of the constructor, and their defaults.\<close>

record actuator_args =
  arg_command_watchdog_timeout_s :: pyval
  arg_supervised_inter_command_watchdog_timeout_s :: "pyval option"
  arg_maximum_feedback_age_s :: pyval
  arg_maximum_running_axis_current_ma :: pyval
  arg_maximum_temperature_c :: pyval
  arg_stop_timeout_s :: pyval
  arg_stop_verify_samples :: pyval
  arg_stop_verify_interval_s :: pyval
  arg_stop_max_axis_current_ma :: pyval
  arg_stop_settle_max_axis_current_ma :: "pyval option"
  arg_stop_max_angle_drift_units :: pyval
  arg_stop_max_position_drift_units :: pyval
  arg_feedback_to_command_offset_units :: pyval
  arg_stop_hold_command_minimum :: pyval
  arg_stop_hold_command_maximum :: pyval

definition default_args :: actuator_args where
  "default_args =
     \<lparr>arg_command_watchdog_timeout_s = PyFloat RH56_MAX_POLICY_WATCHDOG_S,
      arg_supervised_inter_command_watchdog_timeout_s = None,
      arg_maximum_feedback_age_s = PyFloat (rnd64 (25 / 1000)),
      arg_maximum_running_axis_current_ma = PyInt 1400,
      arg_maximum_temperature_c = PyInt 60,
      arg_stop_timeout_s = PyFloat 1,
      arg_stop_verify_samples = PyInt 3,
      arg_stop_verify_interval_s = PyFloat (rnd64 (100 / 1000)),
      arg_stop_max_axis_current_ma = PyInt 100,
      arg_stop_settle_max_axis_current_ma = None,
      arg_stop_max_angle_drift_units = PyInt 2,
      arg_stop_max_position_drift_units = PyInt 3,
      arg_feedback_to_command_offset_units = ints (replicate 6 0),
      arg_stop_hold_command_minimum = ints (replicate 6 0),
      arg_stop_hold_command_maximum = ints (replicate 6 1000)\<rparr>"

definition value_error :: "string \<Rightarrow> exn + 'a" where
  "value_error m = Inl (Exn ValueError m)"

definition make_settings :: "'s rh56_transport \<Rightarrow> actuator_args \<Rightarrow> exn + settings" where
  "make_settings T a =
     res_bind (positive_float (arg_command_watchdog_timeout_s a) ''command_watchdog_timeout_s'') (\<lambda>timeout.
     if RH56_MAX_POLICY_WATCHDOG_S < timeout
     then value_error (''command_watchdog_timeout_s must not exceed ''
            @ fixed_str 3 RH56_MAX_POLICY_WATCHDOG_S @ ''s'')
     else
     res_bind (positive_float
                 (case arg_supervised_inter_command_watchdog_timeout_s a of None \<Rightarrow> PyFloat timeout | Some v \<Rightarrow> v)
                 ''supervised_inter_command_watchdog_timeout_s'') (\<lambda>inter_timeout.
     if inter_timeout < timeout
     then value_error ''supervised inter-command watchdog cannot be below command freshness''
     else if RH56_MAX_SUPERVISED_INTER_COMMAND_WATCHDOG_S < inter_timeout
     then value_error (''supervised inter-command watchdog exceeds ''
            @ fixed_str 3 RH56_MAX_SUPERVISED_INTER_COMMAND_WATCHDOG_S @ ''s'')
     else
     res_bind (positive_float (arg_maximum_feedback_age_s a) ''maximum_feedback_age_s'') (\<lambda>feedback_age.
     res_bind (positive_float (arg_stop_timeout_s a) ''stop_timeout_s'') (\<lambda>stop_timeout.
     res_bind (finite_float (arg_stop_verify_interval_s a) ''stop_verify_interval_s'') (\<lambda>stop_interval.
     if stop_interval < 0 then value_error ''stop_verify_interval_s cannot be negative''
     else
     res_bind (bounded_integer (arg_stop_verify_samples a) ''stop_verify_samples'' 2 10) (\<lambda>samples.
     res_bind (bounded_integer (arg_maximum_running_axis_current_ma a)
                 ''maximum_running_axis_current_ma'' 1 32767) (\<lambda>running_current.
     res_bind (bounded_integer (arg_stop_max_axis_current_ma a)
                 ''stop_max_axis_current_ma'' 1 32767) (\<lambda>stop_current.
     res_bind (bounded_integer
                 (case arg_stop_settle_max_axis_current_ma a of None \<Rightarrow> PyInt running_current | Some v \<Rightarrow> v)
                 ''stop_settle_max_axis_current_ma'' 1 32767) (\<lambda>settle_current.
     res_bind (bounded_integer (arg_maximum_temperature_c a) ''maximum_temperature_c'' 1 255) (\<lambda>temperature.
     res_bind (bounded_integer (arg_stop_max_angle_drift_units a)
                 ''stop_max_angle_drift_units'' 0 1000) (\<lambda>angle_drift.
     res_bind (bounded_integer (arg_stop_max_position_drift_units a)
                 ''stop_max_position_drift_units'' 0 1000) (\<lambda>position_drift.
     res_bind (six_integers (arg_feedback_to_command_offset_units a)
                 ''feedback_to_command_offset_units'' (-100) 100) (\<lambda>offsets.
     res_bind (six_targets (arg_stop_hold_command_minimum a) ''stop_hold_command_minimum'' False) (\<lambda>hold_min.
     res_bind (six_targets (arg_stop_hold_command_maximum a) ''stop_hold_command_maximum'' False) (\<lambda>hold_max.
     if list_ex (\<lambda>(lower, upper). upper \<le> lower) (zip hold_min hold_max)
     then value_error ''stop hold command intervals are invalid''
     else if py_strip (transport_name T) = [] then value_error ''transport_name must be non-empty''
     else
     res_bind (require_bool (hardware_backed T) ''transport.hardware_backed'') (\<lambda>hardware.
     res_bind (bounded_integer (transport_baud_rate T) ''transport.baud_rate'' 1 10000000) (\<lambda>baud.
       Inr \<lparr>cfg_transport_name = py_strip (transport_name T), cfg_hardware_backed = hardware,
            cfg_baud_rate = baud, command_watchdog_timeout_s = timeout,
            supervised_inter_command_watchdog_timeout_s = inter_timeout,
            maximum_feedback_age_s = feedback_age,
            maximum_running_axis_current_ma = running_current, maximum_temperature_c = temperature,
            stop_timeout_s = stop_timeout, stop_verify_samples = samples,
            stop_verify_interval_s = stop_interval, stop_max_axis_current_ma = stop_current,
            stop_settle_max_axis_current_ma = settle_current,
            stop_max_angle_drift_units = angle_drift,
            stop_max_position_drift_units = position_drift,
            feedback_to_command_offset_units = offsets,
            stop_hold_command_minimum = hold_min, stop_hold_command_maximum = hold_max\<rparr>)))))))))))))))))"

definition make_actuator :: "'s rh56_transport \<Rightarrow> actuator_args \<Rightarrow> exn + actuator" where
  "make_actuator T a =
     res_bind (make_settings T a) (\<lambda>cfg.
     res_bind (make_owner (''RH56 transport '' @ cfg_transport_name cfg)) (\<lambda>w.
       Inr \<lparr>settings_of = cfg, act_owner = w, act_state = AS_DISARMED, act_fault_reason = None,
            stop_confirmed = False, act_run_id = None, act_authorization_id = None,
            preflight_sha256 = None, safety_gate_bound = False, act_pending_sequence = None,
            last_acknowledged_sequence = 0, armed_monotonic_s = None,
            last_command_monotonic_s = None, last_feedback_monotonic_s = None,
            supervised_session = False, supervised_awaiting_first_numeric_command = False,
            last_supervised_target = None\<rparr>))"

section \<open>Properties of the object\<close>

definition policy_watchdog_deadline_monotonic_s :: "actuator \<Rightarrow> fl option" where
  "policy_watchdog_deadline_monotonic_s a =
     (if act_state a \<noteq> AS_ARMED then None
      else case last_command_monotonic_s a of
             None \<Rightarrow> None
           | Some heartbeat \<Rightarrow>
               Some (heartbeat + (if supervised_session a
                                  then supervised_inter_command_watchdog_timeout_s (settings_of a)
                                  else command_watchdog_timeout_s (settings_of a))))"

definition inter_command_watchdog_timeout_s :: "actuator \<Rightarrow> fl" where
  "inter_command_watchdog_timeout_s a =
     (if supervised_session a then supervised_inter_command_watchdog_timeout_s (settings_of a)
      else command_watchdog_timeout_s (settings_of a))"

definition awaiting_first_numeric_command :: "actuator \<Rightarrow> bool" where
  "awaiting_first_numeric_command a =
     (act_state a = AS_ARMED \<and> supervised_awaiting_first_numeric_command a
      \<and> last_command_monotonic_s a = None)"

section \<open>Calls on the parts of the system\<close>

definition tx_error :: "string \<Rightarrow> exn" where
  "tx_error m = Exn RH56TransactionalError m"

definition on_act :: "(actuator \<Rightarrow> actuator) \<Rightarrow> ('s system, unit) prog" where
  "on_act f = modify (\<lambda>s. s\<lparr>act := f (act s)\<rparr>)"

definition the_act :: "('s system, actuator) prog" where
  "the_act = gets act"

definition world_op :: "('s, 'a) op \<Rightarrow> ('s system, 'a) prog" where
  "world_op f = call_part world (\<lambda>w s. s\<lparr>world := w\<rparr>) f"

definition log_event :: "io_event \<Rightarrow> ('s system, unit) prog" where
  "log_event c = modify (\<lambda>s. s\<lparr>io_log := io_log s @ [c]\<rparr>)"

definition world_prog :: "io_event \<Rightarrow> ('s, 'a) prog \<Rightarrow> ('s system, 'a) prog" where
  "world_prog c m = thenP (log_event c) (on_part world (\<lambda>w s. s\<lparr>world := w\<rparr>) m)"

definition gate_op :: "(safety_gate, 'a) op \<Rightarrow> ('s system, 'a) prog" where
  "gate_op f = call_part gate_of (\<lambda>g s. s\<lparr>gate_of := g\<rparr>) f"

definition ledger_op :: "(action_ledger, 'a) op \<Rightarrow> ('s system, 'a) prog" where
  "ledger_op f = call_part ledger_of (\<lambda>l s. s\<lparr>ledger_of := l\<rparr>) f"

definition act_now :: "'s env \<Rightarrow> ('s system, fl) prog" where
  "act_now E = bindP (world_op (env_monotonic E)) (\<lambda>t. lift_res (finite_float (PyFloat t) ''monotonic clock''))"

definition claim_actuator :: "nat \<Rightarrow> ('s system, unit) prog" where
  "claim_actuator tid =
     call_part (act_owner \<circ> act) (\<lambda>w s. s\<lparr>act := (act s)\<lparr>act_owner := w\<rparr>\<rparr>) (claim_for_current_thread tid)"

definition require_owner :: "nat \<Rightarrow> ('s system, unit) prog" where
  "require_owner tid =
     call_part (act_owner \<circ> act) (\<lambda>w s. s\<lparr>act := (act s)\<lparr>act_owner := w\<rparr>\<rparr>) (require_current_thread tid)"

definition reason_str :: "string option \<Rightarrow> string" where
  "reason_str r = (case r of None \<Rightarrow> ''None'' | Some t \<Rightarrow> t)"

definition latch_fault :: "string \<Rightarrow> actuator \<Rightarrow> actuator" where
  "latch_fault reason a =
     (let detail = strip_or reason ''unspecified RH56 transactional fault''
      in a\<lparr>act_fault_reason := (case act_fault_reason a of None \<Rightarrow> Some detail | Some r \<Rightarrow> Some r),
           act_state := AS_FAULT_LATCHED, stop_confirmed := False\<rparr>)"

section \<open>Arming\<close>

datatype preflight = C2Preflight actuation_preflight | SupervisedPreflight supervised_preflight

fun preflight_run_id :: "preflight \<Rightarrow> string" where
  "preflight_run_id (C2Preflight p) = commissioning_run_id p"
| "preflight_run_id (SupervisedPreflight p) = sup_commissioning_run_id p"

fun preflight_watchdog :: "preflight \<Rightarrow> fl" where
  "preflight_watchdog (C2Preflight p) = verified_command_watchdog_timeout_s p"
| "preflight_watchdog (SupervisedPreflight p) = sup_command_watchdog_timeout_s p"

fun preflight_report :: "preflight \<Rightarrow> string" where
  "preflight_report (C2Preflight p) = report_sha256 p"
| "preflight_report (SupervisedPreflight p) = sup_report_sha256 p"

fun is_supervised :: "preflight \<Rightarrow> bool" where
  "is_supervised (C2Preflight p) = False"
| "is_supervised (SupervisedPreflight p) = True"

definition preflight_mismatch :: "preflight \<Rightarrow> settings \<Rightarrow> exn option" where
  "preflight_mismatch p cfg =
     (if \<not> isclose (preflight_watchdog p) (command_watchdog_timeout_s cfg)
      then Some (tx_error ''RH56 command watchdog differs from the commissioned preflight'')
      else case p of
        C2Preflight _ \<Rightarrow> None
      | SupervisedPreflight q \<Rightarrow>
          if \<not> isclose (sup_inter_command_watchdog_timeout_s q) (supervised_inter_command_watchdog_timeout_s cfg)
          then Some (tx_error ''RH56 supervised inter-command watchdog differs from preflight'')
          else None)"

definition armed_actuator :: "preflight \<Rightarrow> motion_authorization \<Rightarrow> string \<Rightarrow> fl \<Rightarrow> actuator \<Rightarrow> actuator" where
  "armed_actuator p auth run now a =
     a\<lparr>act_run_id := Some run, act_authorization_id := Some (authorization_id auth),
       preflight_sha256 := Some (preflight_report p), safety_gate_bound := True,
       act_pending_sequence := None, last_acknowledged_sequence := 0,
       armed_monotonic_s := Some now, supervised_session := is_supervised p,
       last_command_monotonic_s := (if is_supervised p then None else Some now),
       supervised_awaiting_first_numeric_command := is_supervised p,
       last_supervised_target := None, last_feedback_monotonic_s := Some now,
       stop_confirmed := False, act_state := AS_ARMED\<rparr>"

definition arm_with_preflight ::
    "nat \<Rightarrow> 's env \<Rightarrow> preflight \<Rightarrow> motion_authorization \<Rightarrow> string \<Rightarrow> pyval option \<Rightarrow> ('s system, unit) prog" where
  "arm_with_preflight tid E p auth run_id now0 =
     thenP (require_owner tid)
    (let active_run = py_strip run_id in
     thenP (raise_if (active_run = []) (Exn ValueError ''run_id must be non-empty''))
    (bindP (case now0 of None \<Rightarrow> act_now E | Some v \<Rightarrow> lift_res (finite_float v ''now_monotonic_s'')) (\<lambda>now.
     bindP the_act (\<lambda>a.
     thenP (raise_if (act_state a = AS_FAULT_LATCHED)
              (tx_error (''RH56 fault is latched: '' @ reason_str (act_fault_reason a))))
    (thenP (raise_if (act_state a \<noteq> AS_DISARMED) (tx_error ''RH56 actuator is already armed''))
    (thenP (raise_if (preflight_run_id p = active_run)
              (tx_error ''RH56 execution run ID must differ from the commissioning run ID''))
    (thenP (case preflight_mismatch p (settings_of a) of None \<Rightarrow> ret () | Some e \<Rightarrow> throw e)
    (thenP (raise_if (auth_run_id auth \<noteq> active_run) (tx_error ''RH56 authorization run ID mismatch''))
    (thenP (raise_if (\<not> (issued_monotonic_s auth \<le> now \<and> now < expires_monotonic_s auth))
              (tx_error ''RH56 motion authorization is not active''))
    (bindP (gets gate_of) (\<lambda>g.
     thenP (raise_if (gate_state g \<noteq> ARMED) (tx_error ''closed-loop safety gate is not armed''))
    (thenP (raise_if (gate_authorization_id g \<noteq> Some (authorization_id auth))
              (tx_error ''closed-loop safety gate authorization does not match RH56''))
    (thenP (gate_op (require_motion tid active_run (PyFloat now)))
           (on_act (armed_actuator p auth active_run now)))))))))))))))"

definition arm ::
    "nat \<Rightarrow> 's env \<Rightarrow> preflight \<Rightarrow> motion_authorization \<Rightarrow> string \<Rightarrow> pyval option \<Rightarrow> ('s system, unit) prog" where
  "arm tid E p auth run_id now0 =
     (if is_supervised p then throw (Exn TypeError ''C2 arm requires RH56ActuationPreflight'')
      else arm_with_preflight tid E p auth run_id now0)"

definition arm_supervised ::
    "nat \<Rightarrow> 's env \<Rightarrow> preflight \<Rightarrow> motion_authorization \<Rightarrow> string \<Rightarrow> pyval option \<Rightarrow> ('s system, unit) prog" where
  "arm_supervised tid E p auth run_id now0 =
     (case p of
        C2Preflight _ \<Rightarrow> throw (Exn TypeError ''supervised arm requires SupervisedRH56Preflight'')
      | SupervisedPreflight q \<Rightarrow>
          if authorizes_c2 q then throw (tx_error ''supervised permit classification is invalid'')
          else arm_with_preflight tid E p auth run_id now0)"

definition require_armed :: "nat \<Rightarrow> fl \<Rightarrow> ('s system, unit) prog" where
  "require_armed tid now =
     bindP the_act (\<lambda>a.
     thenP (raise_if (act_state a = AS_FAULT_LATCHED)
              (tx_error (''RH56 fault is latched: '' @ reason_str (act_fault_reason a))))
    (thenP (raise_if (act_state a \<noteq> AS_ARMED) (tx_error ''RH56 actuator is disarmed''))
    (case act_run_id a of
       None \<Rightarrow> throw (tx_error ''RH56 armed state is incomplete'')
     | Some run \<Rightarrow>
         thenP (raise_if (\<not> safety_gate_bound a) (tx_error ''RH56 armed state is incomplete''))
               (gate_op (require_motion tid run (PyFloat now))))))"

section \<open>Transport calls under a deadline\<close>

definition before_deadline :: "fl \<Rightarrow> fl \<Rightarrow> string \<Rightarrow> ('s system, unit) prog" where
  "before_deadline now deadline operation =
     raise_if (deadline < now)
       (Exn RH56DeadlineExceeded (''RH56 '' @ operation @ '' missed deadline by ''
          @ fixed_str 6 (now - deadline) @ ''s''))"

definition now_before :: "'s env \<Rightarrow> fl \<Rightarrow> string \<Rightarrow> ('s system, unit) prog" where
  "now_before E deadline operation = bindP (act_now E) (\<lambda>now. before_deadline now deadline operation)"

definition as_failed :: "string \<Rightarrow> ('s system, 'a) prog \<Rightarrow> ('s system, 'a) prog" where
  "as_failed operation m =
     catchP m (\<lambda>e. throw (Exn RH56TransportError (operation @ '' failed: '' @ exn_msg e)))"

text \<open>A clock reading whose failure is put into the history as the event \<open>ev\<close>.\<close>

definition logged_now :: "'s env \<Rightarrow> io_event \<Rightarrow> ('s system, fl) prog" where
  "logged_now E ev = catchP (act_now E) (\<lambda>e. thenP (log_event ev) (throw e))"

text \<open>A write that finds its deadline passed sends nothing; the history keeps the two times.\<close>

definition transport_write :: "'s env \<Rightarrow> int list \<Rightarrow> fl \<Rightarrow> string \<Rightarrow> ('s system, unit) prog" where
  "transport_write E targets deadline operation =
     bindP (logged_now E WriteClockLost) (\<lambda>now.
     thenP (if deadline < now then log_event (LateWrite targets now deadline) else ret ())
    (thenP (before_deadline now deadline operation)
    (thenP (as_failed operation
              (world_prog (WriteTargets targets) (write_angle_set (transport_of E) targets deadline)))
           (now_before E deadline operation))))"

definition transport_read_targets :: "'s env \<Rightarrow> fl \<Rightarrow> string \<Rightarrow> ('s system, int list) prog" where
  "transport_read_targets E deadline operation =
     thenP (now_before E deadline operation)
    (bindP (as_failed operation (world_prog ReadTargets (read_angle_set (transport_of E) deadline))) (\<lambda>raw.
     bindP (lift_res (six_targets raw (operation @ '' readback'') True)) (\<lambda>result.
     thenP (now_before E deadline operation)
    (thenP (log_event (GotTargets result)) (ret result)))))"

definition transport_write_once_then_verify ::
    "'s env \<Rightarrow> int list \<Rightarrow> fl \<Rightarrow> string \<Rightarrow> ('s system, int list) prog" where
  "transport_write_once_then_verify E targets deadline operation =
     bindP (logged_now E WriteClockLost) (\<lambda>now.
     let write_deadline = fl_min deadline (now + RH56_SUPERVISED_WRITE_RESPONSE_GRACE_S) in
     bindP (tryP (transport_write E targets write_deadline (operation @ '' write''))) (\<lambda>w.
     bindP (tryP (transport_read_targets E deadline (operation @ '' readback''))) (\<lambda>r.
     case r of
       Inl e \<Rightarrow>
         (case w of
            Inr _ \<Rightarrow> throw e
          | Inl we \<Rightarrow> throw (Exn RH56TransportError
              (operation @ '' write response missing and verification readback failed: write_error=''
               @ exn_msg we @ ''; readback_error='' @ exn_msg e)))
     | Inr readback \<Rightarrow>
         if readback \<noteq> targets
         then throw (Exn RH56TransportError
                (operation @ '' readback mismatch: expected='' @ tuple_str targets @ '', actual=''
                 @ tuple_str readback
                 @ (case w of Inr _ \<Rightarrow> [] | Inl we \<Rightarrow> ''; write_response_error='' @ exn_msg we)))
         else ret readback)))"

definition transport_read_feedback :: "'s env \<Rightarrow> fl \<Rightarrow> string \<Rightarrow> ('s system, safety_feedback) prog" where
  "transport_read_feedback E deadline operation =
     thenP (now_before E deadline operation)
    (bindP (as_failed operation (world_prog ReadFeedback (read_safety_feedback (transport_of E) deadline))) (\<lambda>v.
     case v of
       None \<Rightarrow> throw (Exn RH56TransportError (operation @ '' did not return RH56SafetyFeedback''))
     | Some feedback \<Rightarrow>
         bindP (act_now E) (\<lambda>finished.
         thenP (before_deadline finished deadline operation)
        (let age = finished - captured_monotonic_s feedback in
         thenP (raise_if (age < 0)
                  (Exn RH56TransportError (operation @ '' feedback timestamp is in the future'')))
        (bindP the_act (\<lambda>a.
         thenP (raise_if (maximum_feedback_age_s (settings_of a) < age)
                  (Exn RH56TransportError (operation @ '' feedback is stale: age='' @ fixed_str 6 age
                     @ ''s, limit='' @ fixed_str 6 (maximum_feedback_age_s (settings_of a)) @ ''s'')))
        (thenP (raise_if (case last_feedback_monotonic_s a of
                            None \<Rightarrow> False
                          | Some previous \<Rightarrow> captured_monotonic_s feedback < previous)
                  (Exn RH56TransportError (operation @ '' feedback timestamp regressed'')))
        (thenP (log_event (GotFeedback feedback)) (ret feedback)))))))))"

definition list_max :: "int list \<Rightarrow> int" where
  "list_max xs = fold max (tl xs) (hd xs)"

definition list_min :: "int list \<Rightarrow> int" where
  "list_min xs = fold min (tl xs) (hd xs)"

definition validate_running_feedback :: "settings \<Rightarrow> safety_feedback \<Rightarrow> exn + unit" where
  "validate_running_feedback cfg f =
     (if list_ex (\<lambda>e. e \<noteq> 0) (errors f)
      then Inl (tx_error (''RH56 actuator ERROR is nonzero: '' @ tuple_str (errors f)))
      else if maximum_temperature_c cfg \<le> list_max (temperatures_c f)
      then Inl (tx_error (''RH56 temperature reached '' @ int_str (maximum_temperature_c cfg)
             @ '' C: '' @ tuple_str (temperatures_c f)))
      else case filter (\<lambda>(i, status). status \<in> set RH56_FAULT_STATUSES) (enumerate 0 (statuses f)) of
        (i, status) # _ \<Rightarrow>
          Inl (tx_error (''RH56 axis '' @ int_str (int i) @ '' returned fault status '' @ int_str status))
      | [] \<Rightarrow>
          if list_ex (\<lambda>current. maximum_running_axis_current_ma cfg < \<bar>current\<bar>) (currents_ma f)
          then Inl (tx_error (''RH56 running current exceeded the commissioned per-axis limit ''
                 @ int_str (maximum_running_axis_current_ma cfg) @ ''mA: '' @ tuple_str (currents_ma f)))
          else Inr ())"

definition record_feedback :: "safety_feedback \<Rightarrow> actuator \<Rightarrow> actuator" where
  "record_feedback f a = a\<lparr>last_feedback_monotonic_s := Some (captured_monotonic_s f)\<rparr>"

definition command_deadline :: "settings \<Rightarrow> closed_loop_command \<Rightarrow> fl" where
  "command_deadline cfg c = produced_monotonic_s c + command_watchdog_timeout_s cfg"

end
