(* ===== verification/Actuator_Frames.thy ===== *)
theory Actuator_Frames
  imports Actuator
begin

text \<open>
  What the transport helpers of the actuator may change, for the proofs about its commands and
  its stop: nothing but the outside world and the history. \<open>io_frame J evs s t\<close> says that
  between \<open>s\<close> and \<open>t\<close> exactly the events \<open>evs\<close> happened and that the world is in \<open>J\<close>.
  The locale \<open>kept_world\<close> is the interface to the environment: its operations keep \<open>J\<close> and its
  feedback samples satisfy \<open>V\<close>.
\<close>

definition io_frame :: "('s \<Rightarrow> bool) \<Rightarrow> io_event list \<Rightarrow> 's system \<Rightarrow> 's system \<Rightarrow> bool" where
  "io_frame J evs s t =
     (act t = act s \<and> gate_of t = gate_of s \<and> ledger_of t = ledger_of s
      \<and> io_log t = io_log s @ evs \<and> J (world t))"

lemma io_frame_refl: "J (world s) \<Longrightarrow> io_frame J [] s s"
  by (simp add: io_frame_def)

lemma io_frame_trans: "io_frame J a s t \<Longrightarrow> io_frame J b t u \<Longrightarrow> io_frame J (a @ b) s u"
  by (simp add: io_frame_def)

lemma wp_log_event [simp]: "wp (log_event c) Q F t = Q () (t\<lparr>io_log := io_log t @ [c]\<rparr>)"
  by (simp add: log_event_def)

lemma io_frame_log: "io_frame J a s t \<Longrightarrow> io_frame J (a @ [c]) s (t\<lparr>io_log := io_log t @ [c]\<rparr>)"
  by (simp add: io_frame_def)

lemma io_frame_log2: "io_frame J (a @ [c]) s t \<Longrightarrow> io_frame J (a @ [c, c']) s (t\<lparr>io_log := io_log t @ [c']\<rparr>)"
  by (simp add: io_frame_def)

lemma wp_act_now_finite: "wp (act_now E) (\<lambda>n _. is_finite n) (\<lambda>_ _. True) t"
  by (auto simp: act_now_def world_op_def split: sum.splits prod.splits)

definition steady_clock :: "'s env \<Rightarrow> bool" where
  "steady_clock E = (\<forall>w. \<exists>t w'. env_monotonic E w = (Inr (Fin t), w'))"

text \<open>The targets written, in order.\<close>

fun writes_of :: "io_event list \<Rightarrow> int list list" where
  "writes_of [] = []"
| "writes_of (WriteTargets ns # evs) = ns # writes_of evs"
| "writes_of (e # evs) = writes_of evs"

lemma writes_of_append [simp]: "writes_of (a @ b) = writes_of a @ writes_of b"
  by (induction a rule: writes_of.induct) auto

text \<open>
  What a write of \<open>ns\<close> leaves in the history: the write itself, or the reason why it could not
  start: its deadline had passed, or the clock gave no finite reading.
\<close>

definition offered :: "int list \<Rightarrow> io_event list \<Rightarrow> bool" where
  "offered ns w =
     (w = [WriteTargets ns] \<or> w = [WriteClockLost] \<or> (\<exists>now d. w = [LateWrite ns now d] \<and> d < now))"

lemma offered_writes: "offered ns w \<Longrightarrow> writes_of w = [] \<or> writes_of w = [ns]"
  by (auto simp: offered_def)

lemma offered_cases [simp]: "offered ns [WriteTargets ns]" "offered ns [WriteClockLost]"
  "d < now \<Longrightarrow> offered ns [LateWrite ns now d]" "\<not> offered ns []"
  by (auto simp: offered_def)

locale kept_world =
  fixes E :: "'s env" and J :: "'s \<Rightarrow> bool" and V :: "safety_feedback \<Rightarrow> bool"
  assumes write_keeps: "J w \<Longrightarrow> wp (write_angle_set (transport_of E) ns d) (\<lambda>_. J) (\<lambda>_. J) w"
    and readback_keeps: "J w \<Longrightarrow> wp (read_angle_set (transport_of E) d) (\<lambda>_. J) (\<lambda>_. J) w"
    and feedback_keeps: "J w \<Longrightarrow>
      wp (read_safety_feedback (transport_of E) d) (\<lambda>v w. J w \<and> (\<forall>f. v = Some f \<longrightarrow> V f)) (\<lambda>_. J) w"
    and clock_keeps: "J w \<Longrightarrow> env_monotonic E w = (r, w') \<Longrightarrow> J w'"
    and sleep_keeps: "J w \<Longrightarrow> env_sleep E x w = (q, w') \<Longrightarrow> J w'"
begin

lemma wp_act_now:
  assumes "io_frame J a s t"
  shows "wp (act_now E) (\<lambda>n u. is_finite n \<and> io_frame J a s u)
    (\<lambda>_ u. \<not> steady_clock E \<and> io_frame J a s u) t"
proof -
  obtain r w where r: "env_monotonic E (world t) = (r, w)" by (cases "env_monotonic E (world t)")
  have "io_frame J a s (t\<lparr>world := w\<rparr>)"
    using assms clock_keeps [OF _ r] by (simp add: io_frame_def)
  moreover have "\<not> steady_clock E" if "\<forall>x. r \<noteq> Inr (Fin x)"
    using that r by (metis prod.inject steady_clock_def)
  ultimately show ?thesis
    using r by (auto simp: act_now_def world_op_def is_finite_iff split: sum.splits)
qed

lemma wp_env_sleep:
  assumes "io_frame J a s t"
  shows "wp (world_op (env_sleep E x)) (\<lambda>_ u. io_frame J a s u) (\<lambda>_ u. io_frame J a s u) t"
proof -
  obtain r w where r: "env_sleep E x (world t) = (r, w)" by (cases "env_sleep E x (world t)")
  have "io_frame J a s (t\<lparr>world := w\<rparr>)"
    using assms sleep_keeps [OF _ r] by (simp add: io_frame_def)
  then show ?thesis using r by (auto simp: world_op_def split: sum.splits)
qed

lemma wp_now_before:
  assumes "io_frame J a s t"
  shows "wp (now_before E d op) (\<lambda>_ u. io_frame J a s u) (\<lambda>_ u. io_frame J a s u) t"
  unfolding now_before_def before_deadline_def
  by (auto intro!: wp_mono [OF wp_act_now [OF assms]])

lemma wp_world_prog:
  assumes "io_frame J a s t" and "J (world t) \<Longrightarrow> wp m (\<lambda>x w. J w \<and> P x) (\<lambda>_. J) (world t)"
  shows "wp (as_failed op (world_prog c m)) (\<lambda>x u. P x \<and> io_frame J (a @ [c]) s u)
    (\<lambda>e u. exn_class e = RH56TransportError \<and> io_frame J (a @ [c]) s u) t"
  unfolding world_prog_def as_failed_def
  using assms by (auto simp: io_frame_def intro!: wp_mono [OF assms(2)])

lemma wp_logged_now:
  assumes "io_frame J a s t"
  shows "wp (logged_now E ev) (\<lambda>n u. is_finite n \<and> io_frame J a s u)
    (\<lambda>_ u. \<not> steady_clock E \<and> io_frame J (a @ [ev]) s u) t"
  unfolding logged_now_def wp_catchP
  by (rule wp_mono [OF wp_act_now [OF assms]]) (auto intro: io_frame_log)

lemma wp_transport_write:
  assumes "io_frame J a s t"
  shows "wp (transport_write E ns d op) (\<lambda>_ u. io_frame J (a @ [WriteTargets ns]) s u)
    (\<lambda>_ u. \<exists>w. offered ns w \<and> io_frame J (a @ w) s u) t"
proof -
  have write1: "wp (thenP (as_failed op (world_prog (WriteTargets ns) (write_angle_set (transport_of E) ns d)))
        (now_before E d op))
      (\<lambda>_ u. io_frame J (a @ [WriteTargets ns]) s u) (\<lambda>_ u. \<exists>w. offered ns w \<and> io_frame J (a @ w) s u) u"
    if "io_frame J a s u" for u
    unfolding wp_thenP
    by (rule wp_mono [OF wp_world_prog [OF that, where P = "\<lambda>_. True"]])
      (auto intro!: wp_mono [OF write_keeps] wp_mono [OF wp_now_before] intro: exI [of _ "[WriteTargets ns]"])
  have late: "\<exists>w. offered ns w \<and> io_frame J (a @ w) s (u\<lparr>io_log := io_log u @ [LateWrite ns now d]\<rparr>)"
    if "io_frame J a s u" "d < now" for u now
    using io_frame_log [OF that(1)] offered_cases(3) [OF that(2)] by blast
  show ?thesis
    unfolding transport_write_def before_deadline_def wp_bindP wp_thenP [of "if _ then _ else _"]
      wp_thenP [of "raise_if _ _"]
    by (rule wp_mono [OF wp_logged_now [OF assms, where ev = WriteClockLost]])
      (auto simp: write1 late simp del: wp_thenP intro: exI [of _ "[WriteClockLost]"])
qed

lemma wp_transport_read_targets:
  assumes "io_frame J a s t"
  shows "wp (transport_read_targets E d op)
    (\<lambda>ns u. six_within (-1) 1000 ns \<and> io_frame J (a @ [ReadTargets, GotTargets ns]) s u)
    (\<lambda>_ u. io_frame J a s u \<or> io_frame J (a @ [ReadTargets]) s u) t"
proof -
  have read: "wp (as_failed op (world_prog ReadTargets (read_angle_set (transport_of E) d)))
      (\<lambda>_ u. io_frame J (a @ [ReadTargets]) s u) (\<lambda>_ u. io_frame J (a @ [ReadTargets]) s u) u"
    if "io_frame J a s u" for u
    by (rule wp_mono [OF wp_world_prog [OF that, where P = "\<lambda>_. True"]])
      (auto intro: wp_mono [OF readback_keeps])
  show ?thesis
    unfolding transport_read_targets_def wp_thenP wp_bindP
    apply (rule wp_mono [OF wp_now_before [OF assms]])
     apply (rule wp_mono [OF read], assumption)
      apply (auto simp: six_targets_def dest!: six_integers_Inr split: sum.splits)
    apply (rule wp_mono [OF wp_now_before], assumption)
     apply (auto intro: io_frame_log2)
    done
qed

lemma wp_transport_read_feedback:
  assumes "io_frame J a s t"
  shows "wp (transport_read_feedback E d op)
    (\<lambda>f u. V f \<and> io_frame J (a @ [ReadFeedback, GotFeedback f]) s u)
    (\<lambda>_ u. io_frame J a s u \<or> io_frame J (a @ [ReadFeedback]) s u) t"
proof -
  let ?b = "a @ [ReadFeedback]"
  have read: "wp (as_failed op (world_prog ReadFeedback (read_safety_feedback (transport_of E) d)))
      (\<lambda>v u. (\<forall>f. v = Some f \<longrightarrow> V f) \<and> io_frame J ?b s u) (\<lambda>_ u. io_frame J ?b s u) u"
    if "io_frame J a s u" for u
    by (rule wp_mono [OF wp_world_prog [OF that, where P = "\<lambda>v. \<forall>f. v = Some f \<longrightarrow> V f"]])
      (auto intro: wp_mono [OF feedback_keeps])
  show ?thesis
    unfolding transport_read_feedback_def wp_thenP wp_bindP before_deadline_def the_act_def
    apply (rule wp_mono [OF wp_now_before [OF assms]])
     apply (rule wp_mono [OF read], assumption)
      apply (auto simp: Let_def split: option.splits)
    apply (rule wp_mono [OF wp_act_now], assumption)
     apply (auto intro: io_frame_log2)
    done
qed

lemma wp_write_once_then_verify:
  assumes "io_frame J a s t"
  shows "wp (transport_write_once_then_verify E ns d op)
    (\<lambda>r u. r = ns \<and> (\<exists>w. offered ns w \<and> io_frame J (a @ w @ [ReadTargets, GotTargets ns]) s u))
    (\<lambda>_ u. \<exists>w b. offered ns w \<and> writes_of b = [] \<and> io_frame J (a @ w @ b) s u) t"
proof -
  have w: "wp (tryP (transport_write E ns wd op')) (\<lambda>r u. \<exists>w. offered ns w \<and> io_frame J (a @ w) s u)
      (\<lambda>_ _. False) t" if "io_frame J a s t" for t wd op'
    unfolding wp_tryP
    by (rule wp_mono [OF wp_transport_write [OF that]]) (auto intro: exI [of _ "[WriteTargets ns]"])
  have r: "wp (tryP (transport_read_targets E d op'))
      (\<lambda>r u. (case r of Inl e \<Rightarrow> \<exists>w b. offered ns w \<and> writes_of b = [] \<and> io_frame J (a @ w @ b) s u
                | Inr got \<Rightarrow> io_frame J (a @ w @ [ReadTargets, GotTargets got]) s u))
      (\<lambda>_ _. False) t" if "io_frame J (a @ w) s t" "offered ns w" for t w op'
    unfolding wp_tryP sum.case
    apply (rule wp_mono [OF wp_transport_read_targets [OF that(1)]])
    subgoal by simp
    subgoal using that(2) by (force intro: exI [of _ w] exI [of _ "[]"] exI [of _ "[ReadTargets]"])
    done
  show ?thesis
    unfolding transport_write_once_then_verify_def wp_bindP Let_def
    apply (rule wp_mono [OF wp_logged_now [OF assms, where ev = WriteClockLost]])
     apply (rule wp_mono [OF w])
       apply simp
      apply (elim exE conjE)
      apply (rule wp_mono [OF r])
         apply assumption
        apply assumption
    subgoal for n t r t' ws r' t''
      using exI [of "\<lambda>b. writes_of b = [] \<and> io_frame J (a @ ws @ b) s t''" "[ReadTargets, GotTargets _]"]
      by (cases r'; cases r) auto
      apply simp
     apply simp
    apply (rule exI [of _ "[WriteClockLost]"], rule exI [of _ "[]"])
    apply simp
    done
qed

end

text \<open>No law at all: any environment keeps the trivial invariant.\<close>

interpretation any_world: kept_world E "\<lambda>_. True" "\<lambda>_. True" for E :: "'s env"
  by unfold_locales simp_all

end
