(* ===== verification/Actuator_Stop.thy ===== *)
theory Actuator_Stop
  imports Actuator_Frames
begin

text \<open>
  The stop protocol of \<open>robot_control/rh56/actuator.py\<close>: hold the measured pose, prove the
  hand stationary, release the targets in two passes, prove it stationary again
  (\<open>_disable_and_verify\<close>). The locals of one run are the record \<open>stopping\<close>, so that what the
  two \<open>try\<close> blocks wrote before an exception is still there after it.
\<close>

section \<open>Checks of a feedback sample\<close>

definition stop_unconfirmed :: "string \<Rightarrow> exn" where
  "stop_unconfirmed m = Exn RH56StopUnconfirmed m"

definition pair_str :: "nat \<times> int \<Rightarrow> string" where
  "pair_str p = ''('' @ int_str (int (fst p)) @ '', '' @ int_str (snd p) @ '')''"

definition pairs_str :: "(nat \<times> int) list \<Rightarrow> string" where
  "pairs_str ps =
     (case ps of [p] \<Rightarrow> ''('' @ pair_str p @ '',)'' | _ \<Rightarrow> ''('' @ join '', '' (map pair_str ps) @ '')'')"

definition validate_stopped_feedback ::
    "settings \<Rightarrow> safety_feedback \<Rightarrow> string \<Rightarrow> bool \<Rightarrow> int option \<Rightarrow> exn + unit" where
  "validate_stopped_feedback cfg f phase require_idle maximum_current_ma =
     (if list_ex (\<lambda>e. e \<noteq> 0) (errors f)
      then Inl (stop_unconfirmed (phase @ '' actuator ERROR remains: '' @ tuple_str (errors f)))
      else if maximum_temperature_c cfg \<le> list_max (temperatures_c f)
      then Inl (stop_unconfirmed (phase @ '' temperature is unsafe: '' @ tuple_str (temperatures_c f)))
      else
        let fault_statuses = filter (\<lambda>(axis, status). status \<in> set RH56_FAULT_STATUSES) (enumerate 0 (statuses f))
        in if fault_statuses \<noteq> []
           then Inl (stop_unconfirmed (phase @ '' actuator fault status remains: '' @ pairs_str fault_statuses))
           else res_bind (case maximum_current_ma of
                    None \<Rightarrow> Inr (if require_idle then stop_max_axis_current_ma cfg
                                 else maximum_running_axis_current_ma cfg)
                  | Some m \<Rightarrow> bounded_integer (PyInt m) (phase @ '' maximum_current_ma'') 1 5000) (\<lambda>current_limit.
             if list_ex (\<lambda>current. current_limit < \<bar>current\<bar>) (currents_ma f)
             then Inl (stop_unconfirmed (phase @ '' current exceeded per-axis bound '' @ int_str current_limit
                    @ ''mA: '' @ tuple_str (currents_ma f)))
             else if require_idle \<and> list_ex (\<lambda>status. status \<notin> set RH56_IDLE_STATUSES) (statuses f)
             then Inl (stop_unconfirmed (phase @ '' status is not idle: '' @ tuple_str (statuses f)))
             else Inr ()))"

definition axis_problems :: "settings \<Rightarrow> safety_feedback list \<Rightarrow> nat \<Rightarrow> string list" where
  "axis_problems cfg samples axis =
     (let angs = map (\<lambda>f. angles f ! axis) samples; poss = map (\<lambda>f. positions f ! axis) samples
      in (if stop_max_angle_drift_units cfg < list_max angs - list_min angs
          then [''axis '' @ int_str (int axis) @ '' ANGLE_ACT still moving: '' @ list_str angs] else [])
       @ (if stop_max_position_drift_units cfg < list_max poss - list_min poss
          then [''axis '' @ int_str (int axis) @ '' POS_ACT still moving: '' @ list_str poss] else []))"

definition stop_tail_motion_error :: "settings \<Rightarrow> safety_feedback list \<Rightarrow> string option" where
  "stop_tail_motion_error cfg samples =
     (if int (length samples) \<noteq> stop_verify_samples cfg
      then Some (''stable idle tail is incomplete: actual='' @ int_str (int (length samples))
             @ '', required='' @ int_str (stop_verify_samples cfg))
      else
        let problems = concat (map (axis_problems cfg samples) [0..<RH56_AXIS_COUNT])
        in if problems = [] then None else Some (join ''; '' problems))"

text \<open>
  The calibrated command of one axis: an excursion beyond an endpoint by no more than the
  calibration offset is clamped.
\<close>

definition hold_command :: "int \<Rightarrow> int \<Rightarrow> int \<Rightarrow> int \<Rightarrow> int" where
  "hold_command v offset lower upper =
     (let command = v + offset
      in if upper < command \<and> command - upper \<le> \<bar>offset\<bar> then upper
         else if command < lower \<and> lower - command \<le> \<bar>offset\<bar> then lower
         else command)"

fun hold_axes :: "nat \<Rightarrow> (int \<times> int \<times> int \<times> int) list \<Rightarrow> exn + int list" where
  "hold_axes axis [] = Inr []"
| "hold_axes axis ((v, offset, lower, upper) # rest) =
     (let command = hold_command v offset lower upper
      in if \<not> (lower \<le> command \<and> command \<le> upper)
         then Inl (stop_unconfirmed (''axis '' @ int_str (int axis) @ '' feedback-equivalent stop hold ''
                @ int_str command @ '' is outside calibrated command interval ''
                @ int_str lower @ ''..'' @ int_str upper))
         else res_bind (hold_axes (axis + 1) rest) (\<lambda>result. Inr (command # result)))"

definition feedback_equivalent_hold_target :: "settings \<Rightarrow> int list \<Rightarrow> exn + int list" where
  "feedback_equivalent_hold_target cfg angs =
     res_bind (six_integers (ints angs) ''stop hold ANGLE_ACT'' 0 1000) (\<lambda>actual.
       hold_axes 0 (zip actual (zip (feedback_to_command_offset_units cfg)
         (zip (stop_hold_command_minimum cfg) (stop_hold_command_maximum cfg)))))"

section \<open>The run\<close>

record stop_report =
  report_verified :: bool
  disable_passes_verified :: int
  feedback_samples_verified :: int
  completed_monotonic_s :: fl

record 's stopping =
  sys :: "'s system"
  failures :: "string list"
  hold_target :: "int list option"
  hold_verified :: bool
  hold_tail_verified :: bool
  stable_tail_verified :: bool
  motionless_hold_verified :: bool
  stable_samples :: "safety_feedback list"
  hold_motion_samples :: "safety_feedback list"
  observed_samples :: int
  last_settle_detail :: string
  verified_passes :: int
  post_disable_observed :: int
  post_disable_detail :: string

definition start_stopping :: "'s system \<Rightarrow> 's stopping" where
  "start_stopping s =
     \<lparr>sys = s, failures = [], hold_target = None, hold_verified = False, hold_tail_verified = False,
      stable_tail_verified = False, motionless_hold_verified = False, stable_samples = [],
      hold_motion_samples = [], observed_samples = 0,
      last_settle_detail = ''no post-hold feedback was captured'', verified_passes = 0,
      post_disable_observed = 0, post_disable_detail = ''no post-disable feedback was captured''\<rparr>"

definition sysP :: "('s system, 'a) prog \<Rightarrow> ('s stopping, 'a) prog" where
  "sysP m = on_part sys (\<lambda>t x. x\<lparr>sys := t\<rparr>) m"

definition note_failure :: "string \<Rightarrow> ('s stopping, unit) prog" where
  "note_failure m = modify (\<lambda>x. x\<lparr>failures := failures x @ [m]\<rparr>)"

text \<open>Appending to a \<open>deque(maxlen=n)\<close>.\<close>

definition push_bounded :: "int \<Rightarrow> 'a \<Rightarrow> 'a list \<Rightarrow> 'a list" where
  "push_bounded n x xs = drop (length xs + 1 - nat n) (xs @ [x])"

text \<open>The part of the deadline that is kept for releasing the targets.\<close>

definition calculated_release_reserve :: "settings \<Rightarrow> fl" where
  "calculated_release_reserve cfg =
     (let disable_passes_io = Fin 2 * (RH56_SUPERVISED_WRITE_RESPONSE_GRACE_S + RH56_SUPERVISED_EXCHANGE_TIMEOUT_S);
          post_disable_reads = Fin (of_int (stop_verify_samples cfg)) * Fin 3 * RH56_SUPERVISED_EXCHANGE_TIMEOUT_S;
          post_disable_sleeps = Fin (of_int (stop_verify_samples cfg - 1)) * stop_verify_interval_s cfg
      in disable_passes_io + post_disable_reads + post_disable_sleeps + RH56_STOP_RELEASE_SCHEDULING_MARGIN_S)"

definition release_reserve :: "settings \<Rightarrow> fl" where
  "release_reserve cfg = fl_min (stop_timeout_s cfg * Fin (1 / 2)) (calculated_release_reserve cfg)"

definition pause_until :: "'s env \<Rightarrow> settings \<Rightarrow> fl \<Rightarrow> ('s stopping, unit + unit) prog" where
  "pause_until E cfg deadline =
     bindP (sysP (act_now E)) (\<lambda>now.
     let remaining = deadline - now in
     if remaining \<le> 0 then ret (Inr ())
     else thenP (sysP (world_op (env_sleep E (fl_min (stop_verify_interval_s cfg) remaining)))) (ret (Inl ())))"

subsection \<open>Hold and settle\<close>

definition settle_idle_tail :: "settings \<Rightarrow> safety_feedback \<Rightarrow> ('s stopping, bool) prog" where
  "settle_idle_tail cfg f =
     (if list_ex (\<lambda>status. status \<notin> set RH56_IDLE_STATUSES) (statuses f)
      then thenP (modify (\<lambda>x. x\<lparr>stable_samples := [],
             last_settle_detail := ''latest status is not idle: '' @ tuple_str (statuses f)\<rparr>)) (ret False)
      else
        thenP (modify (\<lambda>x. x\<lparr>stable_samples := push_bounded (stop_verify_samples cfg) f (stable_samples x)\<rparr>))
       (bindP (gets stable_samples) (\<lambda>samples.
        case stop_tail_motion_error cfg samples of
          None \<Rightarrow> thenP (modify (\<lambda>x. x\<lparr>last_settle_detail := ''stable idle tail verified'',
                     hold_tail_verified := True\<rparr>)) (ret True)
        | Some m \<Rightarrow> thenP (modify (\<lambda>x. x\<lparr>last_settle_detail := m\<rparr>)) (ret False))))"

definition settle_step :: "'s env \<Rightarrow> settings \<Rightarrow> fl \<Rightarrow> int list \<Rightarrow> unit \<Rightarrow> ('s stopping, unit + unit) prog" where
  "settle_step E cfg deadline hold u =
     bindP (sysP (act_now E)) (\<lambda>now.
     if \<not> now < deadline then ret (Inr ())
     else
       bindP (gets observed_samples) (\<lambda>n.
       let phase = ''stop settle sample '' @ int_str (n + 1) in
       bindP (sysP (transport_read_targets E deadline (phase @ '' target readback''))) (\<lambda>readback.
       thenP (raise_if (readback \<noteq> hold)
                (stop_unconfirmed (''stop hold ANGLE_SET changed during settling: expected=''
                   @ tuple_str hold @ '', actual='' @ tuple_str readback)))
      (bindP (sysP (transport_read_feedback E deadline (phase @ '' feedback''))) (\<lambda>feedback.
       thenP (modify (\<lambda>x. x\<lparr>observed_samples := n + 1\<rparr>))
      (thenP (lift_res (validate_stopped_feedback cfg feedback phase False
                          (Some (stop_settle_max_axis_current_ma cfg))))
      (thenP (modify (\<lambda>x. x\<lparr>hold_motion_samples :=
                 push_bounded (stop_verify_samples cfg) feedback (hold_motion_samples x)\<rparr>))
      (bindP (gets (\<lambda>x. stop_tail_motion_error cfg (hold_motion_samples x))) (\<lambda>hold_motion_error.
       bindP (settle_idle_tail cfg feedback) (\<lambda>stable.
       if stable then ret (Inr ())
       else if hold_motion_error = None
       then thenP (modify (\<lambda>x. x\<lparr>motionless_hold_verified := True,
                     last_settle_detail := ''motionless hold tail verified; awaiting disabled idle tail''\<rparr>))
                  (ret (Inr ()))
       else pause_until E cfg deadline))))))))))"

definition hold_phase :: "'s env \<Rightarrow> settings \<Rightarrow> fl \<Rightarrow> ('s stopping, unit) prog" where
  "hold_phase E cfg deadline =
     bindP (sysP (transport_read_feedback E deadline ''stop hold seed feedback'')) (\<lambda>seed.
     thenP (lift_res (validate_stopped_feedback cfg seed ''stop hold seed'' False
                        (Some (stop_settle_max_axis_current_ma cfg))))
    (bindP (lift_res (feedback_equivalent_hold_target cfg (angles seed))) (\<lambda>hold.
     thenP (modify (\<lambda>x. x\<lparr>hold_target := Some hold\<rparr>))
    (thenP (sysP (transport_write_once_then_verify E hold deadline ''stop hold''))
    (thenP (modify (\<lambda>x. x\<lparr>hold_verified := True\<rparr>))
           (loopP (settle_step E cfg deadline hold) ()))))))"

subsection \<open>Release and final proof\<close>

definition disable_pass :: "'s env \<Rightarrow> fl \<Rightarrow> int \<Rightarrow> ('s stopping, unit) prog" where
  "disable_pass E deadline index =
     bindP (tryP (sysP (transport_write_once_then_verify E RH56_DISABLED_TARGETS deadline
                          (''disable pass '' @ int_str index)))) (\<lambda>r.
     case r of
       Inl e \<Rightarrow> note_failure (''disable pass '' @ int_str index @ '': '' @ exn_msg e)
     | Inr _ \<Rightarrow> modify (\<lambda>x. x\<lparr>verified_passes := verified_passes x + 1\<rparr>))"

definition final_sample :: "settings \<Rightarrow> safety_feedback \<Rightarrow> string \<Rightarrow> ('s stopping, bool) prog" where
  "final_sample cfg f phase =
     (if list_ex (\<lambda>status. status \<notin> set RH56_IDLE_STATUSES) (statuses f)
      then thenP (modify (\<lambda>x. x\<lparr>stable_samples := [],
             post_disable_detail := ''latest status is not idle: '' @ tuple_str (statuses f)\<rparr>)) (ret False)
      else if list_ex (\<lambda>current. stop_max_axis_current_ma cfg < \<bar>current\<bar>) (currents_ma f)
      then thenP (modify (\<lambda>x. x\<lparr>stable_samples := [],
             post_disable_detail := ''latest idle current exceeds per-axis bound ''
               @ int_str (stop_max_axis_current_ma cfg) @ ''mA: '' @ tuple_str (currents_ma f)\<rparr>)) (ret False)
      else
        thenP (lift_res (validate_stopped_feedback cfg f phase True None))
       (thenP (modify (\<lambda>x. x\<lparr>stable_samples := push_bounded (stop_verify_samples cfg) f (stable_samples x)\<rparr>))
       (bindP (gets stable_samples) (\<lambda>samples.
        case stop_tail_motion_error cfg samples of
          None \<Rightarrow> thenP (modify (\<lambda>x. x\<lparr>stable_tail_verified := True,
                     post_disable_detail := ''disabled stable idle tail verified''\<rparr>)) (ret True)
        | Some m \<Rightarrow> thenP (modify (\<lambda>x. x\<lparr>post_disable_detail := m\<rparr>)) (ret False)))))"

definition final_step :: "'s env \<Rightarrow> settings \<Rightarrow> fl \<Rightarrow> unit \<Rightarrow> ('s stopping, unit + unit) prog" where
  "final_step E cfg deadline u =
     bindP (sysP (act_now E)) (\<lambda>now.
     if \<not> now < deadline then ret (Inr ())
     else
       bindP (gets post_disable_observed) (\<lambda>n.
       let phase = ''post-disable stable sample '' @ int_str (n + 1) in
       bindP (sysP (transport_read_targets E deadline (phase @ '' target readback''))) (\<lambda>readback.
       thenP (raise_if (readback \<noteq> RH56_DISABLED_TARGETS)
                (stop_unconfirmed (''post-disable ANGLE_SET changed: '' @ tuple_str readback)))
      (bindP (sysP (transport_read_feedback E deadline (phase @ '' feedback''))) (\<lambda>feedback.
       thenP (modify (\<lambda>x. x\<lparr>post_disable_observed := n + 1\<rparr>))
      (thenP (lift_res (validate_stopped_feedback cfg feedback phase False
                          (Some (stop_settle_max_axis_current_ma cfg))))
      (bindP (final_sample cfg feedback phase) (\<lambda>stable.
       if stable then ret (Inr ()) else pause_until E cfg deadline)))))))) "

definition final_phase :: "'s env \<Rightarrow> settings \<Rightarrow> fl \<Rightarrow> ('s stopping, unit) prog" where
  "final_phase E cfg deadline =
     thenP (modify (\<lambda>x. x\<lparr>stable_samples := [], stable_tail_verified := False, post_disable_observed := 0,
              post_disable_detail := ''no post-disable feedback was captured''\<rparr>))
    (bindP (tryP (loopP (final_step E cfg deadline) ())) (\<lambda>r.
     thenP (case r of
              Inl e \<Rightarrow> note_failure (''post-disable stable-tail verification: '' @ exn_msg e)
            | Inr _ \<Rightarrow> ret ())
    (bindP (gets id) (\<lambda>x.
     if \<not> stable_tail_verified x
     then note_failure (''disabled target did not reach a stable idle tail before the stop deadline: observed=''
            @ int_str (post_disable_observed x) @ '', consecutive_idle='' @ int_str (int (length (stable_samples x)))
            @ '', detail='' @ post_disable_detail x)
     else ret ()))))"

text \<open>What the object records of a confirmed stop; without a fault to keep it disarms.\<close>

definition stopped_actuator :: "bool \<Rightarrow> fl option \<Rightarrow> actuator \<Rightarrow> actuator" where
  "stopped_actuator preserve_fault last_feedback a =
     (let a' = a\<lparr>stop_confirmed := True, act_pending_sequence := None,
                 last_feedback_monotonic_s := last_feedback\<rparr>
      in if preserve_fault then a'
         else a'\<lparr>act_state := AS_DISARMED, act_run_id := None, act_authorization_id := None,
                 preflight_sha256 := None, safety_gate_bound := False, armed_monotonic_s := None,
                 last_command_monotonic_s := None, supervised_session := False,
                 supervised_awaiting_first_numeric_command := False, last_supervised_target := None\<rparr>)"

definition finish_stop :: "'s env \<Rightarrow> settings \<Rightarrow> bool \<Rightarrow> ('s stopping, stop_report) prog" where
  "finish_stop E cfg preserve_fault =
     bindP (gets id) (\<lambda>x.
     if failures x \<noteq> [] \<or> \<not> hold_verified x \<or> \<not> stable_tail_verified x \<or> verified_passes x \<noteq> 2
        \<or> int (length (stable_samples x)) \<noteq> stop_verify_samples cfg
     then
       let reason = (if join ''; '' (failures x) = [] then ''incomplete RH56 stop proof''
                     else join ''; '' (failures x))
       in thenP (sysP (on_act (latch_fault reason))) (throw (stop_unconfirmed reason))
     else
       bindP (sysP (act_now E)) (\<lambda>completed.
       thenP (sysP (on_act (stopped_actuator preserve_fault
                (Some (captured_monotonic_s (last (stable_samples x)))))))
             (ret \<lparr>report_verified = True, disable_passes_verified = verified_passes x,
                   feedback_samples_verified = int (length (stable_samples x)),
                   completed_monotonic_s = completed\<rparr>)))"

definition stop_body :: "'s env \<Rightarrow> settings \<Rightarrow> fl \<Rightarrow> bool \<Rightarrow> ('s stopping, stop_report) prog" where
  "stop_body E cfg deadline preserve_fault =
     bindP (tryP (hold_phase E cfg (deadline - release_reserve cfg))) (\<lambda>r.
     thenP (case r of Inl e \<Rightarrow> note_failure (''in-place hold/settle: '' @ exn_msg e) | Inr _ \<Rightarrow> ret ())
    (bindP (gets id) (\<lambda>x.
     thenP (if hold_verified x \<and> \<not> (hold_tail_verified x \<or> motionless_hold_verified x)
            then note_failure (''in-place hold did not reach a stable idle tail before the reserved release deadline: observed=''
                   @ int_str (observed_samples x) @ '', consecutive_idle='' @ int_str (int (length (stable_samples x)))
                   @ '', detail='' @ last_settle_detail x)
            else ret ())
    (thenP (disable_pass E deadline 1)
    (thenP (disable_pass E deadline 2)
    (bindP (gets verified_passes) (\<lambda>passes.
     thenP (if passes = 2 then final_phase E cfg deadline else ret ())
           (finish_stop E cfg preserve_fault))))))))"

text \<open>\<open>_disable_and_verify\<close>\<close>

definition run_stop :: "'s env \<Rightarrow> bool \<Rightarrow> ('s system, stop_report) prog" where
  "run_stop E preserve_fault =
     bindP (gets (settings_of \<circ> act)) (\<lambda>cfg.
     bindP (logged_now E StopClockLost) (\<lambda>now.
       with_locals start_stopping sys (stop_body E cfg (now + stop_timeout_s cfg) preserve_fault)))"

definition refuse_disarmed :: "exn" where
  "refuse_disarmed = tx_error ''RH56 is disarmed; refusing an unauthorised disable write''"

definition disable_and_verify :: "nat \<Rightarrow> 's env \<Rightarrow> ('s system, stop_report) prog" where
  "disable_and_verify tid E =
     thenP (require_owner tid)
    (bindP the_act (\<lambda>a.
     thenP (raise_if (act_state a = AS_DISARMED) refuse_disarmed)
           (run_stop E (act_state a = AS_FAULT_LATCHED))))"

definition fault_and_disable :: "nat \<Rightarrow> 's env \<Rightarrow> string \<Rightarrow> ('s system, stop_report) prog" where
  "fault_and_disable tid E reason =
     thenP (require_owner tid)
    (bindP the_act (\<lambda>a.
     thenP (raise_if (act_state a = AS_DISARMED) refuse_disarmed)
    (thenP (on_act (latch_fault reason)) (run_stop E True))))"

section \<open>What a passed check says\<close>

lemma list_max_ge: "x \<in> set xs \<Longrightarrow> x \<le> list_max xs"
proof -
  have fold: "m \<le> fold max ys m \<and> (\<forall>x \<in> set ys. x \<le> fold max ys m)" for ys and m :: int
    by (induction ys arbitrary: m) (auto, (metis max.bounded_iff)+)
  show "x \<in> set xs \<Longrightarrow> x \<le> list_max xs"
    using fold [where ys = "tl xs" and m = "hd xs"] by (cases xs) (auto simp: list_max_def)
qed

lemma list_min_le: "x \<in> set xs \<Longrightarrow> list_min xs \<le> x"
proof -
  have fold: "fold min ys m \<le> m \<and> (\<forall>x \<in> set ys. fold min ys m \<le> x)" for ys and m :: int
    by (induction ys arbitrary: m) (auto, (metis min.bounded_iff)+)
  show "x \<in> set xs \<Longrightarrow> list_min xs \<le> x"
    using fold [where ys = "tl xs" and m = "hd xs"] by (cases xs) (auto simp: list_min_def)
qed

text \<open>The evidence for a stopped hand: one sample, and the drift over a tail of samples.\<close>

definition stopped_sample :: "settings \<Rightarrow> safety_feedback \<Rightarrow> bool" where
  "stopped_sample cfg f =
     ((\<forall>e \<in> set (errors f). e = 0) \<and> (\<forall>t \<in> set (temperatures_c f). t < maximum_temperature_c cfg)
      \<and> (\<forall>st \<in> set (statuses f). st \<in> set RH56_IDLE_STATUSES)
      \<and> (\<forall>c \<in> set (currents_ma f). \<bar>c\<bar> \<le> stop_max_axis_current_ma cfg))"

definition motionless_tail :: "settings \<Rightarrow> safety_feedback list \<Rightarrow> bool" where
  "motionless_tail cfg fs =
     (int (length fs) = stop_verify_samples cfg \<and>
      (\<forall>f \<in> set fs. \<forall>g \<in> set fs. \<forall>axis < 6.
         angles f ! axis - angles g ! axis \<le> stop_max_angle_drift_units cfg \<and>
         positions f ! axis - positions g ! axis \<le> stop_max_position_drift_units cfg))"

lemma validate_stopped_idle:
  "validate_stopped_feedback cfg f phase True None = Inr () \<Longrightarrow> stopped_sample cfg f"
  using list_max_ge [where xs = "temperatures_c f"]
  by (auto simp: validate_stopped_feedback_def stopped_sample_def list_ex_iff Let_def not_le not_less
      split: if_splits intro: le_less_trans)

lemma list_range_bound: "x \<in> set xs \<Longrightarrow> y \<in> set xs \<Longrightarrow> list_max xs - list_min xs \<le> d \<Longrightarrow> x - y \<le> d"
  using list_max_ge [of x xs] list_min_le [of y xs] by linarith

lemma stop_tail_motion_error_None:
  assumes "stop_tail_motion_error cfg fs = None"
  shows "motionless_tail cfg fs"
proof -
  have len: "int (length fs) = stop_verify_samples cfg"
    and ax: "axis < 6 \<Longrightarrow> axis_problems cfg fs axis = []" for axis
    using assms by (auto simp: stop_tail_motion_error_def Let_def RH56_AXIS_COUNT_def split: if_splits)
  have "angles f ! axis - angles g ! axis \<le> stop_max_angle_drift_units cfg \<and>
      positions f ! axis - positions g ! axis \<le> stop_max_position_drift_units cfg"
    if "f \<in> set fs" "g \<in> set fs" "axis < 6" for f g axis
    using ax [OF that(3)] that(1,2)
      list_range_bound [of _ "map (\<lambda>f. angles f ! axis) fs" _ "stop_max_angle_drift_units cfg"]
      list_range_bound [of _ "map (\<lambda>f. positions f ! axis) fs" _ "stop_max_position_drift_units cfg"]
    by (simp add: axis_problems_def Let_def not_less split: if_splits)
  with len show ?thesis by (simp add: motionless_tail_def)
qed

lemma hold_command_near: "\<bar>hold_command v offset lower upper - (v + offset)\<bar> \<le> \<bar>offset\<bar>"
  by (auto simp: hold_command_def Let_def)

lemma hold_axes_Inr:
  "hold_axes axis qs = Inr cs \<Longrightarrow>
     list_all2 (\<lambda>(v, offset, lower, upper) c. lower \<le> c \<and> c \<le> upper \<and> \<bar>c - (v + offset)\<bar> \<le> \<bar>offset\<bar>) qs cs"
  by (induction axis qs arbitrary: cs rule: hold_axes.induct)
    (auto simp: res_bind_Inr_iff Let_def hold_command_near split: if_splits)

text \<open>The held pose is within the calibrated interval and, up to the calibration offset, the
  measured one.\<close>

definition holds_pose :: "settings \<Rightarrow> int list \<Rightarrow> int list \<Rightarrow> bool" where
  "holds_pose cfg angs hold =
     (\<forall>i < length hold. i < 6 \<and>
        stop_hold_command_minimum cfg ! i \<le> hold ! i \<and> hold ! i \<le> stop_hold_command_maximum cfg ! i \<and>
        \<bar>hold ! i - (angs ! i + feedback_to_command_offset_units cfg ! i)\<bar>
          \<le> \<bar>feedback_to_command_offset_units cfg ! i\<bar>)"

lemma feedback_equivalent_hold_target_Inr:
  assumes "feedback_equivalent_hold_target cfg angs = Inr hold" and "six_within (-32768) 32767 angs"
  shows "holds_pose cfg angs hold"
proof -
  obtain actual where a: "six_targets (ints angs) ''stop hold ANGLE_ACT'' False = Inr actual"
    and h: "hold_axes 0 (zip actual (zip (feedback_to_command_offset_units cfg)
        (zip (stop_hold_command_minimum cfg) (stop_hold_command_maximum cfg)))) = Inr hold"
    using assms(1) by (auto simp: feedback_equivalent_hold_target_def res_bind_Inr_iff six_targets_def)
  have "map PyInt angs = map PyInt actual" using ints_targets [OF a assms(2)] by (simp add: ints_def)
  then have "actual = angs" by (metis list.inj_map_strong pyval.inject(2))
  then show ?thesis
    using hold_axes_Inr [OF h] assms(2)
    by (auto simp: holds_pose_def list_all2_conv_all_nth six_within_def) (metis min_less_iff_conj)+
qed

end
