(* ===== verification/Actuator_Commands.thy ===== *)
theory Actuator_Commands
  imports Actuator_Stop
begin

text \<open>
  The commands of \<open>RH56TransactionalActuator\<close>: the four-exchange transaction \<open>execute\<close>, the
  supervised target transaction \<open>execute_target_and_ack\<close> and its sample hold, the safety poll
  and the policy watchdog. An exception inside the \<open>try\<close> of a command marks the ledger
  failed, latches the actuator and, except in a supervised target, runs the stop protocol.
\<close>

section \<open>Receipts\<close>

record transaction_receipt =
  rcpt_sequence :: int
  rcpt_acknowledged_monotonic_s :: fl
  rcpt_latency_s :: fl
  rcpt_exact_readback :: "int list"
  rcpt_feedback :: safety_feedback
  rcpt_commit_completed :: bool

record target_receipt =
  tgt_sequence :: int
  tgt_acknowledged_monotonic_s :: fl
  tgt_latency_s :: fl
  exact_target :: "int list"
  tgt_exact_readback :: "int list"
  write_response_received :: bool
  application_verified_by_readback :: bool
  tgt_commit_completed :: bool
  numeric_write_performed :: bool

section \<open>Starting and ending a sequence\<close>

text \<open>The checks under the state lock; \<open>limit\<close> is the age of the last command that is still alive.\<close>

definition begin_sequence :: "closed_loop_command \<Rightarrow> fl \<Rightarrow> fl \<Rightarrow> string \<Rightarrow> ('s system, unit) prog" where
  "begin_sequence c now limit expired =
     (let sequence = cmd_sequence c in
     bindP the_act (\<lambda>a.
     thenP (case last_command_monotonic_s a of
              None \<Rightarrow>
                raise_if (\<not> (supervised_awaiting_first_numeric_command a \<and> sequence = 1))
                  (tx_error ''RH56 command heartbeat is absent outside supervised sequence 1'')
            | Some heartbeat \<Rightarrow> raise_if (limit < now - heartbeat) (tx_error expired))
    (thenP (raise_if (act_pending_sequence a \<noteq> None)
              (tx_error ''RH56 cannot start a second sequence while one is pending''))
    (thenP (raise_if (sequence \<noteq> last_acknowledged_sequence a + 1)
              (tx_error (''RH56 stale/out-of-order sequence: expected=''
                 @ int_str (last_acknowledged_sequence a + 1) @ '', actual='' @ int_str sequence)))
    (bindP (gets (ledger_pending_sequence \<circ> ledger_of)) (\<lambda>pending.
     thenP (raise_if (pending \<noteq> Some sequence)
              (tx_error (''RH56 sequence '' @ int_str sequence @ '' is not the ledger pending sequence ''
                 @ opt_int_str pending)))
           (on_act (\<lambda>a. a\<lparr>act_pending_sequence := Some sequence\<rparr>))))))))"

text \<open>The acknowledgement: still armed and in time, still the ledger's pending sequence.\<close>

definition acknowledge_sequence ::
    "nat \<Rightarrow> 's env \<Rightarrow> closed_loop_command \<Rightarrow> fl \<Rightarrow> string \<Rightarrow> ('s system, fl \<times> bool) prog" where
  "acknowledge_sequence tid E c deadline operation =
     bindP (act_now E) (\<lambda>acknowledged_at.
     thenP (before_deadline acknowledged_at deadline operation)
    (thenP (require_armed tid acknowledged_at)
    (bindP (gets (ledger_pending_sequence \<circ> ledger_of)) (\<lambda>pending.
     thenP (raise_if (pending \<noteq> Some (cmd_sequence c))
              (tx_error ''ledger pending sequence changed before RH56 acknowledgement''))
    (bindP (ledger_op (ledger_acknowledge ''rh56'' (PyInt (cmd_sequence c)) (PyFloat acknowledged_at)))
       (\<lambda>committed. ret (acknowledged_at, committed)))))))"

text \<open>\<open>try: action_ledger.fail(...) except BaseException: pass\<close>, then the latch.\<close>

definition fail_sequence :: "closed_loop_command \<Rightarrow> string \<Rightarrow> ('s system, unit) prog" where
  "fail_sequence c reason =
     thenP (tryP (ledger_op (ledger_fail ''rh56'' (cmd_sequence c) reason)))
           (on_act (latch_fault reason))"

text \<open>The stop protocol after a failure; what it raises is only appended to the message.\<close>

definition stop_and_raise :: "'s env \<Rightarrow> string \<Rightarrow> ('s system, 'a) prog" where
  "stop_and_raise E detail =
     bindP (tryP (run_stop E True)) (\<lambda>r.
       throw (tx_error (case r of Inl e \<Rightarrow> detail @ ''; STOP UNCONFIRMED: '' @ exn_msg e | Inr _ \<Rightarrow> detail)))"

section \<open>execute\<close>

definition acknowledged_command :: "int \<Rightarrow> fl \<Rightarrow> actuator \<Rightarrow> actuator" where
  "acknowledged_command sequence t a =
     a\<lparr>last_acknowledged_sequence := sequence, last_command_monotonic_s := Some t,
       supervised_awaiting_first_numeric_command := False, act_pending_sequence := None\<rparr>"

definition execute_receipt ::
    "nat \<Rightarrow> 's env \<Rightarrow> closed_loop_command \<Rightarrow> fl \<Rightarrow> int list \<Rightarrow> safety_feedback \<Rightarrow>
      ('s system, transaction_receipt) prog" where
  "execute_receipt tid E c deadline readback feedback =
     bindP (acknowledge_sequence tid E c deadline ''command acknowledgement'') (\<lambda>(acknowledged_at, committed).
     thenP (on_act (record_feedback feedback))
    (thenP (on_act (acknowledged_command (cmd_sequence c) acknowledged_at))
           (ret \<lparr>rcpt_sequence = cmd_sequence c, rcpt_acknowledged_monotonic_s = acknowledged_at,
                 rcpt_latency_s = acknowledged_at - produced_monotonic_s c,
                 rcpt_exact_readback = readback, rcpt_feedback = feedback,
                 rcpt_commit_completed = committed\<rparr>)))"

definition execute_body ::
    "nat \<Rightarrow> 's env \<Rightarrow> closed_loop_command \<Rightarrow> fl \<Rightarrow> ('s system, transaction_receipt) prog" where
  "execute_body tid E c now =
     bindP (gets (settings_of \<circ> act)) (\<lambda>cfg.
     thenP (begin_sequence c now (command_watchdog_timeout_s cfg)
              ''RH56 policy command watchdog expired before sequence'')
    (let deadline = command_deadline cfg c in
     thenP (before_deadline now deadline ''command start'')
    (bindP (lift_res (six_targets (ints (cmd_rh56_register c)) ''command ANGLE_SET'' False)) (\<lambda>targets.
     thenP (transport_write E targets deadline ''ANGLE_SET batch write'')
    (bindP (transport_read_targets E deadline ''ANGLE_SET exact readback'') (\<lambda>readback.
     thenP (raise_if (readback \<noteq> targets)
              (tx_error (''RH56 ANGLE_SET readback mismatch: expected='' @ tuple_str targets
                 @ '', actual='' @ tuple_str readback)))
    (bindP (transport_read_feedback E deadline ''command safety feedback'') (\<lambda>feedback.
     thenP (lift_res (validate_running_feedback cfg feedback))
           (execute_receipt tid E c deadline readback feedback)))))))))"

definition execute ::
    "nat \<Rightarrow> 's env \<Rightarrow> closed_loop_command \<Rightarrow> ('s system, transaction_receipt) prog" where
  "execute tid E c =
     thenP (require_owner tid)
    (bindP (act_now E) (\<lambda>now.
     thenP (require_armed tid now)
           (catchP (execute_body tid E c now) (\<lambda>e.
              thenP (fail_sequence c (exn_msg e))
                    (stop_and_raise E (''RH56 sequence '' @ int_str (cmd_sequence c) @ '' failed: '' @ exn_msg e))))))"

section \<open>execute_target_and_ack\<close>

record 's target_run =
  run_sys :: "'s system"
  run_phase :: string
  apply_unknown :: bool

definition start_target :: "'s system \<Rightarrow> 's target_run" where
  "start_target s = \<lparr>run_sys = s, run_phase = ''PRECHECK'', apply_unknown = False\<rparr>"

definition runP :: "('s system, 'a) prog \<Rightarrow> ('s target_run, 'a) prog" where
  "runP m = on_part run_sys (\<lambda>t x. x\<lparr>run_sys := t\<rparr>) m"

definition in_phase :: "string \<Rightarrow> ('s target_run, unit) prog" where
  "in_phase p = modify (\<lambda>x. x\<lparr>run_phase := p\<rparr>)"

text \<open>
  The numeric write: it is attempted at most once; a missing response is settled by one exact
  readback, a received one needs none. The result is the response's failure, if any.
\<close>

definition write_target ::
    "'s env \<Rightarrow> int list \<Rightarrow> fl \<Rightarrow> ('s target_run, exn option) prog" where
  "write_target E targets deadline =
     thenP (in_phase ''ANGLE_SET_WRITE'')
    (thenP (modify (\<lambda>x. x\<lparr>apply_unknown := True\<rparr>))
    (bindP (runP (act_now E)) (\<lambda>now.
     let write_deadline = fl_min deadline (now + RH56_SUPERVISED_WRITE_RESPONSE_GRACE_S) in
     thenP (runP (now_before E write_deadline ''supervised ANGLE_SET batch write''))
    (bindP (tryP (runP (transport_write E targets write_deadline ''supervised ANGLE_SET batch write''))) (\<lambda>w.
     case w of
       Inr _ \<Rightarrow> ret None
     | Inl write_failure \<Rightarrow>
         thenP (in_phase ''ANGLE_SET_EXACT_READBACK'')
        (bindP (catchP (runP (transport_read_targets E deadline ''supervised ANGLE_SET exact readback'')) (\<lambda>e.
                  throw (tx_error (''ANGLE_SET write response missing and exact verification readback failed: write_error=''
                    @ exn_msg write_failure @ ''; readback_error='' @ exn_msg e)))) (\<lambda>readback.
         thenP (raise_if (readback \<noteq> targets)
                  (tx_error (''RH56 ANGLE_SET readback mismatch: expected='' @ tuple_str targets
                     @ '', actual='' @ tuple_str readback @ ''; write_response_error='' @ exn_msg write_failure)))
               (ret (Some write_failure)))))))))"

definition acknowledge_target ::
    "nat \<Rightarrow> 's env \<Rightarrow> closed_loop_command \<Rightarrow> fl \<Rightarrow> int list \<Rightarrow> bool \<Rightarrow> exn option \<Rightarrow>
      ('s target_run, target_receipt) prog" where
  "acknowledge_target tid E c deadline targets numeric write_failure =
     thenP (modify (\<lambda>x. x\<lparr>apply_unknown := False, run_phase := ''LEDGER_ACK''\<rparr>))
    (bindP (runP (acknowledge_sequence tid E c deadline ''supervised target acknowledgement''))
       (\<lambda>(acknowledged_at, committed).
     thenP (runP (on_act (acknowledged_command (cmd_sequence c) acknowledged_at)))
    (thenP (runP (on_act (\<lambda>a. a\<lparr>last_supervised_target := Some targets\<rparr>)))
           (ret \<lparr>tgt_sequence = cmd_sequence c, tgt_acknowledged_monotonic_s = acknowledged_at,
                 tgt_latency_s = acknowledged_at - produced_monotonic_s c, exact_target = targets,
                 tgt_exact_readback = targets,
                 write_response_received = (numeric \<and> write_failure = None),
                 application_verified_by_readback = (numeric \<and> write_failure \<noteq> None),
                 tgt_commit_completed = committed, numeric_write_performed = numeric\<rparr>))))"

definition target_body ::
    "nat \<Rightarrow> 's env \<Rightarrow> closed_loop_command \<Rightarrow> int list \<Rightarrow> fl \<Rightarrow> ('s target_run, target_receipt) prog" where
  "target_body tid E c targets now =
     bindP (gets (settings_of \<circ> act \<circ> run_sys)) (\<lambda>cfg.
     thenP (runP (begin_sequence c now (supervised_inter_command_watchdog_timeout_s cfg)
              ''RH56 supervised inter-command watchdog expired before sequence''))
    (let deadline = command_deadline cfg c in
     thenP (runP (before_deadline now deadline ''supervised target start''))
    (bindP (gets (last_supervised_target \<circ> act \<circ> run_sys)) (\<lambda>previous_target.
     let numeric = previous_target \<noteq> Some targets in
     bindP (if numeric then write_target E targets deadline
            else thenP (in_phase ''EXCLUSIVE_SESSION_SAMPLE_HOLD'') (ret None))
           (acknowledge_target tid E c deadline targets numeric)))))"

definition target_failure :: "closed_loop_command \<Rightarrow> int list \<Rightarrow> 's target_run \<Rightarrow> exn \<Rightarrow> string" where
  "target_failure c targets x e =
     ''RH56 supervised target transaction failed: sequence='' @ int_str (cmd_sequence c)
     @ '' exact_target='' @ tuple_str targets @ '' phase='' @ run_phase x
     @ '' APPLY_UNKNOWN='' @ (if apply_unknown x then ''true'' else ''false'')
     @ '' RETRY_FORBIDDEN: '' @ exn_msg e"

definition execute_target_and_ack ::
    "nat \<Rightarrow> 's env \<Rightarrow> closed_loop_command \<Rightarrow> ('s system, target_receipt) prog" where
  "execute_target_and_ack tid E c =
     thenP (require_owner tid)
    (bindP (act_now E) (\<lambda>now.
     thenP (require_armed tid now)
    (bindP (lift_res (six_targets (ints (cmd_rh56_register c)) ''supervised target ANGLE_SET'' False)) (\<lambda>targets.
     bindP the_act (\<lambda>a.
     thenP (raise_if (\<not> supervised_session a)
              (tx_error (''RH56 target-only transaction requires arm_supervised: sequence=''
                 @ int_str (cmd_sequence c) @ '' exact_target='' @ tuple_str targets
                 @ '' phase=PRECHECK APPLY_UNKNOWN=false RETRY_FORBIDDEN'')))
           (with_locals start_target run_sys
              (catchP (target_body tid E c targets now) (\<lambda>e.
                 bindP (gets (\<lambda>x. target_failure c targets x e)) (\<lambda>detail.
                 thenP (runP (fail_sequence c detail)) (throw (tx_error detail)))))))))))"

section \<open>Sample hold, safety poll and watchdog\<close>

definition refresh_supervised_sample_hold_heartbeat :: "nat \<Rightarrow> 's env \<Rightarrow> ('s system, fl) prog" where
  "refresh_supervised_sample_hold_heartbeat tid E =
     thenP (require_owner tid)
    (bindP (act_now E) (\<lambda>now.
     thenP (require_armed tid now)
    (bindP the_act (\<lambda>a.
     thenP (raise_if (\<not> supervised_session a)
              (tx_error ''RH56 sample-hold heartbeat requires supervised mode''))
    (case last_command_monotonic_s a of
       None \<Rightarrow> throw (tx_error ''RH56 sample-hold heartbeat requires a committed target'')
     | Some heartbeat \<Rightarrow>
         thenP (raise_if (supervised_awaiting_first_numeric_command a \<or> last_supervised_target a = None)
                  (tx_error ''RH56 sample-hold heartbeat requires a committed target''))
        (thenP (raise_if (act_pending_sequence a \<noteq> None)
                  (tx_error ''RH56 sample-hold heartbeat is forbidden during a pending sequence''))
        (thenP (raise_if (last_acknowledged_sequence a < 1)
                  (tx_error ''RH56 sample-hold heartbeat has no acknowledged sequence''))
        (thenP (raise_if (supervised_inter_command_watchdog_timeout_s (settings_of a) < now - heartbeat)
                  (tx_error ''RH56 supervised inter-command watchdog expired before sample-hold heartbeat''))
        (thenP (on_act (\<lambda>a. a\<lparr>last_command_monotonic_s := Some now\<rparr>)) (ret now))))))))))"

definition poll_feedback :: "'s env \<Rightarrow> settings \<Rightarrow> fl \<Rightarrow> string \<Rightarrow> ('s system, safety_feedback) prog" where
  "poll_feedback E cfg deadline operation =
     bindP (transport_read_feedback E deadline operation) (\<lambda>feedback.
     thenP (lift_res (validate_running_feedback cfg feedback))
    (thenP (on_act (record_feedback feedback)) (ret feedback)))"

definition poll_body :: "'s env \<Rightarrow> fl \<Rightarrow> bool \<Rightarrow> actuator \<Rightarrow> ('s system, safety_feedback) prog" where
  "poll_body E now defer_cleanup a =
     (let cfg = settings_of a in
     if last_command_monotonic_s a = None \<and> supervised_awaiting_first_numeric_command a
     then
       catchP (poll_feedback E cfg (now + fl_max (command_watchdog_timeout_s cfg) (maximum_feedback_age_s cfg))
                 ''pre-first-command safety feedback'') (\<lambda>e.
         thenP (on_act (latch_fault (exn_msg e)))
        (thenP (if defer_cleanup then ret () else thenP (tryP (run_stop E True)) (ret ()))
               (throw (tx_error (''RH56 pre-first-command safety poll failed: '' @ exn_msg e)))))
     else if (case last_command_monotonic_s a of
                None \<Rightarrow> True
              | Some heartbeat \<Rightarrow> inter_command_watchdog_timeout_s a < now - heartbeat)
     then
       let reason = ''RH56 policy command watchdog expired before safety poll'' in
       thenP (on_act (latch_fault reason))
             (if defer_cleanup then throw (tx_error reason) else stop_and_raise E reason)
     else
       catchP (poll_feedback E cfg (now + command_watchdog_timeout_s cfg) ''hold safety feedback'') (\<lambda>e.
         let detail = ''RH56 safety poll failed: '' @ exn_msg e in
         thenP (on_act (latch_fault (exn_msg e)))
               (if defer_cleanup then throw (tx_error detail) else stop_and_raise E detail)))"

definition poll_safety :: "nat \<Rightarrow> 's env \<Rightarrow> pyval \<Rightarrow> ('s system, safety_feedback) prog" where
  "poll_safety tid E defer0 =
     thenP (require_owner tid)
    (bindP (lift_res (require_bool defer0 ''defer_failure_cleanup'')) (\<lambda>defer_cleanup.
     bindP (act_now E) (\<lambda>now.
     thenP (require_armed tid now)
           (bindP the_act (poll_body E now defer_cleanup)))))"

definition enforce_policy_watchdog ::
    "nat \<Rightarrow> 's env \<Rightarrow> pyval option \<Rightarrow> ('s system, stop_report option) prog" where
  "enforce_policy_watchdog tid E now0 =
     thenP (require_owner tid)
    (bindP (case now0 of None \<Rightarrow> act_now E | Some v \<Rightarrow> lift_res (finite_float v ''now_monotonic_s'')) (\<lambda>now.
     bindP the_act (\<lambda>a.
     thenP (raise_if (act_state a = AS_FAULT_LATCHED)
              (tx_error (''RH56 fault is latched: '' @ reason_str (act_fault_reason a))))
    (case last_command_monotonic_s a of
       None \<Rightarrow> throw (tx_error ''RH56 policy watchdog cannot run while actuator is disarmed'')
     | Some heartbeat \<Rightarrow>
         thenP (raise_if (act_state a \<noteq> AS_ARMED)
                  (tx_error ''RH56 policy watchdog cannot run while actuator is disarmed''))
        (let inter_command_timeout = inter_command_watchdog_timeout_s a in
         if now < heartbeat + inter_command_timeout then ret None
         else
           thenP (on_act (latch_fault (''RH56 independent policy command watchdog expired: age=''
                    @ fixed_str 6 (now - heartbeat) @ ''s, limit='' @ fixed_str 6 inter_command_timeout @ ''s'')))
                 (bindP (run_stop E True) (\<lambda>r. ret (Some r))))))))"

end
