(* ===== verification/Actuator_Stop_Proofs.thy ===== *)
theory Actuator_Stop_Proofs
  imports Actuator_Stop
begin

text \<open>
  What a run of the stop protocol did, read off the history: the part before the release
  (\<open>hold_evidence\<close>), the two release passes (\<open>released\<close>) and the final tail of samples
  (\<open>final_events\<close>). The lemmas follow the phases of the protocol; their common summary is
  \<open>wp_run_stop\<close>.
\<close>

section \<open>The history of a stop\<close>

definition hold_evidence :: "settings \<Rightarrow> io_event list \<Rightarrow> bool" where
  "hold_evidence cfg evs =
     (\<exists>seed hold w rest. evs = [ReadFeedback, GotFeedback seed] @ w @ [ReadTargets, GotTargets hold] @ rest \<and>
        offered hold w \<and> writes_of rest = [] \<and>
        validate_stopped_feedback cfg seed ''stop hold seed'' False (Some (stop_settle_max_axis_current_ma cfg)) = Inr () \<and>
        feedback_equivalent_hold_target cfg (angles seed) = Inr hold)"

text \<open>At most one numeric write, and it is the measured pose.\<close>

definition hold_writes :: "settings \<Rightarrow> io_event list \<Rightarrow> bool" where
  "hold_writes cfg evs =
     (writes_of evs = [] \<or>
      (\<exists>seed hold. GotFeedback seed \<in> set evs \<and>
         feedback_equivalent_hold_target cfg (angles seed) = Inr hold \<and> writes_of evs = [hold]))"

text \<open>
  One release pass that was verified: the release was written (or came too late to be), and read
  back exactly. \<open>release_try\<close> is any pass, verified or not: the write and what was read after it.
\<close>

definition release_pass :: "io_event list \<Rightarrow> bool" where
  "release_pass evs =
     (\<exists>w. offered RH56_DISABLED_TARGETS w \<and> evs = w @ [ReadTargets, GotTargets RH56_DISABLED_TARGETS])"

definition released :: "io_event list \<Rightarrow> bool" where
  "released evs = (\<exists>p q. evs = p @ q \<and> release_pass p \<and> release_pass q)"

definition release_try :: "io_event list \<Rightarrow> bool" where
  "release_try evs = (\<exists>w b. evs = w @ b \<and> offered RH56_DISABLED_TARGETS w \<and> writes_of b = [])"

definition release_tries :: "io_event list \<Rightarrow> bool" where
  "release_tries evs = (\<exists>p q. evs = p @ q \<and> release_try p \<and> release_try q)"

definition final_events :: "safety_feedback list \<Rightarrow> io_event list" where
  "final_events fs =
     concat (map (\<lambda>f. [ReadTargets, GotTargets RH56_DISABLED_TARGETS, ReadFeedback, GotFeedback f]) fs)"

lemma final_events_append [simp]: "final_events (a @ b) = final_events a @ final_events b"
  by (simp add: final_events_def)

lemma writes_of_final [simp]: "writes_of (final_events fs) = []"
  by (induction fs) (simp_all add: final_events_def)

lemma push_bounded_split: "push_bounded n x xs = ys \<Longrightarrow> \<exists>zs. zs @ ys = xs @ [x]"
  by (metis append_take_drop_id push_bounded_def)

lemma push_bounded_length: "0 < n \<Longrightarrow> int (length (push_bounded n x xs)) \<le> n"
  by (auto simp: push_bounded_def)

text \<open>The fields of a run that only the top level of the protocol changes.\<close>

definition ctl :: "'s stopping \<Rightarrow> string list \<times> bool \<times> int" where
  "ctl x = (failures x, hold_verified x, verified_passes x)"

lemma ctl_simps [simp]:
  "ctl (x\<lparr>sys := t\<rparr>) = ctl x" "ctl (x\<lparr>post_disable_observed := n\<rparr>) = ctl x"
  "ctl (x\<lparr>sys := t, post_disable_observed := n\<rparr>) = ctl x"
  by (simp_all add: ctl_def)

lemma wp_sysP [simp]:
  "wp (sysP m) Q F x = wp m (\<lambda>a t. Q a (x\<lparr>sys := t\<rparr>)) (\<lambda>e t. F e (x\<lparr>sys := t\<rparr>)) (sys x)"
  by (simp add: sysP_def)

lemma wp_note_failure [simp]: "wp (note_failure m) Q F x = Q () (x\<lparr>failures := failures x @ [m]\<rparr>)"
  by (simp add: note_failure_def)

lemma settle_idle_tail_frame:
  "wp (settle_idle_tail cfg f) (\<lambda>_ y. sys y = sys x \<and> ctl y = ctl x) (\<lambda>_ _. False) x"
  by (simp add: settle_idle_tail_def ctl_def)

section \<open>The phases\<close>

text \<open>Only reads since the events \<open>a\<close>.\<close>

definition quiet :: "('s \<Rightarrow> bool) \<Rightarrow> 's system \<Rightarrow> io_event list \<Rightarrow> 's system \<Rightarrow> bool" where
  "quiet J s a t = (\<exists>b. writes_of b = [] \<and> io_frame J (a @ b) s t)"

lemma quiet_start: "io_frame J a s t \<Longrightarrow> quiet J s a t"
  unfolding quiet_def by (rule exI [of _ "[]"]) simp

lemma quietI: "io_frame J (a @ b) s t \<Longrightarrow> writes_of b = [] \<Longrightarrow> quiet J s a t"
  by (auto simp: quiet_def)

text \<open>What the hold phase leaves: evidence when it verified the hold, safe writes in any case.\<close>

definition hold_result :: "('s \<Rightarrow> bool) \<Rightarrow> settings \<Rightarrow> 's system \<Rightarrow> string list \<times> int \<Rightarrow> 's stopping \<Rightarrow> bool" where
  "hold_result J cfg s c y =
     (\<exists>a. io_frame J a s (sys y) \<and> hold_writes cfg a \<and> (hold_verified y \<longrightarrow> hold_evidence cfg a)
        \<and> (failures y, verified_passes y) = c)"

lemma hold_resultI:
  assumes "io_frame J a s (sys y)" "hold_writes cfg a" "hold_verified y \<Longrightarrow> hold_evidence cfg a"
    "failures y = fst c" "verified_passes y = snd c"
  shows "hold_result J cfg s c y"
  using assms by (auto simp: hold_result_def)

definition pass_result :: "('s \<Rightarrow> bool) \<Rightarrow> 's system \<Rightarrow> io_event list \<Rightarrow> 's stopping \<Rightarrow> 's stopping \<Rightarrow> bool" where
  "pass_result J s a x y =
     (hold_verified y = hold_verified x \<and>
      ((\<exists>p. release_pass p \<and> io_frame J (a @ p) s (sys y) \<and>
          verified_passes y = verified_passes x + 1 \<and> failures y = failures x) \<or>
       (\<exists>b. release_try b \<and> io_frame J (a @ b) s (sys y) \<and>
          verified_passes y = verified_passes x \<and> failures y \<noteq> [])))"

text \<open>The final tail: the stable samples are the last events of the history.\<close>

definition tail_inv ::
    "('s \<Rightarrow> bool) \<Rightarrow> (safety_feedback \<Rightarrow> bool) \<Rightarrow> settings \<Rightarrow> 's system \<Rightarrow> io_event list \<Rightarrow> 's stopping \<Rightarrow> bool" where
  "tail_inv J V cfg s a y =
     (\<exists>pre. writes_of pre = [] \<and> io_frame J (a @ pre @ final_events (stable_samples y)) s (sys y) \<and>
        (\<forall>f \<in> set (stable_samples y). V f \<and> stopped_sample cfg f))"

lemma tail_inv_quiet: "tail_inv J V cfg s a y \<Longrightarrow> quiet J s a (sys y)"
  by (force simp: tail_inv_def quiet_def intro: exI [of _ "_ @ final_events _"])

lemma tail_inv_clear: "quiet J s a (sys y) \<Longrightarrow> stable_samples y = [] \<Longrightarrow> tail_inv J V cfg s a y"
  by (auto simp: tail_inv_def quiet_def final_events_def)

lemma tail_inv_push:
  assumes pre: "writes_of pre = []"
    and log: "io_frame J (a @ pre @ final_events (stable_samples x) @
        [ReadTargets, GotTargets RH56_DISABLED_TARGETS, ReadFeedback, GotFeedback f]) s (sys y)"
    and old: "\<forall>g \<in> set (stable_samples x). V g \<and> stopped_sample cfg g" and new: "V f" "stopped_sample cfg f"
    and y: "stable_samples y = push_bounded n f (stable_samples x)"
  shows "tail_inv J V cfg s a y"
proof -
  obtain zs where zs: "zs @ stable_samples y = stable_samples x @ [f]"
    using push_bounded_split y by metis
  have "final_events (stable_samples x) @
      [ReadTargets, GotTargets RH56_DISABLED_TARGETS, ReadFeedback, GotFeedback f]
      = final_events (zs @ stable_samples y)"
    by (simp only: zs) (simp add: final_events_def)
  then have "io_frame J (a @ (pre @ final_events zs) @ final_events (stable_samples y)) s (sys y)"
    using log by simp
  moreover have "set (zs @ stable_samples y) = insert f (set (stable_samples x))"
    by (simp add: zs)
  then have "\<forall>g \<in> set (stable_samples y). V g \<and> stopped_sample cfg g"
    using old new by auto
  ultimately show ?thesis
    unfolding tail_inv_def using pre by (intro exI [of _ "pre @ final_events zs"]) simp
qed

lemma final_sample_tail:
  assumes pre: "writes_of pre = []"
    and log: "io_frame J (a @ pre @ final_events (stable_samples x) @
        [ReadTargets, GotTargets RH56_DISABLED_TARGETS, ReadFeedback, GotFeedback f]) s (sys x)"
    and old: "\<forall>g \<in> set (stable_samples x). V g \<and> stopped_sample cfg g" and new: "V f"
  shows "wp (final_sample cfg f phase)
    (\<lambda>b y. tail_inv J V cfg s a y \<and> ctl y = ctl x \<and>
       (if b then stable_tail_verified y \<and> motionless_tail cfg (stable_samples y)
        else stable_tail_verified y = stable_tail_verified x))
    (\<lambda>_ y. quiet J s a (sys y) \<and> ctl y = ctl x) x"
proof -
  have q: "quiet J s a (sys y)" if "sys y = sys x" for y
    using log pre that by (intro quietI [where b = "pre @ final_events (stable_samples x) @
        [ReadTargets, GotTargets RH56_DISABLED_TARGETS, ReadFeedback, GotFeedback f]"]) auto
  have t: "tail_inv J V cfg s a y"
    if "sys y = sys x" "stopped_sample cfg f" "stable_samples y = push_bounded n f (stable_samples x)" for y n
    using log that by (intro tail_inv_push [OF pre _ old new that(2,3)]) simp
  show ?thesis
    unfolding final_sample_def
    by (auto simp: ctl_def split: sum.split
        dest!: validate_stopped_idle stop_tail_motion_error_None
        intro!: q intro: tail_inv_clear t)
qed

context kept_world
begin

lemma quiet_now: "quiet J s a t \<Longrightarrow> wp (act_now E) (\<lambda>_. quiet J s a) (\<lambda>_. quiet J s a) t"
  by (auto simp: quiet_def intro!: wp_mono [OF wp_act_now])

lemma quiet_sleep: "quiet J s a t \<Longrightarrow> wp (world_op (env_sleep E x)) (\<lambda>_. quiet J s a) (\<lambda>_. quiet J s a) t"
  by (auto simp: quiet_def intro!: wp_mono [OF wp_env_sleep])

lemma quiet_read_targets:
  assumes "quiet J s a t"
  shows "wp (transport_read_targets E d op) (\<lambda>_. quiet J s a) (\<lambda>_. quiet J s a) t"
proof -
  obtain b where b: "writes_of b = []" "io_frame J (a @ b) s t" using assms by (auto simp: quiet_def)
  show ?thesis
    by (rule wp_mono [OF wp_transport_read_targets [OF b(2)]])
      (use b(1) in \<open>auto intro: quietI [of _ _ "b @ _"] quietI [of _ _ b]\<close>)
qed

lemma quiet_read_feedback:
  assumes "quiet J s a t"
  shows "wp (transport_read_feedback E d op) (\<lambda>_. quiet J s a) (\<lambda>_. quiet J s a) t"
proof -
  obtain b where b: "writes_of b = []" "io_frame J (a @ b) s t" using assms by (auto simp: quiet_def)
  show ?thesis
    by (rule wp_mono [OF wp_transport_read_feedback [OF b(2)]])
      (use b(1) in \<open>auto intro: quietI [of _ _ "b @ _"] quietI [of _ _ b]\<close>)
qed

lemma pause_until_quiet:
  assumes "quiet J s a (sys x)"
  shows "wp (pause_until E cfg d) (\<lambda>_ y. quiet J s a (sys y) \<and> ctl y = ctl x)
    (\<lambda>_ y. quiet J s a (sys y) \<and> ctl y = ctl x) x"
  unfolding pause_until_def
  by (auto simp: Let_def ctl_def intro!: wp_mono [OF quiet_now [OF assms]] wp_mono [OF quiet_sleep])

lemma pause_until_tail:
  assumes "tail_inv J V cfg s a x"
  shows "wp (pause_until E cfg d)
    (\<lambda>_ y. tail_inv J V cfg s a y \<and> ctl y = ctl x \<and> stable_samples y = stable_samples x \<and>
       stable_tail_verified y = stable_tail_verified x)
    (\<lambda>_ y. quiet J s a (sys y) \<and> ctl y = ctl x) x"
proof -
  obtain pre where pre: "writes_of pre = []" "\<forall>f \<in> set (stable_samples x). V f \<and> stopped_sample cfg f"
    and log: "io_frame J (a @ pre @ final_events (stable_samples x)) s (sys x)"
    using assms by (auto simp: tail_inv_def)
  have t: "tail_inv J V cfg s a (x\<lparr>sys := t\<rparr>)"
    if "io_frame J (a @ pre @ final_events (stable_samples x)) s t" for t
    using pre that by (auto simp: tail_inv_def)
  have q: "quiet J s a t" if "io_frame J (a @ pre @ final_events (stable_samples x)) s t" for t
    using tail_inv_quiet [OF t [OF that]] by simp
  show ?thesis
    unfolding pause_until_def
    by (auto simp: Let_def ctl_def t q intro!: wp_mono [OF wp_act_now [OF log]] wp_mono [OF wp_env_sleep])
qed

lemma settle_step_quiet:
  assumes "quiet J s a (sys x)"
  shows "wp (settle_step E cfg d hold u) (\<lambda>_ y. quiet J s a (sys y) \<and> ctl y = ctl x)
    (\<lambda>_ y. quiet J s a (sys y) \<and> ctl y = ctl x) x"
  unfolding settle_step_def Let_def wp_bindP wp_sysP
  apply (rule wp_mono [OF quiet_now [OF assms]])
   apply (simp add: ctl_def, intro impI)
   apply (rule wp_mono [OF quiet_read_targets], assumption)
    apply (simp add: ctl_def, intro impI)
    apply (rule wp_mono [OF quiet_read_feedback], assumption)
     apply (auto simp: ctl_def split: sum.split
       intro!: wp_mono [OF settle_idle_tail_frame] wp_mono [OF pause_until_quiet])
  done

lemma settle_loop_quiet:
  assumes "quiet J s a (sys x)"
  shows "wp (loopP (settle_step E cfg d hold) ()) (\<lambda>_ y. quiet J s a (sys y) \<and> ctl y = ctl x)
    (\<lambda>_ y. quiet J s a (sys y) \<and> ctl y = ctl x) x"
proof (rule wp_loopP [where I = "\<lambda>_ y. quiet J s a (sys y) \<and> ctl y = ctl x"])
  fix c and y :: "'s stopping"
  assume y: "quiet J s a (sys y) \<and> ctl y = ctl x"
  show "wp (settle_step E cfg d hold c)
      (\<lambda>r t. case r of Inl _ \<Rightarrow> quiet J s a (sys t) \<and> ctl t = ctl x | Inr _ \<Rightarrow> quiet J s a (sys t) \<and> ctl t = ctl x)
      (\<lambda>_ y. quiet J s a (sys y) \<and> ctl y = ctl x) y"
    using y by (auto intro!: wp_mono [OF settle_step_quiet] split: sum.split)
qed (use assms in simp)

lemma hold_phase_seeded:
  assumes fr: "io_frame J [ReadFeedback, GotFeedback seed] s (sys x)"
    and hold: "feedback_equivalent_hold_target cfg (angles seed) = Inr hold" and h: "\<not> hold_verified x"
    and seed: "validate_stopped_feedback cfg seed ''stop hold seed'' False (Some (stop_settle_max_axis_current_ma cfg)) = Inr ()"
  shows "wp (thenP (sysP (transport_write_once_then_verify E hold d op))
       (thenP (modify (\<lambda>x. x\<lparr>hold_verified := True\<rparr>)) (loopP (settle_step E cfg d hold) ())))
    (\<lambda>_ y. hold_result J cfg s (failures x, verified_passes x) y \<and> hold_verified y)
    (\<lambda>_ y. hold_result J cfg s (failures x, verified_passes x) y) x"
proof -
  have loop: "wp (loopP (settle_step E cfg d hold) ())
      (\<lambda>_ y. hold_result J cfg s (failures x, verified_passes x) y \<and> hold_verified y)
      (\<lambda>_ y. hold_result J cfg s (failures x, verified_passes x) y) (x\<lparr>sys := t, hold_verified := True\<rparr>)"
    if w: "offered hold w"
      and t: "io_frame J ([ReadFeedback, GotFeedback seed] @ w @ [ReadTargets, GotTargets hold]) s t" for w t
  proof -
    let ?a = "[ReadFeedback, GotFeedback seed] @ w @ [ReadTargets, GotTargets hold]"
    let ?y = "x\<lparr>sys := t, hold_verified := True\<rparr>"
    have res: "hold_result J cfg s (failures x, verified_passes x) y \<and> hold_verified y"
      if q: "quiet J s ?a (sys y)" and c: "ctl y = ctl ?y" for y
    proof -
      obtain b where b: "writes_of b = []" "io_frame J (?a @ b) s (sys y)"
        using q unfolding quiet_def by blast
      have "hold_evidence cfg (?a @ b)"
        unfolding hold_evidence_def using w b(1) hold seed by (intro exI [of _ seed] exI [of _ hold] exI [of _ w] exI [of _ b]) auto
      moreover have "hold_writes cfg (?a @ b)"
        using offered_writes [OF w] b(1) hold by (auto simp: hold_writes_def)
      ultimately show ?thesis using b(2) c by (auto simp: hold_result_def ctl_def)
    qed
    have "quiet J s ?a (sys ?y)" using t by (simp add: quiet_start)
    from settle_loop_quiet [OF this] show ?thesis by (rule wp_mono) (use res in blast)+
  qed
  show ?thesis
    unfolding wp_thenP wp_sysP wp_modify
  proof (rule wp_mono [OF wp_write_once_then_verify [OF fr]], goal_cases)
    case (1 r t)
    then show ?case using loop by auto
  next
    case (2 e t)
    then obtain w b where b: "offered hold w" "writes_of b = []"
        "io_frame J ([ReadFeedback, GotFeedback seed] @ w @ b) s t"
      by auto
    then have "hold_writes cfg ([ReadFeedback, GotFeedback seed] @ w @ b)"
      using offered_writes [OF b(1)] hold by (auto simp: hold_writes_def)
    then show ?case using b(3) h by (auto intro!: hold_resultI)
  qed
qed

lemma hold_phase_result:
  assumes fr: "io_frame J [] s (sys x)" and h: "\<not> hold_verified x"
  shows "wp (hold_phase E cfg d) (\<lambda>_ y. hold_result J cfg s (failures x, verified_passes x) y \<and> hold_verified y)
    (\<lambda>_ y. hold_result J cfg s (failures x, verified_passes x) y) x"
  unfolding hold_phase_def wp_bindP wp_sysP
proof (rule wp_mono [OF wp_transport_read_feedback [OF fr]], goal_cases)
  case (1 seed t)
  then have t: "io_frame J [ReadFeedback, GotFeedback seed] s t" by simp
  have early: "hold_result J cfg s (failures x, verified_passes x) (x\<lparr>sys := t\<rparr>)"
    using t h by (auto intro!: hold_resultI simp: hold_writes_def)
  have late: "wp (thenP (modify (\<lambda>x. x\<lparr>hold_target := Some hold\<rparr>))
      (thenP (sysP (transport_write_once_then_verify E hold d ''stop hold''))
        (thenP (modify (\<lambda>x. x\<lparr>hold_verified := True\<rparr>)) (loopP (settle_step E cfg d hold) ()))))
      (\<lambda>_ y. hold_result J cfg s (failures x, verified_passes x) y \<and> hold_verified y)
      (\<lambda>_ y. hold_result J cfg s (failures x, verified_passes x) y) (x\<lparr>sys := t\<rparr>)"
    if "feedback_equivalent_hold_target cfg (angles seed) = Inr hold"
      "validate_stopped_feedback cfg seed ''stop hold seed'' False (Some (stop_settle_max_axis_current_ma cfg)) = Inr ()"
    for hold
    unfolding wp_thenP [of "modify _"] wp_modify
    using hold_phase_seeded [of seed s "x\<lparr>sys := t, hold_target := Some hold\<rparr>", OF _ that(1) _ that(2)] t h by simp
  show ?case
    using early late by (simp add: wp_thenP [of "lift_res _"] del: wp_thenP split: sum.split)
next
  case (2 e t)
  then show ?case using h by (auto intro: hold_resultI [where a = "[]"] hold_resultI [where a = "[ReadFeedback]"]
      simp: hold_writes_def)
qed

lemma disable_pass_result:
  assumes fr: "io_frame J a s (sys x)"
  shows "wp (disable_pass E d i) (\<lambda>_ y. pass_result J s a x y) (\<lambda>_ _. False) x"
  unfolding disable_pass_def wp_bindP wp_tryP wp_sysP
proof (rule wp_mono [OF wp_write_once_then_verify [OF fr]], goal_cases)
  case (1 r t)
  then show ?case by (auto simp: pass_result_def release_pass_def)
next
  case (2 e t)
  then obtain w b where "offered RH56_DISABLED_TARGETS w" "writes_of b = []" "io_frame J (a @ w @ b) s t"
    by auto
  then have "release_try (w @ b) \<and> io_frame J (a @ (w @ b)) s t"
    unfolding release_try_def by auto
  then show ?case by (auto simp: pass_result_def simp del: append_assoc)
qed

lemma final_step_tail:
  assumes x: "tail_inv J V cfg s a x" "\<not> stable_tail_verified x"
  shows "wp (final_step E cfg d u)
    (\<lambda>r y. ctl y = ctl x \<and> (case r of
         Inl _ \<Rightarrow> tail_inv J V cfg s a y \<and> \<not> stable_tail_verified y
       | Inr _ \<Rightarrow> quiet J s a (sys y) \<and> (stable_tail_verified y \<longrightarrow>
           tail_inv J V cfg s a y \<and> motionless_tail cfg (stable_samples y))))
    (\<lambda>_ y. quiet J s a (sys y) \<and> ctl y = ctl x) x"
proof -
  obtain pre where pre: "writes_of pre = []"
      "\<forall>f \<in> set (stable_samples x). V f \<and> stopped_sample cfg f"
    and log: "io_frame J (a @ pre @ final_events (stable_samples x)) s (sys x)"
    using x by (auto simp: tail_inv_def)
  let ?b = "pre @ final_events (stable_samples x)"
  let ?r = "[ReadTargets, GotTargets RH56_DISABLED_TARGETS]"
  have q: "quiet J s a t" if "io_frame J (a @ ?b @ c) s t" "writes_of c = []" for t c
    using that pre(1) by (intro quietI [where b = "?b @ c"]) auto
  have pause: "wp (pause_until E cfg d) (\<lambda>r z. ctl z = ctl x \<and> (case r of
         Inl _ \<Rightarrow> tail_inv J V cfg s a z \<and> \<not> stable_tail_verified z
       | Inr _ \<Rightarrow> quiet J s a (sys z) \<and> (stable_tail_verified z \<longrightarrow>
           tail_inv J V cfg s a z \<and> motionless_tail cfg (stable_samples z))))
     (\<lambda>_ z. quiet J s a (sys z) \<and> ctl z = ctl x) y"
    if "tail_inv J V cfg s a y" "ctl y = ctl x" "\<not> stable_tail_verified y" for y
    by (rule wp_mono [OF pause_until_tail [OF that(1), where d = d]])
      (use that(2,3) in \<open>auto dest: tail_inv_quiet split: sum.splits\<close>)
  have rest: "wp (thenP (lift_res (validate_stopped_feedback cfg f phase False (Some (stop_settle_max_axis_current_ma cfg))))
          (bindP (final_sample cfg f phase) (\<lambda>stable. if stable then ret (Inr ()) else pause_until E cfg d)))
      (\<lambda>r z. ctl z = ctl x \<and> (case r of
         Inl _ \<Rightarrow> tail_inv J V cfg s a z \<and> \<not> stable_tail_verified z
       | Inr _ \<Rightarrow> quiet J s a (sys z) \<and> (stable_tail_verified z \<longrightarrow>
           tail_inv J V cfg s a z \<and> motionless_tail cfg (stable_samples z))))
      (\<lambda>_ z. quiet J s a (sys z) \<and> ctl z = ctl x) (x\<lparr>sys := t, post_disable_observed := n\<rparr>)"
    if t: "io_frame J (a @ ?b @ ?r @ [ReadFeedback, GotFeedback f]) s t" and v: "V f" for f t phase n
  proof -
    let ?y = "x\<lparr>sys := t, post_disable_observed := n\<rparr>"
    have "wp (final_sample cfg f phase)
        (\<lambda>b z. tail_inv J V cfg s a z \<and> ctl z = ctl x \<and>
           (if b then stable_tail_verified z \<and> motionless_tail cfg (stable_samples z) else \<not> stable_tail_verified z))
        (\<lambda>_ z. quiet J s a (sys z) \<and> ctl z = ctl x) ?y"
      by (rule wp_mono [OF final_sample_tail [of pre J a ?y f s V cfg phase]])
        (use pre t v x(2) in \<open>auto simp: ctl_def split: if_splits\<close>)
    then have "wp (bindP (final_sample cfg f phase) (\<lambda>stable. if stable then ret (Inr ()) else pause_until E cfg d))
      (\<lambda>r z. ctl z = ctl x \<and> (case r of
         Inl _ \<Rightarrow> tail_inv J V cfg s a z \<and> \<not> stable_tail_verified z
       | Inr _ \<Rightarrow> quiet J s a (sys z) \<and> (stable_tail_verified z \<longrightarrow>
           tail_inv J V cfg s a z \<and> motionless_tail cfg (stable_samples z))))
      (\<lambda>_ z. quiet J s a (sys z) \<and> ctl z = ctl x) ?y"
      unfolding wp_bindP
    proof (rule wp_mono, goal_cases)
      case (1 b z)
      then show ?case using tail_inv_quiet [of J V cfg s a z] by (cases b) (simp_all add: pause)
    qed
    then show ?thesis using q [OF t] by (simp split: sum.split)
  qed
  show ?thesis
    unfolding final_step_def Let_def wp_bindP wp_sysP
  proof (rule wp_mono [OF wp_act_now [OF log]], goal_cases)
    case (1 now t)
    then have t: "io_frame J (a @ ?b) s t" by simp
    have targets: "wp (transport_read_targets E d op)
        (\<lambda>ns t. io_frame J (a @ ?b @ [ReadTargets, GotTargets ns]) s t) (\<lambda>_ t. quiet J s a t) (sys y)"
      if y: "sys y = t" for op and y :: "'s stopping"
      unfolding y by (rule wp_mono [OF wp_transport_read_targets [OF t]])
        (use q [where c = "[]"] q [where c = "[ReadTargets]"] in auto)
    have feedback: "wp (transport_read_feedback E d op)
        (\<lambda>f t. V f \<and> io_frame J (a @ ?b @ ?r @ [ReadFeedback, GotFeedback f]) s t) (\<lambda>_ t. quiet J s a t) (sys y)"
      if fr: "io_frame J (a @ ?b @ ?r) s (sys y)" for op and y :: "'s stopping"
      by (rule wp_mono [OF wp_transport_read_feedback [of "a @ ?b @ ?r"]])
        (use fr q [where c = ?r] q [where c = "?r @ [ReadFeedback]"] in auto)
    show ?case
    proof (cases "now < d")
      case False
      then show ?thesis using t q [where c = "[]"] x(2) by simp
    next
      case True
      then show ?thesis
        apply (simp only: not_True_eq_False if_False wp_bindP wp_gets wp_sysP)
        apply (rule wp_mono [OF targets])
        subgoal by simp
        subgoal for ns t'
          apply (simp only: wp_thenP wp_raise_if wp_bindP wp_sysP)
          apply (intro conjI impI)
          subgoal using q [where c = "[ReadTargets, GotTargets ns]"] by simp
          subgoal by simp
          apply (rule wp_mono [OF feedback])
          subgoal by simp
          subgoal for f u using rest [of f u] by (simp del: wp_bindP wp_thenP)
          subgoal by simp
          done
        subgoal by simp
        done
    qed
  qed (use q [where c = "[]"] in auto)
qed

lemma final_loop_tail:
  assumes "tail_inv J V cfg s a x" "\<not> stable_tail_verified x"
  shows "wp (loopP (final_step E cfg d) ())
    (\<lambda>_ y. ctl y = ctl x \<and> quiet J s a (sys y) \<and> (stable_tail_verified y \<longrightarrow>
       tail_inv J V cfg s a y \<and> motionless_tail cfg (stable_samples y)))
    (\<lambda>_ y. quiet J s a (sys y) \<and> ctl y = ctl x) x"
proof (rule wp_loopP [where I = "\<lambda>_ y. ctl y = ctl x \<and> tail_inv J V cfg s a y \<and> \<not> stable_tail_verified y"], goal_cases)
  case (1 c y)
  then show ?case
    by (intro wp_mono [OF final_step_tail [of cfg s a y]]) (auto split: sum.splits)
qed (use assms in simp)

text \<open>The final phase: without a new failure, its tail is the end of the history.\<close>

lemma final_phase_result:
  assumes "io_frame J a s (sys x)"
  shows "wp (final_phase E cfg d)
    (\<lambda>_ y. quiet J s a (sys y) \<and> hold_verified y = hold_verified x \<and> verified_passes y = verified_passes x \<and>
       (failures y = [] \<longrightarrow> failures x = [] \<and> tail_inv J V cfg s a y \<and> motionless_tail cfg (stable_samples y)))
    (\<lambda>_ _. False) x"
proof -
  let ?y = "x\<lparr>stable_samples := [], stable_tail_verified := False, post_disable_observed := 0,
              post_disable_detail := ''no post-disable feedback was captured''\<rparr>"
  have c: "ctl ?y = ctl x" by (simp add: ctl_def)
  have "tail_inv J V cfg s a ?y"
    using quiet_start [OF assms] by (intro tail_inv_clear) simp_all
  note loop = final_loop_tail [OF this, of d, unfolded c, simplified]
  have same: "quiet J s a (sys z) \<and> tail_inv J V cfg s a z = tail_inv J V cfg s a y"
    if "quiet J s a (sys y)" "z = y\<lparr>failures := fs\<rparr>" for y z fs
    using that by (simp add: tail_inv_def)
  show ?thesis
    unfolding final_phase_def wp_bindP wp_thenP wp_modify wp_tryP
    by (rule wp_mono [OF loop]) (auto simp: ctl_def same)
qed

end

text \<open>The system after a stop: \<open>g\<close> is what happened to the actuator object.\<close>

definition after_io ::
    "('s \<Rightarrow> bool) \<Rightarrow> (actuator \<Rightarrow> actuator) \<Rightarrow> io_event list \<Rightarrow> 's system \<Rightarrow> 's system \<Rightarrow> bool" where
  "after_io J g evs s t =
     (act t = g (act s) \<and> gate_of t = gate_of s \<and> ledger_of t = ledger_of s
      \<and> io_log t = io_log s @ evs \<and> J (world t))"

lemma after_io_act: "io_frame J evs s t \<Longrightarrow> after_io J g evs s (t\<lparr>act := g (act t)\<rparr>)"
  by (simp add: io_frame_def after_io_def)

text \<open>A stop that reports: the evidence it rests on.\<close>

definition stop_evidence ::
    "(safety_feedback \<Rightarrow> bool) \<Rightarrow> settings \<Rightarrow> io_event list \<Rightarrow> safety_feedback list \<Rightarrow> bool" where
  "stop_evidence V cfg evs fs =
     (\<exists>a p pre. evs = a @ p @ pre @ final_events fs \<and> hold_evidence cfg a \<and> released p \<and> writes_of pre = []
        \<and> motionless_tail cfg fs \<and> (\<forall>f \<in> set fs. V f \<and> stopped_sample cfg f))"

text \<open>Every stop, confirmed or not: the only targets written are the held pose, then releases; and
  both release passes were tried. A stop whose first clock reading fails does nothing.\<close>

definition stop_writes :: "settings \<Rightarrow> io_event list \<Rightarrow> bool" where
  "stop_writes cfg evs = (\<exists>a b. evs = a @ b \<and> hold_writes cfg a \<and> release_tries b)"

definition stop_history :: "settings \<Rightarrow> io_event list \<Rightarrow> bool" where
  "stop_history cfg evs = (evs = [StopClockLost] \<or> stop_writes cfg evs)"

lemma stop_writesI: "hold_writes cfg a \<Longrightarrow> release_tries b \<Longrightarrow> stop_writes cfg (a @ b)"
  by (auto simp: stop_writes_def)

lemma release_tries_append: "release_try a \<Longrightarrow> release_try b \<Longrightarrow> release_tries (a @ b)"
  by (auto simp: release_tries_def)

lemma release_try_quiet: "release_try a \<Longrightarrow> writes_of b = [] \<Longrightarrow> release_try (a @ b)"
  by (force simp: release_try_def)

lemma release_tries_quiet: "release_tries a \<Longrightarrow> writes_of b = [] \<Longrightarrow> release_tries (a @ b)"
  by (force simp: release_tries_def dest: release_try_quiet)

lemma release_pass_try: "release_pass p \<Longrightarrow> release_try p"
  by (force simp: release_pass_def release_try_def)

lemma stop_writes_history: "stop_writes cfg evs \<Longrightarrow> stop_history cfg evs"
  by (simp add: stop_history_def)

definition stop_post ::
    "('s \<Rightarrow> bool) \<Rightarrow> (safety_feedback \<Rightarrow> bool) \<Rightarrow> bool \<Rightarrow> 's system \<Rightarrow> stop_report \<Rightarrow> 's system \<Rightarrow> bool" where
  "stop_post J V preserve s rep t =
     (\<exists>evs fs. stop_evidence V (settings_of (act s)) evs fs \<and> stop_writes (settings_of (act s)) evs \<and>
        after_io J (stopped_actuator preserve (Some (captured_monotonic_s (last fs)))) evs s t \<and>
        report_verified rep \<and> disable_passes_verified rep = 2 \<and>
        feedback_samples_verified rep = stop_verify_samples (settings_of (act s)))"

definition stop_fail :: "('s \<Rightarrow> bool) \<Rightarrow> bool \<Rightarrow> 's system \<Rightarrow> exn \<Rightarrow> 's system \<Rightarrow> bool" where
  "stop_fail J steady s e t =
     (\<exists>evs. (stop_writes (settings_of (act s)) evs \<and> exn_class e = RH56StopUnconfirmed \<and>
           (\<exists>reason. after_io J (latch_fault reason) evs s t)) \<or>
        (stop_history (settings_of (act s)) evs \<and> \<not> steady \<and> after_io J (\<lambda>a. a) evs s t))"

text \<open>Between the phases: what the history holds so far, and what no failure says of it.\<close>

definition held :: "('s \<Rightarrow> bool) \<Rightarrow> settings \<Rightarrow> 's system \<Rightarrow> 's stopping \<Rightarrow> bool" where
  "held J cfg s y =
     (\<exists>a. io_frame J a s (sys y) \<and> hold_writes cfg a \<and> verified_passes y = 0 \<and>
        (failures y = [] \<longrightarrow> hold_verified y \<longrightarrow> hold_evidence cfg a))"

definition passed ::
    "('s \<Rightarrow> bool) \<Rightarrow> settings \<Rightarrow> 's system \<Rightarrow> (io_event list \<Rightarrow> bool) \<Rightarrow> (io_event list \<Rightarrow> bool) \<Rightarrow> 's stopping \<Rightarrow> bool" where
  "passed J cfg s T P y =
     (\<exists>a b. io_frame J (a @ b) s (sys y) \<and> hold_writes cfg a \<and> T b \<and>
        (failures y = [] \<longrightarrow> hold_verified y \<longrightarrow> hold_evidence cfg a) \<and> (failures y = [] \<longrightarrow> P b))"

lemma passed_first:
  assumes "held J cfg s x"
  shows "\<exists>a. io_frame J a s (sys x) \<and> (\<forall>y. pass_result J s a x y \<longrightarrow> passed J cfg s release_try release_pass y)"
proof -
  obtain a where a: "io_frame J a s (sys x)" "hold_writes cfg a"
      "failures x = [] \<longrightarrow> hold_verified x \<longrightarrow> hold_evidence cfg a"
    using assms by (auto simp: held_def)
  have "passed J cfg s release_try release_pass y" if "pass_result J s a x y" for y
    using that a(2,3) release_pass_try unfolding pass_result_def passed_def by metis
  with a(1) show ?thesis by blast
qed

lemma passed_second:
  assumes "passed J cfg s release_try release_pass x"
  shows "\<exists>a. io_frame J a s (sys x) \<and> (\<forall>y. pass_result J s a x y \<longrightarrow> passed J cfg s release_tries released y)"
proof -
  obtain a b where a: "io_frame J (a @ b) s (sys x)" "hold_writes cfg a" "release_try b"
      "failures x = [] \<longrightarrow> hold_verified x \<longrightarrow> hold_evidence cfg a" "failures x = [] \<longrightarrow> release_pass b"
    using assms by (auto simp: passed_def)
  have w: "release_tries (b @ c)" if "release_try c" for c
    using release_tries_append [OF a(3) that] .
  have "passed J cfg s release_tries released y" if y: "pass_result J s (a @ b) x y" for y
  proof -
    obtain c where c: "io_frame J (a @ b @ c) s (sys y)" "release_try c" "hold_verified y = hold_verified x"
        "failures y = [] \<longrightarrow> failures x = [] \<and> release_pass c"
      using y release_pass_try by (auto simp: pass_result_def)
    then show ?thesis
      unfolding passed_def using a w by (intro exI [of _ a] exI [of _ "b @ c"]) (auto simp: released_def)
  qed
  with a(1) show ?thesis by blast
qed

context kept_world
begin

lemma finish_stop_result:
  assumes fr: "io_frame J evs s (sys y)" and cfg: "cfg = settings_of (act s)" and w: "stop_writes cfg evs"
    and good: "failures y = [] \<Longrightarrow> hold_verified y \<Longrightarrow> verified_passes y = 2 \<Longrightarrow>
      stop_evidence V cfg evs (stable_samples y)"
  shows "wp (finish_stop E cfg preserve) (\<lambda>rep z. stop_post J V preserve s rep (sys z))
    (\<lambda>e z. stop_fail J (steady_clock E) s e (sys z)) y"
proof -
  have fail: "stop_fail J (steady_clock E) s (stop_unconfirmed r) ((sys y)\<lparr>act := latch_fault r (act (sys y))\<rparr>)" for r
    unfolding stop_fail_def using w cfg after_io_act [OF fr, of "latch_fault r"]
    by (intro exI [of _ evs]) (auto simp: stop_unconfirmed_def)
  have odd: "stop_fail J (steady_clock E) s e t" if "\<not> steady_clock E \<and> io_frame J evs s t" for e t
    unfolding stop_fail_def using stop_writes_history [OF w] cfg that
    by (intro exI [of _ evs]) (auto simp: io_frame_def after_io_def)
  show ?thesis
  proof (cases "failures y \<noteq> [] \<or> \<not> hold_verified y \<or> \<not> stable_tail_verified y \<or> verified_passes y \<noteq> 2
      \<or> int (length (stable_samples y)) \<noteq> stop_verify_samples cfg")
    case True
    then show ?thesis using fail by (auto simp: finish_stop_def Let_def on_act_def)
  next
    case False
    then have ev: "stop_evidence V cfg evs (stable_samples y)" using good by simp
    have "stop_post J V preserve s \<lparr>report_verified = True, disable_passes_verified = verified_passes y,
        feedback_samples_verified = int (length (stable_samples y)), completed_monotonic_s = n\<rparr>
        (t\<lparr>act := stopped_actuator preserve (Some (captured_monotonic_s (last (stable_samples y)))) (act t)\<rparr>)"
      if "io_frame J evs s t" for n t
      unfolding stop_post_def using ev w cfg False after_io_act [OF that]
      by (intro exI [of _ evs] exI [of _ "stable_samples y"]) simp
    then show ?thesis
      using False odd by (auto simp: finish_stop_def Let_def on_act_def intro!: wp_mono [OF wp_act_now [OF fr]])
  qed
qed

lemma final_and_finish:
  assumes p: "passed J cfg s release_tries released x" and cfg: "cfg = settings_of (act s)"
  shows "wp (thenP (if verified_passes x = 2 then final_phase E cfg d else ret ()) (finish_stop E cfg preserve))
    (\<lambda>rep z. stop_post J V preserve s rep (sys z)) (\<lambda>e z. stop_fail J (steady_clock E) s e (sys z)) x"
proof -
  obtain a b where fr: "io_frame J (a @ b) s (sys x)" and a: "hold_writes cfg a" "release_tries b"
      "failures x = [] \<longrightarrow> hold_verified x \<longrightarrow> hold_evidence cfg a" "failures x = [] \<longrightarrow> released b"
    using p by (auto simp: passed_def)
  have fin: "wp (finish_stop E cfg preserve) (\<lambda>rep z. stop_post J V preserve s rep (sys z))
      (\<lambda>e z. stop_fail J (steady_clock E) s e (sys z)) y"
    if y: "quiet J s (a @ b) (sys y)" "hold_verified y = hold_verified x"
        "failures y = [] \<longrightarrow> failures x = [] \<and> tail_inv J V cfg s (a @ b) y \<and> motionless_tail cfg (stable_samples y)"
    for y
  proof (cases "failures y = []")
    case True
    then obtain pre where pre: "writes_of pre = []"
        "io_frame J (a @ b @ pre @ final_events (stable_samples y)) s (sys y)"
        "\<forall>f \<in> set (stable_samples y). V f \<and> stopped_sample cfg f"
      using y(3) by (auto simp: tail_inv_def)
    have "stop_writes cfg (a @ b @ pre @ final_events (stable_samples y))"
      using a(1,2) pre(1) by (intro stop_writesI) (simp_all add: release_tries_quiet)
    then show ?thesis
      using pre a y True cfg by (intro finish_stop_result) (auto simp: stop_evidence_def)
  next
    case False
    obtain c where c: "writes_of c = []" "io_frame J (a @ b @ c) s (sys y)"
      using y(1) by (auto simp: quiet_def)
    have "stop_writes cfg (a @ b @ c)"
      using a(1,2) c(1) by (intro stop_writesI) (simp_all add: release_tries_quiet)
    then show ?thesis using c False cfg by (intro finish_stop_result) auto
  qed
  show ?thesis
  proof (cases "verified_passes x = 2")
    case True
    then show ?thesis by (auto intro!: wp_mono [OF final_phase_result [OF fr]] fin)
  next
    case False
    have "stop_writes cfg (a @ b)" using a by (intro stop_writesI)
    then show ?thesis using False by (auto intro!: finish_stop_result [OF fr cfg])
  qed
qed

lemma stop_body_result:
  assumes "J (world s)" and cfg: "cfg = settings_of (act s)"
  shows "wp (stop_body E cfg d preserve) (\<lambda>rep z. stop_post J V preserve s rep (sys z))
    (\<lambda>e z. stop_fail J (steady_clock E) s e (sys z)) (start_stopping s)"
proof -
  let ?x = "start_stopping s"
  have x: "io_frame J [] s (sys ?x)" "\<not> hold_verified ?x"
    using io_frame_refl [of J s, OF assms(1)] by (simp_all add: start_stopping_def)
  have rest: "wp (thenP (disable_pass E d 1) (thenP (disable_pass E d 2) (bindP (gets verified_passes) (\<lambda>passes.
       thenP (if passes = 2 then final_phase E cfg d else ret ()) (finish_stop E cfg preserve)))))
      (\<lambda>rep z. stop_post J V preserve s rep (sys z)) (\<lambda>e z. stop_fail J (steady_clock E) s e (sys z)) y"
    if held: "held J cfg s y" for y
  proof -
    have two: "wp (thenP (disable_pass E d 2) (bindP (gets verified_passes) (\<lambda>passes.
       thenP (if passes = 2 then final_phase E cfg d else ret ()) (finish_stop E cfg preserve))))
      (\<lambda>rep z. stop_post J V preserve s rep (sys z)) (\<lambda>e z. stop_fail J (steady_clock E) s e (sys z)) y"
      if "passed J cfg s release_try release_pass y" for y
      using passed_second [OF that] final_and_finish [OF _ cfg]
      by (auto simp del: wp_if intro!: wp_mono [OF disable_pass_result])
    show ?thesis
      using passed_first [OF held] two by (auto simp del: wp_bindP intro!: wp_mono [OF disable_pass_result])
  qed
  have held: "held J cfg s y" if "hold_result J cfg s (failures ?x, verified_passes ?x) y" for y
    using that by (auto simp: hold_result_def held_def start_stopping_def)
  have noted: "held J cfg s (y\<lparr>failures := failures y @ ms\<rparr>)" if "held J cfg s y" for y ms
    using that by (auto simp: held_def)
  show ?thesis
    unfolding stop_body_def wp_bindP wp_tryP
  proof (rule wp_mono [OF hold_phase_result [OF x]], goal_cases)
    case (1 u y)
    then have "held J cfg s y" using held by simp
    then show ?case
      by (auto simp del: wp_thenP wp_bindP simp: wp_thenP [of "ret _"] wp_thenP [of "if _ then _ else _"]
          wp_bindP [of "gets id"] intro!: rest noted)
  next
    case (2 e y)
    then have "held J cfg s y" using held by simp
    then show ?case
      by (auto simp del: wp_thenP wp_bindP simp: wp_thenP [of "note_failure _"] wp_thenP [of "if _ then _ else _"]
          wp_bindP [of "gets id"] intro!: rest noted)
  qed
qed

text \<open>The summary: a stop either reports on evidence or latches, and writes nothing else.\<close>

lemma wp_run_stop:
  assumes "J (world s)"
  shows "wp (run_stop E preserve) (\<lambda>rep t. stop_post J V preserve s rep t)
    (\<lambda>e t. stop_fail J (steady_clock E) s e t) s"
proof -
  have fr: "io_frame J [] s s" using io_frame_refl [of J s, OF assms] .
  have odd: "stop_fail J (steady_clock E) s e t" if "\<not> steady_clock E \<and> io_frame J [StopClockLost] s t" for e t
    unfolding stop_fail_def using that
    by (intro exI [of _ "[StopClockLost]"]) (auto simp: io_frame_def after_io_def stop_history_def)
  have body: "wp (stop_body E (settings_of (act s)) d preserve)
      (\<lambda>rep z. stop_post J V preserve s rep (sys z)) (\<lambda>e z. stop_fail J (steady_clock E) s e (sys z)) (start_stopping t)"
    if "io_frame J [] s t" for t d
  proof -
    have t: "J (world t)" "act t = act s" "gate_of t = gate_of s" "ledger_of t = ledger_of s" "io_log t = io_log s"
      using that by (simp_all add: io_frame_def)
    show ?thesis
      using stop_body_result [OF t(1), of "settings_of (act s)" d preserve]
      by (simp add: stop_post_def stop_fail_def after_io_def t)
  qed
  show ?thesis
    unfolding run_stop_def
    by (auto intro!: wp_mono [OF wp_logged_now [OF fr]] body odd)
qed

end

end
