(* ===== verification/Actuator_Command_Proofs.thy ===== *)
theory Actuator_Command_Proofs
  imports Actuator_Commands Actuator_Stop_Proofs
begin

text \<open>
  What the commands of the actuator do to the system, on top of the frames of the transport
  helpers and the summary of a stop: \<open>wp_execute\<close>, \<open>wp_execute_target\<close>, \<open>wp_poll\<close> and
  \<open>wp_watchdog\<close>.
\<close>

section \<open>Checks\<close>

lemma wp_require_owner:
  "wp (require_owner tid) (\<lambda>_ t. t = s \<and> owner_thread (act_owner (act s)) = Some tid) (\<lambda>_ t. t = s) s"
  by (auto simp: require_owner_def require_current_thread_def proto_def split: option.splits)

text \<open>A check of the gate changes only the gate.\<close>

definition same_but_gate :: "'s system \<Rightarrow> 's system \<Rightarrow> bool" where
  "same_but_gate s t = (\<exists>g. t = s\<lparr>gate_of := g\<rparr>)"

lemma same_but_gate_fields:
  "same_but_gate s t \<Longrightarrow> act t = act s \<and> ledger_of t = ledger_of s \<and> world t = world s \<and> io_log t = io_log s"
  by (auto simp: same_but_gate_def)

lemma wp_require_armed:
  "wp (require_armed tid n) (\<lambda>_ t. same_but_gate s t \<and> act_state (act s) = AS_ARMED \<and> gate_state (gate_of s) = ARMED)
    (\<lambda>_ t. same_but_gate s t) s"
proof -
  have refl: "same_but_gate s s" unfolding same_but_gate_def by (rule exI [of _ "gate_of s"]) simp
  have "gate_state g = ARMED" if "require_motion tid r v g = (Inr u, g')" for r v g g' u
    using that require_motion_Inr [of tid r v g g'] by auto
  with refl show ?thesis
    unfolding require_armed_def the_act_def gate_op_def
    by (auto simp: same_but_gate_def split: prod.splits sum.splits option.splits)
qed

lemma wp_begin_sequence:
  "wp (begin_sequence c now limit m)
    (\<lambda>_ t. t = s\<lparr>act := (act s)\<lparr>act_pending_sequence := Some (cmd_sequence c)\<rparr>\<rparr> \<and>
       cmd_sequence c = last_acknowledged_sequence (act s) + 1 \<and> act_pending_sequence (act s) = None \<and>
       (\<forall>h. last_command_monotonic_s (act s) = Some h \<longrightarrow> \<not> limit < now - h) \<and>
       (last_command_monotonic_s (act s) = None \<longrightarrow> cmd_sequence c = 1))
    (\<lambda>_ t. t = s) s"
  by (auto simp: begin_sequence_def the_act_def on_act_def Let_def split: option.splits)

lemma ledger_fail_faults: "ledger_fail ''rh56'' k r l = (Inr (), l') \<and> ledger_fault_reason l' \<noteq> None"
  if "ledger_fail ''rh56'' k r l = (x, l')"
  using that by (auto simp: ledger_fail_def consumer_name_ex ledger_fault_locked_def split: option.splits)

text \<open>After a failed sequence the ledger and the actuator hold a fault.\<close>

definition failed :: "'s system \<Rightarrow> bool" where
  "failed t = (ledger_fault_reason (ledger_of t) \<noteq> None \<and> act_state (act t) = AS_FAULT_LATCHED)"

lemma latch_fault_state [simp]:
  "act_state (latch_fault r a) = AS_FAULT_LATCHED" "settings_of (latch_fault r a) = settings_of a"
  "act_fault_reason (latch_fault r a) \<noteq> None" "stop_confirmed (latch_fault r a) = False"
  by (auto simp: latch_fault_def Let_def split: option.splits)

lemma wp_fail_sequence:
  "wp (fail_sequence c r) (\<lambda>_ t. failed t \<and> \<not> stop_confirmed (act t) \<and> settings_of (act t) = settings_of (act s) \<and>
      io_log t = io_log s \<and> world t = world s) (\<lambda>_ _. False) s"
  by (auto simp: fail_sequence_def ledger_op_def on_act_def failed_def dest!: ledger_fail_faults
      split: prod.splits sum.splits)

lemma stop_post_act:
  "stop_post J V True s rep t \<Longrightarrow> act_state (act t) = act_state (act s) \<and> ledger_of t = ledger_of s
     \<and> gate_of t = gate_of s \<and> J (world t) \<and> stop_confirmed (act t)"
  by (auto simp: stop_post_def after_io_def stopped_actuator_def Let_def)

lemma stop_fail_act:
  "stop_fail J c s e t \<Longrightarrow> ledger_of t = ledger_of s \<and> gate_of t = gate_of s \<and> J (world t) \<and>
     (act_state (act t) = AS_FAULT_LATCHED \<or> act t = act s)"
  by (auto simp: stop_fail_def after_io_def)

text \<open>What a stop run after a failure leaves: its two tried releases, and evidence if it is confirmed.\<close>

definition stopped_log :: "(safety_feedback \<Rightarrow> bool) \<Rightarrow> settings \<Rightarrow> actuator \<Rightarrow> io_event list \<Rightarrow> bool" where
  "stopped_log V cfg a evs =
     (stop_history cfg evs \<and> settings_of a = cfg \<and> (stop_confirmed a \<longrightarrow> (\<exists>fs. stop_evidence V cfg evs fs)))"

section \<open>What a command does\<close>

text \<open>At most one numeric write, of the command's own targets.\<close>

definition command_writes :: "closed_loop_command \<Rightarrow> io_event list \<Rightarrow> bool" where
  "command_writes c evs =
     (writes_of evs = [] \<or>
      (\<exists>ts nm. six_targets (ints (cmd_rh56_register c)) nm False = Inr ts \<and> writes_of evs = [ts]))"

text \<open>A completed transaction: write, exact readback, one validated sample, one acknowledgement.\<close>

definition executed ::
    "(safety_feedback \<Rightarrow> bool) \<Rightarrow> closed_loop_command \<Rightarrow> 's system \<Rightarrow> transaction_receipt \<Rightarrow> 's system \<Rightarrow> bool" where
  "executed V c s r t =
     (\<exists>f. six_targets (ints (cmd_rh56_register c)) ''command ANGLE_SET'' False = Inr (rcpt_exact_readback r) \<and>
        io_log t = io_log s @ [WriteTargets (rcpt_exact_readback r), ReadTargets, GotTargets (rcpt_exact_readback r),
                               ReadFeedback, GotFeedback f] \<and>
        f = rcpt_feedback r \<and> V f \<and> validate_running_feedback (settings_of (act s)) f = Inr () \<and>
        rcpt_sequence r = cmd_sequence c \<and> cmd_sequence c = last_acknowledged_sequence (act s) + 1 \<and>
        is_finite (rcpt_acknowledged_monotonic_s r) \<and>
        \<not> command_deadline (settings_of (act s)) c < rcpt_acknowledged_monotonic_s r \<and>
        ledger_acknowledge ''rh56'' (PyInt (cmd_sequence c)) (PyFloat (rcpt_acknowledged_monotonic_s r)) (ledger_of s)
          = (Inr (rcpt_commit_completed r), ledger_of t) \<and>
        act_state (act s) = AS_ARMED \<and>
        act t = acknowledged_command (cmd_sequence c) (rcpt_acknowledged_monotonic_s r)
                  (record_feedback f ((act s)\<lparr>act_pending_sequence := Some (cmd_sequence c)\<rparr>)))"

text \<open>The state once the sequence has started, and the state after a transaction that failed.\<close>

definition started :: "closed_loop_command \<Rightarrow> 's system \<Rightarrow> 's system" where
  "started c s = s\<lparr>act := (act s)\<lparr>act_pending_sequence := Some (cmd_sequence c)\<rparr>\<rparr>"

definition not_executed :: "('s \<Rightarrow> bool) \<Rightarrow> closed_loop_command \<Rightarrow> 's system \<Rightarrow> 's system \<Rightarrow> bool" where
  "not_executed J c s t =
     (J (world t) \<and> settings_of (act t) = settings_of (act s) \<and>
      (\<exists>evs. io_log t = io_log s @ evs \<and> command_writes c evs))"

text \<open>A command that was refused changed nothing but the gate; a failed one left a stopped system.\<close>

definition refused :: "'s system \<Rightarrow> 's system \<Rightarrow> bool" where
  "refused s t = (act t = act s \<and> ledger_of t = ledger_of s \<and> io_log t = io_log s)"

definition stopped_after ::
    "(safety_feedback \<Rightarrow> bool) \<Rightarrow> closed_loop_command \<Rightarrow> 's system \<Rightarrow> 's system \<Rightarrow> bool" where
  "stopped_after V c s t =
     (failed t \<and> (\<exists>evs stop. io_log t = io_log s @ evs @ stop \<and> command_writes c evs \<and>
        stopped_log V (settings_of (act s)) (act t) stop))"

text \<open>A supervised target that failed is latched and its ledger is faulted; nothing is stopped here.\<close>

definition target_failed :: "closed_loop_command \<Rightarrow> 's system \<Rightarrow> 's system \<Rightarrow> bool" where
  "target_failed c s t =
     (failed t \<and> \<not> stop_confirmed (act t) \<and> settings_of (act t) = settings_of (act s) \<and>
      (\<exists>evs. io_log t = io_log s @ evs \<and> command_writes c evs))"

text \<open>A poll reads one sample; a failed one is latched, and stopped unless the caller defers that.\<close>

definition polled :: "(safety_feedback \<Rightarrow> bool) \<Rightarrow> 's system \<Rightarrow> safety_feedback \<Rightarrow> 's system \<Rightarrow> bool" where
  "polled V s f t =
     (io_log t = io_log s @ [ReadFeedback, GotFeedback f] \<and> V f \<and>
      validate_running_feedback (settings_of (act s)) f = Inr () \<and>
      act t = record_feedback f (act s) \<and> ledger_of t = ledger_of s)"

definition poll_failed ::
    "(safety_feedback \<Rightarrow> bool) \<Rightarrow> bool \<Rightarrow> 's system \<Rightarrow> 's system \<Rightarrow> bool" where
  "poll_failed V deferred s t =
     (act_state (act t) = AS_FAULT_LATCHED \<and> ledger_of t = ledger_of s \<and>
      (\<exists>evs stop. io_log t = io_log s @ evs @ stop \<and> writes_of evs = [] \<and>
         (if deferred then stop = [] \<and> \<not> stop_confirmed (act t) \<and> settings_of (act t) = settings_of (act s)
          else stopped_log V (settings_of (act s)) (act t) stop)))"

definition watchdog_stopped :: "(safety_feedback \<Rightarrow> bool) \<Rightarrow> 's system \<Rightarrow> 's system \<Rightarrow> bool" where
  "watchdog_stopped V s t =
     (act_state (act t) = AS_FAULT_LATCHED \<and> stop_confirmed (act t) \<and> ledger_of t = ledger_of s \<and>
      settings_of (act t) = settings_of (act s) \<and>
      (\<exists>evs fs. io_log t = io_log s @ evs \<and> stop_evidence V (settings_of (act s)) evs fs \<and>
         stop_writes (settings_of (act s)) evs))"

lemma refused_cong:
  assumes "refused s t"
  shows "executed V c t = executed V c s" "not_executed J c t = not_executed J c s"
    "polled V t = polled V s" "poll_failed V d t = poll_failed V d s"
  using assms by (auto simp: refused_def executed_def not_executed_def polled_def poll_failed_def fun_eq_iff)

text \<open>
  What a supervised target transaction exchanges: nothing while the target is held, one write
  when its response arrives, and otherwise one write (or the record that it came too late) and
  one exact readback that settles the missing response.
\<close>

definition target_io :: "int list \<Rightarrow> bool \<Rightarrow> bool \<Rightarrow> io_event list \<Rightarrow> bool" where
  "target_io ts numeric answered evs =
     (if \<not> numeric then evs = []
      else if answered then evs = [WriteTargets ts]
      else \<exists>w. offered ts w \<and> evs = w @ [ReadTargets, GotTargets ts])"

definition target_executed :: "closed_loop_command \<Rightarrow> 's system \<Rightarrow> target_receipt \<Rightarrow> 's system \<Rightarrow> bool" where
  "target_executed c s r t =
     (let ts = exact_target r; tm = tgt_acknowledged_monotonic_s r in
      (\<exists>nm. six_targets (ints (cmd_rh56_register c)) nm False = Inr ts) \<and> tgt_exact_readback r = ts \<and>
      numeric_write_performed r = (last_supervised_target (act s) \<noteq> Some ts) \<and>
      application_verified_by_readback r = (numeric_write_performed r \<and> \<not> write_response_received r) \<and>
      (write_response_received r \<longrightarrow> numeric_write_performed r) \<and>
      (\<exists>evs. io_log t = io_log s @ evs \<and>
         target_io ts (numeric_write_performed r) (write_response_received r) evs) \<and>
      tgt_sequence r = cmd_sequence c \<and> cmd_sequence c = last_acknowledged_sequence (act s) + 1 \<and>
      is_finite tm \<and> \<not> command_deadline (settings_of (act s)) c < tm \<and>
      ledger_acknowledge ''rh56'' (PyInt (cmd_sequence c)) (PyFloat tm) (ledger_of s)
        = (Inr (tgt_commit_completed r), ledger_of t) \<and>
      act_state (act s) = AS_ARMED \<and> supervised_session (act s) \<and>
      act t = (acknowledged_command (cmd_sequence c) tm (act s))\<lparr>last_supervised_target := Some ts\<rparr>)"

context kept_world
begin

lemma wp_stop_and_raise:
  assumes "J (world s)" and "act_state (act s) = AS_FAULT_LATCHED" and "\<not> stop_confirmed (act s)"
  shows "wp (stop_and_raise E m) Q
    (\<lambda>e t. exn_class e = RH56TransactionalError \<and> act_state (act t) = AS_FAULT_LATCHED \<and> ledger_of t = ledger_of s \<and>
       J (world t) \<and> (\<exists>evs. io_log t = io_log s @ evs \<and> stopped_log V (settings_of (act s)) (act t) evs)) s"
  unfolding stop_and_raise_def wp_bindP wp_tryP wp_throw
proof (rule wp_mono [OF wp_run_stop [OF assms(1)]], goal_cases)
  case (1 rep t)
  then show ?case
    using assms(2) by (auto simp: tx_error_def stop_post_def after_io_def stopped_actuator_def Let_def stopped_log_def
        dest: stop_writes_history)
next
  case (2 e t)
  then show ?case
    using assms(2,3) by (auto simp: tx_error_def stop_fail_def after_io_def stopped_log_def dest: stop_writes_history)
qed

lemma wp_acknowledge_sequence:
  assumes "J (world s)"
  shows "wp (acknowledge_sequence tid E c d op)
    (\<lambda>r t. act t = act s \<and> io_log t = io_log s \<and> J (world t) \<and> act_state (act s) = AS_ARMED \<and>
       is_finite (fst r) \<and> \<not> d < fst r \<and> gate_state (gate_of s) = ARMED \<and>
       ledger_acknowledge ''rh56'' (PyInt (cmd_sequence c)) (PyFloat (fst r)) (ledger_of s) = (Inr (snd r), ledger_of t))
    (\<lambda>_ t. act t = act s \<and> io_log t = io_log s \<and> J (world t)) s"
proof -
  have fr: "io_frame J [] s s" using io_frame_refl [of J s, OF assms] .
  show ?thesis
    unfolding acknowledge_sequence_def wp_bindP wp_thenP before_deadline_def ledger_op_def
  proof (rule wp_mono [OF wp_act_now [OF fr]], goal_cases)
    case (1 n t)
    have "wp (require_armed tid n) (\<lambda>_ u. same_but_gate t u \<and> act_state (act t) = AS_ARMED \<and> gate_state (gate_of t) = ARMED)
        (\<lambda>_ u. same_but_gate t u) t" by (rule wp_require_armed)
    then show ?case
      using 1 by (auto simp: io_frame_def elim!: wp_mono dest!: same_but_gate_fields split: prod.splits sum.splits)
  qed (auto simp: io_frame_def)
qed

lemma wp_execute_receipt:
  assumes t: "io_frame J [WriteTargets ts, ReadTargets, GotTargets ts, ReadFeedback, GotFeedback f] (started c s) t"
    and ts: "six_targets (ints (cmd_rh56_register c)) ''command ANGLE_SET'' False = Inr ts"
    and ok: "V f" "validate_running_feedback (settings_of (act s)) f = Inr ()"
      "cmd_sequence c = last_acknowledged_sequence (act s) + 1"
  shows "wp (execute_receipt tid E c (command_deadline (settings_of (act s)) c) ts f)
    (\<lambda>r t. executed V c s r t \<and> J (world t)) (\<lambda>_ t. not_executed J c s t) t"
proof -
  have w: "J (world t)" using t by (simp add: io_frame_def)
  have "not_executed J c s u" if "act u = act t" "io_log u = io_log t" "J (world u)" for u
    using that t ts unfolding not_executed_def io_frame_def command_writes_def started_def by fastforce
  then show ?thesis
    unfolding execute_receipt_def wp_bindP
    apply (intro wp_mono [OF wp_acknowledge_sequence [OF w]])
    subgoal for r u using t ts ok by (cases r) (auto simp: executed_def io_frame_def on_act_def started_def)
    subgoal by simp
    done
qed

lemma not_executedI:
  "not_executed J c s t" if "io_frame J evs (started c s) t" "command_writes c evs"
  using that by (auto simp: not_executed_def io_frame_def started_def)

lemma wp_execute_sample:
  assumes t: "io_frame J [WriteTargets ts, ReadTargets, GotTargets ts] (started c s) t"
    and ts: "six_targets (ints (cmd_rh56_register c)) ''command ANGLE_SET'' False = Inr ts"
    and ok: "cmd_sequence c = last_acknowledged_sequence (act s) + 1"
  shows "wp (bindP (transport_read_feedback E (command_deadline (settings_of (act s)) c) op) (\<lambda>feedback.
       thenP (lift_res (validate_running_feedback (settings_of (act s)) feedback))
             (execute_receipt tid E c (command_deadline (settings_of (act s)) c) ts feedback)))
    (\<lambda>r t. executed V c s r t \<and> J (world t)) (\<lambda>_ t. not_executed J c s t) t"
proof -
  have fail: "not_executed J c s u" if "io_frame J evs (started c s) u" "writes_of evs = [ts]" for evs u
    using not_executedI [OF that(1)] that(2) ts unfolding command_writes_def by blast
  show ?thesis
    unfolding wp_bindP wp_thenP
  proof (rule wp_mono [OF wp_transport_read_feedback [OF t]], goal_cases)
    case (1 f u)
    then show ?case
      using wp_execute_receipt [OF _ ts _ _ ok, of f u] fail [of _ u] by (auto split: sum.splits)
  qed (use fail in force)
qed

lemma wp_execute_body:
  assumes "J (world s)"
  shows "wp (execute_body tid E c now) (\<lambda>r t. executed V c s r t \<and> J (world t)) (\<lambda>_ t. not_executed J c s t) s"
proof -
  have begun: "not_executed J c s s" "not_executed J c s (started c s)" "io_frame J [] (started c s) (started c s)"
    using assms by (auto simp: not_executed_def command_writes_def io_frame_def started_def)
  have fail: "not_executed J c s u"
    if "io_frame J evs (started c s) u" "writes_of evs = [] \<or> writes_of evs = [ts]"
      "six_targets (ints (cmd_rh56_register c)) ''command ANGLE_SET'' False = Inr ts" for evs u ts
    using not_executedI [OF that(1)] that(2,3) unfolding command_writes_def by blast
  have readback: "wp (bindP (transport_read_targets E (command_deadline (settings_of (act s)) c) op) (\<lambda>readback.
       thenP (raise_if (readback \<noteq> ts) (g readback)) (m readback)))
      (\<lambda>r t. executed V c s r t \<and> J (world t)) (\<lambda>_ t. not_executed J c s t) t"
    if t: "io_frame J [WriteTargets ts] (started c s) t"
      and ts: "six_targets (ints (cmd_rh56_register c)) ''command ANGLE_SET'' False = Inr ts"
      and m: "\<And>u. io_frame J [WriteTargets ts, ReadTargets, GotTargets ts] (started c s) u \<Longrightarrow>
        wp (m ts) (\<lambda>r t. executed V c s r t \<and> J (world t)) (\<lambda>_ t. not_executed J c s t) u" for ts t op g m
    unfolding wp_bindP wp_thenP
    apply (rule wp_mono [OF wp_transport_read_targets [OF t]])
    subgoal for ns u using m [of u] fail [OF _ _ ts, of _ u] by (cases "ns = ts") auto
    subgoal for e u using fail [OF _ _ ts, of _ u] by auto
    done
  have writes: "wp (thenP (transport_write E ts d op) m)
      (\<lambda>r t. executed V c s r t \<and> J (world t)) (\<lambda>_ t. not_executed J c s t) (started c s)"
    if ts: "six_targets (ints (cmd_rh56_register c)) ''command ANGLE_SET'' False = Inr ts"
      and m: "\<And>t. io_frame J [WriteTargets ts] (started c s) t \<Longrightarrow>
        wp m (\<lambda>r t. executed V c s r t \<and> J (world t)) (\<lambda>_ t. not_executed J c s t) t" for ts d op m
    unfolding wp_thenP
    apply (rule wp_mono [OF wp_transport_write [OF begun(3)]])
    subgoal using m by simp
    subgoal for e u using fail [OF _ _ ts, of _ u] offered_writes by fastforce
    done
  show ?thesis
    unfolding execute_body_def wp_bindP [of "gets _"] wp_gets wp_thenP [of "begin_sequence _ _ _ _"]
  proof (rule wp_mono [OF wp_begin_sequence], goal_cases)
    case (1 u t)
    have t: "t = started c s" and ok: "cmd_sequence c = last_acknowledged_sequence (act s) + 1"
      using 1 by (simp_all add: started_def)
    show ?case
      unfolding t Let_def comp_def wp_thenP [of "before_deadline _ _ _"] wp_bindP [of "lift_res _"]
      unfolding before_deadline_def
      using begun(2)
      by (auto simp del: wp_bindP wp_thenP split: sum.splits
          intro!: writes readback wp_execute_sample [OF _ _ ok])
  qed (use begun(1) in simp)
qed

text \<open>The whole command: executed, refused before it did anything, or failed and stopped.\<close>

lemma wp_execute:
  assumes "J (world s)"
  shows "wp (execute tid E c) (\<lambda>r t. executed V c s r t \<and> J (world t))
    (\<lambda>_ t. J (world t) \<and> (refused s t \<or> stopped_after V c s t)) s"
proof -
  have fr: "io_frame J [] s s" using io_frame_refl [of J s, OF assms] .
  have after: "wp (thenP (fail_sequence c m) (stop_and_raise E m'))
      Q (\<lambda>_ t. J (world t) \<and> stopped_after V c s t) t" if t: "not_executed J c s t" for t m m' and Q :: "'z \<Rightarrow> 's system \<Rightarrow> bool"
    unfolding wp_thenP
  proof (rule wp_mono [OF wp_fail_sequence], goal_cases)
    case (1 x u)
    have "J (world u)" "act_state (act u) = AS_FAULT_LATCHED" "\<not> stop_confirmed (act u)"
      using 1 t by (auto simp: failed_def not_executed_def)
    note stop = wp_stop_and_raise [OF this]
    show ?case
      using 1 t
      apply (intro wp_mono [OF stop])
       apply assumption
      apply (auto simp: stopped_after_def not_executed_def failed_def)
      apply blast
      done
  qed simp
  have body: "wp (execute_body tid E c n) (\<lambda>r t. executed V c s r t \<and> J (world t))
      (\<lambda>e. wp (thenP (fail_sequence c (exn_msg e)) (stop_and_raise E (m e)))
        (\<lambda>r t. executed V c s r t \<and> J (world t)) (\<lambda>_ t. J (world t) \<and> (refused s t \<or> stopped_after V c s t))) t"
    if "refused s t \<and> J (world t)" for t n m
    using that
    by (intro wp_mono [OF wp_execute_body])
      (auto simp: refused_cong simp del: wp_thenP intro: wp_mono [OF after])
  have kept: "refused s u \<and> J (world u)" if "io_frame J [] s t" "same_but_gate t u" for t u
    using that by (auto simp: io_frame_def refused_def dest!: same_but_gate_fields)
  have same: "refused s t \<and> J (world t)" if "io_frame J [] s t" for t
    using that by (auto simp: io_frame_def refused_def)
  show ?thesis
    unfolding execute_def wp_thenP [of "require_owner _"] wp_bindP wp_thenP [of "require_armed _ _"] wp_catchP
    apply (rule wp_mono [OF wp_require_owner])
     apply (elim conjE, simp only:)
     apply (rule wp_mono [OF wp_act_now [OF fr]])
      apply (rule wp_mono [OF wp_require_armed])
    using same [OF fr] by (auto intro!: body kept dest: kept same)
qed

lemma wp_run_part: "wp (runP m) Q F x = wp m (\<lambda>a t. Q a (x\<lparr>run_sys := t\<rparr>)) (\<lambda>e t. F e (x\<lparr>run_sys := t\<rparr>)) (run_sys x)"
  by (simp add: runP_def)

lemma wp_write_target:
  assumes x: "io_frame J [] s (run_sys x)"
  shows "wp (write_target E ts d)
    (\<lambda>r x. \<exists>evs. io_frame J evs s (run_sys x) \<and> target_io ts True (r = None) evs)
    (\<lambda>_ x. \<exists>evs. io_frame J evs s (run_sys x) \<and> (writes_of evs = [] \<or> writes_of evs = [ts])) x"
proof -
  let ?F = "\<lambda>_ x. \<exists>evs. io_frame J evs s (run_sys x) \<and> (writes_of evs = [] \<or> writes_of evs = [ts])"
  have now: "wp (act_now E) (\<lambda>_ t. io_frame J [] s t) (\<lambda>_ t. io_frame J [] s t) t" if "io_frame J [] s t" for t
    by (rule wp_mono [OF wp_act_now [OF that]]) auto
  have write1: "wp (transport_write E ts wd op) (\<lambda>_ t. io_frame J [WriteTargets ts] s t)
      (\<lambda>_ t. \<exists>w. offered ts w \<and> io_frame J w s t) t" if "io_frame J [] s t" for t wd op
    by (rule wp_mono [OF wp_transport_write [OF that]]) auto
  have settle: "wp (runP (transport_read_targets E d op))
      (\<lambda>ns. wp (thenP (raise_if (ns \<noteq> ts) (g ns)) (ret (Some e)))
        (\<lambda>r x. \<exists>evs. io_frame J evs s (run_sys x) \<and> target_io ts True (r = None) evs) ?F)
      (\<lambda>e. wp (throw (h e)) Q ?F) x"
    if "io_frame J w s (run_sys x)" "offered ts w" for w x op g h e and Q :: "'z \<Rightarrow> 's target_run \<Rightarrow> bool"
    unfolding wp_run_part
    apply (rule wp_mono [OF wp_transport_read_targets [OF that(1)]])
    subgoal for ns t
      using exI [of "\<lambda>b. io_frame J b s t \<and> (writes_of b = [] \<or> writes_of b = [ts])" "w @ [ReadTargets, GotTargets ns]"]
        offered_writes [OF that(2)] that(2)
      by (auto simp: target_io_def)
    subgoal for e t
      using exI [of "\<lambda>b. io_frame J b s t \<and> (writes_of b = [] \<or> writes_of b = [ts])" "w @ [ReadTargets]"]
        exI [of "\<lambda>b. io_frame J b s t \<and> (writes_of b = [] \<or> writes_of b = [ts])" w] offered_writes [OF that(2)]
      by auto
    done
  show ?thesis
    unfolding write_target_def wp_bindP wp_thenP in_phase_def Let_def wp_run_part wp_catchP wp_tryP wp_modify
    using x
    apply simp
    apply (rule wp_mono [OF now], assumption)
     apply (rule wp_mono [OF wp_now_before], simp, simp)
      apply (rule wp_mono [OF write1], simp, simp add: target_io_def)
      apply (auto intro: settle)
    done
qed

lemma wp_acknowledge_target:
  assumes x: "io_frame J evs (started c s) (run_sys x)"
    and s: "act_state (act s) = AS_ARMED" "supervised_session (act s)"
      "cmd_sequence c = last_acknowledged_sequence (act s) + 1"
    and ts: "six_targets (ints (cmd_rh56_register c)) nm False = Inr ts"
    and n: "n = (last_supervised_target (act s) \<noteq> Some ts)" and io: "target_io ts n (w = None) evs"
  shows "wp (acknowledge_target tid E c (command_deadline (settings_of (act s)) c) ts n w)
    (\<lambda>r x. target_executed c s r (run_sys x) \<and> J (world (run_sys x))) (\<lambda>_ x. not_executed J c s (run_sys x)) x"
proof -
  let ?t = "run_sys x"
  have w: "J (world ?t)" using x by (simp add: io_frame_def)
  have "writes_of evs = [] \<or> writes_of evs = [ts]"
    using io by (auto simp: target_io_def dest: offered_writes split: if_splits)
  then have "not_executed J c s ?t" using not_executedI [OF x] ts unfolding command_writes_def by blast
  then have fail: "not_executed J c s u" if "act u = act ?t" "io_log u = io_log ?t" "J (world u)" for u
    using that by (simp add: not_executed_def)
  have completed: "target_executed c s \<lparr>tgt_sequence = cmd_sequence c, tgt_acknowledged_monotonic_s = a,
        tgt_latency_s = l, exact_target = ts, tgt_exact_readback = ts,
        write_response_received = (n \<and> w = None), application_verified_by_readback = (n \<and> w \<noteq> None),
        tgt_commit_completed = k, numeric_write_performed = n\<rparr>
      (u\<lparr>act := (acknowledged_command (cmd_sequence c) a (act u))\<lparr>last_supervised_target := Some ts\<rparr>\<rparr>)"
    if "act u = act ?t" "io_log u = io_log ?t" "is_finite a" "\<not> command_deadline (settings_of (act s)) c < a"
      "ledger_acknowledge ''rh56'' (PyInt (cmd_sequence c)) (PyFloat a) (ledger_of ?t) = (Inr k, ledger_of u)" for a l k u
    using that x s ts n io
    by (auto simp: target_executed_def Let_def io_frame_def started_def acknowledged_command_def target_io_def)
  show ?thesis
    unfolding acknowledge_target_def wp_thenP wp_bindP wp_modify wp_run_part
    apply simp
    apply (rule wp_mono [OF wp_acknowledge_sequence [OF w]])
    subgoal for r u using completed [of u "fst r" "snd r"] by (cases r) (simp add: on_act_def wp_run_part)
    subgoal for e u using fail [of u] by simp
    done
qed

lemma wp_target_body:
  assumes s: "J (world s)" "act_state (act s) = AS_ARMED" "supervised_session (act s)"
    and ts: "six_targets (ints (cmd_rh56_register c)) nm False = Inr ts"
  shows "wp (target_body tid E c ts now) (\<lambda>r x. target_executed c s r (run_sys x) \<and> J (world (run_sys x)))
    (\<lambda>_ x. not_executed J c s (run_sys x)) (start_target s)"
proof -
  have fail: "not_executed J c s t"
    if "io_frame J evs (started c s) t" "writes_of evs = [] \<or> writes_of evs = [ts]" for evs t
    using not_executedI [OF that(1)] that(2) ts unfolding command_writes_def by blast
  have begun: "not_executed J c s s" "not_executed J c s (started c s)" "io_frame J [] (started c s) (started c s)"
    using s(1) by (auto simp: not_executed_def command_writes_def io_frame_def started_def)
  show ?thesis
    unfolding target_body_def wp_bindP [of "gets _"] wp_gets wp_thenP [of "runP (begin_sequence _ _ _ _)"] wp_run_part
  proof (rule wp_mono [OF wp_begin_sequence], goal_cases)
    case (1 u t)
    have t: "t = started c s" and ok: "cmd_sequence c = last_acknowledged_sequence (act s) + 1"
      using 1 by (simp_all add: started_def start_target_def)
    have same: "last_supervised_target (act (started c s)) = last_supervised_target (act s)"
      by (simp add: started_def)
    note ack = wp_acknowledge_target [OF _ s(2,3) ok ts]
    show ?case
      unfolding t Let_def comp_def wp_thenP [of "runP (before_deadline _ _ _)"] wp_bindP [of "gets _"]
        wp_bindP [of "if _ then _ else _"]
      apply (simp add: wp_run_part before_deadline_def start_target_def begun same in_phase_def del: wp_bindP)
      apply (intro impI conjI)
      subgoal
        by (rule wp_mono [OF wp_write_target [where s = "started c s"]]) (use ack fail in \<open>auto simp: begun\<close>)
      subgoal by (rule ack [where evs = "[]"]) (simp_all add: begun target_io_def)
      done
  qed (use begun(1) in \<open>simp add: start_target_def\<close>)
qed

lemma wp_execute_target:
  assumes "J (world s)"
  shows "wp (execute_target_and_ack tid E c) (\<lambda>r t. target_executed c s r t \<and> J (world t))
    (\<lambda>_ t. J (world t) \<and> (refused s t \<or> target_failed c s t)) s"
proof -
  have fr: "io_frame J [] s s" using io_frame_refl [of J s, OF assms] .
  have body: "wp (with_locals start_target run_sys
      (catchP (target_body tid E c ts n) (\<lambda>e. bindP (gets (\<lambda>x. target_failure c ts x e)) (\<lambda>d.
         thenP (runP (fail_sequence c d)) (throw (tx_error d))))))
      (\<lambda>r t. target_executed c s r t \<and> J (world t)) (\<lambda>_ t. J (world t) \<and> (refused s t \<or> target_failed c s t)) t"
    if t: "refused s t \<and> J (world t)" "act_state (act s) = AS_ARMED" "supervised_session (act s)"
      "six_targets (ints (cmd_rh56_register c)) nm False = Inr ts" for t n ts nm
    unfolding wp_with_locals wp_catchP
  proof (rule wp_mono [OF wp_target_body], goal_cases)
    case (6 e x)
    show ?case
      unfolding wp_bindP wp_gets wp_thenP wp_run_part
      by (rule wp_mono [OF wp_fail_sequence])
        (use 6 t(1) in \<open>auto simp: target_failed_def not_executed_def refused_def\<close>)
  qed (use t in \<open>auto simp: refused_cong refused_def target_executed_def\<close>)
  have kept: "refused s u \<and> J (world u)" if "io_frame J [] s t" "same_but_gate t u" for t u
    using that by (auto simp: io_frame_def refused_def dest!: same_but_gate_fields)
  have same: "refused s t \<and> J (world t)" if "io_frame J [] s t" for t
    using that by (auto simp: io_frame_def refused_def)
  have armed: "act_state (act s) = AS_ARMED" if "io_frame J [] s t" "act_state (act t) = AS_ARMED" for t
    using that by (simp add: io_frame_def)
  have supervised: "supervised_session (act s)"
    if "io_frame J [] s t" "same_but_gate t u" "supervised_session (act u)" for t u
    using that by (auto simp: io_frame_def dest!: same_but_gate_fields)
  show ?thesis
    unfolding execute_target_and_ack_def wp_thenP [of "require_owner _"] wp_bindP wp_thenP [of "require_armed _ _"]
    apply (rule wp_mono [OF wp_require_owner])
     apply (elim conjE, simp only:)
     apply (rule wp_mono [OF wp_act_now [OF fr]])
      apply (rule wp_mono [OF wp_require_armed])
    using same [OF fr] by (auto simp: the_act_def simp del: wp_with_locals intro!: body kept dest: kept same armed supervised split: sum.splits)
qed

section \<open>What the safety poll and the watchdog do\<close>

lemma wp_poll_feedback:
  assumes "io_frame J [] s t"
  shows "wp (poll_feedback E (settings_of (act s)) d op) (\<lambda>f u. polled V s f u \<and> J (world u))
    (\<lambda>_ u. io_frame J [] s u \<or> io_frame J [ReadFeedback] s u \<or> (\<exists>f. io_frame J [ReadFeedback, GotFeedback f] s u)) t"
  unfolding poll_feedback_def wp_bindP wp_thenP
  by (rule wp_mono [OF wp_transport_read_feedback [OF assms]])
    (auto simp: polled_def io_frame_def on_act_def split: sum.splits)

lemma poll_failedI:
  assumes "io_frame J evs s t" "writes_of evs = []"
  shows "wp (thenP (on_act (latch_fault r)) (if d then throw e else stop_and_raise E m)) Q
    (\<lambda>_ u. J (world u) \<and> poll_failed V d s u) t"
proof -
  let ?t = "t\<lparr>act := latch_fault r (act t)\<rparr>"
  have now: "poll_failed V True s ?t"
    using assms by (force simp: poll_failed_def io_frame_def)
  have t: "J (world ?t)" "act_state (act ?t) = AS_FAULT_LATCHED" "\<not> stop_confirmed (act ?t)"
    using assms by (simp_all add: io_frame_def)
  have "wp (stop_and_raise E m) Q (\<lambda>_ u. J (world u) \<and> poll_failed V False s u) ?t"
    by (rule wp_mono [OF wp_stop_and_raise [OF t]]) (use assms in \<open>auto simp: poll_failed_def io_frame_def\<close>)
  with now t show ?thesis by (cases d) (auto simp: on_act_def)
qed

lemma pre_poll_failedI:
  assumes "io_frame J evs s t" "writes_of evs = []"
  shows "wp (thenP (on_act (latch_fault r))
      (thenP (if d then ret () else thenP (tryP (run_stop E True)) (ret ())) (throw e))) Q
    (\<lambda>_ u. J (world u) \<and> poll_failed V d s u) t"
proof -
  have "wp (thenP (on_act (latch_fault r)) (if d then throw e else stop_and_raise E [])) (\<lambda>_ _. False)
      (\<lambda>_ u. J (world u) \<and> poll_failed V d s u) t" by (rule poll_failedI [OF assms])
  then show ?thesis by (auto simp: stop_and_raise_def elim!: wp_mono)
qed

lemma wp_ifI: "(c \<Longrightarrow> wp m Q F s) \<Longrightarrow> (\<not> c \<Longrightarrow> wp k Q F s) \<Longrightarrow> wp (if c then m else k) Q F s"
  by simp

lemma wp_poll_body:
  assumes "J (world s)"
  shows "wp (poll_body E n d (act s)) (\<lambda>f t. polled V s f t \<and> J (world t))
    (\<lambda>_ t. J (world t) \<and> poll_failed V d s t) s"
proof -
  have fr: "io_frame J [] s s" using io_frame_refl [of J s, OF assms] .
  have poll: "wp (catchP (poll_feedback E (settings_of (act s)) dl op) h) (\<lambda>f t. polled V s f t \<and> J (world t))
      (\<lambda>_ t. J (world t) \<and> poll_failed V d s t) s"
    if "\<And>e evs t. io_frame J evs s t \<Longrightarrow> writes_of evs = [] \<Longrightarrow>
      wp (h e) (\<lambda>f t. polled V s f t \<and> J (world t)) (\<lambda>_ t. J (world t) \<and> poll_failed V d s t) t" for dl op h
    unfolding wp_catchP by (rule wp_mono [OF wp_poll_feedback [OF fr]]) (auto intro: that)
  show ?thesis
    unfolding poll_body_def Let_def
    apply (rule wp_ifI)
     apply (rule poll, rule pre_poll_failedI, assumption, assumption)
    apply (rule wp_ifI)
     apply (rule poll_failedI [OF fr], simp)
    apply (rule poll, rule poll_failedI, assumption, assumption)
    done
qed

lemma wp_poll_safety:
  assumes "J (world s)"
  shows "wp (poll_safety tid E d) (\<lambda>f t. polled V s f t \<and> act_state (act s) = AS_ARMED \<and> J (world t))
    (\<lambda>_ t. J (world t) \<and> (refused s t \<or> poll_failed V (d = PyBool True) s t)) s"
proof -
  have fr: "io_frame J [] s s" using io_frame_refl [of J s, OF assms] .
  have body: "wp (poll_body E n b (act t)) (\<lambda>f t. polled V s f t \<and> act_state (act s) = AS_ARMED \<and> J (world t))
      (\<lambda>_ t. J (world t) \<and> (refused s t \<or> poll_failed V b s t)) t"
    if "refused s t \<and> J (world t)" "act_state (act s) = AS_ARMED" for n t b
    using that by (intro wp_mono [OF wp_poll_body]) (auto simp: refused_cong)
  have same: "refused s t \<and> J (world t)" if "io_frame J [] s t" for t
    using that by (auto simp: io_frame_def refused_def)
  have kept: "refused s u \<and> J (world u)" if "io_frame J [] s t" "same_but_gate t u" for t u
    using that by (auto simp: io_frame_def refused_def dest!: same_but_gate_fields)
  have armed: "act_state (act s) = AS_ARMED" if "io_frame J [] s t" "act_state (act t) = AS_ARMED" for t
    using that by (simp add: io_frame_def)
  show ?thesis
    unfolding poll_safety_def wp_bindP wp_thenP
    apply (rule wp_mono [OF wp_require_owner])
     apply (elim conjE, simp only:)
    using same [OF fr]
     apply (auto simp: require_bool_def strict_bool_Inr split: sum.splits)
     apply (rule wp_mono [OF wp_act_now [OF fr]])
      apply (rule wp_mono [OF wp_require_armed])
       apply (auto simp: the_act_def intro!: body kept dest: kept same armed)
    done
qed

text \<open>The watchdog: silent before its deadline, a latched and stopped hand from then on.\<close>

lemma wp_watchdog_stop:
  assumes "refused s t" "J (world t)"
  shows "wp (thenP (on_act (latch_fault r)) (bindP (run_stop E True) (\<lambda>rep. ret (Some rep))))
    (\<lambda>rep u. rep \<noteq> None \<and> watchdog_stopped V s u \<and> J (world u))
    (\<lambda>_ u. J (world u) \<and> poll_failed V False s u) t"
proof -
  let ?t = "t\<lparr>act := latch_fault r (act t)\<rparr>"
  have "J (world ?t)" using assms by simp
  then have "wp (run_stop E True) (\<lambda>_ u. watchdog_stopped V s u \<and> J (world u))
      (\<lambda>_ u. J (world u) \<and> poll_failed V False s u) ?t"
  proof (rule wp_mono [OF wp_run_stop], goal_cases)
    case (1 rep u)
    then show ?case using assms
      by (auto simp: watchdog_stopped_def refused_def stop_post_def after_io_def stopped_actuator_def Let_def)
  next
    case (2 e u)
    then show ?case using assms
      by (auto simp: poll_failed_def refused_def stop_fail_def after_io_def stopped_log_def)
        (metis append.left_neutral writes_of.simps(1) stop_writes_history)+
  qed
  then show ?thesis by (auto simp: on_act_def elim!: wp_mono)
qed

lemma wp_watchdog:
  assumes "J (world s)"
  shows "wp (enforce_policy_watchdog tid E v)
    (\<lambda>rep t. J (world t) \<and>
       (\<exists>n h. last_command_monotonic_s (act s) = Some h \<and> (\<forall>x. v = Some x \<longrightarrow> finite_float x ''now_monotonic_s'' = Inr n) \<and>
          (if n < h + inter_command_watchdog_timeout_s (act s) then rep = None \<and> refused s t
           else rep \<noteq> None \<and> watchdog_stopped V s t)))
    (\<lambda>_ t. J (world t) \<and> (refused s t \<or> poll_failed V False s t)) s"
proof -
  have fr: "io_frame J [] s s" using io_frame_refl [of J s, OF assms] .
  have same: "refused s t \<and> J (world t) \<and> act t = act s" if "io_frame J [] s t" for t
    using that by (auto simp: io_frame_def refused_def)
  have clock: "wp (case v of None \<Rightarrow> act_now E | Some x \<Rightarrow> lift_res (finite_float x ''now_monotonic_s''))
      (\<lambda>n t. io_frame J [] s t \<and> (\<forall>x. v = Some x \<longrightarrow> finite_float x ''now_monotonic_s'' = Inr n))
      (\<lambda>_ t. J (world t) \<and> refused s t) s"
    using same [OF fr] fr
    by (cases v) (auto intro!: wp_mono [OF wp_act_now [OF fr]] dest: same split: sum.splits)
  show ?thesis
    unfolding enforce_policy_watchdog_def wp_thenP [of "require_owner _"]
    apply (rule wp_mono [OF wp_require_owner])
     apply (elim conjE, simp only:)
     apply (subst wp_bindP)
     apply (rule wp_mono [OF clock])
    subgoal for u t n t'
      using same [of t']
      apply (simp add: the_act_def Let_def del: wp_if split: option.split)
      apply (intro allI impI wp_ifI)
       apply auto []
      apply (rule wp_mono [OF wp_watchdog_stop [unfolded wp_thenP wp_bindP]])
         apply (auto elim!: wp_mono)
      done
    using same [OF fr] by auto
qed

end

end
