(* ===== verification/Actuator_Sim.thy ===== *)
theory Actuator_Sim
  imports Actuator_Commands Actuator_Stop_Proofs
begin

text \<open>
  A simulated hand for the witnesses of the actuator properties: its clock advances by 1/1024 s
  per reading, it takes the targets it is given and rests at its angles. Times are \<open>tick n\<close>,
  whose sums and differences are exact, so that a run is evaluated by the simplifier.
\<close>

section \<open>Exact times\<close>

definition tick :: "int \<Rightarrow> fl" where
  "tick n = Fin (of_int n / 1024)"

lemma rnd64_tick:
  assumes "\<bar>n\<bar> < 2 ^ 40"
  shows "rnd64 (of_int n / 1024) = Fin (of_int n / 1024)"
proof -
  have "representable 53 (-1074) 1024 (of_int n / 1024)"
    unfolding representable_def using assms
    by (intro exI [of _ n] exI [of _ "-10"]) (simp add: power_int_minus)
  then show ?thesis unfolding rnd64_def by (rule round_to_of_representable)
qed

lemma tick_simps [simp]:
  "is_finite (tick n)" "tick m < tick n \<longleftrightarrow> m < n" "tick m \<le> tick n \<longleftrightarrow> m \<le> n" "tick m = tick n \<longleftrightarrow> m = n"
  "tick n \<noteq> NaN" "tick n < 0 \<longleftrightarrow> n < 0" "tick n \<le> 0 \<longleftrightarrow> n \<le> 0" "0 < tick n \<longleftrightarrow> 0 < n"
  by (simp_all add: tick_def zero_fl_def divide_less_cancel divide_le_cancel zero_less_divide_iff)

lemma tick_plus: "\<bar>m + n\<bar> < 2 ^ 40 \<Longrightarrow> tick m + tick n = tick (m + n)"
  using rnd64_tick [of "m + n"] by (simp add: tick_def plus_fl_def add_divide_distrib)

lemma tick_minus: "\<bar>m - n\<bar> < 2 ^ 40 \<Longrightarrow> tick m - tick n = tick (m - n)"
  using rnd64_tick [of "m - n"] by (simp add: tick_def minus_fl_def diff_divide_distrib)

lemma fl_min_less: "\<not> a < c \<Longrightarrow> \<not> b < c \<Longrightarrow> \<not> fl_min a b < c"
  by (simp add: fl_min_def)

section \<open>The simulated hand\<close>

record hand_sim =
  sim_ticks :: int
  sim_targets :: "int list"
  sim_angles :: "int list"

definition sim_feedback :: "int \<Rightarrow> int list \<Rightarrow> safety_feedback" where
  "sim_feedback n angs =
     \<lparr>captured_monotonic_s = tick n, positions = angs, angles = angs, forces_g = replicate 6 0,
      currents_ma = replicate 6 20, errors = replicate 6 0, statuses = replicate 6 2,
      temperatures_c = replicate 6 30\<rparr>"

definition sim_env :: "hand_sim env" where
  "sim_env =
     \<lparr>transport_of =
        \<lparr>transport_name = ''sim'', hardware_backed = PyBool False, transport_baud_rate = PyInt 115200,
         write_angle_set = (\<lambda>ns d w. Some (Inr (), w\<lparr>sim_targets := ns\<rparr>)),
         read_angle_set = (\<lambda>d w. Some (Inr (ints (sim_targets w)), w)),
         read_safety_feedback = (\<lambda>d w. Some (Inr (Some (sim_feedback (sim_ticks w) (sim_angles w))), w))\<rparr>,
      env_monotonic = (\<lambda>w. (Inr (tick (sim_ticks w)), w\<lparr>sim_ticks := sim_ticks w + 1\<rparr>)),
      env_sleep = (\<lambda>x w. (Inr (), w\<lparr>sim_ticks := sim_ticks w + 1\<rparr>))\<rparr>"

lemma sim_calls [simp]:
  "write_angle_set (transport_of sim_env) ns d w = Some (Inr (), w\<lparr>sim_targets := ns\<rparr>)"
  "read_angle_set (transport_of sim_env) d w = Some (Inr (ints (sim_targets w)), w)"
  "read_safety_feedback (transport_of sim_env) d w = Some (Inr (Some (sim_feedback (sim_ticks w) (sim_angles w))), w)"
  "env_monotonic sim_env w = (Inr (tick (sim_ticks w)), w\<lparr>sim_ticks := sim_ticks w + 1\<rparr>)"
  "env_sleep sim_env x w = (Inr (), w\<lparr>sim_ticks := sim_ticks w + 1\<rparr>)"
  by (simp_all add: sim_env_def)

lemma sim_steady: "steady_clock sim_env"
  unfolding steady_clock_def sim_calls tick_def by blast

definition advance :: "int \<Rightarrow> hand_sim system \<Rightarrow> hand_sim system" where
  "advance k s = s\<lparr>world := (world s)\<lparr>sim_ticks := sim_ticks (world s) + k\<rparr>\<rparr>"

lemma advance_simps [simp]:
  "sim_ticks (world (advance k s)) = sim_ticks (world s) + k" "sim_targets (world (advance k s)) = sim_targets (world s)"
  "sim_angles (world (advance k s)) = sim_angles (world s)" "act (advance k s) = act s"
  "gate_of (advance k s) = gate_of s" "ledger_of (advance k s) = ledger_of s" "io_log (advance k s) = io_log s"
  "advance k (advance j s) = advance (j + k) s"
  by (simp_all add: advance_def)

lemma advance_log: "(advance k s)\<lparr>io_log := l\<rparr> = advance k (s\<lparr>io_log := l\<rparr>)"
  by (simp add: advance_def)

lemmas run_defs = bindP_def thenP_def ret_def throw_def gets_def modify_def raise_if_def tryP_def
  catchP_def lift_res_def with_locals_def on_part_def call_part_def

lemma sim_now: "act_now sim_env s = Some (Inr (tick (sim_ticks (world s))), advance 1 s)"
  by (simp add: act_now_def world_op_def advance_def run_defs)

lemma sim_logged_now: "logged_now sim_env ev s = Some (Inr (tick (sim_ticks (world s))), advance 1 s)"
  by (simp add: logged_now_def sim_now run_defs)

lemma sim_sleep: "world_op (env_sleep sim_env x) s = Some (Inr (), advance 1 s)"
  by (simp add: world_op_def advance_def run_defs)

lemma sim_now_before:
  "\<not> d < tick (sim_ticks (world s)) \<Longrightarrow> now_before sim_env d op s = Some (Inr (), advance 1 s)"
  by (simp add: now_before_def before_deadline_def sim_now run_defs)

lemma later_tick: "\<not> d < tick (n + k) \<Longrightarrow> 0 \<le> k \<Longrightarrow> \<not> d < tick n"
  using fl_less_le_trans [of d "tick n" "tick (n + k)"] by auto

lemma sim_write:
  assumes "\<not> d < tick (sim_ticks (world s) + 1)"
  shows "transport_write sim_env ns d op s =
    Some (Inr (), advance 2 (s\<lparr>io_log := io_log s @ [WriteTargets ns], world := (world s)\<lparr>sim_targets := ns\<rparr>\<rparr>))"
  using assms later_tick [OF assms]
  by (simp add: transport_write_def as_failed_def world_prog_def log_event_def sim_logged_now before_deadline_def
      sim_now_before advance_def run_defs)

lemma sim_read_targets:
  assumes "\<not> d < tick (sim_ticks (world s) + 1)" and "six_within (-1) 1000 (sim_targets (world s))"
  shows "transport_read_targets sim_env d op s = Some (Inr (sim_targets (world s)),
    advance 2 (s\<lparr>io_log := io_log s @ [ReadTargets, GotTargets (sim_targets (world s))]\<rparr>))"
proof -
  have "six_targets (ints (sim_targets (world s))) nm True = Inr (sim_targets (world s))" for nm
    using assms(2) by (simp add: six_targets_def ints_def six_integers_PyInt)
  then show ?thesis
    using assms(1) later_tick [OF assms(1)]
    by (simp add: transport_read_targets_def as_failed_def world_prog_def log_event_def sim_now_before advance_def run_defs)
qed

lemma sim_read_feedback:
  assumes "\<not> d < tick (sim_ticks (world s) + 1)"
    and "0 < maximum_feedback_age_s (settings_of (act s))"
    and "case last_feedback_monotonic_s (act s) of None \<Rightarrow> True | Some p \<Rightarrow> \<not> tick (sim_ticks (world s) + 1) < p"
  defines "f \<equiv> sim_feedback (sim_ticks (world s) + 1) (sim_angles (world s))"
  shows "transport_read_feedback sim_env d op s =
    Some (Inr f, advance 2 (s\<lparr>io_log := io_log s @ [ReadFeedback, GotFeedback f]\<rparr>))"
proof -
  have age: "tick n - tick n = tick 0" for n by (simp add: tick_minus)
  have pos: "\<not> maximum_feedback_age_s (settings_of (act s)) < tick 0"
    using assms(2) fl_less_asym by (simp add: tick_def zero_fl_def)
  show ?thesis
    using assms(1,3) later_tick [OF assms(1)] pos
    by (simp add: transport_read_feedback_def as_failed_def world_prog_def log_event_def sim_now_before
        before_deadline_def the_act_def Let_def run_defs)
      (simp add: advance_def sim_now age sim_feedback_def f_def run_defs split: option.splits)
qed

lemma sim_write_verify:
  assumes "six_within (-1) 1000 ns" and "\<not> d < tick (sim_ticks (world s) + 4)"
    and "\<not> tick (sim_ticks (world s)) + RH56_SUPERVISED_WRITE_RESPONSE_GRACE_S < tick (sim_ticks (world s) + 2)"
  shows "transport_write_once_then_verify sim_env ns d op s =
    Some (Inr ns, advance 5 (s\<lparr>io_log := io_log s @ [WriteTargets ns, ReadTargets, GotTargets ns],
      world := (world s)\<lparr>sim_targets := ns\<rparr>\<rparr>))"
proof -
  let ?n = "sim_ticks (world s)"
  let ?wd = "fl_min d (tick ?n + RH56_SUPERVISED_WRITE_RESPONSE_GRACE_S)"
  let ?s1 = "(advance 1 s)\<lparr>io_log := io_log s @ [WriteTargets ns], world := (world (advance 1 s))\<lparr>sim_targets := ns\<rparr>\<rparr>"
  have d: "\<not> d < tick (?n + 2)" using later_tick [of d "?n + 2" 2] assms(2) by (simp add: add.assoc)
  have "\<not> ?wd < tick (sim_ticks (world (advance 1 s)) + 1)"
    using fl_min_less [OF d assms(3)] by (simp add: add.assoc)
  from sim_write [OF this, of ns "op @ '' write''"]
  have w: "transport_write sim_env ns ?wd (op @ '' write'') (advance 1 s) = Some (Inr (), advance 2 ?s1)"
    by (simp add: advance_def)
  have "\<not> d < tick (sim_ticks (world (advance 2 ?s1)) + 1)" "six_within (-1) 1000 (sim_targets (world (advance 2 ?s1)))"
    using assms(1,2) by (simp_all add: add.assoc)
  from sim_read_targets [OF this, of "op @ '' readback''"] show ?thesis
    by (simp add: transport_write_once_then_verify_def Let_def sim_logged_now w run_defs)
qed

section \<open>An armed session\<close>

definition settings_ex :: settings where
  "settings_ex =
     \<lparr>cfg_transport_name = ''sim'', cfg_hardware_backed = False, cfg_baud_rate = 115200,
      command_watchdog_timeout_s = tick 32, supervised_inter_command_watchdog_timeout_s = tick 256,
      maximum_feedback_age_s = tick 16, maximum_running_axis_current_ma = 1400,
      maximum_temperature_c = 60, stop_timeout_s = tick 256, stop_verify_samples = 2,
      stop_verify_interval_s = tick 8, stop_max_axis_current_ma = 100,
      stop_settle_max_axis_current_ma = 1400, stop_max_angle_drift_units = 2,
      stop_max_position_drift_units = 3, feedback_to_command_offset_units = replicate 6 0,
      stop_hold_command_minimum = replicate 6 0, stop_hold_command_maximum = replicate 6 1000\<rparr>"

definition armed_ex :: actuator where
  "armed_ex =
     \<lparr>settings_of = settings_ex, act_owner = \<lparr>endpoint_name = ''RH56 transport sim'', owner_thread = Some 7\<rparr>,
      act_state = AS_ARMED, act_fault_reason = None,
      stop_confirmed = False, act_run_id = Some ''run'', act_authorization_id = Some ''auth'',
      preflight_sha256 = None, safety_gate_bound = True, act_pending_sequence = None,
      last_acknowledged_sequence = 0, armed_monotonic_s = Some (tick 2048),
      last_command_monotonic_s = Some (tick 2048), last_feedback_monotonic_s = Some (tick 2048),
      supervised_session = False, supervised_awaiting_first_numeric_command = False,
      last_supervised_target = None\<rparr>"

definition system_ex :: "hand_sim system" where
  "system_ex = \<lparr>act = armed_ex, gate_of = gate_armed, ledger_of = ledger_ex_half,
     world = \<lparr>sim_ticks = 2049, sim_targets = replicate 6 (-1), sim_angles = [0, 200, 400, 600, 800, 1000]\<rparr>,
     io_log = []\<rparr>"

lemma grace_ex:
  "\<not> tick 2052 + RH56_SUPERVISED_WRITE_RESPONSE_GRACE_S < tick 2054"
  "\<not> tick 2069 + RH56_SUPERVISED_WRITE_RESPONSE_GRACE_S < tick 2071"
  "\<not> tick 2074 + RH56_SUPERVISED_WRITE_RESPONSE_GRACE_S < tick 2076"
  by code_simp+

lemma release_reserve_ex: "release_reserve settings_ex = tick 128"
  by code_simp

lemma validate_ex:
  "validate_stopped_feedback settings_ex (sim_feedback n angs) phase False (Some 1400) = Inr ()"
  "validate_stopped_feedback settings_ex (sim_feedback n angs) phase True None = Inr ()"
  by (simp_all add: validate_stopped_feedback_def settings_ex_def sim_feedback_def list_max_def Let_def
      numeral_eq_Suc RH56_FAULT_STATUSES_def RH56_IDLE_STATUSES_def bounded_integer_PyInt)

lemma hold_ex:
  "feedback_equivalent_hold_target settings_ex [0, 200, 400, 600, 800, 1000] = Inr [0, 200, 400, 600, 800, 1000]"
  by code_simp

lemma tail_ex:
  "stop_tail_motion_error settings_ex [sim_feedback m angs, sim_feedback n angs] = None"
  "stop_tail_motion_error settings_ex [sim_feedback n angs] =
     Some (''stable idle tail is incomplete: actual='' @ int_str 1 @ '', required='' @ int_str 2)"
  by (simp_all add: stop_tail_motion_error_def settings_ex_def axis_problems_def sim_feedback_def
      list_max_def list_min_def Let_def)

lemma ex_simps [simp]:
  "stop_timeout_s settings_ex = tick 256" "stop_verify_samples settings_ex = 2"
  "stop_settle_max_axis_current_ma settings_ex = 1400" "stop_max_axis_current_ma settings_ex = 100"
  "maximum_feedback_age_s settings_ex = tick 16" "command_watchdog_timeout_s settings_ex = tick 32"
  "supervised_inter_command_watchdog_timeout_s settings_ex = tick 256"
  "settings_of armed_ex = settings_ex" "last_feedback_monotonic_s armed_ex = Some (tick 2048)"
  "act_state armed_ex = AS_ARMED" "last_command_monotonic_s armed_ex = Some (tick 2048)"
  "act_pending_sequence armed_ex = None" "last_acknowledged_sequence armed_ex = 0" "act_run_id armed_ex = Some ''run''"
  "safety_gate_bound armed_ex" "act_fault_reason armed_ex = None"
  "supervised_awaiting_first_numeric_command armed_ex = False"
  "act_owner armed_ex = \<lparr>endpoint_name = ''RH56 transport sim'', owner_thread = Some 7\<rparr>"
  "act system_ex = armed_ex" "gate_of system_ex = gate_armed" "ledger_of system_ex = ledger_ex_half"
  "world system_ex = \<lparr>sim_ticks = 2049, sim_targets = replicate 6 (-1), sim_angles = [0, 200, 400, 600, 800, 1000]\<rparr>"
  "io_log system_ex = []"
  "angles (sim_feedback n a) = a" "captured_monotonic_s (sim_feedback n a) = tick n"
  "list_ex P (statuses (sim_feedback n a)) = P 2" "list_ex P (currents_ma (sim_feedback n a)) = P 20"
  "six_within (-1) 1000 [0, 200, 400, 600, 800, 1000]" "six_within (-1) 1000 RH56_DISABLED_TARGETS"
  "2 \<in> set RH56_IDLE_STATUSES"
  by (simp_all add: settings_ex_def armed_ex_def system_ex_def sim_feedback_def six_within_def
      RH56_DISABLED_TARGETS_def RH56_AXIS_COUNT_def RH56_IDLE_STATUSES_def numeral_eq_Suc)

lemmas sim_run = sim_now sim_logged_now sim_sleep sim_write_verify sim_read_targets sim_read_feedback validate_ex hold_ex
  tail_ex grace_ex release_reserve_ex tick_plus tick_minus fl_min_def

lemmas stop_run = hold_phase_def settle_step_def settle_idle_tail_def pause_until_def push_bounded_def
  start_stopping_def sysP_def disable_pass_def final_phase_def final_step_def final_sample_def
  finish_stop_def stop_body_def run_stop_def note_failure_def on_act_def

lemma run_stop_ex: "\<exists>rep t. run_stop sim_env preserve system_ex = Some (Inr rep, t)"
  by (simp add: stop_run sim_run run_defs loopP.simps Let_def del: fixed_str.simps)

lemma owner_ex: "require_owner 7 system_ex = Some (Inr (), system_ex)"
  by (simp add: require_owner_def require_current_thread_def run_defs system_ex_def armed_ex_def)

lemma disable_ex: "\<exists>rep t. disable_and_verify 7 sim_env system_ex = Some (Inr rep, t)"
  using run_stop_ex [of False] by (simp add: disable_and_verify_def owner_ex the_act_def run_defs)

lemma Fin_tick: "Fin 2 = tick 2048" "Fin 9 = tick 9216" "Fin (1 / 2) = tick 512"
  by (simp_all add: tick_def)

lemma finite_scalar_tick [simp]: "finite_scalar (PyFloat (tick n)) nm = Inr (tick n)"
  by (simp add: finite_scalar_def float_or_def)

lemma validate_running_ex [simp]: "validate_running_feedback settings_ex (sim_feedback n angs) = Inr ()"
  by (simp add: validate_running_feedback_def settings_ex_def sim_feedback_def list_max_def
      RH56_FAULT_STATUSES_def numeral_eq_Suc)

lemma six_targets_ex [simp]:
  "six_targets (ints [0, 200, 400, 600, 800, 1000]) nm False = Inr [0, 200, 400, 600, 800, 1000]"
  unfolding six_targets_def ints_def by (subst six_integers_PyInt) (simp_all add: six_within_def)

lemma gate_armed_ex [simp]:
  "gate_state gate_armed = ARMED" "gate_authorization gate_armed = Some auth_ex"
  "last_motion_check_by_thread gate_armed = [7 \<mapsto> tick 2048]" "last_motion_check gate_armed = Some (tick 2048)"
  "deadman_asserted gate_armed = Some True" "estop_healthy gate_armed = Some True"
  "auth_run_id auth_ex = ''run''" "expires_monotonic_s auth_ex = tick 9216" "py_strip ''run'' = ''run''"
  by (simp_all add: gate_armed_def gate_ready_def auth_ex_def Fin_tick py_strip_def is_space_def)

lemma ledger_ex_pending [simp]:
  "ledger_pending_sequence ledger_ex_half = Some 1" "ledger_pending ledger_ex_half = Some (cmd_ex 1 2)"
  "ledger_fault_reason ledger_ex_half = None"
  by (simp_all add: ledger_ex_defs ledger_pending_sequence_def)

lemma ledger_ack_ex:
  assumes "2048 \<le> n" "n \<le> 2560"
  shows "ledger_acknowledge ''rh56'' (PyInt 1) (PyFloat (tick n)) ledger_ex_half = (Inr True, ledger_ex_done)"
  using cmd_ex_valid assms
  by (subst ledger_acknowledge_Inr)
    (auto simp: ledger_ex_defs tick_minus Fin_tick acked_state_def COMMAND_CONSUMERS_def)

lemmas command_run = begin_sequence_def acknowledge_sequence_def execute_body_def execute_receipt_def execute_def
  command_deadline_def require_armed_def gate_op_def ledger_op_def before_deadline_def on_act_def the_act_def
  require_motion_def

lemma execute_ex: "\<exists>r t. execute 7 sim_env (cmd_ex 1 2) system_ex = Some (Inr r, t)"
  apply (simp add: command_run owner_ex sim_run sim_write Fin_tick ledger_ack_ex run_defs Let_def fl_max_def
      del: fixed_str.simps)
  done

end
