(* ===== verification/Linux_Actuator.thy ===== *)
theory Linux_Actuator
  imports Linux_Transport Actuator_Command_Proofs Actuator_Sim
begin

text \<open>
  The actuator on the Linux transport. The environment of the actuator is a link: its transport
  is \<open>linux_transport\<close>, its clock the kernel's. The contract that the transport promises
  (\<open>rh56_transport_contract\<close>) gives the interface the actuator needs (\<open>kept_world\<close>), so every
  summary of the actuator's operations holds with valid feedback and an idle link session.
\<close>

definition on_kernel :: "('w, 'a) op \<Rightarrow> ('w link, 'a) op" where
  "on_kernel f s =
     (let (r, w) = f (kernel (link_serial s)) in (r, s\<lparr>link_serial := (link_serial s)\<lparr>kernel := w\<rparr>\<rparr>))"

definition linux_env :: "'w host \<Rightarrow> (fl \<Rightarrow> ('w, unit) op) \<Rightarrow> string \<Rightarrow> int \<Rightarrow> 'w link env" where
  "linux_env h sleep name baud =
     \<lparr>transport_of = linux_transport h name baud, env_monotonic = on_kernel (os_now (host_os h)),
      env_sleep = (\<lambda>x. on_kernel (sleep x))\<rparr>"

lemma on_kernel_session:
  "on_kernel f s = (r, t) \<Longrightarrow> link_session s \<Longrightarrow> link_session t"
  by (auto simp: on_kernel_def link_session_def split: prod.splits)

interpretation linux_world: kept_world "linux_env h sleep name baud" link_session valid_feedback
  for h :: "'w host" and sleep name baud
proof
  fix w :: "'w link" and ns d
  assume w: "link_session w"
  show "wp (write_angle_set (transport_of (linux_env h sleep name baud)) ns d) (\<lambda>_. link_session) (\<lambda>_. link_session) w"
    using linux.write_law [OF w] by (simp add: linux_env_def)
  show "wp (read_angle_set (transport_of (linux_env h sleep name baud)) d) (\<lambda>_. link_session) (\<lambda>_. link_session) w"
    unfolding linux_env_def by (simp, rule wp_mono [OF linux.readback_law [OF w]]) auto
  show "wp (read_safety_feedback (transport_of (linux_env h sleep name baud)) d)
      (\<lambda>v w. link_session w \<and> (\<forall>f. v = Some f \<longrightarrow> valid_feedback f)) (\<lambda>_. link_session) w"
    unfolding linux_env_def by (simp, rule wp_mono [OF linux.feedback_law [OF w]]) auto
qed (auto simp: linux_env_def dest: on_kernel_session)

text \<open>On the Linux transport no operation of the actuator, whether it succeeds, fails or stops
  the hand, leaves a serial exchange bound or a negative debt of late acknowledgements.\<close>

theorem actuator_keeps_link_session:
  assumes "link_session (world s)"
  shows "wp (execute tid (linux_env h sleep name baud) c) (\<lambda>_ t. link_session (world t)) (\<lambda>_ t. link_session (world t)) s \<and>
    wp (execute_target_and_ack tid (linux_env h sleep name baud) c) (\<lambda>_ t. link_session (world t)) (\<lambda>_ t. link_session (world t)) s \<and>
    wp (poll_safety tid (linux_env h sleep name baud) d) (\<lambda>_ t. link_session (world t)) (\<lambda>_ t. link_session (world t)) s \<and>
    wp (enforce_policy_watchdog tid (linux_env h sleep name baud) v) (\<lambda>_ t. link_session (world t)) (\<lambda>_ t. link_session (world t)) s \<and>
    wp (run_stop (linux_env h sleep name baud) preserve) (\<lambda>_ t. link_session (world t)) (\<lambda>_ t. link_session (world t)) s"
  by (intro conjI wp_mono [OF linux_world.wp_execute [OF assms(1)]] wp_mono [OF linux_world.wp_execute_target [OF assms(1)]]
      wp_mono [OF linux_world.wp_poll_safety [OF assms(1)]] wp_mono [OF linux_world.wp_watchdog [OF assms(1)]]
      wp_mono [OF linux_world.wp_run_stop [OF assms(1)]])
    (auto simp: stop_post_def stop_fail_def after_io_def)

definition linux_system_ex :: "script link system" where
  "linux_system_ex =
     \<lparr>act = armed_ex, gate_of = gate_armed, ledger_of = ledger_ex_half, world = link_ex 1 feedback_chunks, io_log = []\<rparr>"

lemma linux_system_session: "link_session (world linux_system_ex)"
  using link_ex_idle [of 1 feedback_chunks] by (simp add: linux_system_ex_def link_session_def)

theorem actuator_keeps_link_session_witness:
  "wp (execute 7 (linux_env host_ex (\<lambda>x w. (Inr (), w)) ''linux'' 115200) (cmd_ex 1 2))
     (\<lambda>_ t. link_session (world t)) (\<lambda>_ t. link_session (world t)) linux_system_ex"
  using actuator_keeps_link_session [OF linux_system_session] by blast

text \<open>On the Linux transport a confirmed stop rests on decoded feedback: each sample of the final
  tail has six values per register block within their encoded ranges, all of them at rest.\<close>

lemma linux_stop_rests_on_valid_samples:
  assumes "disable_and_verify tid (linux_env h sleep name baud) s = Some (Inr rep, t)" and "link_session (world s)"
  shows "link_session (world t) \<and>
    (\<exists>evs fs. io_log t = io_log s @ evs \<and> stop_evidence valid_feedback (settings_of (act s)) evs fs)"
proof -
  have "run_stop (linux_env h sleep name baud) (act_state (act s) = AS_FAULT_LATCHED) s = Some (Inr rep, t)"
    using assms(1) by (auto simp: disable_and_verify_def require_owner_def require_current_thread_def run_defs the_act_def
        proto_def split: if_splits option.splits)
  from wp_Inr [OF this linux_world.wp_run_stop [OF assms(2)]] show ?thesis
    by (auto simp: stop_post_def after_io_def)
qed

end
