(* ===== verification/Actuator_Properties.thy ===== *)
theory Actuator_Properties
  imports Actuator_Sim Actuator_Command_Proofs
begin

text \<open>
  The properties of the transactional actuator, for every environment: what a stop, a command,
  a supervised target, a poll and the watchdog leave behind, on success and on failure. Each
  rests on the summary of its operation in \<open>Actuator_Stop_Proofs\<close> or \<open>Actuator_Command_Proofs\<close>,
  at the trivial invariant of \<open>any_world\<close>; the witnesses run the simulated hand.
\<close>

section \<open>The stop\<close>

lemma require_owner_state: "require_owner tid s = Some (Inr (), s) \<or> (\<exists>e. require_owner tid s = Some (Inl e, s))"
  by (auto simp: require_owner_def require_current_thread_def call_part_def proto_def split: option.splits)


lemma stop_post_disable:
  assumes "run_stop E preserve s = Some (Inr rep, t)"
  shows "stop_post (\<lambda>_. True) (\<lambda>_. True) preserve s rep t"
  using wp_Inr [OF assms any_world.wp_run_stop] by simp

lemma hold_inside:
  assumes "feedback_equivalent_hold_target cfg angs = Inr hold" and "i < length hold"
  shows "stop_hold_command_minimum cfg ! i \<le> hold ! i" "hold ! i \<le> stop_hold_command_maximum cfg ! i"
proof -
  obtain actual where "hold_axes 0 (zip actual (zip (feedback_to_command_offset_units cfg)
      (zip (stop_hold_command_minimum cfg) (stop_hold_command_maximum cfg)))) = Inr hold"
    using assms(1) by (auto simp: feedback_equivalent_hold_target_def res_bind_Inr_iff)
  from hold_axes_Inr [OF this] show "stop_hold_command_minimum cfg ! i \<le> hold ! i"
    "hold ! i \<le> stop_hold_command_maximum cfg ! i"
    using assms(2) by (simp_all add: list_all2_conv_all_nth) (metis min_less_iff_conj)+
qed

text \<open>The hold a stop writes: of the pose of a sample in its history, inside the calibrated interval.\<close>

definition measured_hold :: "settings \<Rightarrow> io_event list \<Rightarrow> int list \<Rightarrow> bool" where
  "measured_hold cfg evs hold =
     (\<exists>seed. GotFeedback seed \<in> set evs \<and> feedback_equivalent_hold_target cfg (angles seed) = Inr hold \<and>
        (\<forall>i < length hold. stop_hold_command_minimum cfg ! i \<le> hold ! i \<and> hold ! i \<le> stop_hold_command_maximum cfg ! i))"

lemma release_try_writes: "release_try b \<Longrightarrow> writes_of b = [] \<or> writes_of b = [RH56_DISABLED_TARGETS]"
  by (auto simp: release_try_def dest: offered_writes)

lemma release_tries_writes: "release_tries b \<Longrightarrow> \<exists>n \<le> 2. writes_of b = replicate n RH56_DISABLED_TARGETS"
proof -
  assume "release_tries b"
  then obtain p q where b: "b = p @ q" and pq: "release_try p" "release_try q"
    by (auto simp: release_tries_def)
  have one: "\<exists>n \<le> 1. writes_of p = replicate n RH56_DISABLED_TARGETS" if "release_try p" for p
    using release_try_writes [OF that] by (cases "writes_of p") (auto intro: exI [of _ 0] exI [of _ 1])
  obtain m n where "m \<le> 1" "n \<le> 1" "writes_of p = replicate m RH56_DISABLED_TARGETS"
    "writes_of q = replicate n RH56_DISABLED_TARGETS"
    using one [OF pq(1)] one [OF pq(2)] by blast
  then show ?thesis
    using b by (intro exI [of _ "m + n"]) (simp add: replicate_add)
qed

lemma stop_history_writes:
  assumes "stop_history cfg evs"
  shows "\<exists>holds n. writes_of evs = holds @ replicate n RH56_DISABLED_TARGETS \<and> n \<le> 2 \<and>
    (holds = [] \<or> (\<exists>hold. holds = [hold] \<and> measured_hold cfg evs hold))"
proof (cases "evs = [StopClockLost]")
  case False
  then obtain a b where evs: "evs = a @ b" "hold_writes cfg a" "release_tries b"
    using assms by (auto simp: stop_history_def stop_writes_def)
  obtain n where n: "n \<le> 2" "writes_of b = replicate n RH56_DISABLED_TARGETS"
    using release_tries_writes [OF evs(3)] by blast
  have "writes_of a = [] \<or> (\<exists>hold. writes_of a = [hold] \<and> measured_hold cfg evs hold)"
    using evs(1,2) by (auto simp: hold_writes_def measured_hold_def dest: hold_inside)
  then show ?thesis
    using n evs(1) by (intro exI [of _ "writes_of a"] exI [of _ n]) auto
qed simp

lemma run_stop_history:
  assumes "run_stop E preserve s = Some (r, t)"
  shows "\<exists>evs. io_log t = io_log s @ evs \<and> stop_history (settings_of (act s)) evs"
  using assms wp_Inr [OF _ any_world.wp_run_stop, of E preserve s _ t]
    wp_Inl [OF _ any_world.wp_run_stop, of E preserve s _ t]
  by (cases r) (auto simp: stop_post_def stop_fail_def after_io_def dest: stop_writes_history)



text \<open>C7. A stop that cannot be confirmed is never silent: while the clock works, every failure of
  \<open>disable_and_verify\<close> after its entry checks is the exception \<open>RH56StopUnconfirmed\<close>, and it
  leaves the fault latched and the stop unconfirmed.\<close>

theorem unconfirmed_stop_latches:
  assumes "disable_and_verify tid E s = Some (Inl e, t)" and "steady_clock E"
    and "owner_thread (act_owner (act s)) = Some tid" and "act_state (act s) \<noteq> AS_DISARMED"
  shows "exn_class e = RH56StopUnconfirmed \<and> act_state (act t) = AS_FAULT_LATCHED \<and>
    \<not> stop_confirmed (act t) \<and> act_fault_reason (act t) \<noteq> None"
proof -
  have "run_stop E (act_state (act s) = AS_FAULT_LATCHED) s = Some (Inl e, t)"
    using assms by (auto simp: disable_and_verify_def require_owner_def require_current_thread_def
        run_defs the_act_def)
  from wp_Inl [OF this any_world.wp_run_stop] show ?thesis
    using assms(2) by (auto simp: stop_fail_def after_io_def latch_fault_def Let_def split: option.splits)
qed

text \<open>A stop with no time left: nothing is written, and it fails.\<close>

definition rushed_ex :: "hand_sim system" where
  "rushed_ex = system_ex\<lparr>act := armed_ex\<lparr>settings_of := settings_ex\<lparr>stop_timeout_s := tick (-1)\<rparr>\<rparr>\<rparr>"

definition late_error :: "fl \<Rightarrow> fl \<Rightarrow> string \<Rightarrow> exn" where
  "late_error d now op = Exn RH56DeadlineExceeded (''RH56 '' @ op @ '' missed deadline by '' @ fixed_str 6 (now - d) @ ''s'')"

lemma sim_late:
  assumes "d < tick (sim_ticks (world s))"
  shows "now_before sim_env d op s = Some (Inl (late_error d (tick (sim_ticks (world s))) op), advance 1 s)"
  using assms by (simp add: now_before_def before_deadline_def sim_now run_defs late_error_def del: fixed_str.simps)

lemma sim_late_calls:
  assumes "d < tick (sim_ticks (world s))"
  shows "transport_read_feedback sim_env d op s = Some (Inl (late_error d (tick (sim_ticks (world s))) op), advance 1 s)"
    "transport_read_targets sim_env d op s = Some (Inl (late_error d (tick (sim_ticks (world s))) op), advance 1 s)"
    "transport_write sim_env ns d op s = Some (Inl (late_error d (tick (sim_ticks (world s))) op),
       (advance 1 s)\<lparr>io_log := io_log s @ [LateWrite ns (tick (sim_ticks (world s))) d]\<rparr>)"
  using assms
  by (simp_all add: transport_read_feedback_def transport_read_targets_def transport_write_def run_defs
      sim_late [OF assms] sim_logged_now before_deadline_def late_error_def log_event_def advance_def del: fixed_str.simps)

lemma sim_late_verify:
  assumes "d < tick (sim_ticks (world s))"
  shows "\<exists>e evs. transport_write_once_then_verify sim_env ns d op s = Some (Inl e, (advance 3 s)\<lparr>io_log := evs\<rparr>)"
proof -
  have "fl_min d x < tick (sim_ticks (world s) + 1)" "d < tick (sim_ticks (world s) + 1)" "d < tick (sim_ticks (world s) + 2)" for x
    using assms fl_less_le_trans [of d "tick (sim_ticks (world s))"] fl_less_le_trans [of x d]
    by (auto simp: fl_min_def fl_less_imp_le intro: fl_less_le_trans)
  then show ?thesis
    by (auto simp: transport_write_once_then_verify_def Let_def sim_logged_now sim_late_calls run_defs advance_log)
qed

lemma rushed_stop_ex: "\<exists>e t. disable_and_verify 7 sim_env rushed_ex = Some (Inl e, t)"
proof -
  let ?cfg = "settings_ex\<lparr>stop_timeout_s := tick (-1)\<rparr>"
  have late: "tick 2048 - release_reserve ?cfg < tick 2050"
    by code_simp
  have owner: "require_owner 7 rushed_ex = Some (Inr (), rushed_ex)"
    by (simp add: require_owner_def require_current_thread_def run_defs rushed_ex_def)
  have fields: "act_state (act rushed_ex) = AS_ARMED" "settings_of (act rushed_ex) = ?cfg"
    "sim_ticks (world rushed_ex) = 2049"
    by (simp_all add: rushed_ex_def)
  obtain e1 l1 where p1: "transport_write_once_then_verify sim_env RH56_DISABLED_TARGETS (tick 2048)
      (''disable pass '' @ int_str 1) (advance 2 rushed_ex) = Some (Inl e1, (advance 5 rushed_ex)\<lparr>io_log := l1\<rparr>)"
    using sim_late_verify [of "tick 2048" "advance 2 rushed_ex" RH56_DISABLED_TARGETS "''disable pass '' @ int_str 1"]
    by (auto simp: fields)
  obtain e2 l2 where p2: "transport_write_once_then_verify sim_env RH56_DISABLED_TARGETS (tick 2048)
      (''disable pass '' @ int_str 2) ((advance 5 rushed_ex)\<lparr>io_log := l1\<rparr>) =
      Some (Inl e2, (advance 3 ((advance 5 rushed_ex)\<lparr>io_log := l1\<rparr>))\<lparr>io_log := l2\<rparr>)"
    using sim_late_verify [of "tick 2048" "(advance 5 rushed_ex)\<lparr>io_log := l1\<rparr>" RH56_DISABLED_TARGETS
        "''disable pass '' @ int_str 2"] by (auto simp: fields)
  show ?thesis
    by (simp add: disable_and_verify_def owner the_act_def run_defs run_stop_def sim_logged_now tick_plus fields
        del: fixed_str.simps)
      (simp add: stop_run start_stopping_def fields sim_late_calls late run_defs p1 [simplified] p2 [simplified] Let_def)
qed

theorem unconfirmed_stop_latches_witness:
  "\<exists>e t. disable_and_verify 7 sim_env rushed_ex = Some (Inl e, t) \<and> exn_class e = RH56StopUnconfirmed \<and>
     act_state (act t) = AS_FAULT_LATCHED"
proof -
  obtain e t where run: "disable_and_verify 7 sim_env rushed_ex = Some (Inl e, t)"
    using rushed_stop_ex by blast
  with unconfirmed_stop_latches [OF run sim_steady] show ?thesis by (simp add: rushed_ex_def)
qed

text \<open>C8. Whatever a stop does, confirmed or not, the targets it writes are, in this order: at most
  one hold, and then at most two releases. The hold is the command equivalent of the pose in a
  feedback sample that the stop itself read, and it is inside the calibrated command interval on
  every axis.\<close>

theorem stop_writes_only_safe_targets:
  assumes "disable_and_verify tid E s = Some (r, t)"
  shows "\<exists>evs holds n. io_log t = io_log s @ evs \<and>
    writes_of evs = holds @ replicate n RH56_DISABLED_TARGETS \<and> n \<le> 2 \<and>
    (holds = [] \<or> (\<exists>hold. holds = [hold] \<and> measured_hold (settings_of (act s)) evs hold))"
proof -
  consider "t = s" | b where "run_stop E b s = Some (r, t)"
    using assms require_owner_state [of tid s]
    by (auto simp: disable_and_verify_def run_defs the_act_def split: if_splits)
  then show ?thesis
  proof cases
    case 2
    from run_stop_history [OF this] show ?thesis using stop_history_writes by blast
  qed simp
qed

theorem stop_writes_only_safe_targets_witness:
  "\<exists>r t holds n. disable_and_verify 7 sim_env system_ex = Some (Inr r, t) \<and>
     writes_of (io_log t) = holds @ replicate n RH56_DISABLED_TARGETS \<and> n \<le> 2 \<and> length holds \<le> 1"
proof -
  obtain r t where run: "disable_and_verify 7 sim_env system_ex = Some (Inr r, t)"
    using disable_ex by blast
  obtain holds :: "int list list" and n where w: "writes_of (io_log t) = holds @ replicate n RH56_DISABLED_TARGETS" "n \<le> 2"
    "holds = [] \<or> (\<exists>hold. holds = [hold])"
    using stop_writes_only_safe_targets [OF run] by auto
  then have "length holds \<le> 1" by auto
  with w run show ?thesis by blast
qed

text \<open>C19. The configuration accepts a settling current limit up to 32767 mA, but every check of a
  settling sample refuses a limit above 5000 mA, so an actuator configured above it can never
  confirm a stop.\<close>

theorem large_settle_limit_never_confirms:
  assumes "5000 < stop_settle_max_axis_current_ma (settings_of (act s))"
    and "stop_settle_max_axis_current_ma (settings_of (act s)) \<le> 32767"
  shows "run_stop E preserve s \<noteq> Some (Inr rep, t)"
proof
  let ?limit = "stop_settle_max_axis_current_ma (settings_of (act s))"
  have refused: "bounded_integer (PyInt ?limit) nm 1 5000 \<noteq> Inr x" for nm x
    using assms rnd64_of_int [of ?limit] by (auto simp: bounded_integer_def float_or_def simp del: fl_trunc.simps)
  assume "run_stop E preserve s = Some (Inr rep, t)"
  from stop_post_disable [OF this] obtain seed where
    "validate_stopped_feedback (settings_of (act s)) seed ''stop hold seed'' False
       (Some (stop_settle_max_axis_current_ma (settings_of (act s)))) = Inr ()"
    by (auto simp: stop_post_def stop_evidence_def hold_evidence_def)
  then show False
    by (auto simp: validate_stopped_feedback_def refused Let_def res_bind_Inr_iff split: if_splits)
qed

definition large_limit_ex :: "hand_sim system" where
  "large_limit_ex = system_ex\<lparr>act := armed_ex\<lparr>settings_of := settings_ex\<lparr>stop_settle_max_axis_current_ma := 6000\<rparr>\<rparr>\<rparr>"

theorem large_settle_limit_never_confirms_witness:
  "stop_settle_max_axis_current_ma (settings_of (act large_limit_ex)) = 6000 \<and>
   (\<forall>rep t. run_stop sim_env False large_limit_ex \<noteq> Some (Inr rep, t))"
  using large_settle_limit_never_confirms [of large_limit_ex sim_env False]
  by (simp add: large_limit_ex_def)

section \<open>Commands\<close>

text \<open>C20. A formal command either completes its whole transaction, in order: one write of exactly its
  targets, an exact readback, one validated safety sample, one acknowledgement in the ledger
  before its deadline; or it was refused with no traffic and no change of the actuator and the
  ledger; or it failed: then the ledger and the actuator hold a fault, the command wrote its
  targets at most once, and a stop was run. The history after the command's own part shows that
  stop: its two release passes, each with the write of the release or the reason why it could not
  be sent (only a stop whose first clock reading failed has done nothing, and the history says
  so). It is recorded as confirmed only on evidence.\<close>

theorem execute_is_transactional:
  assumes "execute tid E c s = Some (r, t)"
  shows "case r of Inr receipt \<Rightarrow> executed (\<lambda>_. True) c s receipt t
    | Inl e \<Rightarrow> refused s t \<or> stopped_after (\<lambda>_. True) c s t"
  using assms wp_Inr [OF _ any_world.wp_execute, of tid E c s _ t] wp_Inl [OF _ any_world.wp_execute, of tid E c s _ t]
  by (cases r) auto

theorem execute_is_transactional_witness:
  "\<exists>r t. execute 7 sim_env (cmd_ex 1 2) system_ex = Some (Inr r, t) \<and> executed (\<lambda>_. True) (cmd_ex 1 2) system_ex r t"
proof -
  obtain r t where run: "execute 7 sim_env (cmd_ex 1 2) system_ex = Some (Inr r, t)"
    using execute_ex by blast
  from execute_is_transactional [OF run] run show ?thesis by auto
qed







section \<open>The safety poll and the watchdog\<close>

text \<open>A safety poll reads one sample and writes nothing; a poll that fails after it was admitted
  latches the fault and, unless the caller asked to defer it, runs a stop that is recorded as
  confirmed only on evidence.\<close>

theorem poll_reads_or_latches:
  assumes "poll_safety tid E d s = Some (r, t)"
  shows "case r of Inr f \<Rightarrow> polled (\<lambda>_. True) s f t
    | Inl e \<Rightarrow> refused s t \<or> poll_failed (\<lambda>_. True) (d = PyBool True) s t"
  using assms wp_Inr [OF _ any_world.wp_poll_safety, of tid E d s _ t] wp_Inl [OF _ any_world.wp_poll_safety, of tid E d s _ t]
  by (cases r) auto

lemma poll_ex: "\<exists>f t. poll_safety 7 sim_env (PyBool False) system_ex = Some (Inr f, t)"
  by (simp add: poll_safety_def poll_body_def poll_feedback_def command_run owner_ex sim_run require_bool_def
      inter_command_watchdog_timeout_s_def armed_ex_def run_defs Let_def del: fixed_str.simps)

theorem poll_reads_or_latches_witness:
  "\<exists>f t. poll_safety 7 sim_env (PyBool False) system_ex = Some (Inr f, t) \<and> polled (\<lambda>_. True) system_ex f t"
proof -
  obtain f t where run: "poll_safety 7 sim_env (PyBool False) system_ex = Some (Inr f, t)"
    using poll_ex by blast
  from poll_reads_or_latches [OF run] run show ?thesis by auto
qed

text \<open>The policy watchdog does nothing at all before the deadline of the last command; from the
  deadline on it latches the fault, and what it reports is a stop with its evidence.\<close>

theorem watchdog_decides:
  assumes "enforce_policy_watchdog tid E (Some v) s = Some (Inr rep, t)"
  shows "\<exists>n h. finite_float v ''now_monotonic_s'' = Inr n \<and> last_command_monotonic_s (act s) = Some h \<and>
    (if n < h + inter_command_watchdog_timeout_s (act s) then rep = None \<and> refused s t
     else rep \<noteq> None \<and> watchdog_stopped (\<lambda>_. True) s t)"
proof -
  from wp_Inr [OF assms any_world.wp_watchdog] obtain n h where
    "last_command_monotonic_s (act s) = Some h" "\<forall>x. Some v = Some x \<longrightarrow> finite_float x ''now_monotonic_s'' = Inr n"
    "if n < h + inter_command_watchdog_timeout_s (act s) then rep = None \<and> refused s t
     else rep \<noteq> None \<and> watchdog_stopped (\<lambda>_. True) s t" by blast
  then show ?thesis by blast
qed

lemma watchdog_ex:
  "enforce_policy_watchdog 7 sim_env (Some (PyFloat (tick 2050))) system_ex = Some (Inr None, system_ex)"
  by (simp add: enforce_policy_watchdog_def owner_ex the_act_def finite_float_def float_or_def tick_plus
      inter_command_watchdog_timeout_s_def armed_ex_def run_defs Let_def del: fixed_str.simps)

theorem watchdog_decides_witness:
  "last_command_monotonic_s (act system_ex) = Some (tick 2048) \<and>
   (\<exists>n. finite_float (PyFloat (tick 2050)) ''now_monotonic_s'' = Inr n \<and> refused system_ex system_ex)"
  using watchdog_decides [OF watchdog_ex] by (auto split: if_splits simp: refused_def)

section \<open>Arming and the entry checks\<close>

lemma unarmed_refuses:
  assumes "act_state (act s) \<noteq> AS_ARMED"
  shows "wp (bindP (act_now E) (\<lambda>n. thenP (require_armed tid n) (m n))) (\<lambda>_ _. False) (\<lambda>_ t. refused s t) s"
proof -
  have fr: "io_frame (\<lambda>_. True) [] s s" by (simp add: io_frame_def)
  show ?thesis
    unfolding wp_bindP wp_thenP
    apply (rule wp_mono [OF any_world.wp_act_now [OF fr]])
     apply (rule wp_mono [OF wp_require_armed])
    using assms by (auto simp: io_frame_def refused_def dest!: same_but_gate_fields)
qed

lemma owner_then_refuses:
  assumes "wp m (\<lambda>_ _. False) (\<lambda>_ t. refused s t) s"
  shows "wp (thenP (require_owner tid) m) (\<lambda>_ _. False) (\<lambda>_ t. refused s t) s"
proof -
  have "refused s s" by (simp add: refused_def)
  with assms show ?thesis unfolding wp_thenP by (intro wp_mono [OF wp_require_owner]) auto
qed

text \<open>Outside an armed session no command reaches the hand: every operation that would exchange
  data raises, and changes neither the actuator nor the ledger nor the history.\<close>

theorem unarmed_refuses_commands:
  assumes "act_state (act s) \<noteq> AS_ARMED"
  shows "wp (execute tid E c) (\<lambda>_ _. False) (\<lambda>_ t. refused s t) s \<and>
    wp (execute_target_and_ack tid E c) (\<lambda>_ _. False) (\<lambda>_ t. refused s t) s \<and>
    wp (refresh_supervised_sample_hold_heartbeat tid E) (\<lambda>_ _. False) (\<lambda>_ t. refused s t) s \<and>
    wp (poll_safety tid E d) (\<lambda>_ _. False) (\<lambda>_ t. refused s t) s"
proof -
  have poll: "wp (bindP (lift_res v) (\<lambda>x. bindP (act_now E) (\<lambda>n. thenP (require_armed tid n) (m x n))))
      (\<lambda>_ _. False) (\<lambda>_ t. refused s t) s" for v :: "exn + bool" and m :: "bool \<Rightarrow> fl \<Rightarrow> ('a system, 'c) prog"
    using unarmed_refuses [OF assms] by (cases v) (auto simp: refused_def simp del: wp_thenP)
  show ?thesis
    unfolding execute_def execute_target_and_ack_def refresh_supervised_sample_hold_heartbeat_def poll_safety_def
    by (intro conjI owner_then_refuses unarmed_refuses [OF assms] poll)
qed

theorem unarmed_refuses_commands_witness:
  "act_state (act (system_ex\<lparr>act := armed_ex\<lparr>act_state := AS_DISARMED\<rparr>\<rparr>)) = AS_DISARMED \<and>
   wp (execute 7 sim_env (cmd_ex 1 2)) (\<lambda>_ _. False)
     (\<lambda>_ t. refused (system_ex\<lparr>act := armed_ex\<lparr>act_state := AS_DISARMED\<rparr>\<rparr>) t)
     (system_ex\<lparr>act := armed_ex\<lparr>act_state := AS_DISARMED\<rparr>\<rparr>)"
  using unarmed_refuses_commands [of "system_ex\<lparr>act := armed_ex\<lparr>act_state := AS_DISARMED\<rparr>\<rparr>" 7 sim_env] by simp

text \<open>What arming needed and what it left.\<close>

definition armed_under :: "preflight \<Rightarrow> motion_authorization \<Rightarrow> string \<Rightarrow> 's system \<Rightarrow> 's system \<Rightarrow> bool" where
  "armed_under p auth run s t =
     (act_state (act s) = AS_DISARMED \<and> preflight_run_id p \<noteq> run \<and> auth_run_id auth = run \<and>
      gate_state (gate_of s) = ARMED \<and> gate_authorization_id (gate_of s) = Some (authorization_id auth) \<and>
      preflight_mismatch p (settings_of (act s)) = None \<and>
      io_log t = io_log s \<and> ledger_of t = ledger_of s \<and>
      (\<exists>now. is_finite now \<and> issued_monotonic_s auth \<le> now \<and> now < expires_monotonic_s auth \<and>
         act t = armed_actuator p auth run now (act s)))"

lemma wp_arm_with_preflight:
  "wp (arm_with_preflight tid E p auth run_id now0) (\<lambda>_ t. armed_under p auth (py_strip run_id) s t) (\<lambda>_ _. True) s"
proof -
  have fr: "io_frame (\<lambda>_. True) [] s s" by (simp add: io_frame_def)
  have clock: "wp (case now0 of None \<Rightarrow> act_now E | Some x \<Rightarrow> lift_res (finite_float x ''now_monotonic_s''))
      (\<lambda>n t. is_finite n \<and> io_frame (\<lambda>_. True) [] s t) (\<lambda>_ _. True) s"
    using fr by (cases now0) (auto intro!: wp_mono [OF any_world.wp_act_now [OF fr]] dest: finite_float_Inr split: sum.splits)
  have gate: "wp (gate_op f) (\<lambda>_ u. same_but_gate t u) (\<lambda>_ _. True) t" for f :: "(safety_gate, unit) op" and t :: "'a system"
    by (auto simp: gate_op_def same_but_gate_def split: prod.splits sum.splits)
  show ?thesis
    unfolding arm_with_preflight_def wp_thenP [of "require_owner _"] Let_def wp_thenP [of "raise_if (py_strip _ = []) _"] wp_raise_if
    apply (rule wp_mono [OF wp_require_owner])
     apply (elim conjE, simp only:)
     apply (intro conjI impI TrueI)
     apply (subst wp_bindP)
     apply (rule wp_mono [OF clock])
      apply (auto simp: the_act_def on_act_def io_frame_def armed_under_def split: option.split
        intro!: wp_mono [OF gate] dest!: same_but_gate_fields)
    done
qed

text \<open>Arming needs everything at once: a disarmed actuator, a commissioning permit of another
  run whose watchdogs are the configured ones, an authorization for this run that is active now,
  and a safety gate that is itself armed under that very authorization. It exchanges nothing
  with the hand. The formal entry accepts no supervised permit.\<close>

theorem arm_needs_matching_authorization:
  assumes "arm tid E p auth run_id now0 s = Some (Inr u, t)"
  shows "\<not> is_supervised p \<and> armed_under p auth (py_strip run_id) s t \<and> \<not> supervised_session (act t) \<and>
    act_state (act t) = AS_ARMED"
proof -
  have p: "\<not> is_supervised p" and run: "arm_with_preflight tid E p auth run_id now0 s = Some (Inr u, t)"
    using assms by (auto simp: arm_def throw_def split: if_splits)
  from wp_Inr [OF run wp_arm_with_preflight] p show ?thesis
    by (auto simp: armed_under_def armed_actuator_def)
qed

definition disarmed_ex :: "hand_sim system" where
  "disarmed_ex = system_ex\<lparr>act := armed_ex\<lparr>act_state := AS_DISARMED,
     settings_of := settings_ex\<lparr>command_watchdog_timeout_s := verified_command_watchdog_timeout_s preflight_ex\<rparr>\<rparr>\<rparr>"

lemma arm_ex:
  "\<exists>t. arm 7 sim_env (C2Preflight preflight_ex) auth_ex ''run'' (Some (PyFloat (tick 2050))) disarmed_ex = Some (Inr (), t)"
proof -
  have owner: "require_owner 7 disarmed_ex = Some (Inr (), disarmed_ex)"
    by (simp add: require_owner_def require_current_thread_def run_defs disarmed_ex_def)
  have one: "Fin 1 = tick 1024" by (simp add: tick_def)
  have fields: "act_state (act disarmed_ex) = AS_DISARMED" "gate_of disarmed_ex = gate_armed"
    "command_watchdog_timeout_s (settings_of (act disarmed_ex)) = verified_command_watchdog_timeout_s preflight_ex"
    by (simp_all add: disarmed_ex_def)
  show ?thesis
    by (simp add: arm_def arm_with_preflight_def owner fields the_act_def gate_op_def run_defs finite_float_def float_or_def
      preflight_mismatch_def isclose_def require_motion_def gate_authorization_id_def auth_ex_def preflight_ex_def
      Fin_tick one Let_def on_act_def)
qed

theorem arm_needs_matching_authorization_witness:
  "\<exists>t. arm 7 sim_env (C2Preflight preflight_ex) auth_ex ''run'' (Some (PyFloat (tick 2050))) disarmed_ex = Some (Inr (), t) \<and>
     act_state (act t) = AS_ARMED"
proof -
  obtain t where run: "arm 7 sim_env (C2Preflight preflight_ex) auth_ex ''run'' (Some (PyFloat (tick 2050))) disarmed_ex
      = Some (Inr (), t)" using arm_ex by blast
  from arm_needs_matching_authorization [OF run] run show ?thesis by blast
qed

end
