(* ===== verification/Actuator_Termination.thy ===== *)
theory Actuator_Termination
  imports Actuator_Sim
begin

text \<open>
  The stop protocol ends. \<open>stop_clock E d left\<close>: the calls of the environment return, and
  \<open>left\<close> bounds how many more clock readings are below the deadline \<open>d\<close>. Both loops of the
  protocol read the clock before anything else, so \<open>left\<close> is their measure.
\<close>

definition stop_clock :: "'s env \<Rightarrow> fl \<Rightarrow> ('s \<Rightarrow> nat) \<Rightarrow> bool" where
  "stop_clock E d left =
     ((\<forall>w r w'. env_monotonic E w = (r, w') \<longrightarrow> left w' \<le> left w \<and>
         (\<forall>v. r = Inr v \<longrightarrow> v < d \<longrightarrow> left w' < left w)) \<and>
      (\<forall>x w r w'. env_sleep E x w = (r, w') \<longrightarrow> left w' \<le> left w) \<and>
      (\<forall>ns t w. returns (write_angle_set (transport_of E) ns t) w \<and>
         wp (write_angle_set (transport_of E) ns t) (\<lambda>_ w'. left w' \<le> left w) (\<lambda>_ w'. left w' \<le> left w) w) \<and>
      (\<forall>t w. returns (read_angle_set (transport_of E) t) w \<and>
         wp (read_angle_set (transport_of E) t) (\<lambda>_ w'. left w' \<le> left w) (\<lambda>_ w'. left w' \<le> left w) w) \<and>
      (\<forall>t w. returns (read_safety_feedback (transport_of E) t) w \<and>
         wp (read_safety_feedback (transport_of E) t) (\<lambda>_ w'. left w' \<le> left w) (\<lambda>_ w'. left w' \<le> left w) w))"

lemma stop_clock_steps:
  assumes "stop_clock E d left"
  shows "env_monotonic E w = (r, w') \<Longrightarrow> left w' \<le> left w"
    and "env_monotonic E w = (Inr v, w') \<Longrightarrow> v < d \<Longrightarrow> left w' < left w"
    and "env_sleep E x w = (q, w') \<Longrightarrow> left w' \<le> left w"
    and "wp (write_angle_set (transport_of E) ns t) (\<lambda>_ w'. left w' \<le> left w) (\<lambda>_ w'. left w' \<le> left w) w"
    and "wp (read_angle_set (transport_of E) t) (\<lambda>_ w'. left w' \<le> left w) (\<lambda>_ w'. left w' \<le> left w) w"
    and "wp (read_safety_feedback (transport_of E) t) (\<lambda>_ w'. left w' \<le> left w) (\<lambda>_ w'. left w' \<le> left w) w"
  using assms by (simp_all add: stop_clock_def)

lemma stop_clock_kept:
  assumes "stop_clock E d left"
  shows "kept_world E (\<lambda>w. left w < n) (\<lambda>_. True)"
  by unfold_locales
    (auto intro!: wp_mono [OF stop_clock_steps(4) [OF assms]] wp_mono [OF stop_clock_steps(5) [OF assms]]
      wp_mono [OF stop_clock_steps(6) [OF assms]]
      dest: stop_clock_steps(1) [OF assms] stop_clock_steps(3) [OF assms])

section \<open>The transport helpers return\<close>

lemma returns_world_op [simp]: "returns (world_op f) s"
  by (simp add: world_op_def)

lemma returns_log_event [simp]: "returns (log_event c) s"
  by (simp add: log_event_def)

lemma returns_act_now [simp]: "returns (act_now E) s"
  by (simp add: act_now_def)

lemma returns_logged_now [simp]: "returns (logged_now E ev) s"
  by (simp add: logged_now_def wp_I)

lemma returns_now_before [simp]: "returns (now_before E d op) s"
  by (simp add: now_before_def before_deadline_def)

lemma returns_transport:
  assumes "stop_clock E d left"
  shows "returns (transport_write E ns dl op) s" "returns (transport_read_targets E dl op) s"
    "returns (transport_read_feedback E dl op) s" "returns (transport_write_once_then_verify E ns dl op) s"
proof -
  have as_failed: "returns (as_failed op (world_prog c m)) s" if "\<And>w. returns m w" for c m op and s :: "'a system"
    using that by (simp add: as_failed_def world_prog_def)
  have calls: "returns (write_angle_set (transport_of E) ns t) w" "returns (read_angle_set (transport_of E) t) w"
    "returns (read_safety_feedback (transport_of E) t) w" for ns t w
    using assms unfolding stop_clock_def by blast+
  note r = as_failed [OF calls(1)] as_failed [OF calls(2)] as_failed [OF calls(3)]
  show w: "returns (transport_write E ns dl op) s" for ns dl op s
    by (simp add: transport_write_def before_deadline_def r wp_I)
  show t: "returns (transport_read_targets E dl op) s" for dl op s
    by (simp add: transport_read_targets_def r wp_I)
  show f: "returns (transport_read_feedback E dl op) s" for dl op s
    by (simp add: transport_read_feedback_def before_deadline_def the_act_def Let_def r wp_I split: option.split)
  show "returns (transport_write_once_then_verify E ns dl op) s"
    by (simp add: transport_write_once_then_verify_def Let_def w t wp_I split: sum.split)
qed

section \<open>The steps of the loops\<close>

context kept_world
begin

lemma keeps_calls:
  assumes "J (world t)"
  shows "wp (act_now E) (\<lambda>_ u. J (world u)) (\<lambda>_ u. J (world u)) t"
    and "wp (world_op (env_sleep E z)) (\<lambda>_ u. J (world u)) (\<lambda>_ u. J (world u)) t"
    and "wp (transport_read_targets E dl op) (\<lambda>_ u. J (world u)) (\<lambda>_ u. J (world u)) t"
    and "wp (transport_read_feedback E dl op) (\<lambda>_ u. J (world u)) (\<lambda>_ u. J (world u)) t"
proof -
  have fr: "io_frame J [] t t" using io_frame_refl [of J t, OF assms] .
  show "wp (act_now E) (\<lambda>_ u. J (world u)) (\<lambda>_ u. J (world u)) t"
    by (rule wp_mono [OF wp_act_now [OF fr]]) (auto simp: io_frame_def)
  show "wp (world_op (env_sleep E z)) (\<lambda>_ u. J (world u)) (\<lambda>_ u. J (world u)) t"
    by (rule wp_mono [OF wp_env_sleep [OF fr]]) (auto simp: io_frame_def)
  show "wp (transport_read_targets E dl op) (\<lambda>_ u. J (world u)) (\<lambda>_ u. J (world u)) t"
    by (rule wp_mono [OF wp_transport_read_targets [OF fr]]) (auto simp: io_frame_def)
  show "wp (transport_read_feedback E dl op) (\<lambda>_ u. J (world u)) (\<lambda>_ u. J (world u)) t"
    by (rule wp_mono [OF wp_transport_read_feedback [OF fr]]) (auto simp: io_frame_def)
qed

lemma keeps_pause:
  assumes "J (world (sys x))"
  shows "wp (pause_until E cfg dl) (\<lambda>_ y. J (world (sys y))) (\<lambda>_ _. True) x"
  using assms by (auto simp: pause_until_def Let_def intro!: wp_mono [OF keeps_calls(1)] wp_mono [OF keeps_calls(2)])

end

lemma clocked_step:
  assumes clock: "stop_clock E dl left"
    and rest: "\<And>n y. left (world (sys y)) < left (world (sys x)) \<Longrightarrow>
      wp (rest n) (\<lambda>_ y. left (world (sys y)) < left (world (sys x))) (\<lambda>_ _. True) y"
  shows "wp (bindP (sysP (act_now E)) (\<lambda>now. if \<not> now < dl then ret (Inr ()) else rest now))
    (\<lambda>r y. case r of Inl c' \<Rightarrow> True \<and> left (world (sys y)) < left (world (sys x)) | Inr _ \<Rightarrow> True) (\<lambda>_ _. True) x"
proof -
  have "wp (act_now E) (\<lambda>n t. n < dl \<longrightarrow> left (world t) < left (world (sys x))) (\<lambda>_ _. True) (sys x)"
    using stop_clock_steps(2) [OF clock]
    by (auto simp: act_now_def world_op_def finite_float_def float_or_def split: sum.splits prod.splits)
  then show ?thesis
    by (auto simp: wp_sysP elim!: wp_mono split: sum.splits intro!: wp_mono [OF rest])
qed

lemma settle_step_ends:
  assumes "stop_clock E dl left"
  shows "wp (settle_step E cfg dl hold u)
    (\<lambda>r y. case r of Inl c' \<Rightarrow> True \<and> left (world (sys y)) < left (world (sys x)) | Inr _ \<Rightarrow> True) (\<lambda>_ _. True) x"
proof -
  note kept = stop_clock_kept [OF assms]
  have tail: "wp (settle_idle_tail cfg f) (\<lambda>_ y. sys y = sys z) (\<lambda>_ _. True) z" for f and z :: "'a stopping"
    by (auto simp: settle_idle_tail_def split: option.splits)
  show ?thesis
    unfolding settle_step_def
    by (rule clocked_step [OF assms])
      (auto simp: Let_def split: sum.split
        intro!: wp_mono [OF kept_world.keeps_calls(3) [OF kept]] wp_mono [OF kept_world.keeps_calls(4) [OF kept]]
          wp_mono [OF tail] kept_world.keeps_pause [OF kept])
qed

lemma final_step_ends:
  assumes "stop_clock E dl left"
  shows "wp (final_step E cfg dl u)
    (\<lambda>r y. case r of Inl c' \<Rightarrow> True \<and> left (world (sys y)) < left (world (sys x)) | Inr _ \<Rightarrow> True) (\<lambda>_ _. True) x"
proof -
  note kept = stop_clock_kept [OF assms]
  have tail: "wp (final_sample cfg f ph) (\<lambda>_ y. sys y = sys z) (\<lambda>_ _. True) z" for f ph and z :: "'a stopping"
    by (auto simp: final_sample_def split: option.splits sum.splits)
  show ?thesis
    unfolding final_step_def
    by (rule clocked_step [OF assms])
      (auto simp: Let_def split: sum.split
        intro!: wp_mono [OF kept_world.keeps_calls(3) [OF kept]] wp_mono [OF kept_world.keeps_calls(4) [OF kept]]
          wp_mono [OF tail] kept_world.keeps_pause [OF kept])
qed

section \<open>The stop returns\<close>

lemma returns_stop_parts [simp]:
  "returns (pause_until E cfg dl) x" "returns (settle_idle_tail cfg f) x" "returns (final_sample cfg f ph) x"
  "returns (note_failure m) x" "returns (finish_stop E cfg b) x"
  by (auto simp: pause_until_def settle_idle_tail_def final_sample_def note_failure_def finish_stop_def sysP_def
      on_act_def Let_def wp_I split: option.splits)

lemma settle_loop_returns:
  assumes "stop_clock E dl left"
  shows "returns (loopP (settle_step E cfg dl hold) ()) x"
proof (rule returns_loopP [where I = "\<lambda>_ _. True" and measure_of = "\<lambda>_ x. left (world (sys x))"])
  fix u :: unit and x :: "'a stopping"
  show "returns (settle_step E cfg dl hold u) x"
    by (simp add: settle_step_def sysP_def returns_transport [OF assms] Let_def wp_I)
qed (use settle_step_ends [OF assms] in simp_all)

lemma final_loop_returns:
  assumes "stop_clock E dl left"
  shows "returns (loopP (final_step E cfg dl) ()) x"
proof (rule returns_loopP [where I = "\<lambda>_ _. True" and measure_of = "\<lambda>_ x. left (world (sys x))"])
  fix u :: unit and x :: "'a stopping"
  show "returns (final_step E cfg dl u) x"
    by (simp add: final_step_def sysP_def returns_transport [OF assms] Let_def wp_I)
qed (use final_step_ends [OF assms] in simp_all)

lemma stop_body_returns:
  assumes "stop_clock E dl left" and "stop_clock E (dl - release_reserve cfg) left'"
  shows "returns (stop_body E cfg dl b) x"
proof -
  have hold: "returns (hold_phase E cfg (dl - release_reserve cfg)) x" for x
    by (simp add: hold_phase_def sysP_def returns_transport [OF assms(2)] settle_loop_returns [OF assms(2)] wp_I)
  have pass: "returns (disable_pass E dl i) x" for i x
    by (simp add: disable_pass_def sysP_def returns_transport [OF assms(1)] wp_I split: sum.split)
  have final: "returns (final_phase E cfg dl) x" for x
    by (simp add: final_phase_def final_loop_returns [OF assms(1)] wp_I split: sum.split)
  show ?thesis
    by (simp add: stop_body_def hold pass final wp_I split: sum.split)
qed

text \<open>C18. A stop always ends: when the calls of the transport return and the clock passes the two
  deadlines of the protocol after finitely many readings, \<open>disable_and_verify\<close> returns a report or
  raises; neither the settling loop nor the final loop can run forever.\<close>

theorem stop_returns:
  assumes "\<And>n w. env_monotonic E (world s) = (Inr n, w) \<Longrightarrow>
    \<exists>left left'. stop_clock E (n + stop_timeout_s (settings_of (act s))) left \<and>
      stop_clock E (n + stop_timeout_s (settings_of (act s)) - release_reserve (settings_of (act s))) left'"
  shows "\<exists>r t. disable_and_verify tid E s = Some (r, t)"
proof -
  have now: "wp (logged_now E StopClockLost) (\<lambda>n t. returns (with_locals start_stopping sys
      (stop_body E (settings_of (act s)) (n + stop_timeout_s (settings_of (act s))) b)) t) (\<lambda>_ _. True) s" for b
    using assms stop_body_returns
    by (auto simp: logged_now_def act_now_def world_op_def log_event_def finite_float_def float_or_def
        split: sum.splits prod.splits) blast
  have "returns (run_stop E b) s" for b
    using now by (simp add: run_stop_def)
  then have "returns (disable_and_verify tid E) s"
    by (auto simp: disable_and_verify_def require_owner_def require_current_thread_def the_act_def proto_def
        split: option.splits)
  then show ?thesis by (auto simp: returns_def)
qed

lemma sim_clock: "stop_clock sim_env (tick k) (\<lambda>w. nat (k - sim_ticks w))"
  by (auto simp: stop_clock_def returns_def intro!: wp_I)

theorem stop_returns_witness: "\<exists>r t. disable_and_verify 7 sim_env system_ex = Some (r, t)"
proof (rule stop_returns)
  fix n w
  assume "env_monotonic sim_env (world system_ex) = (Inr n, w)"
  then have "n = tick 2049" by simp
  then show "\<exists>left left'. stop_clock sim_env (n + stop_timeout_s (settings_of (act system_ex))) left \<and>
      stop_clock sim_env (n + stop_timeout_s (settings_of (act system_ex)) - release_reserve (settings_of (act system_ex))) left'"
    using sim_clock [of 2305] sim_clock [of 2177] by (auto simp: tick_plus tick_minus release_reserve_ex)
qed

end
