(* ===== verification/Shaper.thy ===== *)
theory Shaper
  imports Validation Two_Phase
begin

text \<open>
  \<open>TransactionalRH56HardwareCommandShaper\<close> of \<open>sim2real/contracts/actions.py\<close>: policy-rate
  targets become hardware-rate setpoints with a bounded step per update. A proposal is made,
  then committed, discarded or aborted; only a commit changes the target. Register vectors are
  lists of six integers; \<open>hw_oid\<close> is the identity of a proposal object, which \<open>is\<close> compares.
\<close>

section \<open>The proposal\<close>

record hw_proposal =
  hw_oid :: nat
  hw_sequence :: int
  hw_desired :: "int list"
  hw_bounded :: "int list"
  hw_target :: "int list"
  hw_prior :: "int list"
  hw_update_due :: bool

definition make_hw_proposal ::
    "nat \<Rightarrow> int \<Rightarrow> int list \<Rightarrow> int list \<Rightarrow> int list \<Rightarrow> int list \<Rightarrow> bool \<Rightarrow> exn + hw_proposal" where
  "make_hw_proposal oid sequence desired0 bounded0 target0 prior0 due =
     (if sequence \<le> 0 then Inl (Exn ValueError ''RH56 hardware proposal sequence must be positive'')
      else
     res_bind (readonly_register_vector (vec_of_ints desired0) ''desired_angle_set_register_order'') (\<lambda>desired.
     res_bind (readonly_register_vector (vec_of_ints bounded0) ''bounded_desired_angle_set_register_order'') (\<lambda>bounded.
     res_bind (readonly_register_vector (vec_of_ints target0) ''angle_set_register_order'') (\<lambda>target.
     res_bind (readonly_register_vector (vec_of_ints prior0) ''prior_angle_set_register_order'') (\<lambda>prior.
       Inr \<lparr>hw_oid = oid, hw_sequence = sequence, hw_desired = desired, hw_bounded = bounded,
            hw_target = target, hw_prior = prior, hw_update_due = due\<rparr>)))))"

section \<open>Construction\<close>

record shaper =
  policy_rate_hz :: fl
  hardware_rate_hz :: fl
  ticks_per_update :: int
  max_delta :: "int list"
  lower_targets :: "int list"
  upper_targets :: "int list"
  shaper_target :: "int list"
  shaper_committed :: int
  shaper_pending :: "hw_proposal option"
  shaper_fault :: "string option"

text \<open>The hardware rate must divide the policy rate, up to 1e-12 in the ratio.\<close>

definition rate_divider :: "pyval \<Rightarrow> pyval \<Rightarrow> exn + fl \<times> fl \<times> int" where
  "rate_divider policy0 hardware0 =
     (let err = Exn ValueError ''RH56 policy/hardware rates must be finite'' in
     res_bind (float_or policy0 err) (\<lambda>policy.
     res_bind (float_or hardware0 err) (\<lambda>hardware.
       if \<not> is_finite policy \<or> \<not> is_finite hardware \<or> policy \<le> 0 \<or> hardware \<le> 0 \<or> policy < hardware
       then Inl (Exn ValueError ''RH56 policy/hardware rates must be positive and ordered'')
       else case fl_div policy hardware of
         Fin ratio \<Rightarrow>
           (let divider = round_half_even ratio
            in if divider < 1 \<or> \<not> isclose (Fin ratio) (rnd64 (of_int divider))
               then Inl (Exn ValueError ''RH56 hardware rate must divide the policy rate exactly'')
               else Inr (policy, hardware, divider))
       | _ \<Rightarrow> Inl (Exn OverflowError ''cannot convert float infinity to integer''))))"

definition make_shaper ::
    "ndarray \<Rightarrow> pyval \<Rightarrow> pyval \<Rightarrow> ndarray \<Rightarrow> ndarray \<Rightarrow> ndarray \<Rightarrow> exn + shaper" where
  "make_shaper initial0 policy0 hardware0 maximum0 lower0 upper0 =
     res_bind (rate_divider policy0 hardware0) (\<lambda>(policy, hardware, divider).
     res_bind (readonly_register_vector maximum0 ''maximum_register_delta_per_update'') (\<lambda>maximum.
       if list_ex (\<lambda>d. d \<le> 0) maximum
       then Inl (Exn ValueError ''maximum_register_delta_per_update must be positive'')
       else
     res_bind (readonly_register_vector lower0 ''minimum_angle_set_register_order'') (\<lambda>lower.
     res_bind (readonly_register_vector upper0 ''maximum_angle_set_register_order'') (\<lambda>upper.
       if list_ex (\<lambda>(l, u). u \<le> l) (zip lower upper)
       then Inl (Exn ValueError ''RH56 hardware command intervals are invalid'')
       else
     res_bind (readonly_register_vector initial0 ''initial_angle_set_register_order'') (\<lambda>initial.
       if list_ex (\<lambda>(i, l, u). i < l \<or> u < i) (zip initial (zip lower upper))
       then Inl (Exn ValueError ''initial RH56 hardware target is outside the calibrated interval'')
       else Inr \<lparr>policy_rate_hz = policy, hardware_rate_hz = hardware, ticks_per_update = divider,
                 max_delta = maximum, lower_targets = lower, upper_targets = upper,
                 shaper_target = initial, shaper_committed = 0, shaper_pending = None,
                 shaper_fault = None\<rparr>)))))"

section \<open>Operations\<close>

definition shaper_fault_locked :: "string \<Rightarrow> shaper \<Rightarrow> shaper" where
  "shaper_fault_locked reason s =
     (case shaper_fault s of
        None \<Rightarrow> s\<lparr>shaper_fault := Some (strip_or reason ''unspecified RH56 shaper fault'')\<rparr>
      | Some _ \<Rightarrow> s)"

text \<open>\<open>self._fault_locked(reason); raise RuntimeError(self._fault_reason)\<close>\<close>

definition shaper_fault_raise :: "string \<Rightarrow> (shaper, 'a) op" where
  "shaper_fault_raise reason s =
     (let s' = shaper_fault_locked reason s
      in (Inl (Exn RuntimeError (case shaper_fault s' of None \<Rightarrow> ''None'' | Some r \<Rightarrow> r)), s'))"

definition shaper_unhealthy :: "string \<Rightarrow> exn" where
  "shaper_unhealthy r = Exn RuntimeError (''RH56 hardware command shaper fault is latched: '' @ r)"

definition clip_int :: "int \<Rightarrow> int \<Rightarrow> int \<Rightarrow> int" where
  "clip_int x lo hi = min hi (max lo x)"

definition bounded_target :: "shaper \<Rightarrow> int list \<Rightarrow> int list" where
  "bounded_target s desired =
     map (\<lambda>(d, l, u). clip_int d l u) (zip desired (zip (lower_targets s) (upper_targets s)))"

definition slewed_target :: "shaper \<Rightarrow> int list \<Rightarrow> int list" where
  "slewed_target s bounded =
     map (\<lambda>(b, p, d). p + clip_int (b - p) (- d) d) (zip bounded (zip (shaper_target s) (max_delta s)))"

definition update_due :: "shaper \<Rightarrow> int \<Rightarrow> bool" where
  "update_due s sequence = ((sequence - 1) mod ticks_per_update s = 0)"

definition shaper_propose :: "nat \<Rightarrow> int \<Rightarrow> ndarray \<Rightarrow> (shaper, hw_proposal) op" where
  "shaper_propose oid sequence desired0 s =
     (case shaper_fault s of
        Some r \<Rightarrow> (Inl (shaper_unhealthy r), s)
      | None \<Rightarrow>
          if shaper_pending s \<noteq> None
          then shaper_fault_raise ''cannot propose while another RH56 hardware target is pending'' s
          else if sequence \<noteq> shaper_committed s + 1
          then shaper_fault_raise (''RH56 hardware proposal sequence mismatch: expected=''
                 @ int_str (shaper_committed s + 1) @ '', actual='' @ int_str sequence) s
          else
            (case readonly_register_vector desired0 ''desired_angle_set_register_order'' of
               Inl e \<Rightarrow> (Inl e, s)
             | Inr desired \<Rightarrow>
                 (let bounded = bounded_target s desired;
                      due = update_due s sequence;
                      target = (if due then slewed_target s bounded else shaper_target s)
                  in case make_hw_proposal oid sequence desired bounded target (shaper_target s) due of
                       Inl e \<Rightarrow> (Inl e, s)
                     | Inr proposal \<Rightarrow> (Inr proposal, s\<lparr>shaper_pending := Some proposal\<rparr>))))"

definition shaper_discard :: "hw_proposal \<Rightarrow> (shaper, unit) op" where
  "shaper_discard p s =
     (case shaper_fault s of
        Some r \<Rightarrow> (Inl (shaper_unhealthy r), s)
      | None \<Rightarrow>
          if shaper_pending s \<noteq> Some p
          then shaper_fault_raise ''only the exact pending RH56 hardware proposal can be discarded'' s
          else (Inr (), s\<lparr>shaper_pending := None\<rparr>))"

definition shaper_commit :: "hw_proposal \<Rightarrow> (shaper, unit) op" where
  "shaper_commit p s =
     (case shaper_fault s of
        Some r \<Rightarrow> (Inl (shaper_unhealthy r), s)
      | None \<Rightarrow>
          if shaper_pending s \<noteq> Some p
          then shaper_fault_raise ''RH56 hardware commit did not receive the pending proposal'' s
          else if hw_sequence p \<noteq> shaper_committed s + 1
          then shaper_fault_raise ''RH56 hardware proposal sequence changed before commit'' s
          else if shaper_target s \<noteq> hw_prior p
          then shaper_fault_raise ''RH56 committed hardware target changed after proposal'' s
          else
            (case readonly_register_vector (vec_of_ints (hw_target p)) ''committed RH56 hardware target'' of
               Inl e \<Rightarrow> (Inl e, s)
             | Inr target \<Rightarrow>
                 (Inr (), s\<lparr>shaper_target := target, shaper_committed := hw_sequence p, shaper_pending := None\<rparr>)))"

definition shaper_abort :: "hw_proposal \<Rightarrow> string \<Rightarrow> (shaper, unit) op" where
  "shaper_abort p reason s =
     (let detail = strip_or reason ''unspecified RH56 hardware proposal abort''
      in if shaper_pending s \<noteq> Some p
         then shaper_fault_raise (''RH56 hardware abort did not receive the pending proposal: '' @ detail) s
         else (Inr (), (shaper_fault_locked detail s)\<lparr>shaper_pending := None\<rparr>))"

section \<open>Calls and reachable states\<close>

datatype shaper_call =
    ShaperPropose nat int ndarray | ShaperDiscard hw_proposal | ShaperCommit hw_proposal
  | ShaperAbort hw_proposal string

fun shaper_exec :: "shaper_call \<Rightarrow> shaper \<Rightarrow> shaper" where
  "shaper_exec (ShaperPropose oid k d) s = snd (shaper_propose oid k d s)"
| "shaper_exec (ShaperDiscard p) s = snd (shaper_discard p s)"
| "shaper_exec (ShaperCommit p) s = snd (shaper_commit p s)"
| "shaper_exec (ShaperAbort p r) s = snd (shaper_abort p r s)"

definition shaper_step :: "shaper \<Rightarrow> shaper \<Rightarrow> bool" where
  "shaper_step s t = (\<exists>c. t = shaper_exec c s)"

definition new_shaper :: "shaper \<Rightarrow> bool" where
  "new_shaper s = (\<exists>i p h d l u. make_shaper i p h d l u = Inr s)"

section \<open>The invariant\<close>

definition in_box :: "shaper \<Rightarrow> int list \<Rightarrow> bool" where
  "in_box s ns =
     (length ns = 6 \<and> (\<forall>i < 6. lower_targets s ! i \<le> ns ! i \<and> ns ! i \<le> upper_targets s ! i))"

definition within_step :: "shaper \<Rightarrow> int list \<Rightarrow> bool" where
  "within_step s ns = (\<forall>i < 6. \<bar>ns ! i - shaper_target s ! i\<bar> \<le> max_delta s ! i)"

definition shaper_config :: "shaper \<Rightarrow> bool" where
  "shaper_config s =
     (0 < ticks_per_update s \<and> register_vector (max_delta s) \<and> (\<forall>i < 6. 0 < max_delta s ! i) \<and>
      register_vector (lower_targets s) \<and> register_vector (upper_targets s) \<and>
      (\<forall>i < 6. lower_targets s ! i < upper_targets s ! i))"

definition shaper_inv :: "shaper \<Rightarrow> bool" where
  "shaper_inv s =
     (shaper_config s \<and> in_box s (shaper_target s) \<and> 0 \<le> shaper_committed s \<and>
      (\<forall>p. shaper_pending s = Some p \<longrightarrow>
         hw_sequence p = shaper_committed s + 1 \<and> hw_prior p = shaper_target s \<and> in_box s (hw_target p) \<and>
         within_step s (hw_target p) \<and>
         (\<not> update_due s (hw_sequence p) \<longrightarrow> hw_target p = shaper_target s)))"

lemma box_register_vector: "shaper_config s \<Longrightarrow> in_box s ns \<Longrightarrow> register_vector ns"
  unfolding shaper_config_def in_box_def register_vector_def list_all_length
  by (metis order_trans)

lemma bounded_in_box:
  assumes "shaper_config s" "register_vector d"
  shows "in_box s (bounded_target s d)"
  using assms
  by (auto simp: shaper_config_def in_box_def bounded_target_def register_vector_def clip_int_def less_imp_le)

lemma slewed_nth:
  assumes "shaper_config s" "length b = 6" "length (shaper_target s) = 6" "i < 6"
  shows "slewed_target s b ! i =
    shaper_target s ! i + clip_int (b ! i - shaper_target s ! i) (- (max_delta s ! i)) (max_delta s ! i)"
  using assms by (simp add: slewed_target_def shaper_config_def register_vector_def)

lemma slewed_in_box:
  assumes "shaper_config s" "in_box s (shaper_target s)" "in_box s b"
  shows "in_box s (slewed_target s b) \<and> within_step s (slewed_target s b)"
proof -
  have len: "length (slewed_target s b) = 6"
    using assms by (simp add: slewed_target_def shaper_config_def in_box_def register_vector_def)
  have "lower_targets s ! i \<le> slewed_target s b ! i \<and> slewed_target s b ! i \<le> upper_targets s ! i \<and>
      \<bar>slewed_target s b ! i - shaper_target s ! i\<bar> \<le> max_delta s ! i" if i: "i < 6" for i
  proof -
    have "lower_targets s ! i \<le> shaper_target s ! i" "shaper_target s ! i \<le> upper_targets s ! i"
      "lower_targets s ! i \<le> b ! i" "b ! i \<le> upper_targets s ! i" "0 < max_delta s ! i"
      using assms i by (auto simp: in_box_def shaper_config_def)
    moreover have "slewed_target s b ! i =
        shaper_target s ! i + clip_int (b ! i - shaper_target s ! i) (- (max_delta s ! i)) (max_delta s ! i)"
      using assms i by (intro slewed_nth) (auto simp: in_box_def)
    ultimately show ?thesis by (auto simp: clip_int_def min_def max_def)
  qed
  with len show ?thesis by (auto simp: in_box_def within_step_def)
qed

lemma make_hw_proposal_Inr:
  assumes "register_vector d" "register_vector b" "register_vector t" "register_vector p"
  shows "make_hw_proposal oid k d b t p due =
    (if k \<le> 0 then Inl (Exn ValueError ''RH56 hardware proposal sequence must be positive'')
     else Inr \<lparr>hw_oid = oid, hw_sequence = k, hw_desired = d, hw_bounded = b, hw_target = t, hw_prior = p,
               hw_update_due = due\<rparr>)"
  using assms by (simp add: make_hw_proposal_def readonly_register_vector_idem)

text \<open>What a healthy proposal is.\<close>

definition next_proposal :: "nat \<Rightarrow> int list \<Rightarrow> shaper \<Rightarrow> hw_proposal" where
  "next_proposal oid d s =
     (let k = shaper_committed s + 1; b = bounded_target s d
      in \<lparr>hw_oid = oid, hw_sequence = k, hw_desired = d, hw_bounded = b,
          hw_target = (if update_due s k then slewed_target s b else shaper_target s),
          hw_prior = shaper_target s, hw_update_due = update_due s k\<rparr>)"

lemma shaper_propose_Inr:
  assumes "shaper_inv s" "shaper_fault s = None" "shaper_pending s = None" "k = shaper_committed s + 1"
    and "readonly_register_vector d0 ''desired_angle_set_register_order'' = Inr d"
  shows "shaper_propose oid k d0 s = (Inr (next_proposal oid d s), s\<lparr>shaper_pending := Some (next_proposal oid d s)\<rparr>)"
proof -
  note d = readonly_register_vector_Inr [OF assms(5)]
  have c: "shaper_config s" and t: "in_box s (shaper_target s)" and n: "0 \<le> shaper_committed s"
    using assms(1) by (auto simp: shaper_inv_def)
  note b = bounded_in_box [OF c d]
  have "register_vector (if due then slewed_target s (bounded_target s d) else shaper_target s)" for due
    using slewed_in_box [OF c t b] t box_register_vector [OF c] by simp
  then show ?thesis
    using assms c d t b n box_register_vector [OF c]
    by (simp add: shaper_propose_def make_hw_proposal_Inr next_proposal_def Let_def)
qed

lemma fault_only_cong:
  "in_box (s\<lparr>shaper_fault := f\<rparr>) = in_box s" "within_step (s\<lparr>shaper_fault := f\<rparr>) = within_step s"
  "update_due (s\<lparr>shaper_fault := f\<rparr>) = update_due s" "shaper_config (s\<lparr>shaper_fault := f\<rparr>) = shaper_config s"
  "in_box (s\<lparr>shaper_pending := q\<rparr>) = in_box s" "within_step (s\<lparr>shaper_pending := q\<rparr>) = within_step s"
  "update_due (s\<lparr>shaper_pending := q\<rparr>) = update_due s" "shaper_config (s\<lparr>shaper_pending := q\<rparr>) = shaper_config s"
  by (auto simp: in_box_def within_step_def update_due_def shaper_config_def fun_eq_iff)

lemma shaper_inv_fault [simp]: "shaper_inv (s\<lparr>shaper_fault := f\<rparr>) = shaper_inv s"
  by (simp add: shaper_inv_def fault_only_cong)

lemma shaper_fault_locked_eq: "\<exists>f. shaper_fault_locked r s = s\<lparr>shaper_fault := f\<rparr>"
proof (cases "shaper_fault s")
  case (Some x)
  then show ?thesis
    by (intro exI [of _ "Some x"], cases s) (simp add: shaper_fault_locked_def)
qed (auto simp: shaper_fault_locked_def)

lemma shaper_inv_drop: "shaper_inv s \<Longrightarrow> shaper_inv (s\<lparr>shaper_pending := None\<rparr>)"
  by (simp add: shaper_inv_def fault_only_cong)

lemma shaper_inv_next:
  assumes "shaper_inv s" "shaper_pending s = None" "register_vector d"
  shows "shaper_inv (s\<lparr>shaper_pending := Some (next_proposal oid d s)\<rparr>)"
proof -
  have c: "shaper_config s" and t: "in_box s (shaper_target s)" using assms(1) by (auto simp: shaper_inv_def)
  have "within_step s (shaper_target s)" using c by (auto simp: within_step_def shaper_config_def less_imp_le)
  then show ?thesis
    using assms t slewed_in_box [OF c t bounded_in_box [OF c assms(3)]]
    by (auto simp: shaper_inv_def next_proposal_def Let_def fault_only_cong)
qed

text \<open>What one call can do: latch a fault, make a proposal, drop it, or commit it.\<close>

definition shaper_commits :: "shaper \<Rightarrow> shaper \<Rightarrow> bool" where
  "shaper_commits s t =
     (\<exists>p. shaper_fault s = None \<and> shaper_pending s = Some p \<and> hw_sequence p = shaper_committed s + 1 \<and>
        hw_prior p = shaper_target s \<and> register_vector (hw_target p) \<and>
        t = s\<lparr>shaper_target := hw_target p, shaper_committed := hw_sequence p, shaper_pending := None\<rparr>)"

definition latched_only :: "shaper \<Rightarrow> shaper \<Rightarrow> bool" where
  "latched_only s t = (\<exists>f. t = s\<lparr>shaper_fault := f\<rparr>)"

lemma latched_only_intros [simp]:
  "latched_only s s" "latched_only s (shaper_fault_locked r s)" "latched_only s (snd (shaper_fault_raise r s))"
proof -
  show "latched_only s s" unfolding latched_only_def by (rule exI [of _ "shaper_fault s"]) simp
  show f: "latched_only s (shaper_fault_locked r s)" for r
    using shaper_fault_locked_eq by (simp add: latched_only_def)
  show "latched_only s (snd (shaper_fault_raise r s))" using f by (simp add: shaper_fault_raise_def Let_def)
qed

lemma shaper_propose_cases:
  assumes "shaper_inv s"
  shows "latched_only s (snd (shaper_propose oid k d0 s)) \<or>
    (\<exists>d. register_vector d \<and> shaper_fault s = None \<and> shaper_pending s = None \<and>
       snd (shaper_propose oid k d0 s) = s\<lparr>shaper_pending := Some (next_proposal oid d s)\<rparr>)"
proof (cases "shaper_fault s = None \<and> shaper_pending s = None \<and> k = shaper_committed s + 1")
  case True
  show ?thesis
  proof (cases "readonly_register_vector d0 ''desired_angle_set_register_order''")
    case (Inl e)
    with True show ?thesis by (simp add: shaper_propose_def)
  next
    case (Inr d)
    with True shaper_propose_Inr [OF assms _ _ _ Inr] readonly_register_vector_Inr [OF Inr] show ?thesis by auto
  qed
next
  case False
  then show ?thesis by (auto simp: shaper_propose_def split: option.split)
qed

lemma shaper_commit_cases:
  assumes "shaper_inv s"
  shows "latched_only s (snd (shaper_commit p s)) \<or> shaper_commits s (snd (shaper_commit p s))"
proof -
  have "readonly_register_vector (vec_of_ints (hw_target p)) nm = Inr (hw_target p) \<and> register_vector (hw_target p)"
    if "shaper_pending s = Some p" for nm
    using assms that box_register_vector [of s "hw_target p"] readonly_register_vector_idem [of "hw_target p"]
    by (simp add: shaper_inv_def)
  then show ?thesis
    by (auto simp: shaper_commit_def shaper_commits_def split: option.split)
qed

lemma shaper_step_cases:
  assumes "shaper_step s t" "shaper_inv s"
  obtains (same) f where "t = s\<lparr>shaper_fault := f\<rparr>"
  | (proposed) oid d where "register_vector d" "shaper_fault s = None" "shaper_pending s = None"
      "t = s\<lparr>shaper_pending := Some (next_proposal oid d s)\<rparr>"
  | (dropped) f where "t = s\<lparr>shaper_fault := f, shaper_pending := None\<rparr>"
  | (committed) "shaper_commits s t"
proof -
  have latch: thesis if "latched_only s t" using that same by (auto simp: latched_only_def)
  obtain c where c: "t = shaper_exec c s" using assms(1) by (auto simp: shaper_step_def)
  show thesis
  proof (cases c)
    case (ShaperPropose oid k d0)
    with shaper_propose_cases [OF assms(2), of oid k d0] c latch proposed show thesis by auto
  next
    case (ShaperDiscard p)
    have "latched_only s (snd (shaper_discard p s)) \<or> snd (shaper_discard p s) = s\<lparr>shaper_fault := shaper_fault s, shaper_pending := None\<rparr>"
      by (simp add: shaper_discard_def split: option.split)
    with ShaperDiscard c latch dropped [of "shaper_fault s"] show thesis by auto
  next
    case (ShaperCommit p)
    with shaper_commit_cases [OF assms(2), of p] c latch committed show thesis by auto
  next
    case (ShaperAbort p r)
    obtain f where "shaper_fault_locked (strip_or r ''unspecified RH56 hardware proposal abort'') s = s\<lparr>shaper_fault := f\<rparr>"
      using shaper_fault_locked_eq by blast
    then have "latched_only s (snd (shaper_abort p r s)) \<or> snd (shaper_abort p r s) = s\<lparr>shaper_fault := f, shaper_pending := None\<rparr>"
      by (simp add: shaper_abort_def Let_def)
    with ShaperAbort c latch dropped show thesis by auto
  qed
qed

lemma shaper_inv_commit:
  assumes "shaper_inv s" "shaper_commits s t"
  shows "shaper_inv t"
proof -
  obtain p where p: "shaper_pending s = Some p" "hw_sequence p = shaper_committed s + 1"
    "t = s\<lparr>shaper_target := hw_target p, shaper_committed := hw_sequence p, shaper_pending := None\<rparr>"
    using assms(2) by (auto simp: shaper_commits_def)
  have "in_box s (hw_target p)" using assms(1) p(1) by (simp add: shaper_inv_def)
  then show ?thesis using assms(1) p
    by (auto simp: shaper_inv_def shaper_config_def in_box_def)
qed

lemma shaper_inv_step: "shaper_step s t \<Longrightarrow> shaper_inv s \<Longrightarrow> shaper_inv t"
proof (erule (1) shaper_step_cases)
  fix f
  assume "shaper_inv s" "t = s\<lparr>shaper_fault := f, shaper_pending := None\<rparr>"
  then show "shaper_inv t" using shaper_inv_drop [of "s\<lparr>shaper_fault := f\<rparr>"] by simp
qed (auto intro: shaper_inv_next shaper_inv_commit)

lemma rate_divider_Inr:
  assumes "rate_divider p h = Inr (a, b, n)"
  shows "1 \<le> n"
proof -
  obtain x y where "(if \<not> is_finite x \<or> \<not> is_finite y \<or> x \<le> 0 \<or> y \<le> 0 \<or> x < y
      then Inl (Exn ValueError ''RH56 policy/hardware rates must be positive and ordered'')
      else case fl_div x y of
         Fin ratio \<Rightarrow>
           (let divider = round_half_even ratio
            in if divider < 1 \<or> \<not> isclose (Fin ratio) (rnd64 (of_int divider))
               then Inl (Exn ValueError ''RH56 hardware rate must divide the policy rate exactly'')
               else Inr (x, y, divider))
       | _ \<Rightarrow> Inl (Exn OverflowError ''cannot convert float infinity to integer'')) = Inr (a, b, n)"
    using assms by (auto simp: rate_divider_def Let_def res_bind_Inr_iff)
  then show ?thesis by (cases "fl_div x y") (auto simp: Let_def split: if_splits)
qed

lemma shaper_inv_new: "new_shaper s \<Longrightarrow> shaper_inv s"
proof -
  assume "new_shaper s"
  then obtain a b n maximum lower upper initial where
    r: "1 \<le> n" "register_vector maximum" "register_vector lower" "register_vector upper" "register_vector initial"
    and q: "\<not> list_ex (\<lambda>d. d \<le> 0) maximum" "\<not> list_ex (\<lambda>(l, u). u \<le> l) (zip lower upper)"
      "\<not> list_ex (\<lambda>(i, l, u). i < l \<or> u < i) (zip initial (zip lower upper))"
    and s: "s = \<lparr>policy_rate_hz = a, hardware_rate_hz = b, ticks_per_update = n, max_delta = maximum,
      lower_targets = lower, upper_targets = upper, shaper_target = initial, shaper_committed = 0,
      shaper_pending = None, shaper_fault = None\<rparr>"
    by (auto simp: new_shaper_def make_shaper_def res_bind_Inr_iff split: if_splits
        dest!: readonly_register_vector_Inr rate_divider_Inr)
  have len: "length maximum = 6" "length lower = 6" "length upper = 6" "length initial = 6"
    using r by (simp_all add: register_vector_def)
  have all: "\<not> P (xs ! i)" if "\<not> list_ex P xs" "i < length xs" for P and xs :: "'b list" and i
    using that by (auto simp: list_ex_length)
  have "0 < maximum ! i" "lower ! i < upper ! i" "lower ! i \<le> initial ! i \<and> initial ! i \<le> upper ! i" if "i < 6" for i
    using all [OF q(1), of i] all [OF q(2), of i] all [OF q(3), of i] that len by (simp_all add: not_le not_less)
  then show ?thesis
    using r by (auto simp: s shaper_inv_def shaper_config_def in_box_def register_vector_def)
qed

interpretation shaper: invariant_system new_shaper shaper_step shaper_inv
  by unfold_locales (auto intro: shaper_inv_new shaper_inv_step)

lemma shaper_step_fault:
  assumes "shaper_step s t" "shaper_fault s = Some r"
  shows "shaper_fault t = Some r \<and> shaper_target t = shaper_target s \<and> shaper_committed t = shaper_committed s"
proof -
  obtain c where c: "t = shaper_exec c s" using assms(1) by (auto simp: shaper_step_def)
  then show ?thesis using assms(2)
    by (cases c) (auto simp: shaper_propose_def shaper_discard_def shaper_commit_def shaper_abort_def
        shaper_fault_raise_def shaper_fault_locked_def Let_def)
qed

interpretation shaper_latch: fault_latch shaper_fault shaper_step shaper_commits
  by unfold_locales (auto dest: shaper_step_fault simp: shaper_commits_def)

section \<open>Refinement of the abstract transaction\<close>

definition shaper_abs :: "shaper \<Rightarrow> int list two_phase" where
  "shaper_abs s = \<lparr>tp_value = shaper_target s, tp_count = shaper_committed s,
     tp_proposed = map_option hw_target (shaper_pending s), tp_failed = shaper_fault s\<rparr>"

lemma shaper_simulates:
  assumes inv: "shaper_inv s" and st: "shaper_step s t"
  shows "tp_step (shaper_abs s) (shaper_abs t)"
proof -
  have keep: "shaper_fault t = Some r" if "shaper_fault s = Some r" for r
    using shaper_step_fault [OF st that] by simp
  from st inv show ?thesis
  proof (cases rule: shaper_step_cases)
    case (same f)
    show ?thesis
    proof (cases "shaper_fault s = f")
      case True
      with same have "shaper_abs t = shaper_abs s" by (simp add: shaper_abs_def)
      then show ?thesis by (simp add: tp_stutter)
    next
      case False
      then obtain r where "f = Some r" "shaper_fault s = None"
        using keep same by (cases "shaper_fault s"; cases f) auto
      with same have "shaper_abs t = shaper_abs s\<lparr>tp_failed := Some r\<rparr>" by (simp add: shaper_abs_def)
      with \<open>shaper_fault s = None\<close> tp_latch [of "shaper_abs s" r] show ?thesis by (simp add: shaper_abs_def)
    qed
  next
    case (proposed oid d)
    then show ?thesis
      using tp_propose [of "shaper_abs s" "hw_target (next_proposal oid d s)"] by (simp add: shaper_abs_def)
  next
    case (dropped f)
    show ?thesis
    proof (cases "shaper_fault t")
      case None
      then have "shaper_fault s = None" using keep by (cases "shaper_fault s") auto
      with None dropped show ?thesis using tp_discard [of "shaper_abs s"] by (simp add: shaper_abs_def)
    next
      case (Some r)
      have "(case shaper_fault s of None \<Rightarrow> r | Some r' \<Rightarrow> r') = r"
        using keep Some by (cases "shaper_fault s") auto
      with Some dropped show ?thesis using tp_abort [of "shaper_abs s" r] by (simp add: shaper_abs_def)
    qed
  next
    case committed
    then obtain p where "shaper_fault s = None" "shaper_pending s = Some p" "hw_sequence p = shaper_committed s + 1"
      "t = s\<lparr>shaper_target := hw_target p, shaper_committed := hw_sequence p, shaper_pending := None\<rparr>"
      by (auto simp: shaper_commits_def)
    then show ?thesis using tp_commit [of "shaper_abs s" "hw_target p"] by (simp add: shaper_abs_def)
  qed
qed

interpretation shaper_tp: two_phase_system new_shaper shaper_step shaper_inv shaper_abs
  by unfold_locales (rule shaper_simulates)

section \<open>Properties\<close>

text \<open>C30. The physical setpoint moves only by committed steps: whatever is called on a shaper, its target
  stays inside the calibrated interval, no call moves an axis by more than its limit, and the target
  changes only when a pending proposal is committed on a hardware-rate tick, under the next
  sequence number.\<close>

theorem setpoint_moves_by_bounded_commits:
  assumes "reach new_shaper shaper_step s" and "shaper_step s t"
  shows "in_box t (shaper_target t) \<and>
    (\<forall>i < 6. \<bar>shaper_target t ! i - shaper_target s ! i\<bar> \<le> max_delta s ! i) \<and>
    (shaper_target t = shaper_target s \<or>
     (shaper_commits s t \<and> shaper_committed t = shaper_committed s + 1 \<and>
      shaper_committed s mod ticks_per_update s = 0))"
proof -
  have inv: "shaper_inv s" using shaper.reach_inv [OF assms(1)] .
  have box: "in_box t (shaper_target t)" using shaper_inv_step [OF assms(2) inv] by (simp add: shaper_inv_def)
  have zero: "\<forall>i < 6. \<bar>shaper_target s ! i - shaper_target s ! i\<bar> \<le> max_delta s ! i"
    using inv by (auto simp: shaper_inv_def shaper_config_def less_imp_le)
  show ?thesis
    using assms(2) inv
  proof (cases rule: shaper_step_cases)
    case committed
    then obtain p where p: "shaper_pending s = Some p" "shaper_target t = hw_target p"
      "shaper_committed t = hw_sequence p" "hw_sequence p = shaper_committed s + 1"
      by (auto simp: shaper_commits_def)
    with inv have "within_step s (hw_target p)" "\<not> update_due s (hw_sequence p) \<longrightarrow> hw_target p = shaper_target s"
      by (simp_all add: shaper_inv_def)
    with p box committed show ?thesis by (auto simp: within_step_def update_due_def)
  qed (use box zero in simp_all)
qed

text \<open>One policy tick: the desired target is proposed under the next sequence and committed.\<close>

definition shaper_tick :: "nat \<Rightarrow> int list \<Rightarrow> shaper \<Rightarrow> shaper" where
  "shaper_tick oid d s =
     (case shaper_propose oid (shaper_committed s + 1) (vec_of_ints d) s of
        (Inl e, s') \<Rightarrow> s'
      | (Inr p, s') \<Rightarrow> snd (shaper_commit p s'))"

lemma shaper_tick_eq:
  assumes "shaper_inv s" "shaper_fault s = None" "shaper_pending s = None" "register_vector d"
  shows "shaper_tick oid d s =
    s\<lparr>shaper_target := (if update_due s (shaper_committed s + 1) then slewed_target s (bounded_target s d)
                         else shaper_target s),
      shaper_committed := shaper_committed s + 1\<rparr>"
proof -
  let ?p = "next_proposal oid d s"
  have c: "shaper_config s" and t: "in_box s (shaper_target s)" using assms(1) by (auto simp: shaper_inv_def)
  have "register_vector (hw_target ?p)"
    using slewed_in_box [OF c t bounded_in_box [OF c assms(4)]] t box_register_vector [OF c]
    by (simp add: next_proposal_def Let_def)
  moreover have "shaper_propose oid (shaper_committed s + 1) (vec_of_ints d) s = (Inr ?p, s\<lparr>shaper_pending := Some ?p\<rparr>)"
    using assms by (intro shaper_propose_Inr) (simp_all add: readonly_register_vector_idem)
  ultimately show ?thesis
    using assms(2,3)
    by (cases s) (simp add: shaper_tick_def shaper_commit_def readonly_register_vector_idem next_proposal_def Let_def)
qed

definition updates_in :: "shaper \<Rightarrow> nat \<Rightarrow> int" where
  "updates_in s k = (int k + ticks_per_update s - 1) div ticks_per_update s"

lemma updates_in_Suc:
  assumes "0 < ticks_per_update s"
  shows "updates_in s (Suc k) = updates_in s k + (if int k mod ticks_per_update s = 0 then 1 else 0)"
proof -
  let ?n = "ticks_per_update s" and ?q = "int k div ticks_per_update s" and ?r = "int k mod ticks_per_update s"
  have k: "int k = ?q * ?n + ?r" by simp
  have r: "0 \<le> ?r" "?r < ?n" using assms by simp_all
  have suc: "(int (Suc k) + ?n - 1) div ?n = ?q + 1"
    using assms r k by (intro int_div_pos_eq [of _ _ _ "?r"]) (auto simp: algebra_simps)
  show ?thesis
  proof (cases "?r = 0")
    case True
    then have "(int k + ?n - 1) div ?n = ?q"
      using assms k by (intro int_div_pos_eq [of _ _ _ "?n - 1"]) (auto simp: algebra_simps)
    then show ?thesis using True suc by (simp add: updates_in_def)
  next
    case False
    then have "(int k + ?n - 1) div ?n = ?q + 1"
      using assms r k by (intro int_div_pos_eq [of _ _ _ "?r - 1"]) (auto simp: algebra_simps)
    then show ?thesis using False suc by (simp add: updates_in_def)
  qed
qed

text \<open>The state after some ticks towards a fixed target.\<close>

definition after_ticks :: "shaper \<Rightarrow> int list \<Rightarrow> nat \<Rightarrow> shaper \<Rightarrow> bool" where
  "after_ticks s d k t =
     (shaper_inv t \<and> shaper_fault t = None \<and> shaper_pending t = None \<and> shaper_committed t = int k \<and>
      ticks_per_update t = ticks_per_update s \<and> max_delta t = max_delta s \<and>
      lower_targets t = lower_targets s \<and> upper_targets t = upper_targets s \<and>
      (\<forall>i < 6. \<bar>shaper_target t ! i - bounded_target s d ! i\<bar> =
         max 0 (\<bar>shaper_target s ! i - bounded_target s d ! i\<bar> - updates_in s k * max_delta s ! i)))"

lemma clip_step: "0 < d \<Longrightarrow> \<bar>p + clip_int (b - p) (- d) d - b\<bar> = max 0 (\<bar>p - b\<bar> - d)" for p b d :: int
  by (auto simp: clip_int_def min_def max_def abs_if)

lemma max_step: "0 < d \<Longrightarrow> max 0 (max 0 (x - u * d) - d) = max 0 (x - (u + 1) * d)" for x u d :: int
  by (auto simp: max_def algebra_simps)

lemma after_ticks_Suc:
  assumes s: "shaper_inv s" and d: "register_vector d" and t: "after_ticks s d k t"
  shows "after_ticks s d (Suc k) (shaper_tick oid d t)"
proof -
  let ?t' = "shaper_tick oid d t"
  have inv: "shaper_inv t" "shaper_fault t = None" "shaper_pending t = None" "shaper_committed t = int k"
    and cfg: "ticks_per_update t = ticks_per_update s" "max_delta t = max_delta s"
      "lower_targets t = lower_targets s" "upper_targets t = upper_targets s"
    and dist: "\<And>i. i < 6 \<Longrightarrow> \<bar>shaper_target t ! i - bounded_target s d ! i\<bar> =
         max 0 (\<bar>shaper_target s ! i - bounded_target s d ! i\<bar> - updates_in s k * max_delta s ! i)"
    using t by (auto simp: after_ticks_def)
  have b: "bounded_target t d = bounded_target s d" using cfg by (simp add: bounded_target_def)
  have c: "shaper_config t" and box: "in_box t (shaper_target t)" using inv(1) by (auto simp: shaper_inv_def)
  have len: "length (shaper_target t) = 6" "length (bounded_target s d) = 6"
    using box bounded_in_box [OF c d] by (auto simp: in_box_def b)
  have n: "0 < ticks_per_update s" and m: "\<And>i. i < 6 \<Longrightarrow> 0 < max_delta s ! i"
    using s by (auto simp: shaper_inv_def shaper_config_def)
  have due: "update_due t (int k + 1) = (int k mod ticks_per_update s = 0)"
    by (simp add: update_due_def cfg)
  note eq = shaper_tick_eq [OF inv(1-3) d, of oid, unfolded inv(4) due b]
  have inv': "shaper_inv ?t'"
    unfolding eq using inv slewed_in_box [OF c box bounded_in_box [OF c d]] box
    by (auto simp: shaper_inv_def in_box_def shaper_config_def b)
  have "\<bar>shaper_target ?t' ! i - bounded_target s d ! i\<bar> =
      max 0 (\<bar>shaper_target s ! i - bounded_target s d ! i\<bar> - updates_in s (Suc k) * max_delta s ! i)" if i: "i < 6" for i
    using slewed_nth [OF c len(2,1) i] clip_step [OF m [OF i]] dist [OF i] max_step [OF m [OF i]]
    unfolding eq updates_in_Suc [OF n] by (simp add: cfg)
  with inv inv' show ?thesis unfolding after_ticks_def by (simp add: eq cfg)
qed

text \<open>C31. The shaper reaches its target and stays there: proposing and committing a fixed desired
  target for \<open>k\<close> policy ticks leaves every axis exactly \<open>n\<close> limited steps closer to the desired
  value clipped to the calibrated interval, where \<open>n\<close> counts the hardware-rate ticks among them,
  and at that value once \<open>n\<close> steps cover the distance. No fault and no pending proposal is left.\<close>

theorem shaper_reaches_target:
  assumes "new_shaper s" and "register_vector d"
  shows "after_ticks s d k ((shaper_tick oid d ^^ k) s)"
proof (induction k)
  case 0
  have inv: "shaper_inv s" using shaper_inv_new [OF assms(1)] .
  then have "updates_in s 0 = 0"
    by (simp add: updates_in_def shaper_inv_def shaper_config_def)
  moreover have "shaper_fault s = None" "shaper_pending s = None" "shaper_committed s = 0"
    using assms(1) by (auto simp: new_shaper_def make_shaper_def res_bind_Inr_iff split: if_splits)
  ultimately show ?case using inv by (simp add: after_ticks_def)
next
  case (Suc k)
  then show ?case using after_ticks_Suc [OF shaper_inv_new [OF assms(1)] assms(2)] by simp
qed

section \<open>Instances\<close>

definition shaper_ex :: shaper where
  "shaper_ex = \<lparr>policy_rate_hz = Fin 60, hardware_rate_hz = Fin 20, ticks_per_update = 3,
     max_delta = replicate 6 100, lower_targets = replicate 6 0, upper_targets = replicate 6 1000,
     shaper_target = replicate 6 1000, shaper_committed = 0, shaper_pending = None, shaper_fault = None\<rparr>"

lemma shaper_ex_made:
  "make_shaper (vec_of_ints (replicate 6 1000)) (PyInt 60) (PyInt 20) (vec_of_ints (replicate 6 100))
     (vec_of_ints (replicate 6 0)) (vec_of_ints (replicate 6 1000)) = Inr shaper_ex"
  by code_simp

lemma shaper_ex_new: "new_shaper shaper_ex"
  unfolding new_shaper_def using shaper_ex_made by blast

theorem setpoint_moves_by_bounded_commits_witness:
  "\<exists>t. shaper_step shaper_ex t \<and> \<bar>shaper_target t ! 5 - shaper_target shaper_ex ! 5\<bar> \<le> 100"
proof -
  let ?t = "shaper_exec (ShaperPropose 0 1 (vec_of_ints (replicate 6 250))) shaper_ex"
  have step: "shaper_step shaper_ex ?t" unfolding shaper_step_def by blast
  have "reach new_shaper shaper_step shaper_ex" using shaper_ex_new by (rule reach.intros)
  from setpoint_moves_by_bounded_commits [OF this step] step show ?thesis
    by (auto simp: shaper_ex_def nth_replicate)
qed

theorem shaper_reaches_target_witness:
  "shaper_target ((shaper_tick 0 (replicate 6 250) ^^ 24) shaper_ex) ! 5 = 250"
proof -
  have d: "register_vector (replicate 6 250)" by (simp add: register_vector_def list_all_iff)
  have u: "updates_in shaper_ex 24 = 8" by (simp add: updates_in_def shaper_ex_def)
  show ?thesis
    using shaper_reaches_target [OF shaper_ex_new d, of 24 0]
    by (simp add: after_ticks_def u) (simp add: shaper_ex_def bounded_target_def clip_int_def)
qed

end
