(* ===== verification/Binary32.thy ===== *)
theory Binary32
  imports Validation
begin

text \<open>
  The binary32 arithmetic of NumPy that the action mapping runs on: sum, product and quotient
  of \<open>float32\<close> values, \<open>clip\<close>, \<open>maximum\<close>, \<open>minimum\<close>, \<open>array_equal\<close> and \<open>nextafter\<close>, and what
  they promise: a rounding never crosses a representable number, a clip of a number lies
  in its interval, the neighbour of a representable number is the closest one on its side.
\<close>

section \<open>Operations\<close>

definition f32_add :: "fl \<Rightarrow> fl \<Rightarrow> fl" where
  "f32_add x y = fl_add_with rnd32 x y"

definition f32_sub :: "fl \<Rightarrow> fl \<Rightarrow> fl" where
  "f32_sub x y = fl_add_with rnd32 x (fl_neg y)"

definition f32_mul :: "fl \<Rightarrow> fl \<Rightarrow> fl" where
  "f32_mul x y = fl_mul_with rnd32 x y"

text \<open>The quotient of finite numbers with a divisor other than zero; the mapping has no other.\<close>

fun f32_div :: "fl \<Rightarrow> fl \<Rightarrow> fl" where
  "f32_div (Fin x) (Fin y) = rnd32 (x / y)"
| "f32_div x y = NaN"

text \<open>\<open>np.maximum\<close>, \<open>np.minimum\<close> and \<open>np.clip\<close> of one element propagate NaN.\<close>

definition np_maximum :: "fl \<Rightarrow> fl \<Rightarrow> fl" where
  "np_maximum a b = (if a = NaN \<or> b \<le> a then a else b)"

definition np_minimum :: "fl \<Rightarrow> fl \<Rightarrow> fl" where
  "np_minimum a b = (if a = NaN \<or> a \<le> b then a else b)"

definition np_clip :: "fl \<Rightarrow> fl \<Rightarrow> fl \<Rightarrow> fl" where
  "np_clip x lo hi = np_minimum (np_maximum x lo) hi"

text \<open>\<open>np.array_equal\<close>: NaN differs from itself.\<close>

definition array_equal :: "fl list \<Rightarrow> fl list \<Rightarrow> bool" where
  "array_equal xs ys = (xs = ys \<and> NaN \<notin> set xs)"

text \<open>\<open>np.nextafter\<close> of a finite binary32 value towards an infinity.\<close>

definition ulp32 :: "rat \<Rightarrow> int" where
  "ulp32 x = (if x = 0 then -149 else max (-149) (rat_log2 \<bar>x\<bar> - 23))"

definition next_up32 :: "fl \<Rightarrow> fl" where
  "next_up32 v =
     (case v of
        Fin x \<Rightarrow>
          (let e = ulp32 x
           in if x < 0 \<and> -149 < e \<and> - x = 2 powi (e + 23) then rnd32 (x + 2 powi (e - 1))
              else rnd32 (x + 2 powi e))
      | _ \<Rightarrow> v)"

definition next_down32 :: "fl \<Rightarrow> fl" where
  "next_down32 v = fl_neg (next_up32 (fl_neg v))"

section \<open>A rounding does not cross a representable number\<close>

lemma round_half_even_minus: "round_half_even (- x) = - round_half_even x"
proof -
  define f where "f = \<lfloor>x\<rfloor>"
  define d where "d = x - of_int f"
  have d: "0 \<le> d" "d < 1" and x: "x = of_int f + d"
    by (simp_all add: d_def f_def) linarith
  show ?thesis
  proof (cases "d = 0")
    case True
    then have "x = of_int f" "- x = of_int (- f)" using x by simp_all
    then show ?thesis by (metis round_half_even_of_int)
  next
    case False
    then have fl: "\<lfloor>- x\<rfloor> = - f - 1"
      using d x by (intro floor_unique) auto
    have "- x - of_int \<lfloor>- x\<rfloor> = 1 - d" unfolding fl using x by simp
    then show ?thesis
      unfolding round_half_even_def Let_def using fl
      by (auto simp: f_def [symmetric] d_def [symmetric])
  qed
qed

lemma round_to_minus: "round_to p emin emax (- x) = fl_neg (round_to p emin emax x)"
  by (auto simp: round_to_def Let_def round_half_even_minus abs_minus_cancel simp flip: minus_mult_left)

lemma representable_minus: "representable p emin emax y \<Longrightarrow> representable p emin emax (- y)"
  unfolding representable_def
  by (metis abs_minus_cancel minus_mult_left of_int_minus)

lemma representable_bound:
  assumes "representable p emin emax z"
  shows "\<bar>z\<bar> < 2 powi emax"
proof -
  obtain m e where z: "z = of_int m * 2 powi e" and m: "\<bar>m\<bar> < 2 ^ p" and e: "e \<le> emax - int p"
    using assms by (auto simp: representable_def)
  have "(of_int \<bar>m\<bar> :: rat) < of_int (2 ^ p)" using m by (simp only: of_int_less_iff)
  then have "\<bar>z\<bar> < 2 ^ p * 2 powi e" by (simp add: z abs_mult)
  also have "\<dots> = 2 powi (int p + e)" by (simp add: power_int_add)
  also have "\<dots> \<le> 2 powi emax" using e by (intro power_int_increasing) auto
  finally show ?thesis .
qed

text \<open>A representable number is a multiple of any unit not above its own, or below that unit's range.\<close>

lemma representable_cases:
  assumes "representable p emin emax z" and "emin \<le> e"
  obtains (multiple) n where "z = of_int n * 2 powi e"
    | (small) "emin < e" "\<bar>z\<bar> < 2 powi (e + int p - 1)"
proof -
  obtain m k where z: "z = of_int m * 2 powi k" and m: "\<bar>m\<bar> < 2 ^ p" and k: "emin \<le> k"
    using assms by (auto simp: representable_def)
  show ?thesis
  proof (cases "e \<le> k")
    case True
    then have "(2 :: rat) powi k = 2 ^ nat (k - e) * 2 powi e"
      by (subst power_int_of_nat [symmetric]) (simp flip: power_int_add)
    then have "z = of_int (m * 2 ^ nat (k - e)) * 2 powi e" by (simp add: z)
    then show ?thesis by (rule multiple)
  next
    case False
    have "(of_int \<bar>m\<bar> :: rat) < of_int (2 ^ p)" using m by (simp only: of_int_less_iff)
    then have "\<bar>z\<bar> < 2 ^ p * 2 powi k" by (simp add: z abs_mult)
    also have "\<dots> = 2 powi (int p + k)" by (simp add: power_int_add)
    also have "\<dots> \<le> 2 powi (e + int p - 1)" using False by (intro power_int_increasing) auto
    finally show ?thesis using False k by (intro small) auto
  qed
qed

lemma scale_le: "x \<le> of_int n * 2 powi e \<longleftrightarrow> x * 2 powi (- e) \<le> (of_int n :: rat)"
proof -
  have "x * 2 powi (- e) = x / 2 powi e" by (simp add: power_int_minus field_simps)
  then show ?thesis by (simp add: pos_divide_le_eq)
qed

lemma round_to_le:
  assumes z: "representable p emin emax z" and le: "x \<le> z" and p: "0 < p" and ex: "emin \<le> emax - int p"
  shows "round_to p emin emax x \<le> Fin z"
proof (cases "x = 0")
  case True
  with le show ?thesis by (simp add: round_to_def)
next
  case False
  define e where "e = max emin (rat_log2 \<bar>x\<bar> - int p + 1)"
  define m where "m = round_half_even (x * 2 powi (- e))"
  have zb: "\<bar>z\<bar> < 2 powi emax" by (rule representable_bound [OF z])
  have "emin \<le> e" by (simp add: e_def)
  from z this have mz: "of_int m * 2 powi e \<le> z"
  proof (cases rule: representable_cases)
    case (multiple n)
    then have "m \<le> n" unfolding m_def using le scale_le by (intro round_half_even_le) simp
    then show ?thesis by (simp add: multiple)
  next
    case small
    then have e: "e = rat_log2 \<bar>x\<bar> - int p + 1" by (simp add: e_def)
    have xb: "2 powi (e + int p - 1) \<le> \<bar>x\<bar>"
      using rat_log2_bounds [of "\<bar>x\<bar>"] False by (simp add: e)
    with small le have "x \<le> - (2 powi (e + int p - 1))" by linarith
    moreover have pow: "2 powi (e + int p - 1) = (2 :: rat) ^ (p - 1) * 2 powi e"
      using p by (simp flip: power_int_of_nat power_int_add add: of_nat_diff algebra_simps)
    ultimately have "x \<le> of_int (- (2 ^ (p - 1))) * 2 powi e" by simp
    then have "m \<le> - (2 ^ (p - 1))" unfolding m_def by (intro round_half_even_le) (simp only: scale_le)
    then have "(of_int m :: rat) \<le> of_int (- (2 ^ (p - 1)))" by (simp only: of_int_le_iff)
    then have "of_int m * 2 powi e \<le> of_int (- (2 ^ (p - 1))) * (2 powi e :: rat)"
      by (intro mult_right_mono) auto
    with small pow show ?thesis by simp
  qed
  have noover: False if "0 < x" "emax - int p < e \<or> (e = emax - int p \<and> 2 ^ p \<le> \<bar>m\<bar>)"
    using that(2)
  proof
    assume gt: "emax - int p < e"
    with ex have "e = rat_log2 \<bar>x\<bar> - int p + 1" by (simp add: e_def)
    then have "2 powi (e + int p - 1) \<le> \<bar>x\<bar>"
      using rat_log2_bounds [of "\<bar>x\<bar>"] False by simp
    moreover have "(2 :: rat) powi emax \<le> 2 powi (e + int p - 1)"
      using gt by (intro power_int_increasing) auto
    ultimately show False using zb le that(1) by linarith
  next
    assume big: "e = emax - int p \<and> 2 ^ p \<le> \<bar>m\<bar>"
    have "0 \<le> m" unfolding m_def using that(1) by (intro round_half_even_ge) simp
    with big have "2 ^ p \<le> m" by linarith
    then have "(of_int (2 ^ p) :: rat) \<le> of_int m" by (simp only: of_int_le_iff)
    then have "2 ^ p * 2 powi e \<le> (of_int m * 2 powi e :: rat)" by (intro mult_right_mono) auto
    moreover have "2 ^ p * 2 powi e = (2 :: rat) powi emax"
      using big by (simp flip: power_int_of_nat power_int_add)
    ultimately show False using mz zb by linarith
  qed
  show ?thesis
    unfolding round_to_def Let_def e_def [symmetric] m_def [symmetric]
    using False mz noover by (auto simp: less_eq_fl_def)
qed

lemma round_to_ge:
  assumes "representable p emin emax z" and "z \<le> x" and "0 < p" and "emin \<le> emax - int p"
  shows "Fin z \<le> round_to p emin emax x"
proof -
  have "round_to p emin emax (- x) \<le> Fin (- z)"
    using assms by (intro round_to_le representable_minus) auto
  then show ?thesis
    by (cases "round_to p emin emax x") (auto simp: round_to_minus less_eq_fl_def)
qed

abbreviation rep32 :: "rat \<Rightarrow> bool" where
  "rep32 \<equiv> representable 24 (-149) 128"

lemma rnd32_le: "rep32 z \<Longrightarrow> x \<le> z \<Longrightarrow> rnd32 x \<le> Fin z"
  unfolding rnd32_def by (rule round_to_le) auto

lemma rnd32_ge: "rep32 z \<Longrightarrow> z \<le> x \<Longrightarrow> Fin z \<le> rnd32 x"
  unfolding rnd32_def by (rule round_to_ge) auto

lemma rnd32_rep: "rep32 z \<Longrightarrow> rnd32 z = Fin z"
  unfolding rnd32_def by (rule round_to_of_representable)

lemma rep32_rnd32: "rnd32 x = Fin z \<Longrightarrow> rep32 z"
  unfolding rnd32_def by (rule round_to_representable) auto

lemma rep32_int: "\<bar>n\<bar> < 2 ^ 24 \<Longrightarrow> rep32 (of_int n)"
  unfolding representable_def by (intro exI [of _ n] exI [of _ 0]) simp

lemma rep32_0 [simp]: "rep32 0" and rep32_1 [simp]: "rep32 1"
  using rep32_int [of 0] rep32_int [of 1] by simp_all

text \<open>The finite binary32 values, as the model stores them.\<close>

lemma to_f32_rep: "to_f32 (Fin z) = Fin z \<longleftrightarrow> rep32 z"
  using rnd32_rep rep32_rnd32 by (auto simp: to_f32_def)

lemma float_vector_nth:
  assumes "float_vector n xs" "i < n"
  obtains z where "xs ! i = Fin z" "rep32 z"
proof -
  have "i < length xs" using assms by (simp add: float_vector_def)
  then have "is_finite (xs ! i)" "to_f32 (xs ! i) = xs ! i"
    using assms by (auto simp: float_vector_def list_all_length) (metis nth_map)
  then show ?thesis using that by (auto simp: is_finite_iff to_f32_rep)
qed

lemma float_vectorI:
  assumes "length xs = n" "\<And>i. i < n \<Longrightarrow> \<exists>z. xs ! i = Fin z \<and> rep32 z"
  shows "float_vector n xs"
proof -
  have "is_finite (xs ! i) \<and> to_f32 (xs ! i) = xs ! i" if "i < n" for i
    using assms(2) [OF that] by (auto simp: to_f32_rep)
  with assms(1) show ?thesis by (simp add: float_vector_def list_all_length list_eq_iff_nth_eq)
qed

text \<open>The error of a rounding.\<close>

lemma round_half_even_error: "\<bar>of_int (round_half_even x) - x\<bar> \<le> 1 / 2"
proof -
  have "of_int \<lfloor>x\<rfloor> \<le> x" "x < of_int \<lfloor>x\<rfloor> + 1" by linarith+
  then show ?thesis by (auto simp: round_half_even_def Let_def abs_le_iff)
qed

lemma round_to_error:
  assumes y: "round_to p emin emax x = Fin y"
  shows "\<bar>y - x\<bar> \<le> \<bar>x\<bar> / 2 ^ p + 2 powi (emin - 1)"
proof (cases "x = 0")
  case True
  then show ?thesis using y by (simp add: round_to_def)
next
  case False
  define e where "e = max emin (rat_log2 \<bar>x\<bar> - int p + 1)"
  define m where "m = round_half_even (x * 2 powi (- e))"
  have ym: "y = of_int m * 2 powi e"
    using y False by (auto simp: round_to_def Let_def e_def m_def split: if_splits)
  have x: "x = x * 2 powi (- e) * 2 powi e" by (simp add: power_int_minus)
  have "\<bar>y - x\<bar> = \<bar>of_int m - x * 2 powi (- e)\<bar> * 2 powi e"
    by (subst x) (simp add: ym abs_mult flip: left_diff_distrib)
  also have "\<dots> \<le> 1 / 2 * 2 powi e"
    using round_half_even_error unfolding m_def by (intro mult_right_mono) auto
  also have "\<dots> \<le> \<bar>x\<bar> / 2 ^ p + 2 powi (emin - 1)"
  proof (cases "e = emin")
    case True
    have "1 / 2 * 2 powi e = (2 :: rat) powi (emin - 1)" by (simp add: True power_int_diff)
    then show ?thesis by simp
  next
    case F: False
    then have e: "e = rat_log2 \<bar>x\<bar> - int p + 1" by (auto simp: e_def)
    have "2 powi (e + int p - 1) \<le> \<bar>x\<bar>" using rat_log2_bounds [of "\<bar>x\<bar>"] False by (simp add: e)
    moreover have "2 powi (e + int p - 1) = (2 :: rat) ^ p * (1 / 2 * 2 powi e)"
      by (simp add: power_int_add power_int_diff)
    ultimately have "1 / 2 * 2 powi e \<le> \<bar>x\<bar> / 2 ^ p" by (simp add: field_simps)
    then show ?thesis by (simp add: add_increasing2)
  qed
  finally show ?thesis .
qed

lemma rnd32_error: "rnd32 x = Fin y \<Longrightarrow> \<bar>y - x\<bar> \<le> \<bar>x\<bar> / 2 ^ 24 + 1 / 2 ^ 150"
  using round_to_error [of 24 "-149" 128 x y] by (simp add: rnd32_def power_int_minus field_simps)

section \<open>The neighbour of a binary32 value\<close>

lemma ulp32_multiple:
  assumes "rep32 y"
  obtains n where "y = of_int n * 2 powi ulp32 y"
proof (cases "y = 0")
  case True
  then have "y = of_int 0 * 2 powi ulp32 y" by simp
  then show ?thesis by (rule that)
next
  case False
  have "-149 \<le> ulp32 y" by (simp add: ulp32_def)
  with assms show ?thesis
  proof (cases rule: representable_cases)
    case small
    then have "ulp32 y = rat_log2 \<bar>y\<bar> - 23" by (auto simp: ulp32_def split: if_splits)
    with small rat_log2_bounds [of "\<bar>y\<bar>"] False show ?thesis by simp
  qed (rule that)
qed

lemma ulp32_large: "-149 < ulp32 y \<Longrightarrow> 2 powi (ulp32 y + 23) \<le> \<bar>y\<bar>"
  using rat_log2_bounds [of "\<bar>y\<bar>"] by (auto simp: ulp32_def split: if_splits)

lemma powi_shift: "(2 :: rat) powi (e + 23) = of_int (2 ^ 23) * 2 powi e"
  by (simp add: power_int_add)

lemma powi_half: "(2 :: rat) powi e = of_int 2 * 2 powi (e - 1)"
  by (simp add: power_int_diff)

lemma unit_steps:
  assumes "of_int n * (2 :: rat) powi e < of_int k * 2 powi e"
  shows "of_int n * (2 :: rat) powi e + 2 powi e \<le> of_int k * 2 powi e"
proof -
  have "(of_int n :: rat) < of_int k" using assms by (simp add: mult_less_cancel_right)
  then have "(of_int (n + 1) :: rat) \<le> of_int k" by simp
  then have "of_int (n + 1) * (2 :: rat) powi e \<le> of_int k * 2 powi e" by (intro mult_right_mono) auto
  then show ?thesis by (simp add: algebra_simps)
qed

lemma next_up32_least:
  assumes y: "rep32 y" and z: "rep32 z" and "y < z"
  shows "next_up32 (Fin y) \<le> Fin z"
proof -
  define e where "e = ulp32 y"
  obtain n where n: "y = of_int n * 2 powi e" using ulp32_multiple [OF y] unfolding e_def .
  have e: "-149 \<le> e" by (simp add: e_def ulp32_def)
  show ?thesis
  proof (cases "y < 0 \<and> -149 < e \<and> - y = 2 powi (e + 23)")
    case True
    then have y': "y = of_int (- (2 ^ 24)) * 2 powi (e - 1)"
      by (simp add: power_int_add power_int_diff)
    have e1: "-149 \<le> e - 1" using True by simp
    have "y + 2 powi (e - 1) \<le> z"
      using z e1
    proof (cases rule: representable_cases)
      case (multiple k)
      then show ?thesis using unit_steps \<open>y < z\<close> y' by metis
    next
      case small
      moreover have "(2 :: rat) powi (e - 1 + int 24 - 1) = of_int (2 ^ 23) * 2 powi (e - 1)"
        using powi_shift [of "e - 1"] by (simp add: algebra_simps)
      moreover have "y + 2 powi (e - 1) \<le> - (of_int (2 ^ 23) * 2 powi (e - 1))"
        unfolding y' by (simp add: algebra_simps)
      ultimately show ?thesis by linarith
    qed
    then show ?thesis using True rnd32_le [OF z] by (simp add: next_up32_def Let_def e_def)
  next
    case False
    have "y + 2 powi e \<le> z"
      using z e
    proof (cases rule: representable_cases)
      case (multiple k)
      then show ?thesis using unit_steps \<open>y < z\<close> n by metis
    next
      case small
      then have sz: "\<bar>z\<bar> < 2 powi (e + 23)" by (simp add: algebra_simps)
      have big: "2 powi (e + 23) \<le> \<bar>y\<bar>" using small ulp32_large by (simp add: e_def)
      with sz \<open>y < z\<close> have y': "y \<le> - (2 powi (e + 23))" by linarith
      have "(0 :: rat) < 2 powi (e + 23)" by simp
      with y' have "y < 0" by linarith
      then have "- y \<noteq> 2 powi (e + 23)" using False small by simp
      with y' have "y < - (2 powi (e + 23))" by linarith
      then have "of_int n * 2 powi e < of_int (- (2 ^ 23)) * (2 powi e :: rat)"
        using n powi_shift [of e] by simp
      from unit_steps [OF this] have "y + 2 powi e \<le> - (2 powi (e + 23))"
        using n powi_shift [of e] by simp
      with sz show ?thesis by linarith
    qed
    moreover have "next_up32 (Fin y) = rnd32 (y + 2 powi e)"
      using False by (auto simp: next_up32_def Let_def e_def)
    ultimately show ?thesis using rnd32_le [OF z] by simp
  qed
qed

lemma next_down32_greatest:
  assumes "rep32 y" and "rep32 z" and "z < y"
  shows "Fin z \<le> next_down32 (Fin y)"
proof -
  have "next_up32 (Fin (- y)) \<le> Fin (- z)"
    using assms by (intro next_up32_least representable_minus) auto
  then show ?thesis
    by (cases "next_up32 (Fin (- y))") (auto simp: next_down32_def less_eq_fl_def)
qed

text \<open>The neighbour is a binary32 value or an infinity.\<close>

lemma next_up32_rep: "next_up32 (Fin y) = Fin u \<Longrightarrow> rep32 u"
  using rep32_rnd32 by (auto simp: next_up32_def Let_def split: if_splits)

lemma next_down32_rep:
  assumes "next_down32 (Fin y) = Fin u"
  shows "rep32 u"
proof -
  have "next_up32 (Fin (- y)) = Fin (- u)"
    using assms by (cases "next_up32 (Fin (- y))") (auto simp: next_down32_def)
  then show ?thesis using next_up32_rep representable_minus by fastforce
qed

section \<open>Clips\<close>

lemma np_clip_lower: "x \<noteq> NaN \<Longrightarrow> lo \<noteq> NaN \<Longrightarrow> hi \<noteq> NaN \<Longrightarrow> lo \<le> hi \<Longrightarrow> lo \<le> np_clip x lo hi"
  by (cases x; cases lo; cases hi) (auto simp: np_clip_def np_maximum_def np_minimum_def less_eq_fl_def)

lemma np_clip_upper: "x \<noteq> NaN \<Longrightarrow> lo \<noteq> NaN \<Longrightarrow> hi \<noteq> NaN \<Longrightarrow> np_clip x lo hi \<le> hi"
  by (cases x; cases lo; cases hi) (auto simp: np_clip_def np_maximum_def np_minimum_def less_eq_fl_def)

lemma np_clip_inside: "lo \<le> x \<Longrightarrow> x \<le> hi \<Longrightarrow> np_clip x lo hi = x"
  by (cases x; cases lo; cases hi) (auto simp: np_clip_def np_maximum_def np_minimum_def less_eq_fl_def)

lemma np_clip_not_NaN: "x \<noteq> NaN \<Longrightarrow> lo \<noteq> NaN \<Longrightarrow> hi \<noteq> NaN \<Longrightarrow> np_clip x lo hi \<noteq> NaN"
  by (auto simp: np_clip_def np_maximum_def np_minimum_def)

lemma np_clip_Fin [simp]: "np_clip (Fin x) (Fin lo) (Fin hi) = Fin (min hi (max lo x))"
  by (auto simp: np_clip_def np_maximum_def np_minimum_def min_def max_def)

lemma np_clip_finite:
  assumes "x \<noteq> NaN"
  shows "\<exists>z. np_clip x (Fin lo) (Fin hi) = Fin z \<and> (z = lo \<or> z = hi \<or> x = Fin z)"
  using assms by (cases x) (auto simp: np_clip_def np_maximum_def np_minimum_def less_eq_fl_def)

end
