(* ===== verification/Action_Mapper.thy ===== *)
theory Action_Mapper
  imports Binary32
begin

text \<open>
  The action mapping of \<open>sim2real/contracts/actions.py\<close>: the joint-limit contraction and its
  inward binary32 representation, and \<open>V94ActionMapper\<close>, which turns a 13-D policy action into
  a Franka joint target and an RH56 register target. Arrays are lists of \<open>fl\<close>; a \<open>float32\<close>
  array holds binary32 values. The scalar parameters are Python floats, as annotated.
\<close>

section \<open>Constants\<close>

definition POLICY_HAND_ORDER :: "string list" where
  "POLICY_HAND_ORDER = [''thumb_rotation'', ''thumb_bending'', ''index'', ''middle'', ''ring'', ''little'']"

definition REGISTER_HAND_ORDER :: "string list" where
  "REGISTER_HAND_ORDER = [''little'', ''ring'', ''middle'', ''index'', ''thumb_bending'', ''thumb_rotation'']"

definition LEGACY_CONTRACT :: string where
  "LEGACY_CONTRACT = ''v94_inspire_semantic_13d''"

definition QD_CONTRACT :: string where
  "QD_CONTRACT = ''franka_inspire_qd_g015_student_controller_v1''"

definition QD_ARM_GAIN :: fl where
  "QD_ARM_GAIN = to_f32 (rnd64 (6 / 100))"

section \<open>Joint limits\<close>

text \<open>An array of shape \<open>(n, 2)\<close>, or of another shape.\<close>

datatype limits_arg = Limits "(fl \<times> fl) list" | OtherLimits

definition contracted_joint_limits_float64 :: "limits_arg \<Rightarrow> pyval \<Rightarrow> exn + (fl \<times> fl) list" where
  "contracted_joint_limits_float64 limits0 margin0 =
     (let shape = Inl (Exn ValueError ''joint_limits_rad must have finite shape (7,2)'');
          bad_margin = Exn ValueError ''joint limit margin must be finite and non-negative''
      in case limits0 of
           OtherLimits \<Rightarrow> shape
         | Limits source \<Rightarrow>
             if length source \<noteq> 7 \<or> \<not> list_all (\<lambda>(l, u). is_finite l \<and> is_finite u) source then shape
             else if list_ex (\<lambda>(l, u). u \<le> l) source
             then Inl (Exn ValueError ''joint_limits_rad lower bounds must be below upper bounds'')
             else res_bind (float_or margin0 bad_margin) (\<lambda>margin.
               if \<not> is_finite margin \<or> margin < 0 then Inl bad_margin
               else
                 let contracted = map (\<lambda>(l, u). (l + margin, u - margin)) source
                 in if list_ex (\<lambda>(l, u). u \<le> l) contracted
                    then Inl (Exn ValueError ''joint limit margin consumes a joint interval'')
                    else Inr contracted))"

definition inward_float32_joint_limits :: "limits_arg \<Rightarrow> pyval \<Rightarrow> exn + (fl \<times> fl) list" where
  "inward_float32_joint_limits limits0 margin0 =
     res_bind (contracted_joint_limits_float64 limits0 margin0) (\<lambda>contracted.
       let limits = map (\<lambda>(l, u). (to_f32 l, to_f32 u)) contracted
       in if \<not> list_all (\<lambda>(l, u). is_finite l \<and> is_finite u) limits
          then Inl (Exn ValueError ''joint_limits_rad cannot be represented as finite float32'')
          else
            let moved = map (\<lambda>((cl, cu), (l, u)). (if l < cl then next_up32 l else l,
                                                   if cu < u then next_down32 u else u))
                          (zip contracted limits)
            in if \<not> list_all (\<lambda>(l, u). is_finite l \<and> is_finite u) moved \<or>
                  list_ex (\<lambda>((cl, cu), (l, u)). u \<le> l \<or> l < cl \<or> cu < u) (zip contracted moved)
               then Inl (Exn ValueError ''joint limits have no safe float32 representation'')
               else Inr moved)"

section \<open>Construction\<close>

text \<open>\<open>repr\<close> of a string of Latin-1 characters.\<close>

definition hex_char :: "int \<Rightarrow> char" where
  "hex_char d = (if d < 10 then digit_char d else char_of (87 + d))"

definition repr_char :: "char \<Rightarrow> char \<Rightarrow> string" where
  "repr_char q c =
     (let n = (of_char c :: int)
      in if c = q \<or> n = 92 then [char_of (92 :: int), c]
         else if n = 9 then [char_of (92 :: int), CHR ''t'']
         else if n = 10 then [char_of (92 :: int), CHR ''n'']
         else if n = 13 then [char_of (92 :: int), CHR ''r'']
         else if n < 32 \<or> (127 \<le> n \<and> n \<le> 160) \<or> n = 173
         then [char_of (92 :: int), CHR ''x'', hex_char (n div 16), hex_char (n mod 16)]
         else [c])"

definition repr_str :: "string \<Rightarrow> string" where
  "repr_str s =
     (let single = char_of (39 :: int); double = char_of (34 :: int);
          q = (if single \<in> set s \<and> double \<notin> set s then double else single)
      in [q] @ concat (map (repr_char q) s) @ [q])"

definition normalize_franka_action_contract_id :: "string \<Rightarrow> exn + string" where
  "normalize_franka_action_contract_id value =
     (let contract_id = py_strip value
      in if contract_id \<noteq> LEGACY_CONTRACT \<and> contract_id \<noteq> QD_CONTRACT
         then Inl (Exn ValueError (''unsupported Franka action contract: '' @ repr_str contract_id))
         else Inr contract_id)"

record mapper_params =
  mp_envelope :: fl
  mp_gain :: fl
  mp_alpha :: fl
  mp_hand_alpha :: "fl option"
  mp_arm_step :: fl
  mp_hand_step :: fl

record action_mapper =
  am_contract :: string
  am_arm :: "fl list"
  am_hand :: "fl list"
  am_limits :: "(fl \<times> fl) list"
  am_close :: "fl list"
  am_envelope :: fl
  am_gain :: fl
  am_alpha :: fl
  am_hand_alpha :: fl
  am_arm_step :: fl
  am_hand_step :: fl

definition make_action_mapper ::
    "ndarray \<Rightarrow> ndarray \<Rightarrow> limits_arg \<Rightarrow> ndarray \<Rightarrow> mapper_params \<Rightarrow> string \<Rightarrow> exn + action_mapper" where
  "make_action_mapper arm0 hand0 limits0 close0 mp contract0 =
     res_bind (normalize_franka_action_contract_id contract0) (\<lambda>contract.
     res_bind (readonly_float_vector arm0 7 ''initial_arm_target_q_rad'') (\<lambda>arm.
     res_bind (readonly_float_vector hand0 6 ''initial_hand_target_q_policy_order_rad'') (\<lambda>hand.
     res_bind (inward_float32_joint_limits limits0 (PyFloat (Fin 0))) (\<lambda>limits.
     res_bind (readonly_float_vector close0 6 ''q_hand_close_rad'') (\<lambda>close.
       let hand_alpha = (case mp_hand_alpha mp of None \<Rightarrow> mp_alpha mp | Some a \<Rightarrow> a);
           arm_scalars = [mp_envelope mp, mp_gain mp, mp_alpha mp, mp_arm_step mp];
           positive = (\<lambda>x. is_finite x \<and> 0 < x)
       in if list_ex (\<lambda>x. x \<le> 0) close then Inl (Exn ValueError ''q_hand_close_rad must be positive'')
          else if \<not> list_all positive [hand_alpha, mp_hand_step mp]
          then Inl (Exn ValueError ''action mapper limits must be finite and positive'')
          else if contract = LEGACY_CONTRACT \<and> \<not> list_all positive arm_scalars
          then Inl (Exn ValueError ''action mapper limits must be finite and positive'')
          else if contract \<noteq> LEGACY_CONTRACT \<and> \<not> list_all is_finite arm_scalars
          then Inl (Exn ValueError ''q_d-relative arm mapper parameters must be finite'')
          else if 1 < mp_alpha mp \<or> 1 < hand_alpha
          then Inl (Exn ValueError ''target filter alpha must not exceed one'')
          else Inr \<lparr>am_contract = contract, am_arm = arm, am_hand = hand, am_limits = limits,
                    am_close = close, am_envelope = to_f32 (mp_envelope mp), am_gain = to_f32 (mp_gain mp),
                    am_alpha = to_f32 (mp_alpha mp), am_hand_alpha = to_f32 hand_alpha,
                    am_arm_step = to_f32 (mp_arm_step mp), am_hand_step = to_f32 (mp_hand_step mp)\<rparr>)))))"

section \<open>The mapping\<close>

definition low_pass :: "fl \<Rightarrow> fl \<Rightarrow> fl \<Rightarrow> fl" where
  "low_pass alpha raw previous = f32_add (f32_mul alpha raw) (f32_mul (f32_sub 1 alpha) previous)"

definition if_changed :: "fl list \<Rightarrow> fl list \<Rightarrow> string \<Rightarrow> string list" where
  "if_changed xs ys reason = (if array_equal xs ys then [] else [reason])"

definition qd_arm_target :: "action_mapper \<Rightarrow> fl list \<Rightarrow> fl list \<Rightarrow> fl list \<times> string list" where
  "qd_arm_target a executed q_d =
     (let next = map2 (\<lambda>q x. f32_add q (f32_mul QD_ARM_GAIN x)) q_d (take 7 executed);
          bounded = map2 (\<lambda>x (l, u). np_clip x l u) next (am_limits a)
      in (bounded, if_changed bounded next ''Franka joint-limit interval clipped''))"

text \<open>The interval the legacy contract clips an axis to.\<close>

definition safe_lower :: "action_mapper \<Rightarrow> fl list \<Rightarrow> fl list" where
  "safe_lower a measured = map2 (\<lambda>(l, u) m. np_maximum l (f32_sub m (am_envelope a))) (am_limits a) measured"

definition safe_upper :: "action_mapper \<Rightarrow> fl list \<Rightarrow> fl list" where
  "safe_upper a measured = map2 (\<lambda>(l, u) m. np_minimum u (f32_add m (am_envelope a))) (am_limits a) measured"

definition legacy_arm_target :: "action_mapper \<Rightarrow> fl list \<Rightarrow> fl list \<Rightarrow> fl list \<times> string list" where
  "legacy_arm_target a executed measured =
     (let previous = am_arm a;
          raw = map2 (\<lambda>p x. f32_add p (f32_mul (am_gain a) x)) previous (take 7 executed);
          filtered = map2 (low_pass (am_alpha a)) raw previous;
          change = map2 f32_sub filtered previous;
          delta = map (\<lambda>d. np_clip d (- am_arm_step a) (am_arm_step a)) change;
          next = map2 f32_add previous delta;
          bounded = map2 (\<lambda>x (l, u). np_clip x l u) next (zip (safe_lower a measured) (safe_upper a measured))
      in (bounded, if_changed delta change ''Franka per-tick target step clipped''
                   @ if_changed bounded next ''Franka measured-q/joint-limit envelope clipped''))"

definition next_arm_target ::
    "action_mapper \<Rightarrow> fl list \<Rightarrow> fl list \<Rightarrow> ndarray option \<Rightarrow> exn + fl list \<times> string list" where
  "next_arm_target a executed measured shaper0 =
     (if am_contract a = QD_CONTRACT
      then (case shaper0 of
              None \<Rightarrow> Inl (Exn ValueError ''q_d g015 Franka action mapping requires shaper_q_d_rad'')
            | Some v \<Rightarrow> res_bind (readonly_float_vector v 7 ''shaper_q_d_rad'') (\<lambda>q_d.
                          Inr (qd_arm_target a executed q_d)))
      else Inr (legacy_arm_target a executed measured))"

definition next_hand_target :: "action_mapper \<Rightarrow> fl list \<Rightarrow> fl list \<times> string list" where
  "next_hand_target a executed =
     (let fraction = map (\<lambda>x. np_clip (f32_mul (f32_add x 1) (Fin (1 / 2))) 0 1) (drop 7 executed);
          raw = map2 f32_mul fraction (am_close a);
          previous = am_hand a;
          filtered = map2 (low_pass (am_hand_alpha a)) raw previous;
          change = map2 f32_sub filtered previous;
          delta = map (\<lambda>d. np_clip d (- am_hand_step a) (am_hand_step a)) change;
          moved = map2 f32_add previous delta;
          next = map2 (\<lambda>x c. np_clip x 0 c) moved (am_close a)
      in (next, if_changed delta change ''RH56 virtual target step clipped''
                @ if_changed next moved ''RH56 semantic joint limits clipped''))"

fun np_rint :: "fl \<Rightarrow> fl" where
  "np_rint (Fin x) = Fin (of_int (round_half_even x))"
| "np_rint x = x"

definition hand_register :: "fl \<Rightarrow> fl \<Rightarrow> int" where
  "hand_register h c = cast_int32 (np_rint (f32_mul (Fin 1000) (f32_sub 1 (f32_div h c))))"

definition policy_to_register_order :: "int list \<Rightarrow> exn + int list" where
  "policy_to_register_order policy =
     (if length policy \<noteq> 6 then Inl (Exn ValueError ''policy-order hand vector must have shape (6,)'')
      else Inr (map (\<lambda>name. the (map_of (zip POLICY_HAND_ORDER policy) name)) REGISTER_HAND_ORDER))"

definition executed_action :: "fl list \<Rightarrow> bool \<Rightarrow> fl list \<times> string list" where
  "executed_action raw hold =
     (let bounded = map (\<lambda>x. np_clip x (Fin (-1)) (Fin 1)) raw
      in (if hold then replicate 7 (Fin 0) @ drop 7 bounded else bounded,
          if_changed bounded raw ''policy action clipped to [-1,1]''
          @ (if hold \<and> list_ex (\<lambda>x. x \<noteq> Fin 0) (take 7 bounded)
             then [''external hold gate zeroed Franka action''] else [])))"

definition map_action :: "ndarray \<Rightarrow> ndarray \<Rightarrow> ndarray option \<Rightarrow> bool \<Rightarrow> (action_mapper, mapped_action) op" where
  "map_action action0 measured0 shaper0 hold a =
     (case res_bind (readonly_float_vector action0 13 ''action13'') (\<lambda>raw.
           res_bind (readonly_float_vector measured0 7 ''measured_q_rad'') (\<lambda>measured.
           res_bind (next_arm_target a (fst (executed_action raw hold)) measured shaper0) (\<lambda>arm.
             Inr (raw, arm)))) of
        Inl e \<Rightarrow> (Inl e, a)
      | Inr (raw, (arm, arm_reasons)) \<Rightarrow>
          (let (executed, action_reasons) = executed_action raw hold;
               (hand, hand_reasons) = next_hand_target a executed;
               a' = a\<lparr>am_arm := arm, am_hand := hand\<rparr>;
               reasons = action_reasons @ arm_reasons @ hand_reasons
           in case policy_to_register_order (map2 hand_register hand (am_close a)) of
                Inl e \<Rightarrow> (Inl e, a')
              | Inr registers \<Rightarrow>
                  if list_ex (\<lambda>n. n < 0) registers \<or> list_ex (\<lambda>n. 1000 < n) registers
                  then (Inl (Exn RuntimeError ''mapped RH56 register target is outside [0,1000]''), a')
                  else (Inr \<lparr>raw_policy_action13 = raw, executed_policy_action13 = executed,
                             franka_target_q_rad = arm, rh56_target_q_policy_order_rad = hand,
                             rh56_angle_set_register_order = registers, clipped = (reasons \<noteq> []),
                             reasons = reasons, hold_arm_target = hold\<rparr>, a')))"

end
