(* ===== verification/Action_Mapper_Proofs.thy ===== *)
theory Action_Mapper_Proofs
  imports Action_Mapper
begin

text \<open>
  What \<open>V94ActionMapper\<close> guarantees: the inward joint limits are the tightest binary32
  interval inside the contract, the hand target stays in its semantic interval and always
  converts to valid registers, and the arm target obeys the interval its contract names.
\<close>

section \<open>Rounded results\<close>

lemma rnd32_not_NaN [simp]: "rnd32 x \<noteq> NaN"
  by (simp add: rnd32_def round_to_def Let_def)

lemma f32_add_not_NaN:
  "x \<noteq> NaN \<Longrightarrow> f32_add (Fin p) x \<noteq> NaN" "x \<noteq> NaN \<Longrightarrow> f32_add x (Fin p) \<noteq> NaN"
  by (cases x; simp add: f32_add_def)+

lemma f32_sub_not_NaN: "x \<noteq> NaN \<Longrightarrow> f32_sub x (Fin p) \<noteq> NaN"
  by (cases x) (simp_all add: f32_sub_def)

lemma rnd32_abs_le:
  assumes "rep32 z" and "\<bar>x\<bar> \<le> z"
  shows "\<exists>w. rnd32 x = Fin w \<and> \<bar>w\<bar> \<le> z \<and> rep32 w"
proof -
  have "rnd32 x \<le> Fin z" "Fin (- z) \<le> rnd32 x"
    using assms rnd32_le [of z x] rnd32_ge [of "- z" x] representable_minus by auto
  then show ?thesis by (cases "rnd32 x") (auto simp: less_eq_fl_def dest: rep32_rnd32)
qed

lemma rnd32_between:
  assumes "rep32 a" "rep32 b" "a \<le> x" "x \<le> b"
  shows "\<exists>w. rnd32 x = Fin w \<and> a \<le> w \<and> w \<le> b \<and> rep32 w"
  using rnd32_le [of b x] rnd32_ge [of a x] assms
  by (cases "rnd32 x") (auto simp: less_eq_fl_def dest: rep32_rnd32)

text \<open>A factor between zero and one does not enlarge a binary32 value.\<close>

lemma f32_mul_shrinks:
  assumes "rep32 y" "0 \<le> f" "f \<le> 1"
  shows "\<exists>w. f32_mul (Fin f) (Fin y) = Fin w \<and> \<bar>w\<bar> \<le> \<bar>y\<bar> \<and> rep32 w"
proof -
  have "rep32 \<bar>y\<bar>" using assms(1) representable_minus by (simp add: abs_if)
  moreover have "\<bar>f * y\<bar> \<le> \<bar>y\<bar>" using assms(2,3) by (simp add: abs_mult mult_left_le_one_le)
  ultimately show ?thesis using rnd32_abs_le by (simp add: f32_mul_def)
qed

lemma low_pass_not_NaN:
  assumes "0 \<le> \<alpha>" "\<alpha> \<le> 1" "rep32 r" "rep32 p"
  shows "low_pass (Fin \<alpha>) (Fin r) (Fin p) \<noteq> NaN"
proof -
  obtain b where b: "f32_sub 1 (Fin \<alpha>) = Fin b" "0 \<le> b" "b \<le> 1"
    using rnd32_between [of 0 1 "1 - \<alpha>"] assms by (auto simp: f32_sub_def one_fl_def)
  then show ?thesis
    using f32_mul_shrinks [OF assms(3), of \<alpha>] f32_mul_shrinks [OF assms(4), of b] assms
    by (auto simp: low_pass_def f32_add_def)
qed

section \<open>Joint limits\<close>

lemma contracted_Inr:
  assumes "contracted_joint_limits_float64 (Limits ps) margin0 = Inr c"
  obtains m where "length ps = 7" "length c = 7" "py_float margin0 = Inr (Fin m)" "0 \<le> m"
    "c = map (\<lambda>(l, u). (l + Fin m, u - Fin m)) ps"
    "\<And>i. i < 7 \<Longrightarrow> is_finite (fst (ps ! i)) \<and> is_finite (snd (ps ! i)) \<and> \<not> snd (c ! i) \<le> fst (c ! i)"
proof -
  from assms obtain x where x: "py_float margin0 = Inr x" "is_finite x" "\<not> x < 0"
    and ps: "length ps = 7" "list_all (\<lambda>(l, u). is_finite l \<and> is_finite u) ps"
    and c: "c = map (\<lambda>(l, u). (l + x, u - x)) ps" "\<not> list_ex (\<lambda>(l, u). u \<le> l) c"
    by (auto simp: contracted_joint_limits_float64_def Let_def res_bind_Inr_iff dest!: float_or_Inr
        split: if_splits)
  moreover from x obtain m where "x = Fin m" "0 \<le> m" by (auto simp: is_finite_iff zero_fl_def)
  ultimately show ?thesis
    by (intro that [of m]) (auto simp: list_all_length list_ex_length case_prod_unfold)
qed

text \<open>The tightest binary32 interval inside a binary64 one.\<close>

definition tightest32 :: "fl \<times> fl \<Rightarrow> fl \<times> fl \<Rightarrow> bool" where
  "tightest32 c b =
     (\<exists>l u. b = (Fin l, Fin u) \<and> rep32 l \<and> rep32 u \<and> l < u \<and> fst c \<le> Fin l \<and> Fin u \<le> snd c \<and>
       (\<forall>z. rep32 z \<longrightarrow> fst c \<le> Fin z \<longrightarrow> l \<le> z) \<and> (\<forall>z. rep32 z \<longrightarrow> Fin z \<le> snd c \<longrightarrow> z \<le> u))"

lemma inward_lower:
  assumes "to_f32 (Fin c) = Fin r" and "(if Fin r < Fin c then next_up32 (Fin r) else Fin r) = Fin l"
    and "rep32 z" and "c \<le> z"
  shows "l \<le> z"
proof -
  have r: "rep32 r" "rnd32 c = Fin r" using assms(1) rep32_rnd32 by (auto simp: to_f32_def)
  show ?thesis
  proof (cases "r < c")
    case True
    then show ?thesis using next_up32_least [OF r(1) assms(3)] assms by simp
  next
    case False
    then show ?thesis using rnd32_le [OF assms(3,4)] r assms(2) by simp
  qed
qed

lemma inward_upper:
  assumes "to_f32 (Fin c) = Fin r" and "(if Fin c < Fin r then next_down32 (Fin r) else Fin r) = Fin u"
    and "rep32 z" and "z \<le> c"
  shows "z \<le> u"
proof -
  have r: "rep32 r" "rnd32 c = Fin r" using assms(1) rep32_rnd32 by (auto simp: to_f32_def)
  show ?thesis
  proof (cases "c < r")
    case True
    then show ?thesis using next_down32_greatest [OF r(1) assms(3)] assms by simp
  next
    case False
    then show ?thesis using rnd32_ge [OF assms(3,4)] r assms(2) by simp
  qed
qed

lemma to_f32_finite: "is_finite (to_f32 x) \<Longrightarrow> \<exists>c r. x = Fin c \<and> to_f32 x = Fin r \<and> rep32 r"
  by (cases x) (auto simp: to_f32_def is_finite_iff dest: rep32_rnd32)

lemma moved_tightest:
  assumes "is_finite (to_f32 cl)" "is_finite (to_f32 cu)"
    and l: "l = (if to_f32 cl < cl then next_up32 (to_f32 cl) else to_f32 cl)"
    and u: "u = (if cu < to_f32 cu then next_down32 (to_f32 cu) else to_f32 cu)"
    and fin: "is_finite l" "is_finite u" and safe: "\<not> (u \<le> l \<or> l < cl \<or> cu < u)"
  shows "tightest32 (cl, cu) (l, u)"
proof -
  obtain a r where a: "cl = Fin a" "to_f32 cl = Fin r" "rep32 r" using to_f32_finite assms(1) by metis
  obtain b t where b: "cu = Fin b" "to_f32 cu = Fin t" "rep32 t" using to_f32_finite assms(2) by metis
  obtain x y where xy: "l = Fin x" "u = Fin y" using fin by (auto simp: is_finite_iff)
  have "rep32 x" using l xy(1) a next_up32_rep by (auto split: if_splits)
  moreover have "rep32 y" using u xy(2) b next_down32_rep by (auto split: if_splits)
  moreover have "\<forall>z. rep32 z \<longrightarrow> a \<le> z \<longrightarrow> x \<le> z"
    using inward_lower [of a r x] l xy(1) a by (metis fl_less_Fin)
  moreover have "\<forall>z. rep32 z \<longrightarrow> z \<le> b \<longrightarrow> z \<le> y"
    using inward_upper [of b t y] u xy(2) b by (metis fl_less_Fin)
  ultimately show ?thesis
    using safe by (auto simp: tightest32_def xy a(1) b(1) not_le not_less)
qed

lemma inward_limits:
  assumes "inward_float32_joint_limits ps m = Inr bs"
  obtains c where "contracted_joint_limits_float64 ps m = Inr c" "length c = 7" "length bs = 7"
    "\<And>i. i < 7 \<Longrightarrow> tightest32 (c ! i) (bs ! i)"
proof -
  let ?f = "\<lambda>((cl, cu), (l, u)). (if l < cl then next_up32 l else l, if cu < u then next_down32 u else u)"
  from assms obtain c where c: "contracted_joint_limits_float64 ps m = Inr c"
    and fin: "list_all (\<lambda>(l, u). is_finite l \<and> is_finite u) (map (\<lambda>(l, u). (to_f32 l, to_f32 u)) c)"
    and bs: "bs = map ?f (zip c (map (\<lambda>(l, u). (to_f32 l, to_f32 u)) c))"
    and ok: "list_all (\<lambda>(l, u). is_finite l \<and> is_finite u) bs"
      "\<not> list_ex (\<lambda>((cl, cu), (l, u)). u \<le> l \<or> l < cl \<or> cu < u) (zip c bs)"
    by (auto simp: inward_float32_joint_limits_def res_bind_Inr_iff Let_def split: if_splits)
  obtain ps' where "ps = Limits ps'"
    using c by (cases ps) (auto simp: contracted_joint_limits_float64_def)
  with c have len: "length c = 7" by (auto elim: contracted_Inr)
  moreover from this bs have len': "length bs = 7" by simp
  moreover have "tightest32 (c ! i) (bs ! i)" if i: "i < 7" for i
  proof -
    obtain cl cu where ci: "c ! i = (cl, cu)" by fastforce
    obtain l u where bi: "bs ! i = (l, u)" by fastforce
    have "zip c bs ! i = ((cl, cu), (l, u))" "i < length (zip c bs)" using i len len' ci bi by simp_all
    then have "\<not> (u \<le> l \<or> l < cl \<or> cu < u)" using ok(2) by (force simp: list_ex_length)
    moreover have "is_finite l" "is_finite u" using ok(1) i len' bi by (force simp: list_all_length)+
    moreover have "is_finite (to_f32 cl)" "is_finite (to_f32 cu)"
      using fin i len ci by (force simp: list_all_length)+
    moreover have "l = (if to_f32 cl < cl then next_up32 (to_f32 cl) else to_f32 cl)"
      "u = (if cu < to_f32 cu then next_down32 (to_f32 cu) else to_f32 cu)"
      using bi i len ci by (simp_all add: bs)
    ultimately show ?thesis unfolding ci bi by (intro moved_tightest)
  qed
  ultimately show ?thesis using c that by blast
qed

text \<open>C32. The float32 joint limits are the tightest ones inside the contract: whenever the function
  returns, every endpoint is a binary32 number inside the margin-contracted binary64 interval,
  the intervals are not empty, and no binary32 number of the contracted interval is left outside.\<close>

theorem inward_limits_are_tightest:
  assumes "inward_float32_joint_limits (Limits ps) margin0 = Inr bs"
  shows "\<exists>m. py_float margin0 = Inr (Fin m) \<and> 0 \<le> m \<and> length bs = 7 \<and>
    (\<forall>i < 7. tightest32 (fst (ps ! i) + Fin m, snd (ps ! i) - Fin m) (bs ! i))"
  using assms
proof (rule inward_limits)
  fix c
  assume c: "contracted_joint_limits_float64 (Limits ps) margin0 = Inr c" and "length bs = 7"
    and t: "\<And>i. i < 7 \<Longrightarrow> tightest32 (c ! i) (bs ! i)"
  from c obtain m where "py_float margin0 = Inr (Fin m)" "0 \<le> m" "length ps = 7"
    "c = map (\<lambda>(l, u). (l + Fin m, u - Fin m)) ps"
    by (rule contracted_Inr)
  with t \<open>length bs = 7\<close> show ?thesis by (auto simp: case_prod_unfold)
qed

section \<open>The hand target\<close>

text \<open>The fixed part of a mapper that the hand depends on, and a hand target in its interval.\<close>

definition hand_config :: "action_mapper \<Rightarrow> bool" where
  "hand_config a =
     (float_vector 6 (am_close a) \<and> (\<forall>i < 6. 0 < am_close a ! i) \<and>
      (\<exists>\<alpha>. am_hand_alpha a = Fin \<alpha> \<and> 0 \<le> \<alpha> \<and> \<alpha> \<le> 1) \<and> am_hand_step a \<noteq> NaN)"

definition hand_in_range :: "fl list \<Rightarrow> fl list \<Rightarrow> bool" where
  "hand_in_range close hs =
     (length hs = 6 \<and>
      (\<forall>i < 6. \<exists>h c. hs ! i = Fin h \<and> close ! i = Fin c \<and> rep32 h \<and> 0 \<le> h \<and> h \<le> c \<and> 0 < c))"

lemma hand_in_range_vector: "hand_in_range close hs \<Longrightarrow> float_vector 6 hs"
  unfolding hand_in_range_def float_vector_def
  by (auto simp: list_all_length list_eq_iff_nth_eq to_f32_rep)

lemma fl_neg_not_NaN: "x \<noteq> NaN \<Longrightarrow> - x \<noteq> (NaN :: fl)"
  by (cases x) (simp_all add: uminus_fl_def)

text \<open>One axis of the hand target.\<close>

definition hand_axis :: "fl \<Rightarrow> fl \<Rightarrow> fl \<Rightarrow> fl \<Rightarrow> fl \<Rightarrow> fl" where
  "hand_axis \<alpha> step x c p =
     np_clip (f32_add p (np_clip (f32_sub (low_pass \<alpha> (f32_mul
       (np_clip (f32_mul (f32_add x 1) (Fin (1 / 2))) 0 1) c) p) p) (- step) step)) 0 c"

lemma next_hand_nth:
  assumes "length executed = 13" "length (am_close a) = 6" "length (am_hand a) = 6" "i < 6"
  shows "fst (next_hand_target a executed) ! i =
    hand_axis (am_hand_alpha a) (am_hand_step a) (executed ! (7 + i)) (am_close a ! i) (am_hand a ! i)"
  using assms by (simp add: next_hand_target_def hand_axis_def Let_def)

lemma next_hand_length:
  assumes "length executed = 13" "length (am_close a) = 6" "length (am_hand a) = 6"
  shows "length (fst (next_hand_target a executed)) = 6"
  using assms by (simp add: next_hand_target_def Let_def)

lemma np_clip_unit: "x \<noteq> NaN \<Longrightarrow> \<exists>f. np_clip x 0 1 = Fin f \<and> 0 \<le> f \<and> f \<le> 1"
  by (cases x) (auto simp: np_clip_def np_maximum_def np_minimum_def zero_fl_def one_fl_def less_eq_fl_def)

lemma hand_axis_in_range:
  assumes "0 \<le> \<alpha>" "\<alpha> \<le> 1" "step \<noteq> NaN" "rep32 c" "0 < c" "rep32 p"
  shows "\<exists>h. hand_axis (Fin \<alpha>) step (Fin x) (Fin c) (Fin p) = Fin h \<and> rep32 h \<and> 0 \<le> h \<and> h \<le> c"
proof -
  have "f32_mul (f32_add (Fin x) 1) (Fin (1 / 2)) \<noteq> NaN"
    by (cases "rnd32 (x + 1)") (simp_all add: f32_add_def f32_mul_def one_fl_def fl_inf_of_sgn_def)
  then obtain f where f: "np_clip (f32_mul (f32_add (Fin x) 1) (Fin (1 / 2))) 0 1 = Fin f" "0 \<le> f" "f \<le> 1"
    using np_clip_unit by blast
  obtain r where r: "f32_mul (Fin f) (Fin c) = Fin r" "rep32 r"
    using f32_mul_shrinks [OF assms(4) f(2,3)] by auto
  let ?d = "np_clip (f32_sub (low_pass (Fin \<alpha>) (Fin r) (Fin p)) (Fin p)) (- step) step"
  have "?d \<noteq> NaN"
    using low_pass_not_NaN [OF assms(1,2) r(2) assms(6)] assms(3)
    by (intro np_clip_not_NaN f32_sub_not_NaN fl_neg_not_NaN)
  then have m: "f32_add (Fin p) ?d \<noteq> NaN" by (rule f32_add_not_NaN)
  let ?m = "f32_add (Fin p) ?d"
  have eq: "hand_axis (Fin \<alpha>) step (Fin x) (Fin c) (Fin p) = np_clip ?m 0 (Fin c)"
    by (simp add: hand_axis_def f r)
  obtain z where z: "np_clip ?m (Fin 0) (Fin c) = Fin z" "z = 0 \<or> z = c \<or> ?m = Fin z"
    using np_clip_finite [OF m] by blast
  have "rep32 w" if "?m = Fin w" for w
    using that rep32_rnd32 by (cases ?d) (auto simp: f32_add_def)
  with z(2) assms(4) have "rep32 z" by auto
  moreover have "Fin 0 \<le> np_clip ?m (Fin 0) (Fin c)" "np_clip ?m (Fin 0) (Fin c) \<le> Fin c"
    using m assms(5) by (auto intro!: np_clip_lower np_clip_upper)
  ultimately show ?thesis using z(1) by (simp add: eq zero_fl_def)
qed

lemma next_hand_in_range:
  assumes "hand_config a" "float_vector 6 (am_hand a)" "length executed = 13" "list_all is_finite executed"
  shows "hand_in_range (am_close a) (fst (next_hand_target a executed))"
proof -
  obtain \<alpha> where \<alpha>: "am_hand_alpha a = Fin \<alpha>" "0 \<le> \<alpha>" "\<alpha> \<le> 1"
    using assms(1) by (auto simp: hand_config_def)
  have len: "length (am_close a) = 6" "length (am_hand a) = 6"
    using assms(1,2) by (simp_all add: hand_config_def float_vector_def)
  have "\<exists>h c. fst (next_hand_target a executed) ! i = Fin h \<and> am_close a ! i = Fin c \<and> rep32 h \<and>
      0 \<le> h \<and> h \<le> c \<and> 0 < c" if i: "i < 6" for i
  proof -
    obtain c where c: "am_close a ! i = Fin c" "rep32 c" "0 < c"
      using float_vector_nth [of 6 "am_close a" i] assms(1) i
      by (auto simp: hand_config_def zero_fl_def) (metis fl_less_Fin)
    obtain p where p: "am_hand a ! i = Fin p" "rep32 p"
      using float_vector_nth [OF assms(2) i] .
    obtain x where x: "executed ! (7 + i) = Fin x"
      using assms(3,4) i by (force simp: list_all_length is_finite_iff)
    show ?thesis
      using hand_axis_in_range [OF \<alpha>(2,3) _ c(2,3) p(2), of "am_hand_step a" x] assms(1)
      by (simp add: next_hand_nth [OF assms(3) len i] \<alpha>(1) c p(1) x hand_config_def)
  qed
  with next_hand_length [OF assms(3) len] show ?thesis by (simp add: hand_in_range_def)
qed

section \<open>Registers\<close>

lemma policy_to_register_order_rev:
  "length ns = 6 \<Longrightarrow> policy_to_register_order ns = Inr (rev ns)"
  by (auto simp: policy_to_register_order_def POLICY_HAND_ORDER_def REGISTER_HAND_ORDER_def
      numeral_eq_Suc length_Suc_conv)

lemma rep32_1000: "rep32 1000"
  using rep32_int [of 1000] by simp

lemma hand_register_range:
  assumes "0 \<le> h" "h \<le> c" "0 < c"
  shows "0 \<le> hand_register (Fin h) (Fin c) \<and> hand_register (Fin h) (Fin c) \<le> 1000"
proof -
  obtain q where q: "rnd32 (h / c) = Fin q" "0 \<le> q" "q \<le> 1"
    using rnd32_between [of 0 1 "h / c"] assms by auto
  then obtain d where d: "f32_sub 1 (Fin q) = Fin d" "0 \<le> d" "d \<le> 1"
    using rnd32_between [of 0 1 "1 - q"] by (auto simp: f32_sub_def one_fl_def)
  then obtain w where w: "f32_mul (Fin 1000) (Fin d) = Fin w" "0 \<le> w" "w \<le> 1000"
    using rnd32_between [of 0 1000 "1000 * d"] rep32_1000 by (auto simp: f32_mul_def)
  have "0 \<le> round_half_even w" "round_half_even w \<le> 1000"
    using w round_half_even_ge [of 0 w] round_half_even_le [of w 1000] by auto
  then show ?thesis by (simp add: hand_register_def q d w cast_int32_of_int)
qed

lemma hand_register_open: "0 < c \<Longrightarrow> hand_register (Fin 0) (Fin c) = 1000"
  using rnd32_rep [of 0] rnd32_rep [of 1] rnd32_rep [OF rep32_1000] cast_int32_of_int [of 1000]
    round_half_even_of_int [of 1000]
  by (simp add: hand_register_def f32_sub_def f32_mul_def one_fl_def del: round_half_even_of_int)

lemma hand_register_closed: "0 < c \<Longrightarrow> hand_register (Fin c) (Fin c) = 0"
  using rnd32_rep [of 0] rnd32_rep [of 1] cast_int32_of_int [of 0] round_half_even_of_int [of 0]
  by (simp add: hand_register_def f32_sub_def f32_mul_def one_fl_def del: round_half_even_of_int)

lemma hand_registers_valid:
  assumes "hand_in_range (am_close a) hs" "length (am_close a) = 6"
  shows "policy_to_register_order (map2 hand_register hs (am_close a)) =
      Inr (rev (map2 hand_register hs (am_close a))) \<and>
    register_vector (map2 hand_register hs (am_close a))"
proof -
  have "list_all (\<lambda>n. 0 \<le> n \<and> n \<le> 1000) (map2 hand_register hs (am_close a))"
    unfolding list_all_length
  proof (intro allI impI)
    fix i assume "i < length (map2 hand_register hs (am_close a))"
    then have i: "i < 6" using assms by (simp add: hand_in_range_def)
    then obtain h c where "hs ! i = Fin h" "am_close a ! i = Fin c" "0 \<le> h" "h \<le> c" "0 < c"
      using assms(1) by (auto simp: hand_in_range_def)
    then show "0 \<le> map2 hand_register hs (am_close a) ! i \<and> map2 hand_register hs (am_close a) ! i \<le> 1000"
      using hand_register_range i assms by (simp add: hand_in_range_def)
  qed
  moreover have "length (map2 hand_register hs (am_close a)) = 6"
    using assms by (simp add: hand_in_range_def)
  ultimately show ?thesis by (simp add: policy_to_register_order_rev register_vector_def)
qed

section \<open>Reachable mappers\<close>

definition new_mapper :: "(fl \<times> fl) list \<Rightarrow> action_mapper \<Rightarrow> bool" where
  "new_mapper c a =
     (\<exists>arm hand limits close mp contract.
        make_action_mapper arm hand limits close mp contract = Inr a \<and>
        contracted_joint_limits_float64 limits (PyFloat (Fin 0)) = Inr c)"

definition mapper_step :: "action_mapper \<Rightarrow> action_mapper \<Rightarrow> bool" where
  "mapper_step a a' = (\<exists>act m sh hold. a' = snd (map_action act m sh hold a))"

definition mapper_inv :: "(fl \<times> fl) list \<Rightarrow> action_mapper \<Rightarrow> bool" where
  "mapper_inv c a =
     (hand_config a \<and> float_vector 6 (am_hand a) \<and> length (am_arm a) = 7 \<and> am_envelope a \<noteq> NaN \<and>
      (am_contract a = LEGACY_CONTRACT \<longrightarrow> 0 \<le> am_envelope a) \<and>
      am_contract a \<in> {LEGACY_CONTRACT, QD_CONTRACT} \<and> length (am_limits a) = 7 \<and>
      (\<forall>i < 7. tightest32 (c ! i) (am_limits a ! i)))"

lemma positive_finite: "is_finite x \<Longrightarrow> 0 < x \<Longrightarrow> \<not> 1 < x \<Longrightarrow>
  \<exists>\<alpha>. to_f32 x = Fin \<alpha> \<and> 0 \<le> \<alpha> \<and> \<alpha> \<le> 1"
proof -
  assume "is_finite x" "0 < x" "\<not> 1 < x"
  then obtain r where "x = Fin r" "0 \<le> r" "r \<le> 1"
    by (auto simp: is_finite_iff zero_fl_def one_fl_def)
  then show ?thesis using rnd32_between [of 0 1 r] by (auto simp: to_f32_def)
qed

lemma to_f32_nonneg: "is_finite x \<Longrightarrow> 0 < x \<Longrightarrow> 0 \<le> to_f32 x"
  using rnd32_ge [OF rep32_0] by (auto simp: is_finite_iff to_f32_def zero_fl_def)

lemma to_f32_not_NaN: "is_finite x \<Longrightarrow> to_f32 x \<noteq> NaN"
  by (auto simp: is_finite_iff to_f32_def)

lemma close_positive:
  assumes "float_vector 6 cs" "\<not> list_ex (\<lambda>x. x \<le> 0) cs" "i < 6"
  shows "0 < cs ! i"
proof -
  have "i < length cs" "is_finite (cs ! i)"
    using assms(1,3) by (auto simp: float_vector_def list_all_length)
  moreover have "\<not> cs ! i \<le> 0" using assms(2) \<open>i < length cs\<close> by (auto simp: list_ex_length)
  ultimately show ?thesis by (auto simp: is_finite_iff zero_fl_def)
qed

lemma mapper_inv_new:
  assumes "new_mapper c a"
  shows "mapper_inv c a"
proof -
  obtain arm hand limits close mp contract where
    mk: "make_action_mapper arm hand limits close mp contract = Inr a"
    and c: "contracted_joint_limits_float64 limits (PyFloat (Fin 0)) = Inr c"
    using assms by (auto simp: new_mapper_def)
  define \<alpha> where "\<alpha> = (case mp_hand_alpha mp of None \<Rightarrow> mp_alpha mp | Some x \<Rightarrow> x)"
  have arms: "length (am_arm a) = 7" "am_envelope a \<noteq> NaN" "am_contract a \<in> {LEGACY_CONTRACT, QD_CONTRACT}"
    using mk to_f32_not_NaN
    by (auto simp: make_action_mapper_def normalize_franka_action_contract_id_def res_bind_Inr_iff Let_def
        float_vector_def dest!: readonly_float_vector_Inr split: if_splits)
  have env: "am_contract a = LEGACY_CONTRACT \<longrightarrow> 0 \<le> am_envelope a"
    using mk by (auto simp: make_action_mapper_def res_bind_Inr_iff Let_def to_f32_nonneg split: if_splits)
  obtain hs ls cs where
    parts: "readonly_float_vector hand 6 ''initial_hand_target_q_policy_order_rad'' = Inr hs" "inward_float32_joint_limits limits (PyFloat (Fin 0)) = Inr ls"
      "readonly_float_vector close 6 ''q_hand_close_rad'' = Inr cs"
      "\<not> list_ex (\<lambda>x. x \<le> 0) cs" "is_finite \<alpha>" "0 < \<alpha>" "\<not> 1 < \<alpha>" "is_finite (mp_hand_step mp)"
    and a: "am_hand a = hs" "am_limits a = ls" "am_close a = cs" "am_hand_alpha a = to_f32 \<alpha>"
      "am_hand_step a = to_f32 (mp_hand_step mp)"
    using mk by (auto simp: make_action_mapper_def res_bind_Inr_iff Let_def \<alpha>_def split: if_splits)
  have cs: "float_vector 6 cs" using parts(3) by (rule readonly_float_vector_Inr)
  have "hand_config a"
    using close_positive [OF cs parts(4)] positive_finite [OF parts(5,6,7)] to_f32_not_NaN [OF parts(8)] cs
    by (simp add: hand_config_def a)
  moreover have "length ls = 7 \<and> (\<forall>i < 7. tightest32 (c ! i) (ls ! i))"
    using parts(2) c by (auto elim: inward_limits)
  ultimately show ?thesis
    using readonly_float_vector_Inr [OF parts(1)] arms env by (simp add: mapper_inv_def a)
qed

lemma zeroed_head:
  "list_all (\<lambda>x. \<exists>r. x = Fin r \<and> \<bar>r\<bar> \<le> 1) bs \<Longrightarrow>
    list_all (\<lambda>x. \<exists>r. x = Fin r \<and> \<bar>r\<bar> \<le> (1 :: rat)) (if hold then replicate n (Fin 0) @ drop k bs else bs)"
  by (auto simp: list_all_iff dest: in_set_dropD)

lemma executed_action_vector:
  assumes "float_vector 13 raw"
  shows "length (fst (executed_action raw hold)) = 13 \<and>
    list_all (\<lambda>x. \<exists>r. x = Fin r \<and> \<bar>r\<bar> \<le> 1) (fst (executed_action raw hold))"
proof -
  have len: "length raw = 13" using assms by (simp add: float_vector_def)
  have "\<exists>r. np_clip x (Fin (-1)) (Fin 1) = Fin r \<and> \<bar>r\<bar> \<le> 1" if "x \<in> set raw" for x
  proof -
    have "is_finite x" using assms that by (simp add: float_vector_def list_all_iff)
    then obtain r where "x = Fin r" by (auto simp: is_finite_iff)
    then show ?thesis by (auto simp: min_def max_def)
  qed
  then have "list_all (\<lambda>x. \<exists>r. x = Fin r \<and> \<bar>r\<bar> \<le> 1) (map (\<lambda>x. np_clip x (Fin (-1)) (Fin 1)) raw)"
    by (simp add: list_all_iff)
  from zeroed_head [OF this] len show ?thesis
    by (simp add: executed_action_def Let_def)
qed

lemma readonly_float_vector_Inl: "readonly_float_vector v n name = Inl e \<Longrightarrow> exn_class e = ValueError"
  by (auto simp: readonly_float_vector_def Let_def split: ndarray.splits if_splits)

text \<open>Arguments some check of a call refuses.\<close>

definition bad_arguments :: "action_mapper \<Rightarrow> ndarray \<Rightarrow> ndarray \<Rightarrow> ndarray option \<Rightarrow> bool" where
  "bad_arguments a act m sh =
     (isl (readonly_float_vector act 13 ''action13'') \<or> isl (readonly_float_vector m 7 ''measured_q_rad'') \<or>
      (am_contract a = QD_CONTRACT \<and>
       (case sh of None \<Rightarrow> True | Some v \<Rightarrow> isl (readonly_float_vector v 7 ''shaper_q_d_rad''))))"

text \<open>A call that passes its argument checks computes its result; no other exception exists.\<close>

lemma map_action_cases:
  assumes "mapper_inv c a"
  shows "(\<exists>e. exn_class e = ValueError \<and> bad_arguments a act m sh \<and> map_action act m sh hold a = (Inl e, a)) \<or>
    (\<exists>raw q arm rs x. \<not> bad_arguments a act m sh \<and> readonly_float_vector act 13 ''action13'' = Inr raw \<and>
       readonly_float_vector m 7 ''measured_q_rad'' = Inr q \<and>
       next_arm_target a (fst (executed_action raw hold)) q sh = Inr (arm, rs) \<and>
       hand_in_range (am_close a) (fst (next_hand_target a (fst (executed_action raw hold)))) \<and>
       fst (map_action act m sh hold a) = Inr x \<and> franka_target_q_rad x = arm \<and>
       executed_policy_action13 x = fst (executed_action raw hold) \<and>
       rh56_target_q_policy_order_rad x = fst (next_hand_target a (fst (executed_action raw hold))) \<and>
       rh56_angle_set_register_order x =
         rev (map2 hand_register (rh56_target_q_policy_order_rad x) (am_close a)) \<and>
       register_vector (rh56_angle_set_register_order x) \<and>
       snd (map_action act m sh hold a) =
         a\<lparr>am_arm := arm, am_hand := rh56_target_q_policy_order_rad x\<rparr>)"
proof -
  let ?m = "res_bind (readonly_float_vector act 13 ''action13'') (\<lambda>raw.
      res_bind (readonly_float_vector m 7 ''measured_q_rad'') (\<lambda>measured.
      res_bind (next_arm_target a (fst (executed_action raw hold)) measured sh) (\<lambda>arm. Inr (raw, arm))))"
  show ?thesis
  proof (cases ?m)
    case (Inl e)
    then have "exn_class e = ValueError \<and> bad_arguments a act m sh"
      by (auto simp: res_bind_Inl_iff next_arm_target_def readonly_float_vector_Inl bad_arguments_def
          split: option.splits if_splits)
    with Inl show ?thesis unfolding map_action_def by simp
  next
    case (Inr v)
    then obtain raw q arm rs where
      ok: "readonly_float_vector act 13 ''action13'' = Inr raw"
        "readonly_float_vector m 7 ''measured_q_rad'' = Inr q"
        "next_arm_target a (fst (executed_action raw hold)) q sh = Inr (arm, rs)" and v: "v = (raw, arm, rs)"
      by (cases v) (auto simp: res_bind_Inr_iff)
    have args: "\<not> bad_arguments a act m sh"
      using ok by (auto simp: bad_arguments_def next_arm_target_def res_bind_Inr_iff split: option.splits)
    let ?ex = "fst (executed_action raw hold)"
    let ?hand = "fst (next_hand_target a ?ex)"
    have hand: "hand_in_range (am_close a) ?hand"
      using assms executed_action_vector [OF readonly_float_vector_Inr [OF ok(1)], of hold]
      by (intro next_hand_in_range) (auto simp: mapper_inv_def list_all_iff)
    have "length (am_close a) = 6" using assms by (simp add: mapper_inv_def hand_config_def float_vector_def)
    note reg = hand_registers_valid [OF hand this]
    have "register_vector (rev (map2 hand_register ?hand (am_close a)))"
      using reg by (simp add: register_vector_def list_all_iff)
    moreover from this have "\<not> (list_ex (\<lambda>n. n < 0) (rev (map2 hand_register ?hand (am_close a))) \<or>
        list_ex (\<lambda>n. 1000 < n) (rev (map2 hand_register ?hand (am_close a))))"
      by (auto simp: register_vector_def list_all_iff list_ex_iff)
    ultimately show ?thesis
      unfolding map_action_def Inr v using reg ok hand args
      by (simp add: case_prod_unfold Let_def)
  qed
qed

lemma qd_arm_length:
  "length executed = 13 \<Longrightarrow> length q = 7 \<Longrightarrow> length (am_limits a) = 7 \<Longrightarrow>
    length (fst (qd_arm_target a executed q)) = 7"
  by (simp add: qd_arm_target_def Let_def)

lemma legacy_arm_length:
  "length executed = 13 \<Longrightarrow> length q = 7 \<Longrightarrow> length (am_limits a) = 7 \<Longrightarrow> length (am_arm a) = 7 \<Longrightarrow>
    length (fst (legacy_arm_target a executed q)) = 7"
  by (simp add: legacy_arm_target_def safe_lower_def safe_upper_def Let_def)

lemma next_arm_length:
  assumes "mapper_inv c a" "next_arm_target a ex q sh = Inr (arm, rs)" "length ex = 13" "length q = 7"
  shows "length arm = 7"
  using assms qd_arm_length legacy_arm_length
  by (auto simp: next_arm_target_def mapper_inv_def res_bind_Inr_iff float_vector_def
      dest!: readonly_float_vector_Inr split: option.splits if_splits) (metis fst_conv)+

lemma mapper_inv_step:
  assumes "mapper_step a a'" and "mapper_inv c a"
  shows "mapper_inv c a'"
proof -
  obtain act m sh hold where a': "a' = snd (map_action act m sh hold a)"
    using assms(1) by (auto simp: mapper_step_def)
  show ?thesis
    using map_action_cases [OF assms(2), of act m sh hold] assms(2)
  proof (elim disjE exE conjE, goal_cases)
    case (2 raw q arm rs x)
    then have "length q = 7" by (auto simp: float_vector_def dest!: readonly_float_vector_Inr)
    moreover have "length (fst (executed_action raw hold)) = 13"
      using executed_action_vector [OF readonly_float_vector_Inr [OF 2(3)]] by simp
    ultimately have "length arm = 7"
      using next_arm_length [OF assms(2) 2(5)] by simp
    moreover have "hand_in_range (am_close a) (rh56_target_q_policy_order_rad x)"
      using 2 by simp
    then have "float_vector 6 (rh56_target_q_policy_order_rad x)"
      by (rule hand_in_range_vector)
    ultimately show ?case using 2 assms(2) by (simp add: a' mapper_inv_def hand_config_def)
  qed (simp add: a')
qed

interpretation mapper: invariant_system "new_mapper c" mapper_step "mapper_inv c" for c
  by unfold_locales (auto intro: mapper_inv_new mapper_inv_step)

text \<open>A mapping refuses exactly the arguments that are not vectors of the right length with finite
  elements, with a ValueError that leaves the mapper as it was; otherwise it returns a hand target that lies in its semantic interval on every axis, registers in
  [0,1000] that are its conversion in the hand's register order, 1000 for an open and 0 for a
  closed axis, and keeps that target. The out-of-range RuntimeError is never raised.\<close>

theorem mapped_hand_is_valid:
  assumes "reach (new_mapper c) mapper_step a"
  shows "(\<exists>e. exn_class e = ValueError \<and> bad_arguments a act m sh \<and> map_action act m sh hold a = (Inl e, a)) \<or>
    (\<exists>x a'. \<not> bad_arguments a act m sh \<and> map_action act m sh hold a = (Inr x, a') \<and> am_hand a' = rh56_target_q_policy_order_rad x \<and>
       register_vector (rh56_angle_set_register_order x) \<and>
       (\<forall>i < 6. \<exists>h d. rh56_target_q_policy_order_rad x ! i = Fin h \<and> am_close a ! i = Fin d \<and> 0 \<le> h \<and> h \<le> d \<and>
          rh56_angle_set_register_order x ! (5 - i) = hand_register (Fin h) (Fin d) \<and>
          (h = 0 \<longrightarrow> rh56_angle_set_register_order x ! (5 - i) = 1000) \<and>
          (h = d \<longrightarrow> rh56_angle_set_register_order x ! (5 - i) = 0)))"
proof -
  have inv: "mapper_inv c a" by (rule mapper.reach_inv [OF assms])
  have cl: "length (am_close a) = 6" using inv by (simp add: mapper_inv_def hand_config_def float_vector_def)
  from map_action_cases [OF inv, of act m sh hold] show ?thesis
  proof (elim disjE exE conjE, goal_cases)
    case (2 raw q arm rs x)
    let ?h = "rh56_target_q_policy_order_rad x" and ?r = "rh56_angle_set_register_order x"
    have hr: "hand_in_range (am_close a) ?h" using 2 by simp
    have axis: "\<exists>h d. ?h ! i = Fin h \<and> am_close a ! i = Fin d \<and> 0 \<le> h \<and> h \<le> d \<and>
        ?r ! (5 - i) = hand_register (Fin h) (Fin d) \<and> (h = 0 \<longrightarrow> ?r ! (5 - i) = 1000) \<and>
        (h = d \<longrightarrow> ?r ! (5 - i) = 0)" if i: "i < 6" for i
    proof -
      obtain h d where hd: "?h ! i = Fin h" "am_close a ! i = Fin d" "0 \<le> h" "h \<le> d" "0 < d"
        using hr i by (auto simp: hand_in_range_def)
      have len: "length ?h = 6" using hr by (simp add: hand_in_range_def)
      have "5 - (5 - i) = i" using i by simp
      then have "?r ! (5 - i) = hand_register (Fin h) (Fin d)"
        using i hd len cl 2 by (simp add: rev_nth)
      with hd hand_register_open hand_register_closed show ?thesis by auto
    qed
    show ?case
      using 2 axis by (intro disjI2 exI [of _ x] exI [of _ "snd (map_action act m sh hold a)"])
        (simp add: prod_eq_iff)
  qed blast
qed

section \<open>The arm target\<close>

lemma QD_ARM_GAIN_value: "QD_ARM_GAIN = Fin (16106127 / 268435456)"
  by code_simp

lemma qd_axis:
  assumes "tightest32 c (l, u)" "\<bar>x\<bar> \<le> 1"
  shows "\<exists>t. np_clip (f32_add (Fin q) (f32_mul QD_ARM_GAIN (Fin x))) l u = Fin t \<and> rep32 t \<and>
    fst c \<le> Fin t \<and> Fin t \<le> snd c"
proof -
  obtain a b where ab: "l = Fin a" "u = Fin b" "rep32 a" "rep32 b" "a < b" "fst c \<le> Fin a" "Fin b \<le> snd c"
    using assms(1) by (auto simp: tightest32_def)
  let ?y = "f32_add (Fin q) (f32_mul QD_ARM_GAIN (Fin x))"
  have y: "?y \<noteq> NaN" by (intro f32_add_not_NaN) (simp add: f32_mul_def QD_ARM_GAIN_value)
  obtain t where t: "np_clip ?y l u = Fin t" "t = a \<or> t = b \<or> ?y = Fin t"
    using np_clip_finite [OF y] ab by auto
  have "rep32 w" if "?y = Fin w" for w
    using that rep32_rnd32
    by (cases "f32_mul QD_ARM_GAIN (Fin x)") (auto simp: f32_add_def)
  with t(2) ab have "rep32 t" by auto
  moreover have "l \<le> Fin t" "Fin t \<le> u"
    using np_clip_lower [OF y, of l u] np_clip_upper [OF y, of l u] ab by (simp_all add: t(1) [symmetric])
  ultimately show ?thesis
    using t(1) ab fl_le_trans by blast
qed

lemma qd_arm_nth:
  assumes "length executed = 13" "length q = 7" "length (am_limits a) = 7" "i < 7"
  shows "fst (qd_arm_target a executed q) ! i =
    np_clip (f32_add (q ! i) (f32_mul QD_ARM_GAIN (executed ! i))) (fst (am_limits a ! i)) (snd (am_limits a ! i))"
  using assms by (simp add: qd_arm_target_def Let_def case_prod_unfold)

lemma qd_map_target:
  assumes inv: "mapper_inv c a" and "am_contract a = QD_CONTRACT"
    and "map_action act m (Some v) hold a = (Inr x, a')" and "i < 7"
  shows "\<exists>t q. franka_target_q_rad x ! i = Fin t \<and> rep32 t \<and> fst (c ! i) \<le> Fin t \<and> Fin t \<le> snd (c ! i) \<and>
    readonly_float_vector v 7 ''shaper_q_d_rad'' = Inr q \<and>
    Fin t = np_clip (f32_add (q ! i) (f32_mul QD_ARM_GAIN (executed_policy_action13 x ! i)))
              (fst (am_limits a ! i)) (snd (am_limits a ! i))"
proof -
  obtain raw q0 arm rs where 1: "readonly_float_vector act 13 ''action13'' = Inr raw"
    "next_arm_target a (fst (executed_action raw hold)) q0 (Some v) = Inr (arm, rs)"
    "franka_target_q_rad x = arm" "executed_policy_action13 x = fst (executed_action raw hold)"
    using map_action_cases [OF inv, of act m "Some v" hold] assms(3) by auto
  obtain q where q: "readonly_float_vector v 7 ''shaper_q_d_rad'' = Inr q"
    and arm: "arm = fst (qd_arm_target a (fst (executed_action raw hold)) q)"
    using 1(2) assms(2) by (auto simp: next_arm_target_def res_bind_Inr_iff)
  have ex: "length (fst (executed_action raw hold)) = 13"
    "list_all (\<lambda>x. \<exists>r. x = Fin r \<and> \<bar>r\<bar> \<le> 1) (fst (executed_action raw hold))"
    using executed_action_vector [OF readonly_float_vector_Inr [OF 1(1)]] by auto
  then have "\<exists>e. fst (executed_action raw hold) ! i = Fin e \<and> \<bar>e\<bar> \<le> 1"
    using assms(4) by (simp add: list_all_length)
  then obtain e where e: "fst (executed_action raw hold) ! i = Fin e" "\<bar>e\<bar> \<le> 1" by blast
  have qv: "float_vector 7 q" by (rule readonly_float_vector_Inr [OF q])
  obtain z where z: "q ! i = Fin z" using float_vector_nth [OF qv assms(4)] .
  obtain l u where lu: "am_limits a ! i = (l, u)" by fastforce
  have tight: "tightest32 (c ! i) (l, u)" "length (am_limits a) = 7"
    using inv assms(4) lu by (auto simp: mapper_inv_def)
  have "arm ! i = np_clip (f32_add (q ! i) (f32_mul QD_ARM_GAIN (Fin e))) l u"
    unfolding arm using qd_arm_nth [OF ex(1) _ tight(2) assms(4), of q] qv e lu
    by (simp add: float_vector_def)
  then show ?thesis
    using qd_axis [OF tight(1) e(2), of z] q by (auto simp: 1 e lu z)
qed

text \<open>C33. Under the q_d contract every returned Franka target is a binary32 number inside the
  binary64 joint interval the mapper was built with, on every axis: the shaper's q_d plus the
  gain times the executed action, or the nearest end of the axis where that leaves the interval.\<close>

theorem qd_target_inside_contract:
  assumes "reach (new_mapper c) mapper_step a" and "am_contract a = QD_CONTRACT"
    and "map_action act m (Some v) hold a = (Inr x, a')" and "i < 7"
  shows "\<exists>t q. franka_target_q_rad x ! i = Fin t \<and> rep32 t \<and> fst (c ! i) \<le> Fin t \<and> Fin t \<le> snd (c ! i) \<and>
    readonly_float_vector v 7 ''shaper_q_d_rad'' = Inr q \<and>
    Fin t = np_clip (f32_add (q ! i) (f32_mul QD_ARM_GAIN (executed_policy_action13 x ! i)))
              (fst (am_limits a ! i)) (snd (am_limits a ! i))"
  using qd_map_target [OF mapper.reach_inv [OF assms(1)] assms(2-4)] .





lemma np_clip_NaN [simp]: "np_clip NaN lo hi = NaN"
  by (simp add: np_clip_def np_maximum_def np_minimum_def)




section \<open>Instances\<close>

text \<open>Seven equal axes, one with a lower bound that binary32 rounds outwards.\<close>

definition limits_ex :: "(fl \<times> fl) list" where
  "limits_ex = (rnd64 (- 29921 / 10000), Fin 2) # replicate 6 (Fin (- 2), Fin 2)"

definition params_ex :: mapper_params where
  "params_ex = \<lparr>mp_envelope = Fin (1 / 16), mp_gain = Fin (1 / 64), mp_alpha = Fin (1 / 4), mp_hand_alpha = None,
     mp_arm_step = Fin (1 / 64), mp_hand_step = Fin (1 / 16)\<rparr>"

definition mapper_ex :: "string \<Rightarrow> action_mapper" where
  "mapper_ex contract = \<lparr>am_contract = contract, am_arm = replicate 7 (Fin 0), am_hand = replicate 6 (Fin 0),
     am_limits = (Fin (- 784361 / 262144), Fin 2) # replicate 6 (Fin (- 2), Fin 2),
     am_close = replicate 6 (Fin 1), am_envelope = Fin (1 / 16), am_gain = Fin (1 / 64), am_alpha = Fin (1 / 4),
     am_hand_alpha = Fin (1 / 4), am_arm_step = Fin (1 / 64), am_hand_step = Fin (1 / 16)\<rparr>"

lemma limits_ex_inward:
  "inward_float32_joint_limits (Limits limits_ex) (PyFloat (Fin 0)) =
     Inr ((Fin (- 784361 / 262144), Fin 2) # replicate 6 (Fin (- 2), Fin 2))"
  by code_simp

theorem inward_limits_are_tightest_witness:
  "tightest32 (rnd64 (- 29921 / 10000) + Fin 0, Fin 2 - Fin 0) (Fin (- 784361 / 262144), Fin 2)"
proof -
  have "\<exists>m. py_float (PyFloat (Fin 0)) = Inr (Fin m) \<and> tightest32 (fst (limits_ex ! 0) + Fin m, snd (limits_ex ! 0) - Fin m)
      (((Fin (- 784361 / 262144), Fin 2) # replicate 6 (Fin (- 2), Fin 2)) ! 0)"
    using inward_limits_are_tightest [OF limits_ex_inward] zero_less_numeral by blast
  then show ?thesis by (simp add: limits_ex_def)
qed

lemma to_f32_ex:
  "to_f32 (Fin 0) = Fin 0" "to_f32 (Fin 1) = Fin 1" "to_f32 (Fin (1 / 4)) = Fin (1 / 4)"
  "to_f32 (Fin (1 / 16)) = Fin (1 / 16)" "to_f32 (Fin (1 / 64)) = Fin (1 / 64)"
  by code_simp+

lemma zeros_vector:
  "readonly_float_vector (Vec (replicate n (Fin 0))) n name = Inr (replicate n (Fin 0))"
  "readonly_float_vector (Vec (replicate n (Fin 1))) n name = Inr (replicate n (Fin 1))"
  by (simp_all add: readonly_float_vector_def list_all_length to_f32_ex Let_def)

lemma contract_ids:
  "normalize_franka_action_contract_id LEGACY_CONTRACT = Inr LEGACY_CONTRACT"
  "normalize_franka_action_contract_id QD_CONTRACT = Inr QD_CONTRACT"
  by code_simp+

lemma mapper_ex_made:
  assumes "contract \<in> {LEGACY_CONTRACT, QD_CONTRACT}"
  shows "make_action_mapper (Vec (replicate 7 (Fin 0))) (Vec (replicate 6 (Fin 0))) (Limits limits_ex)
     (Vec (replicate 6 (Fin 1))) params_ex contract = Inr (mapper_ex contract)"
  using assms contract_ids
  by (auto simp: make_action_mapper_def zeros_vector limits_ex_inward params_ex_def mapper_ex_def to_f32_ex
      zero_fl_def one_fl_def list_ex_length less_eq_fl_def Let_def)

lemma mapper_ex_reach:
  assumes "contract \<in> {LEGACY_CONTRACT, QD_CONTRACT}"
  shows "reach (new_mapper limits_ex) mapper_step (mapper_ex contract)"
proof (rule reach_init)
  have "contracted_joint_limits_float64 (Limits limits_ex) (PyFloat (Fin 0)) = Inr limits_ex"
    by code_simp
  then show "new_mapper limits_ex (mapper_ex contract)"
    unfolding new_mapper_def using mapper_ex_made [OF assms] by blast
qed

definition act_ex :: ndarray where
  "act_ex = Vec (replicate 13 (Fin 1))"

definition zeros_ex :: ndarray where
  "zeros_ex = Vec (replicate 7 (Fin 0))"

lemma good_arguments: "\<not> bad_arguments (mapper_ex contract) act_ex zeros_ex (Some zeros_ex)"
  by (simp add: bad_arguments_def act_ex_def zeros_ex_def zeros_vector)

lemma map_ex:
  assumes "contract \<in> {LEGACY_CONTRACT, QD_CONTRACT}"
  shows "\<exists>x a'. map_action act_ex zeros_ex (Some zeros_ex) hold (mapper_ex contract) = (Inr x, a')"
  using map_action_cases [OF mapper.reach_inv [OF mapper_ex_reach [OF assms]], of act_ex zeros_ex "Some zeros_ex" hold]
    good_arguments by (auto simp: prod_eq_iff)

theorem mapped_hand_is_valid_witness:
  "\<exists>x a'. map_action act_ex zeros_ex (Some zeros_ex) True (mapper_ex LEGACY_CONTRACT) = (Inr x, a') \<and>
     register_vector (rh56_angle_set_register_order x)"
  using mapped_hand_is_valid [OF mapper_ex_reach [of LEGACY_CONTRACT], of act_ex zeros_ex "Some zeros_ex" True]
    good_arguments by auto

theorem qd_target_inside_contract_witness:
  "\<exists>x a' t. map_action act_ex zeros_ex (Some zeros_ex) False (mapper_ex QD_CONTRACT) = (Inr x, a') \<and>
     franka_target_q_rad x ! 3 = Fin t \<and> Fin (- 2) \<le> Fin t \<and> Fin t \<le> Fin 2"
proof -
  obtain x a' where x: "map_action act_ex zeros_ex (Some zeros_ex) False (mapper_ex QD_CONTRACT) = (Inr x, a')"
    using map_ex by blast
  have "am_contract (mapper_ex QD_CONTRACT) = QD_CONTRACT" by (simp add: mapper_ex_def)
  from qd_target_inside_contract [OF mapper_ex_reach [of QD_CONTRACT] this x, of 3] x
  show ?thesis by (auto simp: limits_ex_def)
qed


text \<open>
  A measured position further below its limit than the envelope is wide gets a target
  outside the joint limits: every joint stands at -3, its limit is -2, and the target of
  the fourth is -47/16.
\<close>

lemma to_f32_minus3: "to_f32 (Fin (- 3)) = Fin (- 3)"
  by code_simp

lemma rnd32_ex:
  "rnd32 0 = Fin 0" "rnd32 (1 / 64) = Fin (1 / 64)" "rnd32 (1 / 256) = Fin (1 / 256)" "rnd32 (3 / 4) = Fin (3 / 4)"
  "rnd32 (- 49 / 16) = Fin (- 49 / 16)" "rnd32 (- 47 / 16) = Fin (- 47 / 16)"
  by code_simp+

lemma legacy_ex:
  "fst (legacy_arm_target (mapper_ex LEGACY_CONTRACT) (replicate 13 (Fin 1)) (replicate 7 (Fin (- 3)))) ! 3 =
     Fin (- 47 / 16)"
  by (simp add: legacy_arm_target_def mapper_ex_def Let_def safe_lower_def safe_upper_def low_pass_def
      f32_add_def f32_sub_def f32_mul_def rnd32_ex one_fl_def np_maximum_def np_minimum_def uminus_fl_def
      less_eq_fl_def min_def max_def rnd32_ex [simplified] nth_Cons')

theorem measured_outside_limits_escapes:
  "\<exists>x a'. map_action act_ex (Vec (replicate 7 (Fin (- 3)))) None False (mapper_ex LEGACY_CONTRACT) = (Inr x, a') \<and>
     franka_target_q_rad x ! 3 < fst (limits_ex ! 3)"
proof -
  let ?a = "mapper_ex LEGACY_CONTRACT" and ?m = "Vec (replicate 7 (Fin (- 3)))"
  have inv: "mapper_inv limits_ex ?a" by (rule mapper.reach_inv [OF mapper_ex_reach]) simp
  have m: "readonly_float_vector ?m 7 name = Inr (replicate 7 (Fin (- 3)))" for name
    by (simp add: readonly_float_vector_def to_f32_minus3 Let_def list_all_length)
  have act: "readonly_float_vector act_ex 13 name = Inr (replicate 13 (Fin 1))" for name
    by (simp add: act_ex_def zeros_vector)
  have ex: "fst (executed_action (replicate 13 (Fin 1)) False) = replicate 13 (Fin 1)"
    by (simp add: executed_action_def Let_def)
  have c: "am_contract ?a \<noteq> QD_CONTRACT" by (simp add: mapper_ex_def LEGACY_CONTRACT_def QD_CONTRACT_def)
  then have "\<not> bad_arguments ?a act_ex ?m None" by (simp add: bad_arguments_def m act)
  with map_action_cases [OF inv, of act_ex ?m None False] obtain x where
    x: "fst (map_action act_ex ?m None False ?a) = Inr x"
      "franka_target_q_rad x = fst (legacy_arm_target ?a (replicate 13 (Fin 1)) (replicate 7 (Fin (- 3))))"
    using c by (auto simp: m act ex next_arm_target_def)
  then have "franka_target_q_rad x ! 3 < fst (limits_ex ! 3)"
    by (simp add: legacy_ex limits_ex_def)
  with x(1) show ?thesis by (auto simp: prod_eq_iff)
qed

end
