(* ===== verification/Transactional_Mapper.thy ===== *)
theory Transactional_Mapper
  imports Action_Mapper_Proofs Ledger
begin

text \<open>
  \<open>sim2real/closed_loop/mapper.py\<close>: \<open>TransactionalV94ActionMapper\<close>, the rollback-safe wrapper
  around the action mapping. A proposal runs the mapping in a temporary mapper; the persistent
  targets move only when a commit finds the same sequence and action committed in the
  executed-action ledger. Every method runs under the mapper's lock: one function per method.
\<close>

section \<open>Construction\<close>

text \<open>The scalar parameters as given, and the values kept of them.\<close>

record tx_scalars =
  ts_envelope :: pyval
  ts_gain :: pyval
  ts_alpha :: pyval
  ts_hand_alpha :: pyval
  ts_arm_step :: pyval
  ts_hand_step :: pyval

definition mapper_parameters :: "tx_scalars \<Rightarrow> exn + mapper_params" where
  "mapper_parameters ts =
     res_bind (finite_scalar (ts_envelope ts) ''measured_arm_envelope_rad'') (\<lambda>envelope.
     res_bind (finite_scalar (ts_gain ts) ''arm_raw_gain_rad'') (\<lambda>gain.
     res_bind (finite_scalar (ts_alpha ts) ''target_filter_alpha'') (\<lambda>alpha.
     res_bind (finite_scalar (if ts_hand_alpha ts = PyNone then ts_alpha ts else ts_hand_alpha ts)
                 ''hand_target_filter_alpha'') (\<lambda>hand_alpha.
     res_bind (finite_scalar (ts_arm_step ts) ''maximum_arm_target_step_rad'') (\<lambda>arm_step.
     res_bind (finite_scalar (ts_hand_step ts) ''maximum_hand_target_step_rad'') (\<lambda>hand_step.
       Inr \<lparr>mp_envelope = envelope, mp_gain = gain, mp_alpha = alpha, mp_hand_alpha = Some hand_alpha,
            mp_arm_step = arm_step, mp_hand_step = hand_step\<rparr>))))))"

definition check_parameters :: "string \<Rightarrow> mapper_params \<Rightarrow> exn + mapper_params" where
  "check_parameters contract mp =
     (let hand_alpha = (case mp_hand_alpha mp of None \<Rightarrow> mp_alpha mp | Some a \<Rightarrow> a) in
      if contract = LEGACY_CONTRACT \<and>
         list_ex (\<lambda>x. x \<le> 0) [mp_envelope mp, mp_gain mp, mp_alpha mp, hand_alpha, mp_arm_step mp, mp_hand_step mp]
      then Inl (Exn ValueError ''action mapper parameters must be positive'')
      else if contract \<noteq> LEGACY_CONTRACT \<and>
        (mp_gain mp < 0 \<or> mp_alpha mp < 0 \<or> mp_arm_step mp < 0 \<or> mp_envelope mp < 0 \<or>
         hand_alpha \<le> 0 \<or> mp_hand_step mp \<le> 0)
      then Inl (Exn ValueError ''q_d-relative mapper parameters are invalid'')
      else if 1 < mp_alpha mp \<or> 1 < hand_alpha
      then Inl (Exn ValueError ''target filter alpha must not exceed one'')
      else Inr mp)"

record tx_mapper =
  tx_control_dt :: fl
  tx_margin :: fl
  tx_contract :: string
  tx_limits64 :: "(fl \<times> fl) list"
  tx_limits :: "(fl \<times> fl) list"
  tx_rounded :: "(fl \<times> fl) list"
  tx_close :: "fl list"
  tx_arm_rate :: "fl list option"
  tx_hand_rate :: "fl list option"
  tx_params :: mapper_params
  tx_arm :: "fl list"
  tx_hand :: "fl list"
  tx_committed :: int
  tx_pending :: "action_proposal option"
  tx_fault :: "string option"

definition outside_limits :: "fl list \<Rightarrow> (fl \<times> fl) list \<Rightarrow> bool" where
  "outside_limits xs limits = list_ex (\<lambda>(x, l, u). x < l \<or> u < x) (zip xs limits)"

definition make_tx_mapper ::
    "ndarray \<Rightarrow> ndarray \<Rightarrow> limits_arg \<Rightarrow> pyval \<Rightarrow> ndarray \<Rightarrow> pyval \<Rightarrow> rate_arg \<Rightarrow> rate_arg \<Rightarrow> tx_scalars \<Rightarrow>
     string \<Rightarrow> exn + tx_mapper" where
  "make_tx_mapper arm0 hand0 limits0 dt0 close0 margin0 arm_rate0 hand_rate0 scalars0 contract0 =
     res_bind (finite_scalar dt0 ''control_dt_s'') (\<lambda>dt.
     res_bind (finite_scalar margin0 ''joint_limit_margin_rad'') (\<lambda>margin.
       if dt \<le> 0 then Inl (Exn ValueError ''control_dt_s must be positive'')
       else if margin < 0 then Inl (Exn ValueError ''joint_limit_margin_rad cannot be negative'')
       else
     res_bind (contracted_joint_limits_float64 limits0 (PyFloat margin)) (\<lambda>limits64.
     res_bind (inward_float32_joint_limits limits0 (PyFloat margin)) (\<lambda>limits.
     res_bind (normalize_franka_action_contract_id contract0) (\<lambda>contract.
     res_bind (readonly_float_vector close0 6 ''q_hand_close_rad'') (\<lambda>close.
       if list_ex (\<lambda>x. x \<le> 0) close then Inl (Exn ValueError ''q_hand_close_rad must be positive'')
       else
     res_bind (optional_positive_rate_vector arm_rate0 7 ''commissioned_max_arm_target_rate_rad_s'') (\<lambda>arm_rate.
     res_bind (optional_positive_rate_vector hand_rate0 6 ''commissioned_max_hand_target_rate_rad_s'') (\<lambda>hand_rate.
     res_bind (mapper_parameters scalars0) (\<lambda>mp0.
     res_bind (check_parameters contract mp0) (\<lambda>mp.
     res_bind (readonly_float_vector arm0 7 ''initial_arm_target_q_rad'') (\<lambda>arm.
     res_bind (readonly_float_vector hand0 6 ''initial_hand_target_q_policy_order_rad'') (\<lambda>hand.
       if outside_limits arm limits
       then Inl (Exn ValueError ''initial_arm_target_q_rad is outside the margin-contracted limits'')
       else if outside_limits hand (map (\<lambda>c. (0, c)) close)
       then Inl (Exn ValueError ''initial_hand_target_q_policy_order_rad is outside semantic limits'')
       else Inr \<lparr>tx_control_dt = dt, tx_margin = margin, tx_contract = contract, tx_limits64 = limits64,
                 tx_limits = limits, tx_rounded = map (\<lambda>(l, u). (to_f32 l, to_f32 u)) limits64,
                 tx_close = close, tx_arm_rate = arm_rate, tx_hand_rate = hand_rate, tx_params = mp,
                 tx_arm = arm, tx_hand = hand, tx_committed = 0, tx_pending = None,
                 tx_fault = None\<rparr>))))))))))))"

section \<open>Methods\<close>

definition tx_fault_locked :: "string \<Rightarrow> tx_mapper \<Rightarrow> tx_mapper" where
  "tx_fault_locked reason s =
     (case tx_fault s of
        None \<Rightarrow> s\<lparr>tx_fault := Some (strip_or reason ''unspecified mapper fault'')\<rparr>
      | Some _ \<Rightarrow> s)"

text \<open>\<open>self._fault_locked(reason); raise ClosedLoopProtocolError(reason)\<close>\<close>

definition tx_fault_raise :: "string \<Rightarrow> (tx_mapper, 'a) op" where
  "tx_fault_raise reason s = (proto reason, tx_fault_locked reason s)"

definition tx_unhealthy :: "string \<Rightarrow> exn" where
  "tx_unhealthy r = Exn ClosedLoopProtocolError (''transactional action mapper fault is latched: '' @ r)"

definition fl_abs :: "fl \<Rightarrow> fl" where
  "fl_abs x = (if x < 0 then - x else x)"

definition rate_violation :: "fl list \<Rightarrow> fl list option \<Rightarrow> string \<Rightarrow> string option" where
  "rate_violation actual maximum label =
     (case maximum of
        None \<Rightarrow> None
      | Some limit \<Rightarrow>
          (case filter (\<lambda>i. limit ! i + rnd64 (1 / 10 ^ 7) < fl_abs (actual ! i)) [0..<length actual] of
             [] \<Rightarrow> None
           | i # _ \<Rightarrow> Some (label @ '' target rate exceeds commissioned limit at axis '' @ int_str (int i + 1)
                @ '': actual='' @ fixed_str 9 (fl_abs (actual ! i)) @ ''rad/s, limit=''
                @ fixed_str 9 (limit ! i) @ ''rad/s'')))"

definition target_rate :: "tx_mapper \<Rightarrow> fl list \<Rightarrow> fl list \<Rightarrow> fl list" where
  "target_rate s target prior = map2 (\<lambda>t p. fl_div (t - p) (tx_control_dt s)) target prior"

text \<open>What \<open>propose\<close> and \<open>propose_exact_targets\<close> check first under the lock.\<close>

definition tx_turn :: "int \<Rightarrow> tx_mapper \<Rightarrow> (exn + 'a) \<times> tx_mapper \<Rightarrow> (exn + 'a) \<times> tx_mapper" where
  "tx_turn sequence s proposed =
     (case tx_fault s of
        Some r \<Rightarrow> (Inl (tx_unhealthy r), s)
      | None \<Rightarrow>
          if tx_pending s \<noteq> None
          then tx_fault_raise ''cannot propose while another mapper proposal is pending'' s
          else if sequence \<noteq> tx_committed s + 1
          then tx_fault_raise (''mapper proposal sequence mismatch: expected=''
                 @ int_str (tx_committed s + 1) @ '', actual='' @ int_str sequence) s
          else proposed)"

definition tx_store :: "exn + action_proposal \<Rightarrow> (tx_mapper, action_proposal) op" where
  "tx_store made s =
     (case made of Inl e \<Rightarrow> (Inl e, s) | Inr p \<Rightarrow> (Inr p, s\<lparr>tx_pending := Some p\<rparr>))"

text \<open>The q_d state the mapping uses, or the reason for a fault.\<close>

definition shaper_state :: "tx_mapper \<Rightarrow> ndarray option \<Rightarrow> string + ndarray option" where
  "shaper_state s shaper0 =
     (if tx_contract s = QD_CONTRACT
      then (case shaper0 of
              None \<Rightarrow> Inl ''q_d g015 Franka action proposal requires shaper_q_d_rad''
            | Some v \<Rightarrow>
                (case readonly_float_vector v 7 ''shaper_q_d_rad'' of
                   Inl e \<Rightarrow> Inl (''invalid q_d g015 shaper state: '' @ exn_msg e)
                 | Inr q \<Rightarrow> Inr (Some (Vec q))))
      else Inr None)"

definition temporary_map :: "tx_mapper \<Rightarrow> ndarray \<Rightarrow> ndarray \<Rightarrow> ndarray option \<Rightarrow> bool \<Rightarrow> exn + mapped_action" where
  "temporary_map s action0 measured0 q_d hold =
     res_bind (make_action_mapper (Vec (tx_arm s)) (Vec (tx_hand s)) (Limits (tx_limits s)) (Vec (tx_close s))
                 (tx_params s) (tx_contract s)) (\<lambda>temporary.
       fst (map_action action0 measured0 q_d hold temporary))"

definition tx_propose ::
    "nat \<Rightarrow> pyval \<Rightarrow> ndarray \<Rightarrow> ndarray \<Rightarrow> ndarray option \<Rightarrow> bool \<Rightarrow> (tx_mapper, action_proposal) op" where
  "tx_propose oid sequence0 action0 measured0 shaper0 hold s =
     (case positive_integer sequence0 ''proposal sequence'' of
        Inl e \<Rightarrow> (Inl e, s)
      | Inr sequence \<Rightarrow> tx_turn sequence s
     (case shaper_state s shaper0 of
        Inl reason \<Rightarrow> tx_fault_raise reason s
      | Inr q_d \<Rightarrow>
     (case temporary_map s action0 measured0 q_d hold of
        Inl e \<Rightarrow> (Inl e, s)
      | Inr mapped \<Rightarrow>
          (let arm_rate = target_rate s (franka_target_q_rad mapped) (tx_arm s);
               hand_rate = target_rate s (rh56_target_q_policy_order_rad mapped) (tx_hand s);
               arm_violation = (if tx_contract s = LEGACY_CONTRACT
                                then rate_violation arm_rate (tx_arm_rate s) ''Franka'' else None);
               violation = (if arm_violation \<noteq> None then arm_violation
                            else rate_violation hand_rate (tx_hand_rate s) ''RH56'')
           in case violation of
                Some reason \<Rightarrow> tx_fault_raise reason s
              | None \<Rightarrow> tx_store (make_proposal oid (PyInt sequence) mapped (Vec (tx_arm s)) (Vec (tx_hand s))
                                   (Vec arm_rate) (Vec hand_rate)) s))))"

definition register_order_to_policy_order :: "int list \<Rightarrow> int list" where
  "register_order_to_policy_order registers = map (\<lambda>i. registers ! i) [5, 4, 3, 2, 1, 0]"

text \<open>
  Moving a replayed target that float32 rounding put just outside its axis back to the
  axis's inward end; the axes that were moved.
\<close>

definition canonical_axis :: "fl \<Rightarrow> fl \<times> fl \<Rightarrow> fl \<times> fl \<Rightarrow> fl \<times> fl \<Rightarrow> fl \<times> bool" where
  "canonical_axis x b64 b r =
     (let use_lower = (fst r < fst b64 \<and> x = fst r);
          use_upper = (snd b64 < snd r \<and> x = snd r)
      in (if use_upper then snd b else if use_lower then fst b else x, use_lower \<or> use_upper))"

definition canonical_arm :: "tx_mapper \<Rightarrow> fl list \<Rightarrow> (fl \<times> bool) list" where
  "canonical_arm s xs =
     map (\<lambda>(x, b64, b, r). canonical_axis x b64 b r)
       (zip xs (zip (tx_limits64 s) (zip (tx_limits s) (tx_rounded s))))"

definition exact_hand :: "tx_mapper \<Rightarrow> int list \<Rightarrow> fl list" where
  "exact_hand s registers =
     map2 (\<lambda>c n. f32_mul c (f32_sub 1 (f32_div (Fin (of_int n)) (Fin 1000))))
       (tx_close s) (register_order_to_policy_order registers)"

definition exact_arguments ::
    "pyval \<Rightarrow> ndarray \<Rightarrow> ndarray \<Rightarrow> ndarray \<Rightarrow> ndarray \<Rightarrow> exn + int \<times> fl list \<times> fl list \<times> int list" where
  "exact_arguments sequence0 action0 franka0 rh56_0 measured0 =
     res_bind (positive_integer sequence0 ''proposal sequence'') (\<lambda>sequence.
     res_bind (readonly_float_vector action0 13 ''action13'') (\<lambda>raw.
       if list_ex (\<lambda>x. x < Fin (-1)) raw \<or> list_ex (\<lambda>x. Fin 1 < x) raw
       then Inl (Exn ValueError ''exact replay action13 must lie in [-1,1]'')
       else
     res_bind (readonly_float_vector franka0 7 ''exact franka_target_q_rad'') (\<lambda>requested.
     res_bind (readonly_float_vector measured0 7 ''measured_q_rad'') (\<lambda>measured.
     res_bind (readonly_register_vector rh56_0 ''exact rh56_angle_set_register_order'') (\<lambda>registers.
       Inr (sequence, raw, requested, registers))))))"

definition tx_propose_exact ::
    "nat \<Rightarrow> pyval \<Rightarrow> ndarray \<Rightarrow> ndarray \<Rightarrow> ndarray \<Rightarrow> ndarray \<Rightarrow> bool \<Rightarrow> (tx_mapper, action_proposal) op" where
  "tx_propose_exact oid sequence0 action0 franka0 rh56_0 measured0 hold s =
     (case exact_arguments sequence0 action0 franka0 rh56_0 measured0 of
        Inl e \<Rightarrow> (Inl e, s)
      | Inr (sequence, raw, requested, registers) \<Rightarrow> tx_turn sequence s
     (let moved = (if hold then map (\<lambda>x. (x, False)) (tx_arm s) else canonical_arm s requested);
          next_arm = map fst moved;
          canonicalized = list_ex snd moved
      in if outside_limits next_arm (tx_limits s)
         then tx_fault_raise ''exact Franka replay target is outside joint limits'' s
         else
           (let next_hand = exact_hand s registers;
                reasons = (if hold then [''external hold gate held exact Franka replay target''] else [])
                  @ (if canonicalized then [''Franka float32 boundary canonicalized inward''] else []);
                mapped = \<lparr>raw_policy_action13 = raw, executed_policy_action13 = raw,
                  franka_target_q_rad = next_arm, rh56_target_q_policy_order_rad = next_hand,
                  rh56_angle_set_register_order = registers, clipped = (reasons \<noteq> []), reasons = reasons,
                  hold_arm_target = hold\<rparr>
            in tx_store (make_proposal oid (PyInt sequence) mapped (Vec (tx_arm s)) (Vec (tx_hand s))
                          (Vec (target_rate s next_arm (tx_arm s))) (Vec (target_rate s next_hand (tx_hand s)))) s)))"

definition tx_discard :: "action_proposal \<Rightarrow> (tx_mapper, unit) op" where
  "tx_discard p s =
     (case tx_fault s of
        Some r \<Rightarrow> (Inl (tx_unhealthy r), s)
      | None \<Rightarrow>
          if tx_pending s \<noteq> Some p
          then tx_fault_raise ''only the exact pending mapper proposal can be discarded'' s
          else (Inr (), s\<lparr>tx_pending := None\<rparr>))"

definition tx_commit :: "action_proposal \<Rightarrow> action_ledger \<Rightarrow> (tx_mapper, unit) op" where
  "tx_commit p ledger s =
     (case committed_snapshot ledger of
        Inl e \<Rightarrow> (Inl e, s)
      | Inr committed \<Rightarrow>
     (case tx_fault s of
        Some r \<Rightarrow> (Inl (tx_unhealthy r), s)
      | None \<Rightarrow>
          if tx_pending s \<noteq> Some p
          then tx_fault_raise ''mapper commit did not receive the exact pending proposal'' s
          else if prop_sequence p \<noteq> tx_committed s + 1
          then tx_fault_raise ''pending mapper proposal sequence changed before commit'' s
          else if commit_sequence committed \<noteq> prop_sequence p
          then (proto ''mapper proposal has not been dual-acknowledged by the ledger'', s)
          else if \<not> array_equal (commit_action13 committed) (executed_policy_action13 (prop_mapped p))
          then tx_fault_raise ''ledger committed a different action for this mapper sequence'' s
          else if \<not> array_equal (tx_arm s) (prior_arm_target p) \<or> \<not> array_equal (tx_hand s) (prior_hand_target p)
          then tx_fault_raise ''mapper committed targets changed after proposal'' s
          else
            (case readonly_float_vector (Vec (franka_target_q_rad (prop_mapped p))) 7
                    ''committed franka_target_q_rad'' of
               Inl e \<Rightarrow> (Inl e, s)
             | Inr arm \<Rightarrow>
            (case readonly_float_vector (Vec (rh56_target_q_policy_order_rad (prop_mapped p))) 6
                    ''committed rh56_target_q_policy_order_rad'' of
               Inl e \<Rightarrow> (Inl e, s\<lparr>tx_arm := arm\<rparr>)
             | Inr hand \<Rightarrow>
                 (Inr (), s\<lparr>tx_arm := arm, tx_hand := hand, tx_committed := prop_sequence p,
                            tx_pending := None\<rparr>)))))"

end
