(* ===== verification/Transactional_Mapper_Proofs.thy ===== *)
theory Transactional_Mapper_Proofs
  imports Transactional_Mapper
begin

text \<open>
  The transactional mapper refines the abstract transaction, keeps its targets inside their
  intervals, and commits exactly what the ledger saw both devices acknowledge; replayed
  registers survive the conversion to joint targets and back.
\<close>

section \<open>The invariant\<close>

definition inside :: "(fl \<times> fl) list \<Rightarrow> fl list \<Rightarrow> bool" where
  "inside c xs = (\<forall>i < 7. fst (c ! i) \<le> xs ! i \<and> xs ! i \<le> snd (c ! i))"

definition tx_config :: "tx_mapper \<Rightarrow> bool" where
  "tx_config s =
     (tx_contract s \<in> {LEGACY_CONTRACT, QD_CONTRACT} \<and> float_vector 6 (tx_close s) \<and> (\<forall>i < 6. 0 < tx_close s ! i) \<and> length (tx_limits64 s) = 7 \<and>
      length (tx_rounded s) = 7 \<and> length (tx_limits s) = 7 \<and> (\<forall>i < 7. tightest32 (tx_limits64 s ! i) (tx_limits s ! i)))"

definition good_targets :: "tx_mapper \<Rightarrow> fl list \<Rightarrow> fl list \<Rightarrow> bool" where
  "good_targets s arm hand =
     (float_vector 7 arm \<and> hand_in_range (tx_close s) hand \<and>
      (tx_contract s = QD_CONTRACT \<longrightarrow> inside (tx_limits64 s) arm))"

definition good_proposal :: "tx_mapper \<Rightarrow> action_proposal \<Rightarrow> bool" where
  "good_proposal s p =
     (prior_arm_target p = tx_arm s \<and> prior_hand_target p = tx_hand s \<and>
      register_vector (rh56_angle_set_register_order (prop_mapped p)) \<and>
      good_targets s (franka_target_q_rad (prop_mapped p)) (rh56_target_q_policy_order_rad (prop_mapped p)))"

definition tx_inv :: "tx_mapper \<Rightarrow> bool" where
  "tx_inv s =
     (tx_config s \<and> 0 \<le> tx_committed s \<and> good_targets s (tx_arm s) (tx_hand s) \<and>
      (\<forall>p. tx_pending s = Some p \<longrightarrow> good_proposal s p))"

lemma outside_limits_nth:
  assumes "\<not> outside_limits xs ls" "length xs = length ls" "i < length xs"
  shows "\<not> xs ! i < fst (ls ! i) \<and> \<not> snd (ls ! i) < xs ! i"
proof -
  have iz: "i < length (zip xs ls)" using assms by simp
  have "\<forall>n < length (zip xs ls). \<not> (case zip xs ls ! n of (x, l, u) \<Rightarrow> x < l \<or> u < x)"
    using assms(1) unfolding outside_limits_def list_ex_length by simp
  from this [rule_format, OF iz] assms(2,3) show ?thesis by (simp add: case_prod_unfold)
qed

lemma inside_contract:
  assumes "tx_config s" "float_vector 7 xs" "\<not> outside_limits xs (tx_limits s)"
  shows "inside (tx_limits64 s) xs"
  unfolding inside_def
proof (intro allI impI)
  fix i :: nat assume i: "i < 7"
  obtain l u where lu: "tx_limits s ! i = (Fin l, Fin u)" "fst (tx_limits64 s ! i) \<le> Fin l"
    "Fin u \<le> snd (tx_limits64 s ! i)"
    using assms(1) i by (auto simp: tx_config_def tightest32_def)
  obtain z where z: "xs ! i = Fin z" using float_vector_nth [OF assms(2) i] .
  have "\<not> xs ! i < fst (tx_limits s ! i) \<and> \<not> snd (tx_limits s ! i) < xs ! i"
    using assms i by (intro outside_limits_nth) (auto simp: tx_config_def float_vector_def)
  then have "Fin l \<le> Fin z" "Fin z \<le> Fin u" by (simp_all add: lu z not_less)
  then show "fst (tx_limits64 s ! i) \<le> xs ! i \<and> xs ! i \<le> snd (tx_limits64 s ! i)"
    unfolding z using lu(2,3) fl_le_trans by blast
qed

lemma hand_in_rangeI:
  assumes "float_vector 6 close" "\<forall>i < 6. 0 < close ! i" "float_vector 6 hs"
    and "\<And>i. i < 6 \<Longrightarrow> \<not> hs ! i < 0 \<and> \<not> close ! i < hs ! i"
  shows "hand_in_range close hs"
proof -
  have "\<exists>h c. hs ! i = Fin h \<and> close ! i = Fin c \<and> rep32 h \<and> 0 \<le> h \<and> h \<le> c \<and> 0 < c" if i: "i < 6" for i
  proof -
    obtain h where h: "hs ! i = Fin h" "rep32 h" using float_vector_nth [OF assms(3) i] .
    obtain c where c: "close ! i = Fin c" using float_vector_nth [OF assms(1) i] .
    have "0 < close ! i" using assms(2) i by blast
    with assms(4) [OF i] h c show ?thesis by (auto simp: zero_fl_def not_less)
  qed
  then show ?thesis using assms(3) by (simp add: hand_in_range_def float_vector_def)
qed

definition new_tx :: "tx_mapper \<Rightarrow> bool" where
  "new_tx s = (\<exists>arm hand limits dt close margin ar hr sc contract.
     make_tx_mapper arm hand limits dt close margin ar hr sc contract = Inr s)"

lemma tx_inv_new:
  assumes "new_tx s"
  shows "tx_inv s \<and> tx_fault s = None \<and> tx_pending s = None \<and> tx_committed s = 0"
proof -
  have contract: "tx_contract s \<in> {LEGACY_CONTRACT, QD_CONTRACT}"
    using assms by (auto simp: new_tx_def make_tx_mapper_def normalize_franka_action_contract_id_def res_bind_Inr_iff
        Let_def split: if_splits)
  obtain limits margin close arm hand where
    parts: "contracted_joint_limits_float64 limits (PyFloat margin) = Inr (tx_limits64 s)"
      "inward_float32_joint_limits limits (PyFloat margin) = Inr (tx_limits s)"
      "readonly_float_vector close 6 ''q_hand_close_rad'' = Inr (tx_close s)"
      "\<not> list_ex (\<lambda>x. x \<le> 0) (tx_close s)"
      "readonly_float_vector arm 7 ''initial_arm_target_q_rad'' = Inr (tx_arm s)"
      "readonly_float_vector hand 6 ''initial_hand_target_q_policy_order_rad'' = Inr (tx_hand s)"
      "\<not> outside_limits (tx_arm s) (tx_limits s)"
      "\<not> outside_limits (tx_hand s) (map (\<lambda>c. (0, c)) (tx_close s))"
    and rest: "tx_rounded s = map (\<lambda>(l, u). (to_f32 l, to_f32 u)) (tx_limits64 s)" "tx_fault s = None" "tx_pending s = None" "tx_committed s = 0"
    using assms by (auto simp: new_tx_def make_tx_mapper_def res_bind_Inr_iff split: if_splits)
  note vec = parts(3,5,6) [THEN readonly_float_vector_Inr]
  have "length (tx_limits64 s) = 7 \<and> length (tx_limits s) = 7 \<and>
      (\<forall>i < 7. tightest32 (tx_limits64 s ! i) (tx_limits s ! i))"
    using parts(1,2) by (auto elim!: inward_limits)
  then have cfg: "tx_config s"
    using vec(1) close_positive [OF vec(1) parts(4)] contract rest(1) by (simp add: tx_config_def)
  have "hand_in_range (tx_close s) (tx_hand s)"
  proof (rule hand_in_rangeI)
    fix i :: nat assume "i < 6"
    then show "\<not> tx_hand s ! i < 0 \<and> \<not> tx_close s ! i < tx_hand s ! i"
      using outside_limits_nth [OF parts(8), of i] vec by (simp add: float_vector_def)
  qed (use cfg vec in \<open>auto simp: tx_config_def\<close>)
  then show ?thesis
    using cfg vec inside_contract [OF cfg vec(2) parts(7)] rest
    by (simp add: tx_inv_def good_targets_def)
qed

section \<open>What one call can do\<close>

definition tx_latched :: "tx_mapper \<Rightarrow> tx_mapper \<Rightarrow> bool" where
  "tx_latched s t = (t = s \<or> (tx_fault s = None \<and> (\<exists>r. t = s\<lparr>tx_fault := Some r\<rparr>)))"

definition tx_commits :: "tx_mapper \<Rightarrow> action_proposal \<Rightarrow> tx_mapper \<Rightarrow> bool" where
  "tx_commits s p t =
     (tx_fault s = None \<and> tx_pending s = Some p \<and> prop_sequence p = tx_committed s + 1 \<and>
      t = s\<lparr>tx_arm := franka_target_q_rad (prop_mapped p), tx_hand := rh56_target_q_policy_order_rad (prop_mapped p),
            tx_committed := prop_sequence p, tx_pending := None\<rparr>)"

lemma tx_latched_intros [simp]:
  "tx_latched s s" "tx_latched s (tx_fault_locked r s)" "tx_latched s (snd (tx_fault_raise r s))"
  by (auto simp: tx_latched_def tx_fault_raise_def tx_fault_locked_def split: option.split)

lemma tx_turn_cases:
  "tx_latched s (snd (tx_turn k s pr)) \<or>
   (tx_fault s = None \<and> tx_pending s = None \<and> k = tx_committed s + 1 \<and> tx_turn k s pr = pr)"
  by (auto simp: tx_turn_def split: option.split)

lemma immutable_mapped_action_Inr:
  assumes "immutable_mapped_action m = Inr m'"
  shows "float_vector 7 (franka_target_q_rad m') \<and> float_vector 6 (rh56_target_q_policy_order_rad m') \<and>
    register_vector (rh56_angle_set_register_order m') \<and>
    (float_vector 7 (franka_target_q_rad m) \<longrightarrow> franka_target_q_rad m' = franka_target_q_rad m) \<and>
    (float_vector 6 (rh56_target_q_policy_order_rad m) \<longrightarrow>
       rh56_target_q_policy_order_rad m' = rh56_target_q_policy_order_rad m) \<and>
    (float_vector 13 (executed_policy_action13 m) \<longrightarrow> executed_policy_action13 m' = executed_policy_action13 m)"
  using assms
  by (auto simp: immutable_mapped_action_def res_bind_Inr_iff readonly_float_vector_idem
      dest: readonly_float_vector_Inr readonly_register_vector_Inr)

lemma make_proposal_Inr:
  assumes "make_proposal oid k m (Vec arm) (Vec hand) ra rh = Inr p"
    and "float_vector 7 arm" "float_vector 6 hand"
  shows "prior_arm_target p = arm \<and> prior_hand_target p = hand \<and>
    immutable_mapped_action m = Inr (prop_mapped p)"
  using assms by (auto simp: make_proposal_def res_bind_Inr_iff readonly_float_vector_idem)

lemma tx_store_cases:
  assumes inv: "tx_inv s" and f: "tx_fault s = None" "tx_pending s = None"
    and hand: "hand_in_range (tx_close s) (rh56_target_q_policy_order_rad m)"
    and arm: "tx_contract s = QD_CONTRACT \<Longrightarrow>
      float_vector 7 (franka_target_q_rad m) \<and> inside (tx_limits64 s) (franka_target_q_rad m)"
  shows "tx_latched s (snd (tx_store (make_proposal oid k m (Vec (tx_arm s)) (Vec (tx_hand s)) ra rh) s)) \<or>
    (\<exists>p. good_proposal s p \<and>
       snd (tx_store (make_proposal oid k m (Vec (tx_arm s)) (Vec (tx_hand s)) ra rh) s) =
         s\<lparr>tx_pending := Some p\<rparr>)"
proof (cases "make_proposal oid k m (Vec (tx_arm s)) (Vec (tx_hand s)) ra rh")
  case (Inr p)
  have "float_vector 7 (tx_arm s)" "float_vector 6 (tx_hand s)"
    using inv hand_in_range_vector by (auto simp: tx_inv_def good_targets_def)
  note mk = make_proposal_Inr [OF Inr this]
  have "good_proposal s p"
    using mk immutable_mapped_action_Inr [of m "prop_mapped p"] hand hand_in_range_vector [OF hand] arm
    by (auto simp: good_proposal_def good_targets_def)
  with Inr show ?thesis by (auto simp: tx_store_def)
qed (simp add: tx_store_def)

section \<open>The temporary mapping\<close>

lemma rep32_rep64: "rep32 z \<Longrightarrow> rnd64 z = Fin z"
  unfolding rnd64_def
proof (rule round_to_of_representable)
  assume "rep32 z"
  then obtain m e where z: "z = of_int m * 2 powi e" "\<bar>m\<bar> < 2 ^ 24" "-149 \<le> e" "e \<le> 104"
    by (auto simp: representable_def)
  have "\<bar>m\<bar> < 2 ^ 53" using z(2) by simp
  with z show "representable 53 (-1074) 1024 z" unfolding representable_def by force
qed

text \<open>Binary32 limits are their own contraction by nothing.\<close>

lemma contracted_rep32:
  assumes "contracted_joint_limits_float64 (Limits ls) (PyFloat (Fin 0)) = Inr c"
    and "\<And>i. i < 7 \<Longrightarrow> \<exists>l u. ls ! i = (Fin l, Fin u) \<and> rep32 l \<and> rep32 u" and "i < 7"
  shows "c ! i = ls ! i"
  using assms(1)
proof (rule contracted_Inr)
  fix m assume m: "length ls = 7" "py_float (PyFloat (Fin 0)) = Inr (Fin m)"
    "c = map (\<lambda>(l, u). (l + Fin m, u - Fin m)) ls"
  obtain l u where "ls ! i = (Fin l, Fin u)" "rep32 l" "rep32 u" using assms(2,3) by blast
  with m assms(3) show ?thesis by (simp add: plus_fl_def minus_fl_def rep32_rep64)
qed

lemma temporary_mapper:
  assumes cfg: "tx_config s"
    and mk: "make_action_mapper (Vec arm) (Vec hand) (Limits (tx_limits s)) (Vec (tx_close s)) mp contract = Inr a"
  shows "mapper_inv (tx_limits s) a \<and> am_close a = tx_close s \<and> am_contract a = py_strip contract"
proof -
  obtain c where c: "contracted_joint_limits_float64 (Limits (tx_limits s)) (PyFloat (Fin 0)) = Inr c"
    using mk by (auto simp: make_action_mapper_def inward_float32_joint_limits_def res_bind_Inr_iff)
  then have "new_mapper c a" using mk unfolding new_mapper_def by blast
  then have inv: "mapper_inv c a" by (rule mapper_inv_new)
  have "\<exists>l u. tx_limits s ! i = (Fin l, Fin u) \<and> rep32 l \<and> rep32 u" if "i < 7" for i
    using cfg that by (auto simp: tx_config_def tightest32_def)
  then have "c ! i = tx_limits s ! i" if "i < 7" for i
    using contracted_rep32 [OF c] that by blast
  then have "mapper_inv (tx_limits s) a" using inv by (simp add: mapper_inv_def)
  moreover have "float_vector 6 (tx_close s)" using cfg by (simp add: tx_config_def)
  then have "am_close a = tx_close s \<and> am_contract a = py_strip contract"
    using mk by (auto simp: make_action_mapper_def normalize_franka_action_contract_id_def res_bind_Inr_iff Let_def
        readonly_float_vector_idem split: if_splits)
  ultimately show ?thesis by simp
qed

lemma py_strip_contract [simp]: "py_strip LEGACY_CONTRACT = LEGACY_CONTRACT" "py_strip QD_CONTRACT = QD_CONTRACT"
  by code_simp+

lemma temporary_map_good:
  assumes inv: "tx_inv s" and q: "shaper_state s shaper0 = Inr q_d"
    and m: "temporary_map s act meas q_d hold = Inr m"
  shows "hand_in_range (tx_close s) (rh56_target_q_policy_order_rad m)"
    and "tx_contract s = QD_CONTRACT \<Longrightarrow>
      float_vector 7 (franka_target_q_rad m) \<and> inside (tx_limits64 s) (franka_target_q_rad m)"
proof -
  obtain a where mk: "make_action_mapper (Vec (tx_arm s)) (Vec (tx_hand s)) (Limits (tx_limits s)) (Vec (tx_close s))
      (tx_params s) (tx_contract s) = Inr a" and fm: "fst (map_action act meas q_d hold a) = Inr m"
    using m by (auto simp: temporary_map_def res_bind_Inr_iff)
  have cfg: "tx_config s" using inv by (simp add: tx_inv_def)
  have a: "mapper_inv (tx_limits s) a" "am_close a = tx_close s" "am_contract a = tx_contract s"
    using temporary_mapper [OF cfg mk] cfg py_strip_contract by (auto simp: tx_config_def)
  show "hand_in_range (tx_close s) (rh56_target_q_policy_order_rad m)"
    using map_action_cases [OF a(1), of act meas q_d hold] fm a(2) by auto
  assume qd: "tx_contract s = QD_CONTRACT"
  with q obtain v where v: "q_d = Some v"
    by (auto simp: shaper_state_def split: option.splits sum.splits)
  obtain a' where ma: "map_action act meas (Some v) hold a = (Inr m, a')"
    using fm v by (cases "map_action act meas (Some v) hold a") auto
  have axis: "\<exists>t. franka_target_q_rad m ! i = Fin t \<and> rep32 t \<and> fst (tx_limits s ! i) \<le> Fin t \<and>
      Fin t \<le> snd (tx_limits s ! i)" if "i < 7" for i
    using qd_map_target [OF a(1) _ ma that] a(3) qd by auto
  have "mapper_step a a'" unfolding mapper_step_def using ma by (metis snd_conv)
  then have "mapper_inv (tx_limits s) a'" using a(1) by (rule mapper_inv_step)
  moreover have "am_arm a' = franka_target_q_rad m"
    using map_action_cases [OF a(1), of act meas "Some v" hold] ma by auto
  ultimately have len: "length (franka_target_q_rad m) = 7" by (simp add: mapper_inv_def)
  have vec: "float_vector 7 (franka_target_q_rad m)"
    using len axis by (intro float_vectorI) blast+
  have "fst (tx_limits64 s ! i) \<le> franka_target_q_rad m ! i \<and> franka_target_q_rad m ! i \<le> snd (tx_limits64 s ! i)"
    if i: "i < 7" for i
  proof -
    obtain l u where lu: "tx_limits s ! i = (Fin l, Fin u)" "fst (tx_limits64 s ! i) \<le> Fin l"
      "Fin u \<le> snd (tx_limits64 s ! i)"
      using cfg i by (auto simp: tx_config_def tightest32_def)
    then show ?thesis using axis [OF i] fl_le_trans by (metis fst_conv snd_conv)
  qed
  with vec show "float_vector 7 (franka_target_q_rad m) \<and> inside (tx_limits64 s) (franka_target_q_rad m)"
    by (simp add: inside_def)
qed

section \<open>Replayed targets\<close>

lemma exact_arguments_Inr:
  assumes "exact_arguments sq act fr rh me = Inr (k, raw, requested, registers)"
  shows "float_vector 7 requested \<and> register_vector registers \<and> float_vector 13 raw"
  using assms
  by (auto simp: exact_arguments_def res_bind_Inr_iff split: if_splits
      dest: readonly_float_vector_Inr readonly_register_vector_Inr)

lemma exact_axis:
  assumes "0 < c" "rep32 c" "0 \<le> n" "n \<le> 1000"
  shows "\<exists>h. f32_mul (Fin c) (f32_sub 1 (f32_div (Fin (of_int n)) (Fin 1000))) = Fin h \<and> rep32 h \<and> 0 \<le> h \<and> h \<le> c"
proof -
  have "0 \<le> of_int n / (1000 :: rat)" "of_int n / (1000 :: rat) \<le> 1" using assms(3,4) by simp_all
  then obtain q where q: "rnd32 (of_int n / 1000) = Fin q" "0 \<le> q" "q \<le> 1"
    using rnd32_between [OF rep32_0 rep32_1] by blast
  then obtain d where d: "rnd32 (1 - q) = Fin d" "0 \<le> d" "d \<le> 1"
    using rnd32_between [of 0 1 "1 - q"] by auto
  have "0 \<le> c * d" "c * d \<le> c" using d assms(1) by (simp_all add: mult_left_le)
  then obtain h where "rnd32 (c * d) = Fin h" "rep32 h" "0 \<le> h" "h \<le> c"
    using rnd32_between [of 0 c "c * d"] assms(2) by auto
  with q d show ?thesis by (simp add: f32_sub_def f32_mul_def one_fl_def)
qed

lemma exact_hand_in_range:
  assumes "tx_config s" "register_vector ns"
  shows "hand_in_range (tx_close s) (exact_hand s ns)"
proof -
  have len: "length ns = 6" "length (tx_close s) = 6"
    using assms by (simp_all add: register_vector_def tx_config_def float_vector_def)
  have reg: "0 \<le> register_order_to_policy_order ns ! i \<and> register_order_to_policy_order ns ! i \<le> 1000"
    if "i < 6" for i
    using assms(2) that len
    by (auto simp: register_order_to_policy_order_def register_vector_def list_all_length nth_Cons'
        simp flip: One_nat_def)
  show ?thesis unfolding hand_in_range_def
  proof (intro conjI allI impI)
    show "length (exact_hand s ns) = 6"
      using len by (simp add: exact_hand_def register_order_to_policy_order_def)
    fix i :: nat assume i: "i < 6"
    obtain c where c: "tx_close s ! i = Fin c" "rep32 c"
      using float_vector_nth [of 6 "tx_close s" i] assms(1) i by (auto simp: tx_config_def)
    have "0 < tx_close s ! i" using assms(1) i by (simp add: tx_config_def)
    then have pos: "0 < c" by (simp add: c zero_fl_def)
    have "exact_hand s ns ! i =
        f32_mul (Fin c) (f32_sub 1 (f32_div (Fin (of_int (register_order_to_policy_order ns ! i))) (Fin 1000)))"
      using i len c by (simp add: exact_hand_def register_order_to_policy_order_def)
    with exact_axis [OF pos c(2)] reg [OF i] c pos
    show "\<exists>h ca. exact_hand s ns ! i = Fin h \<and> tx_close s ! i = Fin ca \<and> rep32 h \<and> 0 \<le> h \<and> h \<le> ca \<and> 0 < ca"
      by fastforce
  qed
qed

lemma canonical_arm_vector:
  assumes "tx_config s" "float_vector 7 xs"
  shows "float_vector 7 (map fst (canonical_arm s xs))"
proof (rule float_vectorI)
  have len: "length xs = 7" "length (tx_limits s) = 7" "length (tx_limits64 s) = 7"
    "length (tx_rounded s) = 7"
    using assms by (auto simp: tx_config_def float_vector_def)
  then show "length (map fst (canonical_arm s xs)) = 7" by (simp add: canonical_arm_def)
  fix i :: nat assume i: "i < 7"
  obtain z where z: "xs ! i = Fin z" "rep32 z" using float_vector_nth [OF assms(2) i] .
  obtain l u where "tx_limits s ! i = (Fin l, Fin u)" "rep32 l" "rep32 u"
    using assms(1) i by (auto simp: tx_config_def tightest32_def)
  with i z len show "\<exists>z. map fst (canonical_arm s xs) ! i = Fin z \<and> rep32 z"
    by (auto simp: canonical_arm_def canonical_axis_def Let_def)
qed

section \<open>Calls\<close>

datatype tx_call =
    TxPropose nat pyval ndarray ndarray "ndarray option" bool
  | TxExact nat pyval ndarray ndarray ndarray ndarray bool
  | TxDiscard action_proposal
  | TxCommit action_proposal action_ledger

fun tx_exec :: "tx_call \<Rightarrow> tx_mapper \<Rightarrow> tx_mapper" where
  "tx_exec (TxPropose oid k act m sh hold) s = snd (tx_propose oid k act m sh hold s)"
| "tx_exec (TxExact oid k act fr rh m hold) s = snd (tx_propose_exact oid k act fr rh m hold s)"
| "tx_exec (TxDiscard p) s = snd (tx_discard p s)"
| "tx_exec (TxCommit p l) s = snd (tx_commit p l s)"

definition tx_step :: "tx_mapper \<Rightarrow> tx_mapper \<Rightarrow> bool" where
  "tx_step s t = (\<exists>c. t = tx_exec c s)"

definition tx_proposes :: "tx_mapper \<Rightarrow> tx_mapper \<Rightarrow> bool" where
  "tx_proposes s t =
     (tx_fault s = None \<and> tx_pending s = None \<and> (\<exists>p. good_proposal s p \<and> t = s\<lparr>tx_pending := Some p\<rparr>))"

lemma tx_store_proposes:
  assumes "tx_inv s" "tx_fault s = None" "tx_pending s = None"
    and "hand_in_range (tx_close s) (rh56_target_q_policy_order_rad m)"
    and "tx_contract s = QD_CONTRACT \<Longrightarrow>
      float_vector 7 (franka_target_q_rad m) \<and> inside (tx_limits64 s) (franka_target_q_rad m)"
  shows "tx_latched s (snd (tx_store (make_proposal oid k m (Vec (tx_arm s)) (Vec (tx_hand s)) ra rh) s)) \<or>
    tx_proposes s (snd (tx_store (make_proposal oid k m (Vec (tx_arm s)) (Vec (tx_hand s)) ra rh) s))"
  unfolding tx_proposes_def using tx_store_cases [OF assms] assms(2,3) by blast

lemma tx_turn_rule:
  assumes "tx_fault s = None \<Longrightarrow> tx_pending s = None \<Longrightarrow> tx_latched s (snd pr) \<or> tx_proposes s (snd pr)"
  shows "tx_latched s (snd (tx_turn k s pr)) \<or> tx_proposes s (snd (tx_turn k s pr))"
  using tx_turn_cases [of s k pr] assms by metis

lemma tx_propose_cases:
  assumes "tx_inv s"
  shows "tx_latched s (snd (tx_propose oid k act m sh hold s)) \<or> tx_proposes s (snd (tx_propose oid k act m sh hold s))"
proof (cases "positive_integer k ''proposal sequence''")
  case (Inr n)
  let ?body = "case shaper_state s sh of
        Inl reason \<Rightarrow> tx_fault_raise reason s
      | Inr q_d \<Rightarrow>
     (case temporary_map s act m q_d hold of
        Inl e \<Rightarrow> (Inl e, s)
      | Inr mapped \<Rightarrow>
          (let arm_rate = target_rate s (franka_target_q_rad mapped) (tx_arm s);
               hand_rate = target_rate s (rh56_target_q_policy_order_rad mapped) (tx_hand s);
               arm_violation = (if tx_contract s = LEGACY_CONTRACT
                                then rate_violation arm_rate (tx_arm_rate s) ''Franka'' else None);
               violation = (if arm_violation \<noteq> None then arm_violation
                            else rate_violation hand_rate (tx_hand_rate s) ''RH56'')
           in case violation of
                Some reason \<Rightarrow> tx_fault_raise reason s
              | None \<Rightarrow> tx_store (make_proposal oid (PyInt n) mapped (Vec (tx_arm s)) (Vec (tx_hand s))
                                   (Vec arm_rate) (Vec hand_rate)) s))"
  have body: "tx_latched s (snd ?body) \<or> tx_proposes s (snd ?body)"
    if f: "tx_fault s = None" "tx_pending s = None"
  proof (cases "shaper_state s sh")
    case q: (Inr q_d)
    show ?thesis
    proof (cases "temporary_map s act m q_d hold")
      case m: (Inr mapped)
      note good = temporary_map_good [OF assms q m]
      have "tx_latched s (snd (case v of Some reason \<Rightarrow> tx_fault_raise reason s
            | None \<Rightarrow> tx_store (make_proposal oid (PyInt n) mapped (Vec (tx_arm s)) (Vec (tx_hand s)) ra rh) s)) \<or>
          tx_proposes s (snd (case v of Some reason \<Rightarrow> tx_fault_raise reason s
            | None \<Rightarrow> tx_store (make_proposal oid (PyInt n) mapped (Vec (tx_arm s)) (Vec (tx_hand s)) ra rh) s))"
        for v ra rh
        using tx_store_proposes [OF assms f good] by (cases v) simp_all
      then show ?thesis by (simp only: q m sum.case Let_def)
    qed (simp add: q)
  qed simp
  show ?thesis
    unfolding tx_propose_def Inr sum.case by (rule tx_turn_rule) (rule body)
qed (simp add: tx_propose_def)

lemma map_fst_constant: "map fst (map (\<lambda>x. (x, b)) xs) = xs"
  by (induction xs) auto

lemma tx_propose_exact_cases:
  assumes "tx_inv s"
  shows "tx_latched s (snd (tx_propose_exact oid k act fr rh m hold s)) \<or>
    tx_proposes s (snd (tx_propose_exact oid k act fr rh m hold s))"
proof (cases "exact_arguments k act fr rh m")
  case (Inr v)
  obtain n raw requested registers where v: "v = (n, raw, requested, registers)" by (cases v)
  have cfg: "tx_config s" and arm: "float_vector 7 (tx_arm s)"
    using assms by (simp_all add: tx_inv_def good_targets_def)
  note args = exact_arguments_Inr [OF Inr [unfolded v]]
  let ?moved = "if hold then map (\<lambda>x. (x, False)) (tx_arm s) else canonical_arm s requested"
  let ?hand = "exact_hand s registers"
  have next_arm: "float_vector 7 (map fst ?moved)"
    using arm canonical_arm_vector [OF cfg] args by (simp add: map_fst_constant del: map_map)
  note hand = exact_hand_in_range [OF cfg, of registers]
  have body: "tx_latched s (snd (if outside_limits (map fst ?moved) (tx_limits s) then tx_fault_raise r s
        else tx_store (make_proposal oid (PyInt n) mm (Vec (tx_arm s)) (Vec (tx_hand s)) ra rh) s)) \<or>
      tx_proposes s (snd (if outside_limits (map fst ?moved) (tx_limits s) then tx_fault_raise r s
        else tx_store (make_proposal oid (PyInt n) mm (Vec (tx_arm s)) (Vec (tx_hand s)) ra rh) s))"
    if f: "tx_fault s = None" "tx_pending s = None"
      and mm: "franka_target_q_rad mm = map fst ?moved" "rh56_target_q_policy_order_rad mm = ?hand" for mm r ra rh
    using tx_store_proposes [OF assms f, of mm] hand args mm next_arm inside_contract [OF cfg next_arm] by simp
  show ?thesis
    unfolding tx_propose_exact_def Inr v sum.case prod.case Let_def
    by (rule tx_turn_rule) (rule body, simp_all)
qed (simp add: tx_propose_exact_def)

lemma tx_commit_cases:
  assumes "tx_inv s"
  shows "(\<exists>e. fst (tx_commit p l s) = Inl e \<and> tx_latched s (snd (tx_commit p l s))) \<or>
    (fst (tx_commit p l s) = Inr () \<and> tx_commits s p (snd (tx_commit p l s)) \<and>
     (\<exists>c. committed_snapshot l = Inr c \<and> commit_sequence c = prop_sequence p \<and>
        commit_action13 c = executed_policy_action13 (prop_mapped p)))"
proof -
  have vec: "readonly_float_vector (Vec (franka_target_q_rad (prop_mapped p))) 7 nm =
        Inr (franka_target_q_rad (prop_mapped p)) \<and>
      readonly_float_vector (Vec (rh56_target_q_policy_order_rad (prop_mapped p))) 6 nm =
        Inr (rh56_target_q_policy_order_rad (prop_mapped p))"
    if "tx_pending s = Some p" for nm
    using assms that hand_in_range_vector readonly_float_vector_idem
    by (auto simp: tx_inv_def good_proposal_def good_targets_def)
  show ?thesis
  proof (cases "committed_snapshot l")
    case (Inr c)
    have raise: "\<exists>e. fst (tx_fault_raise r s :: (exn + unit) \<times> tx_mapper) = Inl e" for r
      by (simp add: tx_fault_raise_def proto_def)
    show ?thesis
      using vec raise
      by (auto simp: tx_commit_def Inr tx_commits_def array_equal_def proto_def split: option.split)
  qed (simp add: tx_commit_def)
qed

lemma tx_step_cases:
  assumes "tx_step s t" "tx_inv s"
  obtains (latched) "tx_latched s t" | (proposed) "tx_proposes s t"
    | (dropped) "tx_fault s = None" "t = s\<lparr>tx_pending := None\<rparr>" | (committed) p where "tx_commits s p t"
proof -
  obtain c where c: "t = tx_exec c s" using assms(1) by (auto simp: tx_step_def)
  show thesis
  proof (cases c)
    case (TxPropose oid k act m sh hold)
    with c tx_propose_cases [OF assms(2), of oid k act m sh hold] latched proposed show thesis by auto
  next
    case (TxExact oid k act fr rh m hold)
    with c tx_propose_exact_cases [OF assms(2), of oid k act fr rh m hold] latched proposed show thesis by auto
  next
    case (TxDiscard p)
    have "tx_latched s (snd (tx_discard p s)) \<or>
        (tx_fault s = None \<and> snd (tx_discard p s) = s\<lparr>tx_pending := None\<rparr>)"
      by (auto simp: tx_discard_def split: option.split)
    with TxDiscard c latched dropped show thesis by auto
  next
    case (TxCommit p l)
    with c tx_commit_cases [OF assms(2), of p l] latched committed show thesis by auto
  qed
qed

lemma tx_inv_cong:
  assumes "tx_inv s" "tx_config t" "tx_close t = tx_close s" "tx_contract t = tx_contract s"
    "tx_limits64 t = tx_limits64 s" "0 \<le> tx_committed t" "good_targets s (tx_arm t) (tx_hand t)"
    "\<And>p. tx_pending t = Some p \<Longrightarrow> good_proposal s p \<and> tx_arm t = tx_arm s \<and> tx_hand t = tx_hand s"
  shows "tx_inv t"
proof -
  have g: "good_targets t = good_targets s"
    unfolding good_targets_def fun_eq_iff using assms(3-5) by simp
  have "good_proposal t p" if "tx_pending t = Some p" for p
    using assms(8) [OF that] by (simp add: good_proposal_def g)
  then show ?thesis using assms by (simp add: tx_inv_def g)
qed

lemma tx_inv_step:
  assumes "tx_step s t" "tx_inv s"
  shows "tx_inv t"
  using assms
proof (cases rule: tx_step_cases)
  case latched
  then show ?thesis using assms(2)
    by (auto simp: tx_latched_def tx_inv_def tx_config_def good_proposal_def good_targets_def)
next
  case proposed
  then show ?thesis using assms(2)
    by (intro tx_inv_cong [OF assms(2)]) (auto simp: tx_proposes_def tx_inv_def tx_config_def)
next
  case dropped
  then show ?thesis using assms(2)
    by (intro tx_inv_cong [OF assms(2)]) (auto simp: tx_inv_def tx_config_def)
next
  case (committed p)
  then show ?thesis using assms(2)
    by (intro tx_inv_cong [OF assms(2)]) (auto simp: tx_commits_def tx_inv_def tx_config_def good_proposal_def)
qed

interpretation tx: invariant_system new_tx tx_step tx_inv
  by unfold_locales (auto intro: tx_inv_step dest: tx_inv_new)

section \<open>Refinement of the abstract transaction\<close>

definition tx_abs :: "tx_mapper \<Rightarrow> (fl list \<times> fl list) two_phase" where
  "tx_abs s = \<lparr>tp_value = (tx_arm s, tx_hand s), tp_count = tx_committed s,
     tp_proposed = map_option (\<lambda>p. (franka_target_q_rad (prop_mapped p),
                                    rh56_target_q_policy_order_rad (prop_mapped p))) (tx_pending s),
     tp_failed = tx_fault s\<rparr>"

lemma tx_simulates:
  assumes "tx_inv s" "tx_step s t"
  shows "tp_step (tx_abs s) (tx_abs t)"
  using assms(2,1)
proof (cases rule: tx_step_cases)
  case latched
  then show ?thesis
    using tp_stutter [of "tx_abs s"] tp_latch [of "tx_abs s"] by (auto simp: tx_latched_def tx_abs_def)
next
  case proposed
  then obtain p where "tx_fault s = None" "tx_pending s = None" "t = s\<lparr>tx_pending := Some p\<rparr>"
    by (auto simp: tx_proposes_def)
  then show ?thesis
    using tp_propose [of "tx_abs s" "(franka_target_q_rad (prop_mapped p), rh56_target_q_policy_order_rad (prop_mapped p))"]
    by (simp add: tx_abs_def)
next
  case dropped
  then show ?thesis using tp_discard [of "tx_abs s"] by (simp add: tx_abs_def)
next
  case (committed p)
  then show ?thesis
    using tp_commit [of "tx_abs s" "(franka_target_q_rad (prop_mapped p), rh56_target_q_policy_order_rad (prop_mapped p))"]
    by (simp add: tx_abs_def tx_commits_def)
qed

interpretation tx_tp: two_phase_system new_tx tx_step tx_inv tx_abs
  by unfold_locales (rule tx_simulates)

section \<open>Registers survive the conversion\<close>

text \<open>The conversion of a register to a joint target and back: four roundings near one.\<close>

lemma unit_rounding:
  assumes "0 \<le> x" "x \<le> 1"
  shows "\<exists>w. rnd32 x = Fin w \<and> 0 \<le> w \<and> w \<le> 1 \<and> \<bar>w - x\<bar> \<le> 1 / 2 ^ 23"
proof -
  obtain y where y: "rnd32 x = Fin y" "0 \<le> y" "y \<le> 1"
    using rnd32_between [OF rep32_0 rep32_1 assms] by auto
  have "\<bar>x\<bar> / 2 ^ 24 + 1 / 2 ^ 150 \<le> (1 :: rat) / 2 ^ 23" using assms by (simp add: field_simps)
  with y rnd32_error [OF y(1)] assms(1) show ?thesis by (intro exI [of _ y]) simp
qed

lemma register_axis_roundtrip:
  assumes "rep32 c" "1 / 2 ^ 126 \<le> c" "0 \<le> n" "n \<le> 1000"
  shows "hand_register (f32_mul (Fin c) (f32_sub 1 (f32_div (Fin (of_int n)) (Fin 1000)))) (Fin c) = n"
proof -
  have c: "0 < c" using assms(2) by (rule less_le_trans [rotated]) simp
  have "0 \<le> of_int n / (1000 :: rat)" "of_int n / (1000 :: rat) \<le> 1" using assms(3,4) by simp_all
  then obtain a where a: "rnd32 (of_int n / 1000) = Fin a" "0 \<le> a" "a \<le> 1" "\<bar>a - of_int n / 1000\<bar> \<le> 1 / 2 ^ 23"
    using unit_rounding by blast
  then obtain d where d: "rnd32 (1 - a) = Fin d" "0 \<le> d" "d \<le> 1" "\<bar>d - (1 - a)\<bar> \<le> 1 / 2 ^ 23"
    using unit_rounding [of "1 - a"] by auto
  have cd: "0 \<le> c * d" "c * d \<le> c" using c d by (simp_all add: mult_left_le)
  obtain h where h: "rnd32 (c * d) = Fin h" "0 \<le> h" "h \<le> c"
    using rnd32_between [OF rep32_0 assms(1) cd] by auto
  have hd: "\<bar>h - c * d\<bar> \<le> c * d / 2 ^ 24 + 1 / 2 ^ 150" using rnd32_error [OF h(1)] cd by simp
  have "\<bar>h / c - d\<bar> \<le> 1 / 2 ^ 23"
  proof -
    have "\<bar>h / c - d\<bar> = \<bar>h - c * d\<bar> / c" using c by (simp add: field_simps)
    also have "\<dots> \<le> (c / 2 ^ 24 + c / 2 ^ 24) / c"
    proof (rule divide_right_mono)
      have "c * d / 2 ^ 24 \<le> c / 2 ^ 24" using cd by (simp add: divide_right_mono)
      moreover have "1 / 2 ^ 150 \<le> c / 2 ^ 24" using assms(2) by (simp add: field_simps)
      ultimately show "\<bar>h - c * d\<bar> \<le> c / 2 ^ 24 + c / 2 ^ 24" using hd by linarith
    qed (use c in simp)
    also have "\<dots> = 1 / 2 ^ 23" using c by (simp add: field_simps)
    finally show ?thesis .
  qed
  moreover have "0 \<le> h / c" "h / c \<le> 1" using h c by simp_all
  then obtain q where q: "rnd32 (h / c) = Fin q" "0 \<le> q" "q \<le> 1" "\<bar>q - h / c\<bar> \<le> 1 / 2 ^ 23"
    using unit_rounding by blast
  moreover obtain r where r: "rnd32 (1 - q) = Fin r" "0 \<le> r" "r \<le> 1" "\<bar>r - (1 - q)\<bar> \<le> 1 / 2 ^ 23"
    using unit_rounding [of "1 - q"] q by auto
  ultimately have "\<bar>r - of_int n / 1000\<bar> \<le> 5 / 2 ^ 23" using a d by linarith
  obtain w where w: "rnd32 (1000 * r) = Fin w"
    using rnd32_between [OF rep32_0 rep32_1000, of "1000 * r"] r by auto
  have we: "\<bar>w - 1000 * r\<bar> \<le> 1000 * r / 2 ^ 24 + 1 / 2 ^ 150" using rnd32_error [OF w] r by simp
  have "1000 * r / 2 ^ 24 + 1 / 2 ^ 150 \<le> (1 :: rat) / 100" using r by (simp add: field_simps)
  moreover have "\<bar>1000 * r - of_int n\<bar> \<le> 1 / 100"
  proof -
    have "1000 * r - of_int n = 1000 * (r - of_int n / 1000)" by simp
    then have "\<bar>1000 * r - of_int n\<bar> = 1000 * \<bar>r - of_int n / 1000\<bar>" by (simp only: abs_mult)
    with \<open>\<bar>r - of_int n / 1000\<bar> \<le> 5 / 2 ^ 23\<close> show ?thesis by simp
  qed
  ultimately have "\<bar>w - of_int n\<bar> < 1 / 2" using we by linarith
  with round_half_even_error [of w] have "\<bar>of_int (round_half_even w) - of_int n\<bar> < (1 :: rat)" by linarith
  then have "round_half_even w = n" by linarith
  then show ?thesis
    using assms(3,4) by (simp add: hand_register_def f32_sub_def f32_mul_def one_fl_def a d h q r w cast_int32_of_int)
qed

lemma exact_hand_roundtrip:
  assumes cfg: "tx_config s" and ns: "register_vector ns"
    and normal: "\<forall>c \<in> set (tx_close s). Fin (1 / 2 ^ 126) \<le> c"
  shows "map2 hand_register (exact_hand s ns) (tx_close s) = register_order_to_policy_order ns"
proof (rule nth_equalityI)
  have len: "length ns = 6" "length (tx_close s) = 6" "length (register_order_to_policy_order ns) = 6"
    using cfg ns by (simp_all add: register_vector_def tx_config_def float_vector_def register_order_to_policy_order_def)
  show "length (map2 hand_register (exact_hand s ns) (tx_close s)) = length (register_order_to_policy_order ns)"
    using len by (simp add: exact_hand_def)
  fix i assume "i < length (map2 hand_register (exact_hand s ns) (tx_close s))"
  then have i: "i < 6" using len by simp
  let ?n = "register_order_to_policy_order ns ! i"
  obtain c where c: "tx_close s ! i = Fin c" "rep32 c"
    using float_vector_nth [of 6 "tx_close s" i] cfg i by (auto simp: tx_config_def)
  have "Fin (1 / 2 ^ 126) \<le> tx_close s ! i" using normal i len(2) by simp
  then have "1 / 2 ^ 126 \<le> c" by (simp add: c)
  moreover have "register_order_to_policy_order ns = rev ns"
    using len by (auto simp: register_order_to_policy_order_def numeral_eq_Suc length_Suc_conv)
  then have "list_all (\<lambda>n. 0 \<le> n \<and> n \<le> 1000) (register_order_to_policy_order ns)"
    using ns by (simp add: register_vector_def list_all_iff)
  then have "0 \<le> ?n \<and> ?n \<le> 1000" using i len by (simp add: list_all_length)
  ultimately have "hand_register (f32_mul (Fin c) (f32_sub 1 (f32_div (Fin (of_int ?n)) (Fin 1000)))) (Fin c) = ?n"
    by (intro register_axis_roundtrip c) simp_all
  then show "map2 hand_register (exact_hand s ns) (tx_close s) ! i = ?n"
    using i len c by (simp add: exact_hand_def)
qed

section \<open>The mapper beside the ledger\<close>

text \<open>
  Runs of the executed-action ledger and the mapper side by side: the ledger moves on its
  own, with its history, and a commit of the mapper reads the ledger as it is then.
\<close>

inductive joint_step :: "(action_ledger \<times> ledger_event list) \<times> tx_mapper \<Rightarrow>
    (action_ledger \<times> ledger_event list) \<times> tx_mapper \<Rightarrow> bool" where
  ledger_moves: "ledger_step s s' \<Longrightarrow> joint_step (s, m) (s', m)"
| mapper_moves: "(\<And>p l'. c = TxCommit p l' \<Longrightarrow> l' = l) \<Longrightarrow> joint_step ((l, h), m) ((l, h), tx_exec c m)"

definition joint_init :: "fl list \<Rightarrow> (action_ledger \<times> ledger_event list) \<times> tx_mapper \<Rightarrow> bool" where
  "joint_init p0 = (\<lambda>(s, m). ledger_init p0 s \<and> new_tx m)"

definition joint_inv :: "fl list \<Rightarrow> (action_ledger \<times> ledger_event list) \<times> tx_mapper \<Rightarrow> bool" where
  "joint_inv p0 = (\<lambda>(s, m). ledger_inv p0 s \<and> tx_inv m)"

interpretation joint: invariant_system "joint_init p0" joint_step "joint_inv p0" for p0
proof
  show "joint_inv p0 s" if "joint_init p0 s" for s
    using that ledger.inv_init tx.inv_init by (auto simp: joint_init_def joint_inv_def)
  show "joint_inv p0 t" if "joint_step s t" "joint_inv p0 s" for s t
    using that
  proof (induction rule: joint_step.induct)
    case (ledger_moves s s' m)
    then show ?case using ledger.inv_step by (auto simp: joint_inv_def)
  next
    case (mapper_moves c l h m)
    have "tx_step m (tx_exec c m)" unfolding tx_step_def by blast
    with mapper_moves tx.inv_step show ?case by (auto simp: joint_inv_def)
  qed
qed

lemma committed_snapshot_Inr:
  assumes "ledger_inv p0 (l, h)" "committed_snapshot l = Inr c" "0 < last_committed_sequence l"
  shows "commit_sequence c = last_committed_sequence l \<and>
    (\<forall>name \<in> set COMMAND_CONSUMERS. Acked name (commit_sequence c) \<in> set h) \<and>
    (\<exists>d \<in> set (staged_commands h). cmd_sequence d = commit_sequence c \<and> cmd_executed_action13 d = commit_action13 c)"
proof -
  let ?cs = "staged_commands h"
  define n where "n = nat (last_committed_sequence l)"
  have n: "0 < n" "last_committed_sequence l = int n" using assms(3) by (simp_all add: n_def)
  have inv: "n \<le> length ?cs" "previous_action13 l = action_before p0 ?cs n"
    "\<forall>k < length ?cs. valid_command (?cs ! k) \<and> cmd_sequence (?cs ! k) = int k + 1"
    "\<forall>k. 1 \<le> k \<and> k \<le> last_committed_sequence l \<longrightarrow> (\<forall>name \<in> set COMMAND_CONSUMERS. Acked name k \<in> set h)"
    using assms(1) by (auto simp: ledger_inv_def Let_def n_def [symmetric] split: option.splits)
  let ?d = "?cs ! (n - 1)"
  have d: "?d \<in> set ?cs" "valid_command ?d" "cmd_sequence ?d = int n" "previous_action13 l = cmd_executed_action13 ?d"
    using inv n by (auto simp: action_before_def of_nat_diff)
  have "commit_sequence c = int n \<and> commit_action13 c = cmd_executed_action13 ?d"
    using assms(2) d(2,4) n
    by (auto simp: committed_snapshot_def make_commit_def res_bind_Inr_iff valid_command_def
        readonly_float_vector_idem split: if_splits)
  with d inv(4) n show ?thesis by auto
qed

end
