(* ===== verification/Transactional_Mapper_Properties.thy ===== *)
theory Transactional_Mapper_Properties
  imports Transactional_Mapper_Proofs
begin

text \<open>
  The properties of the transactional mapper, with a concrete run of the ledger and the
  mapper side by side: a replayed proposal is made, its command staged and acknowledged by
  both devices, and the proposal committed.
\<close>

section \<open>A concrete run\<close>

definition scalars_ex :: tx_scalars where
  "scalars_ex = \<lparr>ts_envelope = PyFloat (Fin (1 / 16)), ts_gain = PyFloat (Fin (1 / 64)),
     ts_alpha = PyFloat (Fin (1 / 4)), ts_hand_alpha = PyNone, ts_arm_step = PyFloat (Fin (1 / 64)),
     ts_hand_step = PyFloat (Fin (1 / 16))\<rparr>"

definition tx_ex :: tx_mapper where
  "tx_ex = \<lparr>tx_control_dt = Fin (1 / 16), tx_margin = Fin 0, tx_contract = QD_CONTRACT, tx_limits64 = limits_ex,
     tx_limits = (Fin (- 784361 / 262144), Fin 2) # replicate 6 (Fin (- 2), Fin 2),
     tx_rounded = map (\<lambda>(l, u). (to_f32 l, to_f32 u)) limits_ex, tx_close = replicate 6 (Fin 1),
     tx_arm_rate = None, tx_hand_rate = None, tx_params = params_ex\<lparr>mp_hand_alpha := Some (Fin (1 / 4))\<rparr>,
     tx_arm = replicate 7 (Fin 0), tx_hand = replicate 6 (Fin 0), tx_committed = 0, tx_pending = None,
     tx_fault = None\<rparr>"

lemma limits_ex_contracted: "contracted_joint_limits_float64 (Limits limits_ex) (PyFloat (Fin 0)) = Inr limits_ex"
  by code_simp

lemma within_ex:
  "\<not> outside_limits (replicate 7 (Fin 0)) ((Fin (- (784361 / 262144)), Fin 2) # replicate 6 (Fin (- 2), Fin 2))"
  "\<not> outside_limits (replicate 6 (Fin 0)) (replicate 6 (Fin 0, Fin 1))"
  by code_simp+

lemma parameters_ex:
  "mapper_parameters scalars_ex = Inr (params_ex\<lparr>mp_hand_alpha := Some (Fin (1 / 4))\<rparr>)"
  "check_parameters QD_CONTRACT (params_ex\<lparr>mp_hand_alpha := Some (Fin (1 / 4))\<rparr>) =
     Inr (params_ex\<lparr>mp_hand_alpha := Some (Fin (1 / 4))\<rparr>)"
  by code_simp+

lemma tx_ex_made:
  "make_tx_mapper (Vec (replicate 7 (Fin 0))) (Vec (replicate 6 (Fin 0))) (Limits limits_ex) (PyFloat (Fin (1 / 16)))
     (Vec (replicate 6 (Fin 1))) (PyFloat (Fin 0)) NoRate NoRate scalars_ex QD_CONTRACT = Inr tx_ex"
  by (simp add: make_tx_mapper_def zero_fl_def limits_ex_contracted limits_ex_inward contract_ids zeros_vector
      optional_positive_rate_vector_def parameters_ex within_ex tx_ex_def Let_def list_ex_iff)

lemma tx_ex_new: "new_tx tx_ex"
  unfolding new_tx_def using tx_ex_made by blast

definition mapped_ex :: mapped_action where
  "mapped_ex = \<lparr>raw_policy_action13 = replicate 13 (Fin 1), executed_policy_action13 = replicate 13 (Fin 1),
     franka_target_q_rad = replicate 7 (Fin 0), rh56_target_q_policy_order_rad = replicate 6 (Fin 0),
     rh56_angle_set_register_order = replicate 6 1000, clipped = False, reasons = [], hold_arm_target = False\<rparr>"

definition proposal_ex :: action_proposal where
  "proposal_ex = \<lparr>prop_oid = 0, prop_sequence = 1, prop_mapped = mapped_ex,
     prior_arm_target = replicate 7 (Fin 0), prior_hand_target = replicate 6 (Fin 0),
     arm_target_rate = replicate 7 (Fin 0), hand_target_rate = replicate 6 (Fin 0)\<rparr>"

abbreviation open_ex :: ndarray where
  "open_ex \<equiv> vec_of_ints (replicate 6 1000)"

lemma registers_ex: "readonly_register_vector open_ex name = Inr (replicate 6 1000)"
  by (rule readonly_register_vector_idem) (simp add: register_vector_def list_all_iff)

lemma exact_arguments_ex:
  "exact_arguments (PyInt 1) act_ex zeros_ex open_ex zeros_ex =
     Inr (1, replicate 13 (Fin 1), replicate 7 (Fin 0), replicate 6 1000)"
  by (simp add: exact_arguments_def act_ex_def zeros_ex_def zeros_vector registers_ex list_ex_iff)

lemma canonical_ex: "canonical_arm tx_ex (replicate 7 (Fin 0)) = replicate 7 (Fin 0, False)"
  by code_simp

lemma exact_hand_ex: "exact_hand tx_ex (replicate 6 1000) = replicate 6 (Fin 0)"
  by code_simp

lemma rates_ex:
  "target_rate tx_ex (replicate 7 (Fin 0)) (replicate 7 (Fin 0)) = replicate 7 (Fin 0)"
  "target_rate tx_ex (replicate 6 (Fin 0)) (replicate 6 (Fin 0)) = replicate 6 (Fin 0)"
  by code_simp+

lemma proposal_made:
  "make_proposal 0 (PyInt 1) mapped_ex (Vec (replicate 7 (Fin 0))) (Vec (replicate 6 (Fin 0)))
     (Vec (replicate 7 (Fin 0))) (Vec (replicate 6 (Fin 0))) = Inr proposal_ex"
  by (simp add: make_proposal_def immutable_mapped_action_def mapped_ex_def proposal_ex_def zeros_vector registers_ex)

lemma propose_ex:
  "tx_propose_exact 0 (PyInt 1) act_ex zeros_ex open_ex zeros_ex False tx_ex =
     (Inr proposal_ex, tx_ex\<lparr>tx_pending := Some proposal_ex\<rparr>)"
proof -
  have f: "tx_fault tx_ex = None" "tx_pending tx_ex = None" "tx_committed tx_ex = 0"
    "tx_arm tx_ex = replicate 7 (Fin 0)" "tx_hand tx_ex = replicate 6 (Fin 0)"
    "tx_limits tx_ex = (Fin (- 784361 / 262144), Fin 2) # replicate 6 (Fin (- 2), Fin 2)"
    by (simp_all add: tx_ex_def)
  show ?thesis
    by (simp add: tx_propose_exact_def exact_arguments_ex tx_turn_def f canonical_ex within_ex exact_hand_ex rates_ex
        proposal_made [unfolded mapped_ex_def] tx_store_def list_ex_iff Let_def)
qed

abbreviation p0_ex :: "fl list" where
  "p0_ex \<equiv> INITIAL_PREVIOUS_ACTION13"

abbreviation tx_proposed_ex :: tx_mapper where
  "tx_proposed_ex \<equiv> tx_ex\<lparr>tx_pending := Some proposal_ex\<rparr>"

definition history_ex :: "ledger_event list" where
  "history_ex = [Staged (cmd_ex 1 2), Acked ''franka'' 1, Acked ''rh56'' 1]"

lemma tx_reach_ex: "reach new_tx tx_step tx_ex"
  using tx_ex_new by (rule reach_init)

lemma tx_reach_proposed: "reach new_tx tx_step tx_proposed_ex"
proof -
  have "tx_step tx_ex tx_proposed_ex"
    unfolding tx_step_def using propose_ex
    by (intro exI [of _ "TxExact 0 (PyInt 1) act_ex zeros_ex open_ex zeros_ex False"]) simp
  from reach_step [OF tx_reach_ex this] show ?thesis .
qed

text \<open>A run of the ledger is a run of the pair.\<close>

lemma ledger_joint:
  assumes "ledger_step\<^sup>*\<^sup>* s t" "reach (joint_init p0) joint_step (s, m)"
  shows "reach (joint_init p0) joint_step (t, m)"
  using assms by (induction rule: rtranclp_induct) (auto intro: reach_step ledger_moves)

lemma ledger_run_ex: "ledger_step\<^sup>*\<^sup>* (ledger_ex, []) (ledger_ex_done, history_ex)"
proof -
  have "ledger_step (ledger_ex, []) (ledger_ex_staged, [Staged (cmd_ex 1 2)])"
    using stage_ok [OF cmd_ex_valid ledger_ex_stage, of "[]"] by simp
  moreover have "ledger_step (ledger_ex_staged, [Staged (cmd_ex 1 2)])
      (ledger_ex_half, [Staged (cmd_ex 1 2), Acked ''franka'' 1])"
    using ack_ok [OF ledger_ex_ack1, of "''franka''" 1 "[Staged (cmd_ex 1 2)]"] by simp
  moreover have "ledger_step (ledger_ex_half, [Staged (cmd_ex 1 2), Acked ''franka'' 1]) (ledger_ex_done, history_ex)"
    using ack_ok [OF ledger_ex_ack2, of "''rh56''" 1 "[Staged (cmd_ex 1 2), Acked ''franka'' 1]"]
    by (simp add: history_ex_def)
  ultimately show ?thesis by (meson converse_rtranclp_into_rtranclp r_into_rtranclp)
qed

lemma joint_reach_ex:
  "reach (joint_init p0_ex) joint_step ((ledger_ex_done, history_ex), tx_proposed_ex)"
proof -
  have start: "reach (joint_init p0_ex) joint_step ((ledger_ex, []), tx_ex)"
    using ledger_ex_init tx_ex_new by (intro reach_init) (simp add: joint_init_def)
  have "joint_step ((ledger_ex, []), tx_ex)
      ((ledger_ex, []), tx_exec (TxExact 0 (PyInt 1) act_ex zeros_ex open_ex zeros_ex False) tx_ex)"
    by (rule mapper_moves) simp
  from reach_step [OF start this] have "reach (joint_init p0_ex) joint_step ((ledger_ex, []), tx_proposed_ex)"
    by (simp add: propose_ex)
  then show ?thesis by (rule ledger_joint [OF ledger_run_ex])
qed

lemma commit_ex: "\<exists>t. tx_commit proposal_ex ledger_ex_done tx_proposed_ex = (Inr (), t)"
proof -
  have "committed_snapshot ledger_ex_done = Inr \<lparr>commit_sequence = 1, commit_action13 = replicate 13 (Fin 1)\<rparr>"
    by (simp add: committed_snapshot_def make_commit_def ledger_ex_done_def zeros_vector)
  then show ?thesis
    by (simp add: tx_commit_def tx_ex_def proposal_ex_def mapped_ex_def array_equal_def zeros_vector)
qed

section \<open>Properties\<close>

text \<open>C2. Only a dual-acknowledged action moves the mapper: when, in any interleaving of the ledger's and
  the mapper's operations, a commit succeeds, it commits the pending proposal, both devices have
  acknowledged that sequence number, the command staged under it carried exactly the
  proposal's executed action, and the new targets are the proposal's.\<close>

theorem mapper_commits_only_dual_acknowledged:
  assumes "reach (joint_init p0) joint_step ((l, h), m)" and "tx_commit p l m = (Inr (), m')"
  shows "tx_pending m = Some p \<and> prop_sequence p = last_committed_sequence l \<and>
    Acked ''franka'' (prop_sequence p) \<in> set h \<and> Acked ''rh56'' (prop_sequence p) \<in> set h \<and>
    (\<exists>c \<in> set (staged_commands h). cmd_sequence c = prop_sequence p \<and>
       cmd_executed_action13 c = executed_policy_action13 (prop_mapped p)) \<and>
    m' = m\<lparr>tx_arm := franka_target_q_rad (prop_mapped p), tx_hand := rh56_target_q_policy_order_rad (prop_mapped p),
          tx_committed := prop_sequence p, tx_pending := None\<rparr>"
proof -
  have inv: "ledger_inv p0 (l, h)" "tx_inv m" using joint.reach_inv [OF assms(1)] by (auto simp: joint_inv_def)
  obtain c where c: "tx_commits m p m'" "committed_snapshot l = Inr c" "commit_sequence c = prop_sequence p"
    "commit_action13 c = executed_policy_action13 (prop_mapped p)"
    using tx_commit_cases [OF inv(2), of p l] assms(2) by auto
  have seq: "commit_sequence c = last_committed_sequence l"
    using c(2) by (auto simp: committed_snapshot_def make_commit_def res_bind_Inr_iff split: if_splits)
  have "0 < last_committed_sequence l" using c(1,3) seq inv(2) by (simp add: tx_commits_def tx_inv_def)
  from committed_snapshot_Inr [OF inv(1) c(2) this] show ?thesis
    using c seq by (auto simp: tx_commits_def COMMAND_CONSUMERS_def)
qed

theorem mapper_commits_only_dual_acknowledged_witness:
  "Acked ''rh56'' (prop_sequence proposal_ex) \<in> set history_ex"
proof -
  obtain t where "tx_commit proposal_ex ledger_ex_done tx_proposed_ex = (Inr (), t)" using commit_ex by blast
  from mapper_commits_only_dual_acknowledged [OF joint_reach_ex this] show ?thesis by blast
qed

text \<open>C3. The mapper refines the abstract transaction: whatever is called on it, with whatever ledger,
  its targets, sequence, pending proposal and fault move as the machine of two-phase
  commits moves: one proposal at a time, a value that changes only by committing it.\<close>

theorem mapper_refines_transaction:
  assumes "reach new_tx tx_step s" and "tx_step s t"
  shows "tp_step (tx_abs s) (tx_abs t)"
  using assms by (rule tx_tp.refines)

theorem mapper_refines_transaction_witness: "tp_step (tx_abs tx_ex) (tx_abs tx_proposed_ex)"
proof (rule mapper_refines_transaction [OF tx_reach_ex])
  show "tx_step tx_ex tx_proposed_ex"
    unfolding tx_step_def using propose_ex
    by (intro exI [of _ "TxExact 0 (PyInt 1) act_ex zeros_ex open_ex zeros_ex False"]) simp
qed

text \<open>After a fault the mapper is frozen: no later call, a commit included, changes its targets or its
  sequence, and the fault keeps its reason.\<close>

theorem mapper_frozen_after_fault:
  assumes "reach new_tx tx_step s" and "tx_fault s = Some r" and "tx_step\<^sup>*\<^sup>* s t"
  shows "tx_fault t = Some r \<and> tx_arm t = tx_arm s \<and> tx_hand t = tx_hand s \<and> tx_committed t = tx_committed s"
  using tx_tp.frozen [OF assms(3) tx.reach_inv [OF assms(1)], of r] assms(2) by (simp add: tx_abs_def)

theorem mapper_frozen_after_fault_witness:
  "tx_arm (snd (tx_commit proposal_ex ledger_ex_done (snd (tx_discard proposal_ex tx_ex)))) = replicate 7 (Fin 0)"
proof -
  let ?s = "snd (tx_discard proposal_ex tx_ex)"
  have st: "tx_step tx_ex ?s"
    unfolding tx_step_def by (intro exI [of _ "TxDiscard proposal_ex"]) simp
  have s: "tx_arm ?s = replicate 7 (Fin 0)" "\<exists>r. tx_fault ?s = Some r"
    by (simp_all add: tx_discard_def tx_fault_raise_def tx_fault_locked_def tx_ex_def)
  then obtain r where r: "tx_fault ?s = Some r" by blast
  have "tx_step ?s (snd (tx_commit proposal_ex ledger_ex_done ?s))"
    unfolding tx_step_def by (intro exI [of _ "TxCommit proposal_ex ledger_ex_done"]) simp
  from mapper_frozen_after_fault [OF reach_step [OF tx_reach_ex st] r r_into_rtranclp [of tx_step, OF this]]
  show ?thesis by (simp add: s)
qed

text \<open>C4. The targets a mapper holds or proposes are always executable: seven finite binary32 joint
  targets, under the q_d contract inside the binary64 limits it was built with; six hand targets
  inside their semantic interval; registers in [0,1000].\<close>

theorem mapper_targets_stay_inside:
  assumes "reach new_tx tx_step s"
  shows "good_targets s (tx_arm s) (tx_hand s) \<and>
    (\<forall>p. tx_pending s = Some p \<longrightarrow>
       good_targets s (franka_target_q_rad (prop_mapped p)) (rh56_target_q_policy_order_rad (prop_mapped p)) \<and>
       register_vector (rh56_angle_set_register_order (prop_mapped p)))"
  using tx.reach_inv [OF assms] by (simp add: tx_inv_def good_proposal_def)

theorem mapper_targets_stay_inside_witness: "inside limits_ex (tx_arm tx_proposed_ex)"
  using mapper_targets_stay_inside [OF tx_reach_proposed] by (simp add: good_targets_def tx_ex_def)

text \<open>C5. Replayed registers survive: for every register vector in [0,1000] the joint targets computed
  from it convert back to exactly those registers, whatever the rounding of the five binary32
  operations, as long as the hand's closing angles are normal binary32 numbers.\<close>

theorem replayed_registers_roundtrip:
  assumes "reach new_tx tx_step s" and "register_vector ns" and "\<forall>c \<in> set (tx_close s). Fin (1 / 2 ^ 126) \<le> c"
  shows "policy_to_register_order (map2 hand_register (exact_hand s ns) (tx_close s)) = Inr ns"
proof -
  have cfg: "tx_config s" using tx.reach_inv [OF assms(1)] by (simp add: tx_inv_def)
  have len: "length ns = 6" using assms(2) by (simp add: register_vector_def)
  then have "register_order_to_policy_order ns = rev ns"
    by (auto simp: register_order_to_policy_order_def numeral_eq_Suc length_Suc_conv)
  with exact_hand_roundtrip [OF cfg assms(2,3)] len show ?thesis by (simp add: policy_to_register_order_rev)
qed

theorem replayed_registers_roundtrip_witness:
  "policy_to_register_order (map2 hand_register (exact_hand tx_ex [0, 1, 333, 500, 999, 1000]) (replicate 6 (Fin 1))) =
     Inr [0, 1, 333, 500, 999, 1000]"
proof -
  have "\<forall>c \<in> set (tx_close tx_ex). Fin (1 / 2 ^ 126) \<le> c" by (simp add: tx_ex_def)
  from replayed_registers_roundtrip [OF tx_reach_ex _ this, of "[0, 1, 333, 500, 999, 1000]"]
  show ?thesis by (simp add: register_vector_def tx_ex_def)
qed

end
