(* ===== verification/Command_References.thy ===== *)
theory Command_References
  imports Action_Mapper
begin

text \<open>
  The offline references of the Franka command path:
  \<open>robot_control/reference/franka_v225_interpolator_reference.py\<close> and the policy-rate mapping
  of \<open>franka_v94_shaper_reference.py\<close>. The policy-rate adapters work on \<open>float32\<close> arrays, the
  1 kHz interpolator on \<open>float64\<close> arrays. An array conversion rounds every element to the
  array's format. A negative zero counts as zero.
\<close>

section \<open>Arrays of seven values\<close>

definition to_f64 :: "fl \<Rightarrow> fl" where
  "to_f64 = fl_map rnd64"

text \<open>\<open>_vector7\<close>: \<open>convert\<close> is the conversion to the array's format.\<close>

definition vector7 :: "(fl \<Rightarrow> fl) \<Rightarrow> ndarray \<Rightarrow> string \<Rightarrow> exn + fl list" where
  "vector7 convert v name =
     (let err = Exn ValueError (name @ '' must contain seven finite values'')
      in case v of
           OtherShape \<Rightarrow> Inl err
         | Vec xs \<Rightarrow>
             let result = map convert xs
             in if length result \<noteq> 7 \<or> \<not> list_all is_finite result then Inl err else Inr result)"

text \<open>\<open>np.clip\<close> of an array by two arrays, element by element.\<close>

definition clip_between :: "fl list \<Rightarrow> fl list \<Rightarrow> fl list \<Rightarrow> fl list" where
  "clip_between xs lo hi = map2 (\<lambda>x (l, h). np_clip x l h) xs (zip lo hi)"

section \<open>Constants\<close>

definition SERVO_DT_S :: fl where
  "SERVO_DT_S = rnd64 (1 / 1000)"

definition TARGET_LOWPASS_CUTOFF_HZ :: fl where
  "TARGET_LOWPASS_CUTOFF_HZ = Fin 100"

definition TRACKING_NATURAL_FREQUENCY_HZ :: fl where
  "TRACKING_NATURAL_FREQUENCY_HZ = Fin 6"

definition TRACKING_DAMPING_RATIO :: fl where
  "TRACKING_DAMPING_RATIO = Fin 1"

definition MAX_COMMAND_VELOCITY_RAD_S :: fl where
  "MAX_COMMAND_VELOCITY_RAD_S = Fin (1 / 2)"

definition MAX_COMMAND_ACCELERATION_RAD_S2 :: fl where
  "MAX_COMMAND_ACCELERATION_RAD_S2 = Fin 5"

definition MAX_COMMAND_JERK_RAD_S3 :: fl where
  "MAX_COMMAND_JERK_RAD_S3 = Fin 250"

definition SAFE_JOINT_LOWER_RAD :: "fl list" where
  "SAFE_JOINT_LOWER_RAD =
     map rnd64 [- 26937 / 10000, - 17337 / 10000, - 28507 / 10000, - 29921 / 10000,
                - 27565 / 10000, 5945 / 10000, - 29659 / 10000]"

definition SAFE_JOINT_UPPER_RAD :: "fl list" where
  "SAFE_JOINT_UPPER_RAD =
     map rnd64 [26937 / 10000, 17337 / 10000, 28507 / 10000, - 2018 / 10000,
                27565 / 10000, 44669 / 10000, 29659 / 10000]"

text \<open>\<open>math.pi\<close>, the binary64 value.\<close>

definition math_pi :: fl where
  "math_pi = Fin (884279719003555 / 281474976710656)"

section \<open>Policy-rate mappings\<close>

definition map_v225_20hz_arm_action :: "ndarray \<Rightarrow> ndarray \<Rightarrow> ndarray \<Rightarrow> exn + fl list" where
  "map_v225_20hz_arm_action previous0 measured0 action0 =
     res_bind (vector7 to_f32 previous0 ''previous'') (\<lambda>previous.
     res_bind (vector7 to_f32 measured0 ''measured'') (\<lambda>measured.
     res_bind (vector7 to_f32 action0 ''action'') (\<lambda>checked.
       let gain = to_f32 (rnd64 (45 / 1000)); margin = to_f32 (rnd64 (5 / 100));
           action = map (\<lambda>x. np_clip x (Fin (- 1)) (Fin 1)) checked;
           raw = map2 (\<lambda>p x. f32_add p (f32_mul gain x)) previous action;
           filtered = map2 (\<lambda>r p. f32_add (f32_mul (to_f32 (rnd64 (40 / 100))) r)
                                          (f32_mul (to_f32 (rnd64 (60 / 100))) p)) raw previous;
           delta = map (\<lambda>d. np_clip d (- gain) gain) (map2 f32_sub filtered previous);
           candidate = map2 f32_add previous delta;
           lower = map2 (\<lambda>l m. np_maximum l (f32_sub m margin)) (map to_f32 SAFE_JOINT_LOWER_RAD) measured;
           upper = map2 (\<lambda>u m. np_minimum u (f32_add m margin)) (map to_f32 SAFE_JOINT_UPPER_RAD) measured
       in Inr (clip_between candidate lower upper))))"

definition map_qd_g015_20hz_arm_action :: "ndarray \<Rightarrow> ndarray \<Rightarrow> exn + fl list" where
  "map_qd_g015_20hz_arm_action q_d0 action0 =
     res_bind (vector7 to_f32 q_d0 ''current_shaper_q_d_rad'') (\<lambda>q_d.
     res_bind (vector7 to_f32 action0 ''action'') (\<lambda>checked.
       let action = map (\<lambda>x. np_clip x (Fin (- 1)) (Fin 1)) checked;
           target = map2 (\<lambda>q x. f32_add q (f32_mul (to_f32 (rnd64 (6 / 100))) x)) q_d action
       in Inr (clip_between target (map to_f32 SAFE_JOINT_LOWER_RAD) (map to_f32 SAFE_JOINT_UPPER_RAD))))"

text \<open>
  \<open>map_incremental_arm_action\<close>. The scalars are Python floats; the joint limits are checked
  like the other arrays.
\<close>

definition map_incremental_arm_action ::
    "ndarray \<Rightarrow> ndarray \<Rightarrow> ndarray \<Rightarrow> fl \<Rightarrow> fl \<Rightarrow> fl \<Rightarrow> fl \<Rightarrow> ndarray \<Rightarrow> ndarray \<Rightarrow> exn + fl list" where
  "map_incremental_arm_action previous0 measured0 action0 gain alpha step envelope lower0 upper0 =
     res_bind (res_map (\<lambda>(name, value).
         if \<not> is_finite value \<or> value \<le> 0
         then Inl (Exn ValueError (name @ '' must be finite and positive'')) else Inr ())
       [(''raw_gain_rad'', gain), (''target_filter_alpha'', alpha),
        (''maximum_target_step_rad'', step), (''measured_arm_envelope_rad'', envelope)]) (\<lambda>_.
     if 1 < alpha then Inl (Exn ValueError ''target_filter_alpha must not exceed one'')
     else
     res_bind (vector7 to_f32 previous0 ''previous_target_q_rad'') (\<lambda>previous.
     res_bind (vector7 to_f32 measured0 ''measured_q_rad'') (\<lambda>measured.
     res_bind (vector7 to_f32 action0 ''action_arm'') (\<lambda>action.
     res_bind (vector7 to_f32 lower0 ''joint_lower_rad'') (\<lambda>lower.
     res_bind (vector7 to_f32 upper0 ''joint_upper_rad'') (\<lambda>upper.
       let executed = map (\<lambda>x. np_clip x (Fin (- 1)) (Fin 1)) action;
           raw_target = map2 (\<lambda>p x. f32_add p (f32_mul (to_f32 gain) x)) previous executed;
           filtered = map2 (\<lambda>r p. f32_add (f32_mul (to_f32 alpha) r)
                                          (f32_mul (f32_sub 1 (to_f32 alpha)) p)) raw_target previous;
           target_delta = map (\<lambda>d. np_clip d (- to_f32 step) (to_f32 step)) (map2 f32_sub filtered previous);
           next_target = map2 f32_add previous target_delta;
           safe_lower = map2 (\<lambda>l m. np_maximum l (f32_sub m (to_f32 envelope))) lower measured;
           safe_upper = map2 (\<lambda>u m. np_minimum u (f32_add m (to_f32 envelope))) upper measured
       in Inr (clip_between next_target safe_lower safe_upper)))))))"

definition map_current_v94_arm_action :: "ndarray \<Rightarrow> ndarray \<Rightarrow> ndarray \<Rightarrow> ndarray \<Rightarrow> ndarray \<Rightarrow> exn + fl list" where
  "map_current_v94_arm_action previous measured action lower upper =
     map_incremental_arm_action previous measured action (rnd64 (15 / 1000)) (rnd64 (20 / 100))
       (rnd64 (15 / 1000)) (rnd64 (5 / 100)) lower upper"

definition map_v212_20hz_arm_action :: "ndarray \<Rightarrow> ndarray \<Rightarrow> ndarray \<Rightarrow> ndarray \<Rightarrow> ndarray \<Rightarrow> exn + fl list" where
  "map_v212_20hz_arm_action previous measured action lower upper =
     map_incremental_arm_action previous measured action (rnd64 (45 / 1000)) (rnd64 (40 / 100))
       (rnd64 (45 / 1000)) (rnd64 (5 / 100)) lower upper"

section \<open>The 1 kHz interpolator\<close>

record command_interpolator =
  ci_q_rad :: "fl list"
  ci_dq_rad_s :: "fl list"
  ci_ddq_rad_s2 :: "fl list"
  ci_filtered_target_rad :: "fl list"

text \<open>\<open>DesiredCommandState\<close>: a copy of the interpolator's arrays.\<close>

record desired_command_state =
  q_rad :: "fl list"
  dq_rad_s :: "fl list"
  ddq_rad_s2 :: "fl list"
  filtered_target_rad :: "fl list"

definition lowpass_gain :: fl where
  "lowpass_gain =
     fl_div SERVO_DT_S (SERVO_DT_S + fl_div (Fin 1) (Fin 2 * math_pi * TARGET_LOWPASS_CUTOFF_HZ))"

definition omega :: fl where
  "omega = Fin 2 * math_pi * TRACKING_NATURAL_FREQUENCY_HZ"

text \<open>\<open>self._omega**2\<close>: the square is computed to the nearest value.\<close>

definition omega_squared :: fl where
  "omega_squared = omega * omega"

definition make_interpolator :: "ndarray \<Rightarrow> ndarray option \<Rightarrow> ndarray option \<Rightarrow> exn + command_interpolator" where
  "make_interpolator start0 dq0 ddq0 =
     (let derivative = (\<lambda>v name. case v of None \<Rightarrow> Inr (replicate 7 (Fin 0))
                                        | Some a \<Rightarrow> vector7 to_f64 a name)
      in res_bind (vector7 to_f64 start0 ''start_q_rad'') (\<lambda>start.
         res_bind (derivative dq0 ''initial_dq_rad_s'') (\<lambda>dq.
         res_bind (derivative ddq0 ''initial_ddq_rad_s2'') (\<lambda>ddq.
           let q = clip_between start SAFE_JOINT_LOWER_RAD SAFE_JOINT_UPPER_RAD
           in Inr \<lparr>ci_q_rad = q, ci_dq_rad_s = dq, ci_ddq_rad_s2 = ddq, ci_filtered_target_rad = q\<rparr>))))"

definition interpolator_state :: "command_interpolator \<Rightarrow> desired_command_state" where
  "interpolator_state c =
     \<lparr>q_rad = ci_q_rad c, dq_rad_s = ci_dq_rad_s c, ddq_rad_s2 = ci_ddq_rad_s2 c,
      filtered_target_rad = ci_filtered_target_rad c\<rparr>"

definition interpolator_step :: "ndarray \<Rightarrow> (command_interpolator, desired_command_state) op" where
  "interpolator_step held0 c =
     (case vector7 to_f64 held0 ''held_target_q_rad'' of
        Inl e \<Rightarrow> (Inl e, c)
      | Inr target \<Rightarrow>
          let held = clip_between target SAFE_JOINT_LOWER_RAD SAFE_JOINT_UPPER_RAD;
              filtered = map2 (\<lambda>h f. lowpass_gain * h + (Fin 1 - lowpass_gain) * f)
                           held (ci_filtered_target_rad c);
              desired_acceleration =
                map2 (\<lambda>x dq. x - Fin 2 * TRACKING_DAMPING_RATIO * omega * dq)
                  (map2 (\<lambda>f q. omega_squared * (f - q)) filtered (ci_q_rad c)) (ci_dq_rad_s c);
              jerk_limited =
                map (\<lambda>a. np_clip a (- MAX_COMMAND_ACCELERATION_RAD_S2) MAX_COMMAND_ACCELERATION_RAD_S2)
                  (map2 (\<lambda>ddq d. ddq + np_clip (d - ddq) (- MAX_COMMAND_JERK_RAD_S3 * SERVO_DT_S)
                                                 (MAX_COMMAND_JERK_RAD_S3 * SERVO_DT_S))
                     (ci_ddq_rad_s2 c) desired_acceleration);
              gain = fl_div MAX_COMMAND_JERK_RAD_S3 MAX_COMMAND_ACCELERATION_RAD_S2;
              safe_maximum = map (\<lambda>dq. np_minimum (gain * (MAX_COMMAND_VELOCITY_RAD_S - dq))
                                         MAX_COMMAND_ACCELERATION_RAD_S2) (ci_dq_rad_s c);
              safe_minimum = map (\<lambda>dq. np_maximum (gain * (- MAX_COMMAND_VELOCITY_RAD_S - dq))
                                         (- MAX_COMMAND_ACCELERATION_RAD_S2)) (ci_dq_rad_s c);
              acceleration = clip_between jerk_limited safe_minimum safe_maximum;
              dq' = map2 (\<lambda>dq a. dq + a * SERVO_DT_S) (ci_dq_rad_s c) acceleration;
              q' = clip_between (map2 (\<lambda>q dq. q + dq * SERVO_DT_S) (ci_q_rad c) dq')
                     SAFE_JOINT_LOWER_RAD SAFE_JOINT_UPPER_RAD;
              c' = \<lparr>ci_q_rad = q', ci_dq_rad_s = dq', ci_ddq_rad_s2 = acceleration,
                    ci_filtered_target_rad = filtered\<rparr>
          in (Inr (interpolator_state c'), c'))"

section \<open>The substep schedule\<close>

text \<open>
  \<open>ServoSubstepAccumulator\<close>. The state is the remainder. \<open>math.floor\<close> of an infinity raises,
  after the elapsed time has been added.
\<close>

definition substeps_for :: "fl \<Rightarrow> (fl, int) op" where
  "substeps_for physics_dt remainder =
     (if \<not> is_finite physics_dt \<or> physics_dt \<le> 0
      then (Inl (Exn ValueError ''physics_dt_s must be finite and positive''), remainder)
      else
        let accumulated = remainder + physics_dt;
            steps = fl_div (accumulated + rnd64 (1 / 10 ^ 15)) SERVO_DT_S
        in if \<not> is_finite steps
           then (Inl (Exn OverflowError ''cannot convert float infinity to integer''), accumulated)
           else
             let count = (case steps of Fin x \<Rightarrow> \<lfloor>x\<rfloor> | _ \<Rightarrow> 0)
             in (Inr count, accumulated - rnd64 (of_int count) * SERVO_DT_S))"

section \<open>The values of the constants\<close>

lemma safe_limit_table:
  "SAFE_JOINT_LOWER_RAD = [Fin (- (6065673158123953 / 2251799813685248)),
     Fin (- (7807890673972229 / 4503599627370496)),
     Fin (- (802400716109067 / 281474976710656)),
     Fin (- (6737610222527631 / 2251799813685248)),
     Fin (- (3103543093211693 / 1125899906842624)),
     Fin (167336873654485 / 281474976710656),
     Fin (- (6678613067409077 / 2251799813685248))]"
  "SAFE_JOINT_UPPER_RAD = [Fin (6065673158123953 / 2251799813685248),
     Fin (7807890673972229 / 4503599627370496),
     Fin (802400716109067 / 281474976710656),
     Fin (- (7270611238426929 / 36028797018963968)),
     Fin (3103543093211693 / 1125899906842624),
     Fin (5029282293875317 / 1125899906842624),
     Fin (6678613067409077 / 2251799813685248)]"
  by code_simp+

lemma safe_limit_length [simp]: "length SAFE_JOINT_LOWER_RAD = 7" "length SAFE_JOINT_UPPER_RAD = 7"
  by (simp_all add: safe_limit_table)

lemma servo_dt: "SERVO_DT_S = Fin (1152921504606847 / 1152921504606846976)"
  by code_simp

end
