(* ===== verification/Binary64.thy ===== *)
theory Binary64
  imports Binary32
begin

text \<open>
  Interval reasoning about binary64 arithmetic. \<open>between a b v\<close> says that \<open>v\<close> is a binary64
  number between \<open>a\<close> and \<open>b\<close>. Since a rounding does not cross a representable number, the
  sum, the product and the clip of numbers in known intervals lie in the interval of the
  exact results, widened to representable ends. The rounding error bounds a result near its exact value.
\<close>

abbreviation rep64 :: "rat \<Rightarrow> bool" where
  "rep64 \<equiv> representable 53 (-1074) 1024"

lemma rnd64_le: "rep64 z \<Longrightarrow> x \<le> z \<Longrightarrow> rnd64 x \<le> Fin z"
  unfolding rnd64_def by (rule round_to_le) auto

lemma rnd64_ge: "rep64 z \<Longrightarrow> z \<le> x \<Longrightarrow> Fin z \<le> rnd64 x"
  unfolding rnd64_def by (rule round_to_ge) auto

lemma rnd64_rep: "rep64 z \<Longrightarrow> rnd64 z = Fin z"
  unfolding rnd64_def by (rule round_to_of_representable)

lemma rep64_rnd64: "rnd64 x = Fin z \<Longrightarrow> rep64 z"
  unfolding rnd64_def by (rule round_to_representable) auto

lemma rep64_scaled: "\<bar>n\<bar> < 2 ^ 53 \<Longrightarrow> -1074 \<le> e \<Longrightarrow> e \<le> 971 \<Longrightarrow> rep64 (of_int n * 2 powi e)"
  unfolding representable_def by (intro exI [of _ n] exI [of _ e]) simp

lemma rep64_int: "\<bar>n\<bar> < 2 ^ 53 \<Longrightarrow> rep64 (of_int n)"
  using rep64_scaled [of n 0] by simp

lemma rep64_int_numeral [simp]: "\<bar>numeral n\<bar> < (2 ^ 53 :: int) \<Longrightarrow> rep64 (numeral n)"
  "\<bar>numeral n\<bar> < (2 ^ 53 :: int) \<Longrightarrow> rep64 (- numeral n)"
  using rep64_int [of "numeral n"] rep64_int [of "- numeral n"] by simp_all

lemma rep64_0 [simp]: "rep64 0" and rep64_1 [simp]: "rep64 1" and rep64_m1 [simp]: "rep64 (- 1)"
  using rep64_int [of 0] rep64_int [of 1] rep64_int [of "- 1"] by simp_all

lemma rep64_half [simp]: "rep64 (1 / 2)" "rep64 (- (1 / 2))"
  using rep64_scaled [of 1 "-1"] rep64_scaled [of "-1" "-1"] by (simp_all add: power_int_minus)

lemma rnd64_error: "rnd64 x = Fin y \<Longrightarrow> \<bar>y - x\<bar> \<le> \<bar>x\<bar> / 2 ^ 53 + 2 powi (-1075)"
  using round_to_error [of 53 "-1074" 1024 x y] by (simp add: rnd64_def)

lemma rnd64_near: "rnd64 x = Fin y \<Longrightarrow> \<bar>y - x\<bar> \<le> \<bar>x\<bar> / 2 ^ 53 + 1 / 2 ^ 100"
proof -
  have "(2 :: rat) powi (-1075) \<le> 2 powi (-100)" by (rule power_int_increasing) auto
  then show "rnd64 x = Fin y \<Longrightarrow> ?thesis"
    using rnd64_error [of x y] by (simp add: power_int_minus field_simps)
qed

lemma rnd64_close:
  assumes "rnd64 x = Fin y" "\<bar>x\<bar> \<le> 64"
  shows "\<bar>y - x\<bar> \<le> 1 / 10000000000000"
  using rnd64_near [OF assms(1)] assms(2) by simp

lemma rnd64_not_NaN [simp]: "rnd64 x \<noteq> NaN"
  by (simp add: rnd64_def round_to_def Let_def)

section \<open>Intervals\<close>

definition between :: "rat \<Rightarrow> rat \<Rightarrow> fl \<Rightarrow> bool" where
  "between a b v = (\<exists>y. v = Fin y \<and> rep64 y \<and> a \<le> y \<and> y \<le> b)"

lemma betweenE:
  assumes "between a b v"
  obtains y where "v = Fin y" "rep64 y" "a \<le> y" "y \<le> b"
  using assms by (auto simp: between_def)

lemma between_weaken: "between a b v \<Longrightarrow> a' \<le> a \<Longrightarrow> b \<le> b' \<Longrightarrow> between a' b' v"
  by (auto simp: between_def)

lemma between_rnd64:
  assumes "a \<le> x" "x \<le> b" "rep64 a" "rep64 b"
  shows "between a b (rnd64 x)"
proof -
  have "Fin a \<le> rnd64 x" "rnd64 x \<le> Fin b" using assms rnd64_ge rnd64_le by blast+
  then obtain y where "rnd64 x = Fin y" by (cases "rnd64 x") (auto simp: less_eq_fl_def)
  then show ?thesis
    using rep64_rnd64 \<open>Fin a \<le> rnd64 x\<close> \<open>rnd64 x \<le> Fin b\<close> by (auto simp: between_def)
qed

lemma between_plus:
  assumes "between a b v" "between c d w" "e \<le> a + c" "b + d \<le> f" "rep64 e" "rep64 f"
  shows "between e f (v + w)"
proof -
  obtain x y where "v = Fin x" "w = Fin y" "a \<le> x" "x \<le> b" "c \<le> y" "y \<le> d"
    using assms(1,2) by (elim betweenE)
  then show ?thesis using assms between_rnd64 [of e "x + y" f] by (simp add: plus_fl_def)
qed

lemma between_minus:
  assumes "between a b v" "between c d w" "e \<le> a - d" "b - c \<le> f" "rep64 e" "rep64 f"
  shows "between e f (v - w)"
proof -
  obtain x y where "v = Fin x" "w = Fin y" "a \<le> x" "x \<le> b" "c \<le> y" "y \<le> d"
    using assms(1,2) by (elim betweenE)
  then show ?thesis using assms between_rnd64 [of e "x - y" f] by (simp add: minus_fl_def)
qed

text \<open>A positive constant times a number of a symmetric interval.\<close>

lemma between_scale:
  assumes "between (- b) b v" "0 \<le> k" "k * b \<le> f" "rep64 f"
  shows "between (- f) f (Fin k * v)"
proof -
  obtain x where x: "v = Fin x" "- b \<le> x" "x \<le> b" using assms(1) by (elim betweenE)
  then have "k * x \<le> k * b" "k * (- b) \<le> k * x" using assms(2) by (intro mult_left_mono; simp)+
  then show ?thesis
    using x assms between_rnd64 [of "- f" "k * x" f] representable_minus by (simp add: times_fl_def)
qed

lemma np_clip_between:
  assumes "v \<noteq> NaN" "l \<le> u" "rep64 l" "rep64 u" "\<And>x. v = Fin x \<Longrightarrow> rep64 x"
  shows "between l u (np_clip v (Fin l) (Fin u))"
  using assms by (cases v) (auto simp: between_def np_clip_def np_maximum_def np_minimum_def less_eq_fl_def)

lemma between_np_clip:
  assumes "between a b v" "l \<le> u" "rep64 l" "rep64 u"
  shows "between l u (np_clip v (Fin l) (Fin u))"
  using assms by (intro np_clip_between) (auto simp: between_def)

lemma fl_neg_Fin [simp]: "- Fin x = Fin (- x)"
  by (simp add: uminus_fl_def)

text \<open>Negation commutes with the operations.\<close>

lemma fl_neg_rnd64: "rnd64 (- x) = fl_neg (rnd64 x)"
  by (simp add: rnd64_def round_to_minus)

lemma fl_neg_le: "fl_neg v \<le> fl_neg w \<longleftrightarrow> w \<le> v"
  by (cases v; cases w) (auto simp: less_eq_fl_def)

lemma fl_neg_plus: "fl_neg (v + w) = fl_neg v + fl_neg w"
  by (cases v; cases w) (simp_all add: plus_fl_def fl_neg_rnd64 [symmetric])

lemma fl_neg_times: "fl_neg (v * w) = fl_neg v * w"
  by (cases v; cases w) (simp_all add: times_fl_def fl_inf_of_sgn_def fl_neg_rnd64 [symmetric])

lemma fl_neg_minus: "fl_neg (v - w) = fl_neg v - fl_neg w"
  using fl_neg_plus [of v "fl_neg w"] by (simp add: minus_fl_def plus_fl_def)

text \<open>The conversion of an array to binary64.\<close>

lemma rep64_fl_map: "fl_map rnd64 v = Fin x \<Longrightarrow> rep64 x"
  by (cases v) (auto dest: rep64_rnd64)

end
