(* ===== verification/Interpolator_Proofs.thy ===== *)
theory Interpolator_Proofs
  imports Command_References Binary64
begin

text \<open>
  The 1 kHz interpolator keeps its command bounded exactly, not only up to rounding: the
  position stays inside the joint limits, the velocity inside \<open>\<plusminus> 0.5\<close> and the acceleration
  inside \<open>\<plusminus> 5\<close>, whatever finite targets it is given.
\<close>

section \<open>The velocity barrier\<close>

text \<open>A binary64 number below one half is below it by at least \<open>2 powi -54\<close>.\<close>

lemma below_half:
  assumes "rep64 x" "x < 1 / 2"
  shows "1 / 2 ^ 54 \<le> 1 / 2 - x"
proof -
  have "(-1074 :: int) \<le> -54" by simp
  with assms(1) show ?thesis
  proof (cases rule: representable_cases)
    case (multiple n)
    then have "of_int n < (of_int (2 ^ 53) :: rat)" using assms(2) by (simp add: power_int_minus field_simps)
    then have "n < 2 ^ 53" by (simp only: of_int_less_iff)
    then have "n + 1 \<le> 2 ^ 53" by simp
    then have "(of_int (n + 1) :: rat) \<le> of_int (2 ^ 53)" by (simp only: of_int_le_iff)
    then show ?thesis using multiple by (simp add: power_int_minus field_simps)
  next
    case small
    then have "x < 1 / 4" by (simp add: power_int_minus)
    then show ?thesis by simp
  qed
qed

abbreviation dt_value :: rat where
  "dt_value \<equiv> 1152921504606847 / 1152921504606846976"

lemma small_step:
  assumes gap: "0 < d" "1 / 2 ^ 54 \<le> d" "d \<le> 2" and y: "0 \<le> y" "Fin y \<le> Fin 50 * rnd64 d"
  shows "\<exists>w. rnd64 (y * dt_value) = Fin w \<and> w \<le> d"
proof -
  have tiny: "1 / 2 ^ 100 \<le> d / 2 ^ 46" using gap(2) by simp
  have "between 0 2 (rnd64 d)" using gap by (intro between_rnd64) auto
  then obtain g where g: "rnd64 d = Fin g" "0 \<le> g" "g \<le> 2" by (elim betweenE)
  have "\<bar>g - d\<bar> \<le> \<bar>d\<bar> / 2 ^ 53 + 1 / 2 ^ 100" by (rule rnd64_near [OF g(1)])
  then have g2: "g \<le> 2 * d" using gap(1) tiny by (simp add: abs_le_iff)
  have "between 0 128 (rnd64 (50 * g))" using g by (intro between_rnd64) auto
  then obtain z where z: "rnd64 (50 * g) = Fin z" by (elim betweenE)
  have "y \<le> z" using y(2) by (simp add: g(1) times_fl_def z)
  moreover have "\<bar>z - 50 * g\<bar> \<le> \<bar>50 * g\<bar> / 2 ^ 53 + 1 / 2 ^ 100" by (rule rnd64_near [OF z])
  then have "z \<le> 101 * d" using gap(1) tiny g2 g(2) by (simp add: abs_le_iff)
  ultimately have y2: "y \<le> 101 * d" by simp
  define p where "p = y * dt_value"
  have p: "0 \<le> p" "p \<le> d / 5" using y2 y(1) gap(1) by (simp_all add: p_def)
  have "between 0 1 (rnd64 p)" using p gap by (intro between_rnd64) auto
  then obtain w where w: "rnd64 p = Fin w" by (elim betweenE)
  have "\<bar>w - p\<bar> \<le> \<bar>p\<bar> / 2 ^ 53 + 1 / 2 ^ 100" by (rule rnd64_near [OF w])
  then have "w \<le> d" using p gap(1) tiny by (simp add: abs_le_iff)
  then show ?thesis using w by (simp add: p_def)
qed

lemma velocity_step_upper:
  assumes x: "rep64 x" "-1 / 2 \<le> x" "x \<le> 1 / 2" and y: "Fin y \<le> Fin 50 * (Fin (1 / 2) - Fin x)" "-5 \<le> y"
  shows "Fin x + Fin y * SERVO_DT_S \<le> Fin (1 / 2)"
proof -
  have d: "Fin (1 / 2) - Fin x = rnd64 (1 / 2 - x)" by (simp add: minus_fl_def)
  have "\<exists>w. rnd64 (y * dt_value) = Fin w \<and> w \<le> 1 / 2 - x"
  proof (cases "y \<le> 0")
    case True
    then have "between (-1) 0 (rnd64 (y * dt_value))"
      using y(2) by (intro between_rnd64) (auto simp: mult_nonpos_nonneg)
    then show ?thesis using x(3) by (force elim: betweenE)
  next
    case False
    then have "x \<noteq> 1 / 2" using y(1) by (auto simp: d times_fl_def rnd64_def round_to_def)
    then have "x < 1 / 2" using x(3) by simp
    then show ?thesis
      using below_half [OF x(1)] False y(1) x(2) by (intro small_step) (simp_all add: d)
  qed
  then obtain w where w: "rnd64 (y * dt_value) = Fin w" "w \<le> 1 / 2 - x" by blast
  then have "rnd64 (x + w) \<le> Fin (1 / 2)" by (intro rnd64_le) auto
  then show ?thesis using w by (simp add: plus_fl_def times_fl_def servo_dt)
qed

lemma velocity_step_lower:
  assumes x: "rep64 x" "-1 / 2 \<le> x" "x \<le> 1 / 2" and y: "Fin 50 * (- Fin (1 / 2) - Fin x) \<le> Fin y" "y \<le> 5"
  shows "Fin (- (1 / 2)) \<le> Fin x + Fin y * SERVO_DT_S"
proof -
  have neg: "rnd64 (- (1 / 2) - x) = fl_neg (rnd64 (1 / 2 - - x))"
    using fl_neg_rnd64 [of "1 / 2 + x"] by simp
  have "between (-1) 1 (rnd64 (1 / 2 - - x))" using x by (intro between_rnd64) auto
  then obtain g where g: "rnd64 (1 / 2 - - x) = Fin g" by (elim betweenE)
  have "Fin (- y) \<le> Fin 50 * (Fin (1 / 2) - Fin (- x))"
    using y(1) fl_neg_rnd64 [of "50 * g"] fl_neg_le [of "Fin y" "rnd64 (50 * g)"] fl_neg_le [of "Fin (- y)"] neg g
    by (simp add: minus_fl_def times_fl_def) (metis fl_neg.simps(1) fl_neg_le minus_minus)
  then have "Fin (- x) + Fin (- y) * SERVO_DT_S \<le> Fin (1 / 2)"
    using x y(2) by (intro velocity_step_upper representable_minus) simp_all
  moreover have "Fin (- x) + Fin (- y) * SERVO_DT_S = fl_neg (Fin x + Fin y * SERVO_DT_S)"
    by (simp add: fl_neg_plus fl_neg_times)
  ultimately show ?thesis using fl_neg_le [of "Fin x + Fin y * SERVO_DT_S" "Fin (- (1 / 2))"] by simp
qed

section \<open>One axis of a step\<close>

definition axis_filtered :: "fl \<Rightarrow> fl \<Rightarrow> fl" where
  "axis_filtered h f = lowpass_gain * h + (Fin 1 - lowpass_gain) * f"

definition axis_desired :: "fl \<Rightarrow> fl \<Rightarrow> fl \<Rightarrow> fl" where
  "axis_desired f q dq = omega_squared * (f - q) - Fin 2 * TRACKING_DAMPING_RATIO * omega * dq"

definition axis_minimum :: "fl \<Rightarrow> fl" where
  "axis_minimum dq = np_maximum (Fin 50 * (- Fin (1 / 2) - dq)) (Fin (- 5))"

definition axis_maximum :: "fl \<Rightarrow> fl" where
  "axis_maximum dq = np_minimum (Fin 50 * (Fin (1 / 2) - dq)) (Fin 5)"

definition axis_acceleration :: "fl \<Rightarrow> fl \<Rightarrow> fl \<Rightarrow> fl \<Rightarrow> fl" where
  "axis_acceleration f q dq ddq =
     np_clip (np_clip (ddq + np_clip (axis_desired f q dq - ddq) (Fin (- (1 / 4))) (Fin (1 / 4))) (Fin (- 5)) (Fin 5))
       (axis_minimum dq) (axis_maximum dq)"

lemma constant_steps:
  "Fin 2 * math_pi = Fin (884279719003555 / 140737488355328)" "Fin (884279719003555 / 140737488355328) * Fin 100 = Fin (5526748243772219 / 8796093022208)"
  "fl_div (Fin 1) (Fin (5526748243772219 / 8796093022208)) = Fin (7339726258205003 / 4611686018427387904)"
  "Fin (1152921504606847 / 1152921504606846976) + Fin (7339726258205003 / 4611686018427387904) =
     Fin (1493926534579049 / 576460752303423488)"
  "fl_div (Fin (1152921504606847 / 1152921504606846976)) (Fin (1493926534579049 / 576460752303423488)) = Fin (6951207758014535 / 18014398509481984)"
  "Fin 1 - Fin (6951207758014535 / 18014398509481984) = Fin (1382898843933431 / 2251799813685248)"
  "Fin (884279719003555 / 140737488355328) * Fin 6 = Fin (2652839157010665 / 70368744177664)"
  "Fin (2652839157010665 / 70368744177664) * Fin (2652839157010665 / 70368744177664) = Fin (3125302502557517 / 2199023255552)"
  "Fin 2 * Fin (2652839157010665 / 70368744177664) = Fin (2652839157010665 / 35184372088832)" "Fin 2 * Fin 1 = Fin 2"
  "Fin 250 * Fin (1152921504606847 / 1152921504606846976) = Fin (1 / 4)"
  "Fin (- 250) * Fin (1152921504606847 / 1152921504606846976) = Fin (- (1 / 4))"
  "fl_div (Fin 250) (Fin 5) = Fin 50"
  by code_simp+

lemma interpolator_constants:
  "lowpass_gain = Fin (6951207758014535 / 18014398509481984)"
  "Fin 1 - lowpass_gain = Fin (1382898843933431 / 2251799813685248)"
  "omega_squared = Fin (3125302502557517 / 2199023255552)"
  "Fin 2 * TRACKING_DAMPING_RATIO * omega = Fin (2652839157010665 / 35184372088832)"
  "MAX_COMMAND_JERK_RAD_S3 * SERVO_DT_S = Fin (1 / 4)" "- MAX_COMMAND_JERK_RAD_S3 * SERVO_DT_S = Fin (- (1 / 4))"
  "fl_div MAX_COMMAND_JERK_RAD_S3 (Fin 5) = Fin 50"
  by (simp_all add: lowpass_gain_def omega_def omega_squared_def TARGET_LOWPASS_CUTOFF_HZ_def servo_dt
      TRACKING_NATURAL_FREQUENCY_HZ_def TRACKING_DAMPING_RATIO_def MAX_COMMAND_JERK_RAD_S3_def constant_steps del: fl_div.simps)

lemma interpolator_step_axes:
  assumes "vector7 to_f64 held ''held_target_q_rad'' = Inr target" and "i < 7"
    and "length (ci_q_rad c) = 7" "length (ci_dq_rad_s c) = 7" "length (ci_ddq_rad_s2 c) = 7"
      "length (ci_filtered_target_rad c) = 7"
  defines "c' \<equiv> snd (interpolator_step held c)"
    and "f \<equiv> axis_filtered (np_clip (target ! i) (SAFE_JOINT_LOWER_RAD ! i) (SAFE_JOINT_UPPER_RAD ! i))
               (ci_filtered_target_rad c ! i)"
  defines "a \<equiv> axis_acceleration f (ci_q_rad c ! i) (ci_dq_rad_s c ! i) (ci_ddq_rad_s2 c ! i)"
  defines "v \<equiv> ci_dq_rad_s c ! i + a * SERVO_DT_S"
  shows "ci_filtered_target_rad c' ! i = f" "ci_ddq_rad_s2 c' ! i = a" "ci_dq_rad_s c' ! i = v"
    "ci_q_rad c' ! i = np_clip (ci_q_rad c ! i + v * SERVO_DT_S) (SAFE_JOINT_LOWER_RAD ! i) (SAFE_JOINT_UPPER_RAD ! i)"
proof -
  have "length target = 7" using assms(1) by (auto simp: vector7_def Let_def split: ndarray.splits if_splits)
  note rules = this assms(1-6) interpolator_step_def clip_between_def Let_def interpolator_constants
    axis_acceleration_def axis_desired_def axis_maximum_def axis_minimum_def axis_filtered_def
    MAX_COMMAND_VELOCITY_RAD_S_def MAX_COMMAND_ACCELERATION_RAD_S2_def
  show f: "ci_filtered_target_rad c' ! i = f" by (simp add: c'_def f_def rules)
  show a: "ci_ddq_rad_s2 c' ! i = a" by (simp add: c'_def a_def f_def rules)
  show v: "ci_dq_rad_s c' ! i = v" by (simp add: c'_def v_def a_def f_def rules)
  show "ci_q_rad c' ! i = np_clip (ci_q_rad c ! i + v * SERVO_DT_S) (SAFE_JOINT_LOWER_RAD ! i) (SAFE_JOINT_UPPER_RAD ! i)"
    by (simp add: c'_def v_def a_def f_def rules)
qed

lemma axis_filtered_between:
  assumes "between (- 5) 5 h" "between (- 8) 8 f"
  shows "between (- 8) 8 (axis_filtered h f)"
proof -
  have "between (- 2) 2 (lowpass_gain * h)"
    unfolding interpolator_constants by (rule between_scale [OF assms(1)]) simp_all
  moreover have "between (- 5) 5 ((Fin 1 - lowpass_gain) * f)"
    unfolding interpolator_constants(2) by (rule between_scale [OF assms(2)]) simp_all
  ultimately show ?thesis
    unfolding axis_filtered_def by (rule between_plus) simp_all
qed

lemma axis_desired_between:
  assumes "between (- 8) 8 f" "between (- 5) 5 q" "between (- (1 / 2)) (1 / 2) dq"
  shows "between (- 20000) 20000 (axis_desired f q dq)"
proof -
  have "between (- 13) 13 (f - q)" by (rule between_minus [OF assms(1,2)]) simp_all
  then have "between (- 19000) 19000 (omega_squared * (f - q))"
    unfolding interpolator_constants by (rule between_scale) simp_all
  moreover have "between (- 38) 38 (Fin 2 * TRACKING_DAMPING_RATIO * omega * dq)"
    unfolding interpolator_constants by (rule between_scale [OF assms(3)]) simp_all
  ultimately show ?thesis unfolding axis_desired_def by (rule between_minus) simp_all
qed

lemma axis_barrier_between:
  assumes "between (- (1 / 2)) (1 / 2) dq"
  shows "between 0 5 (axis_maximum dq)" "between (- 5) 0 (axis_minimum dq)"
    "axis_maximum dq \<le> Fin 50 * (Fin (1 / 2) - dq)" "Fin 50 * (- Fin (1 / 2) - dq) \<le> axis_minimum dq"
proof -
  have half: "between (1 / 2) (1 / 2) (Fin (1 / 2))" "between (- (1 / 2)) (- (1 / 2)) (- Fin (1 / 2))"
    unfolding between_def by (intro exI [of _ "1 / 2"] exI [of _ "- (1 / 2)"]; simp)+
  have "between 0 1 (Fin (1 / 2) - dq)" by (rule between_minus [OF half(1) assms]) simp_all
  then obtain x where x: "Fin (1 / 2) - dq = Fin x" "0 \<le> x" "x \<le> 1" by (elim betweenE)
  have up: "between 0 50 (Fin 50 * (Fin (1 / 2) - dq))"
    unfolding x times_fl_def using x by (simp add: between_rnd64)
  have "between (- 1) 0 (- Fin (1 / 2) - dq)" by (rule between_minus [OF half(2) assms]) simp_all
  then obtain y where y: "- Fin (1 / 2) - dq = Fin y" "- 1 \<le> y" "y \<le> 0" by (elim betweenE)
  have lo: "between (- 50) 0 (Fin 50 * (- Fin (1 / 2) - dq))"
    unfolding y times_fl_def using y by (simp add: between_rnd64)
  show "between 0 5 (axis_maximum dq)" "axis_maximum dq \<le> Fin 50 * (Fin (1 / 2) - dq)"
    using up by (auto simp: axis_maximum_def between_def np_minimum_def)
  show "between (- 5) 0 (axis_minimum dq)" "Fin 50 * (- Fin (1 / 2) - dq) \<le> axis_minimum dq"
    using lo by (auto simp: axis_minimum_def between_def np_maximum_def)
qed

lemma axis_acceleration_between:
  assumes "between (- 8) 8 f" "between (- 5) 5 q" "between (- (1 / 2)) (1 / 2) dq" "between (- 5) 5 ddq"
  shows "between (- 5) 5 (axis_acceleration f q dq ddq)"
    "axis_acceleration f q dq ddq \<le> Fin 50 * (Fin (1 / 2) - dq)"
    "Fin 50 * (- Fin (1 / 2) - dq) \<le> axis_acceleration f q dq ddq"
proof -
  have quarter: "rep64 (1 / 4)" "rep64 (- (1 / 4))"
    using rep64_scaled [of 1 "-2"] rep64_scaled [of "-1" "-2"] by (simp_all add: power_int_minus)
  have "between (- 20005) 20005 (axis_desired f q dq - ddq)"
    by (rule between_minus [OF axis_desired_between [OF assms(1-3)] assms(4)]) simp_all
  then have "between (- (1 / 4)) (1 / 4) (np_clip (axis_desired f q dq - ddq) (Fin (- (1 / 4))) (Fin (1 / 4)))"
    using quarter by (intro between_np_clip) simp_all
  then have "between (- 6) 6 (ddq + np_clip (axis_desired f q dq - ddq) (Fin (- (1 / 4))) (Fin (1 / 4)))"
    by (rule between_plus [OF assms(4)]) simp_all
  then have "between (- 5) 5 (np_clip (ddq + np_clip (axis_desired f q dq - ddq) (Fin (- (1 / 4))) (Fin (1 / 4)))
      (Fin (- 5)) (Fin 5))"
    by (intro between_np_clip) simp_all
  then obtain w where w: "axis_acceleration f q dq ddq = np_clip (Fin w) (axis_minimum dq) (axis_maximum dq)"
    "rep64 w" "- 5 \<le> w" "w \<le> 5"
    unfolding axis_acceleration_def by (elim betweenE) simp
  obtain l u where lu: "axis_minimum dq = Fin l" "axis_maximum dq = Fin u" "- 5 \<le> l" "l \<le> 0" "0 \<le> u" "u \<le> 5"
    "rep64 l" "rep64 u"
    using axis_barrier_between(1,2) [OF assms(3)] by (elim betweenE)
  have "between l u (axis_acceleration f q dq ddq)"
    using w lu between_np_clip [of w w "Fin w" l u] by (simp add: between_def)
  then show "between (- 5) 5 (axis_acceleration f q dq ddq)" using lu by (auto elim: between_weaken)
  show "axis_acceleration f q dq ddq \<le> Fin 50 * (Fin (1 / 2) - dq)"
    "Fin 50 * (- Fin (1 / 2) - dq) \<le> axis_acceleration f q dq ddq"
    using \<open>between l u _\<close> axis_barrier_between(3,4) [OF assms(3)] lu fl_le_trans
    by (auto simp: between_def) (metis fl_le_Fin fl_le_trans)+
qed

lemma axis_velocity_between:
  assumes "between (- 8) 8 f" "between (- 5) 5 q" "between (- (1 / 2)) (1 / 2) dq" "between (- 5) 5 ddq"
  shows "between (- (1 / 2)) (1 / 2) (dq + axis_acceleration f q dq ddq * SERVO_DT_S)"
proof -
  obtain x where x: "dq = Fin x" "rep64 x" "- (1 / 2) \<le> x" "x \<le> 1 / 2" using assms(3) by (elim betweenE)
  obtain y where y: "axis_acceleration f q dq ddq = Fin y" "rep64 y" "- 5 \<le> y" "y \<le> 5"
    using axis_acceleration_between(1) [OF assms] by (elim betweenE)
  have "Fin x + Fin y * SERVO_DT_S \<le> Fin (1 / 2)"
    using axis_acceleration_between(2) [OF assms] x y by (intro velocity_step_upper) auto
  moreover have "Fin (- (1 / 2)) \<le> Fin x + Fin y * SERVO_DT_S"
    using axis_acceleration_between(3) [OF assms] x y by (intro velocity_step_lower) auto
  ultimately obtain z where z: "Fin x + Fin y * SERVO_DT_S = Fin z" "- (1 / 2) \<le> z" "z \<le> 1 / 2"
    by (cases "Fin x + Fin y * SERVO_DT_S") (auto simp: less_eq_fl_def)
  have "rep64 z"
    using z(1) rep64_rnd64 by (cases "Fin y * SERVO_DT_S") (auto simp: plus_fl_def)
  then show ?thesis using z x y by (auto simp: between_def)
qed

section \<open>The jerk\<close>

text \<open>
  A step leaves the acceleration below the velocity barrier it was computed with, so the next
  barrier, at the new velocity, is lower by at most the step of the jerk limit.
\<close>

definition barrier_slack :: "rat \<Rightarrow> rat \<Rightarrow> bool" where
  "barrier_slack v a =
     (a - 50 * dt_value * a - 1 / 10000000000 \<le> 25 - 50 * v \<and>
      - 25 - 50 * v \<le> a - 50 * dt_value * a + 1 / 10000000000)"

lemma min_close: "\<bar>a - b\<bar> \<le> (e :: rat) \<Longrightarrow> \<bar>min a c - min b c\<bar> \<le> e"
  by linarith

lemma max_close: "\<bar>a - b\<bar> \<le> (e :: rat) \<Longrightarrow> \<bar>max a c - max b c\<bar> \<le> e"
  by linarith

lemma axis_barrier_near:
  assumes "- (1 / 2) \<le> x" "x \<le> 1 / 2" "rep64 x"
  obtains l u where "axis_maximum (Fin x) = Fin u" "axis_minimum (Fin x) = Fin l"
    "\<bar>u - min (25 - 50 * x) 5\<bar> \<le> 1 / 100000000000" "\<bar>l - max (- 25 - 50 * x) (- 5)\<bar> \<le> 1 / 100000000000"
proof -
  have "between 0 1 (rnd64 (1 / 2 - x))" "between (- 1) 0 (rnd64 (- (1 / 2) - x))"
    using assms by (intro between_rnd64; simp)+
  then obtain g h where g: "rnd64 (1 / 2 - x) = Fin g" "0 \<le> g" "g \<le> 1"
    and h: "rnd64 (- (1 / 2) - x) = Fin h" "- 1 \<le> h" "h \<le> 0" by (elim betweenE)
  have "between 0 50 (rnd64 (50 * g))" "between (- 50) 0 (rnd64 (50 * h))"
    using g h by (intro between_rnd64; simp)+
  then obtain y z where y: "rnd64 (50 * g) = Fin y" and z: "rnd64 (50 * h) = Fin z" by (elim betweenE)
  have "\<bar>g - (1 / 2 - x)\<bar> \<le> 1 / 10000000000000" "\<bar>h - (- (1 / 2) - x)\<bar> \<le> 1 / 10000000000000"
    "\<bar>y - 50 * g\<bar> \<le> 1 / 10000000000000" "\<bar>z - 50 * h\<bar> \<le> 1 / 10000000000000"
    using g h y z assms by (intro rnd64_close; simp)+
  then have "\<bar>y - (25 - 50 * x)\<bar> \<le> 1 / 100000000000 \<and> \<bar>z - (- 25 - 50 * x)\<bar> \<le> 1 / 100000000000"
    by (intro conjI) linarith+
  then show ?thesis
    by (intro that [of "min y 5" "max z (- 5)"] min_close max_close)
      (auto simp: axis_maximum_def axis_minimum_def np_minimum_def np_maximum_def minus_fl_def times_fl_def
        g(1) h(1) y z)
qed

lemma velocity_near:
  assumes "Fin x + Fin y * SERVO_DT_S = Fin z" "\<bar>x\<bar> \<le> 1 / 2" "\<bar>y\<bar> \<le> 5"
  shows "\<bar>z - (x + y * dt_value)\<bar> \<le> 1 / 1000000000000"
proof -
  obtain p where p: "rnd64 (y * dt_value) = Fin p"
    using assms(1) by (cases "rnd64 (y * dt_value)") (auto simp: plus_fl_def times_fl_def servo_dt)
  then have "rnd64 (x + p) = Fin z" using assms(1) by (simp add: plus_fl_def times_fl_def servo_dt)
  moreover have "\<bar>p - y * dt_value\<bar> \<le> 1 / 10000000000000" using assms(3) by (intro rnd64_close [OF p]) (simp add: abs_le_iff)
  moreover from this have "\<bar>x + p\<bar> \<le> 64" using assms(2,3) by linarith
  ultimately show ?thesis using rnd64_close [of "x + p" z] by linarith
qed

lemma axis_acceleration_clipped:
  assumes "between (- 8) 8 f" "between (- 5) 5 q" "between (- (1 / 2)) (1 / 2) (Fin x)" "between (- 5) 5 (Fin a)"
    and "axis_acceleration f q (Fin x) (Fin a) = Fin b"
    and "axis_maximum (Fin x) = Fin u" "axis_minimum (Fin x) = Fin l"
  obtains w where "\<bar>w - a\<bar> \<le> 1 / 4 + 1 / 10000000000000" "b = min u (max l w)"
proof -
  have quarter: "rep64 (1 / 4)" "rep64 (- (1 / 4))"
    using rep64_scaled [of 1 "-2"] rep64_scaled [of "-1" "-2"] by (simp_all add: power_int_minus)
  have "between (- 20005) 20005 (axis_desired f q (Fin x) - Fin a)"
    by (rule between_minus [OF axis_desired_between [OF assms(1-3)] assms(4)]) simp_all
  then have "between (- (1 / 4)) (1 / 4) (np_clip (axis_desired f q (Fin x) - Fin a) (Fin (- (1 / 4))) (Fin (1 / 4)))"
    using quarter by (intro between_np_clip) simp_all
  then obtain j where j: "np_clip (axis_desired f q (Fin x) - Fin a) (Fin (- (1 / 4))) (Fin (1 / 4)) = Fin j"
    "- (1 / 4) \<le> j" "j \<le> 1 / 4" by (elim betweenE)
  have a: "- 5 \<le> a" "a \<le> 5" using assms(4) by (auto simp: between_def)
  have "between (- 6) 6 (rnd64 (a + j))" using j a by (intro between_rnd64) auto
  then obtain s where s: "rnd64 (a + j) = Fin s" by (elim betweenE)
  have near: "\<bar>s - (a + j)\<bar> \<le> 1 / 10000000000000"
    using j a by (intro rnd64_close [OF s]) (auto simp: abs_le_iff)
  define w where "w = min 5 (max (- 5) s)"
  have "axis_acceleration f q (Fin x) (Fin a) = np_clip (np_clip (Fin a + Fin j) (Fin (- 5)) (Fin 5)) (Fin l) (Fin u)"
    unfolding axis_acceleration_def j assms(6,7) ..
  then have "b = min u (max l w)" using assms(5) by (simp add: plus_fl_def s w_def)
  moreover have "\<bar>w - a\<bar> \<le> 1 / 4 + 1 / 10000000000000"
    using near j(2,3) a unfolding w_def by linarith
  ultimately show ?thesis using that by blast
qed

lemma axis_jerk:
  assumes "between (- 8) 8 f" "between (- 5) 5 q" "between (- (1 / 2)) (1 / 2) (Fin x)" "between (- 5) 5 (Fin a)"
    and slack: "barrier_slack x a" and b: "axis_acceleration f q (Fin x) (Fin a) = Fin b"
    and z: "Fin x + Fin b * SERVO_DT_S = Fin z"
  shows "\<bar>b - a\<bar> \<le> 1 / 4 + 1 / 1000000000" "barrier_slack z b"
proof -
  have x: "- (1 / 2) \<le> x" "x \<le> 1 / 2" "rep64 x" and a: "- 5 \<le> a" "a \<le> 5"
    using assms(3,4) by (auto simp: between_def)
  obtain l u where lu: "axis_maximum (Fin x) = Fin u" "axis_minimum (Fin x) = Fin l"
    "\<bar>u - min (25 - 50 * x) 5\<bar> \<le> 1 / 100000000000" "\<bar>l - max (- 25 - 50 * x) (- 5)\<bar> \<le> 1 / 100000000000"
    using axis_barrier_near [OF x] .
  obtain w where w: "\<bar>w - a\<bar> \<le> 1 / 4 + 1 / 10000000000000" "b = min u (max l w)"
    using axis_acceleration_clipped [OF assms(1-4) b lu(1,2)] .
  have lu': "l \<le> 0" "0 \<le> u" using axis_barrier_between(1,2) [OF assms(3)] lu(1,2) by (auto simp: between_def)
  have b5: "- 5 \<le> b" "b \<le> 5" using axis_acceleration_between(1) [OF assms(1-4)] b by (auto simp: between_def)
  have lo: "a - 1 / 4 - 1 / 1000000000 \<le> u"
    using slack lu(3) a unfolding barrier_slack_def by linarith
  have hi: "l \<le> a + 1 / 4 + 1 / 1000000000"
    using slack lu(4) a unfolding barrier_slack_def by linarith
  show "\<bar>b - a\<bar> \<le> 1 / 4 + 1 / 1000000000"
    using lo hi w(1) lu' unfolding w(2) by linarith
  have "\<bar>z - (x + b * dt_value)\<bar> \<le> 1 / 1000000000000"
    using velocity_near [OF z] x b5 by (simp add: abs_le_iff)
  moreover have "b \<le> 25 - 50 * x + 1 / 100000000000"
    using lu(3) unfolding w(2) by linarith
  moreover have "- 25 - 50 * x - 1 / 100000000000 \<le> b"
    using lu(4) lu' unfolding w(2) by linarith
  ultimately show "barrier_slack z b" unfolding barrier_slack_def by linarith
qed

section \<open>Every run\<close>

definition rest_interpolator :: "command_interpolator \<Rightarrow> bool" where
  "rest_interpolator c = (\<exists>start. make_interpolator start None None = Inr c)"

definition interpolator_steps :: "command_interpolator \<Rightarrow> command_interpolator \<Rightarrow> bool" where
  "interpolator_steps c c' = (\<exists>held. c' = snd (interpolator_step held c))"

definition axis_inv :: "fl \<Rightarrow> fl \<Rightarrow> fl \<Rightarrow> fl \<Rightarrow> fl \<Rightarrow> fl \<Rightarrow> bool" where
  "axis_inv lo hi q dq ddq f =
     (\<exists>l u x a. lo = Fin l \<and> hi = Fin u \<and> between l u q \<and> between (- 8) 8 f \<and>
        dq = Fin x \<and> between (- (1 / 2)) (1 / 2) dq \<and> ddq = Fin a \<and> between (- 5) 5 ddq \<and> barrier_slack x a)"

definition interpolator_inv :: "command_interpolator \<Rightarrow> bool" where
  "interpolator_inv c =
     (length (ci_q_rad c) = 7 \<and> length (ci_dq_rad_s c) = 7 \<and> length (ci_ddq_rad_s2 c) = 7 \<and>
      length (ci_filtered_target_rad c) = 7 \<and>
      (\<forall>i < 7. axis_inv (SAFE_JOINT_LOWER_RAD ! i) (SAFE_JOINT_UPPER_RAD ! i) (ci_q_rad c ! i)
         (ci_dq_rad_s c ! i) (ci_ddq_rad_s2 c ! i) (ci_filtered_target_rad c ! i)))"

lemma safe_limit_between:
  assumes "i < 7"
  obtains l u where "SAFE_JOINT_LOWER_RAD ! i = Fin l" "SAFE_JOINT_UPPER_RAD ! i = Fin u"
    "- 5 \<le> l" "l < u" "u \<le> 5" "rep64 l" "rep64 u"
proof -
  have rounded: "\<exists>r. SAFE_JOINT_LOWER_RAD ! i = rnd64 r" "\<exists>r. SAFE_JOINT_UPPER_RAD ! i = rnd64 r"
    unfolding SAFE_JOINT_LOWER_RAD_def SAFE_JOINT_UPPER_RAD_def
    by (subst nth_map, use assms in simp, blast)+
  have "list_all (\<lambda>(v, w). Fin (- 5) \<le> v \<and> v < w \<and> w \<le> Fin 5)
      (zip SAFE_JOINT_LOWER_RAD SAFE_JOINT_UPPER_RAD)"
    by (simp add: safe_limit_table)
  then have "Fin (- 5) \<le> SAFE_JOINT_LOWER_RAD ! i" "SAFE_JOINT_LOWER_RAD ! i < SAFE_JOINT_UPPER_RAD ! i"
    "SAFE_JOINT_UPPER_RAD ! i \<le> Fin 5"
    using assms by (auto simp: list_all_length)
  then obtain l u where "SAFE_JOINT_LOWER_RAD ! i = Fin l" "SAFE_JOINT_UPPER_RAD ! i = Fin u"
    "- 5 \<le> l" "l < u" "u \<le> 5"
    by (cases "SAFE_JOINT_LOWER_RAD ! i"; cases "SAFE_JOINT_UPPER_RAD ! i") (auto simp: less_eq_fl_def)
  with rounded show ?thesis using rep64_rnd64 that by metis
qed

lemma vector7_f64_nth:
  assumes "vector7 to_f64 v name = Inr xs" "i < 7"
  shows "length xs = 7" "\<exists>x. xs ! i = Fin x \<and> rep64 x"
proof -
  obtain ys where ys: "v = Vec ys" "xs = map to_f64 ys" "length ys = 7" "list_all is_finite xs"
    using assms(1) by (auto simp: vector7_def Let_def split: ndarray.splits if_splits)
  then have "is_finite (to_f64 (ys ! i))" using assms(2) by (simp add: list_all_length)
  then obtain x where "to_f64 (ys ! i) = Fin x" by (auto simp: is_finite_iff)
  then show "length xs = 7" "\<exists>x. xs ! i = Fin x \<and> rep64 x"
    using ys assms(2) rep64_fl_map by (auto simp: to_f64_def)
qed

lemma clip_nth:
  assumes "i < 7" "length xs = 7" "xs ! i = Fin x" "rep64 x"
    "SAFE_JOINT_LOWER_RAD ! i = Fin l" "SAFE_JOINT_UPPER_RAD ! i = Fin u" "l < u" "rep64 l" "rep64 u"
  shows "between l u (clip_between xs SAFE_JOINT_LOWER_RAD SAFE_JOINT_UPPER_RAD ! i)"
proof -
  have "between x x (xs ! i)" using assms by (auto simp: between_def)
  then show ?thesis using assms between_np_clip [of x x "xs ! i" l u] by (simp add: clip_between_def)
qed

lemma interpolator_inv_init:
  assumes "rest_interpolator c"
  shows "interpolator_inv c"
proof -
  obtain start xs where xs: "vector7 to_f64 start ''start_q_rad'' = Inr xs"
    and c: "ci_q_rad c = clip_between xs SAFE_JOINT_LOWER_RAD SAFE_JOINT_UPPER_RAD"
      "ci_filtered_target_rad c = ci_q_rad c" "ci_dq_rad_s c = replicate 7 (Fin 0)"
      "ci_ddq_rad_s2 c = replicate 7 (Fin 0)"
    using assms by (auto simp: rest_interpolator_def make_interpolator_def res_bind_Inr_iff Let_def)
  have len: "length xs = 7" by (rule vector7_f64_nth(1) [OF xs, of 0]) simp
  have "axis_inv (SAFE_JOINT_LOWER_RAD ! i) (SAFE_JOINT_UPPER_RAD ! i) (ci_q_rad c ! i)
      (Fin 0) (Fin 0) (ci_q_rad c ! i)" if i: "i < 7" for i
  proof -
    obtain l u where lu: "SAFE_JOINT_LOWER_RAD ! i = Fin l" "SAFE_JOINT_UPPER_RAD ! i = Fin u"
      "- 5 \<le> l" "l < u" "u \<le> 5" "rep64 l" "rep64 u"
      using safe_limit_between [OF i] .
    obtain x where "xs ! i = Fin x" "rep64 x" using vector7_f64_nth(2) [OF xs i] by blast
    then have b: "between l u (ci_q_rad c ! i)"
      unfolding c using clip_nth [OF i len _ _ lu(1,2,4,6,7)] by blast
    moreover have "between (- 8) 8 (ci_q_rad c ! i)" by (rule between_weaken [OF b]) (use lu in auto)
    ultimately show ?thesis using lu by (auto simp: axis_inv_def between_def barrier_slack_def)
  qed
  then show ?thesis using len by (simp add: interpolator_inv_def c clip_between_def)
qed

text \<open>One step of an axis: what it keeps, and by how much the acceleration changes.\<close>

lemma axis_step:
  assumes inv: "axis_inv (Fin l) (Fin u) q dq ddq f" and lu: "- 5 \<le> l" "l < u" "u \<le> 5" "rep64 l" "rep64 u"
    and h: "between l u h"
  defines "f' \<equiv> axis_filtered h f"
  defines "a \<equiv> axis_acceleration f' q dq ddq"
  defines "v \<equiv> dq + a * SERVO_DT_S"
  shows "axis_inv (Fin l) (Fin u) (np_clip (q + v * SERVO_DT_S) (Fin l) (Fin u)) v a f'"
    "\<exists>x y. ddq = Fin x \<and> a = Fin y \<and> \<bar>y - x\<bar> \<le> 1 / 4 + 1 / 1000000000"
proof -
  obtain x b where x: "dq = Fin x" "ddq = Fin b" "barrier_slack x b" and q: "between l u q" and f: "between (- 8) 8 f"
    and d: "between (- (1 / 2)) (1 / 2) (Fin x)" "between (- 5) 5 (Fin b)"
    using inv by (auto simp: axis_inv_def)
  have "between (- 5) 5 h" by (rule between_weaken [OF h]) (use lu in auto)
  then have f': "between (- 8) 8 f'" unfolding f'_def using f by (rule axis_filtered_between)
  have q5: "between (- 5) 5 q" by (rule between_weaken [OF q]) (use lu in auto)
  note acc = axis_acceleration_between(1) [OF f' q5 d] and vel = axis_velocity_between [OF f' q5 d]
  obtain y where y: "a = Fin y" using acc by (auto simp: a_def x between_def)
  obtain z where z: "v = Fin z" using vel by (auto simp: v_def a_def x between_def)
  note jerk = axis_jerk [OF f' q5 d x(3) y [unfolded a_def x] z [unfolded v_def y x]]
  show "\<exists>x y. ddq = Fin x \<and> a = Fin y \<and> \<bar>y - x\<bar> \<le> 1 / 4 + 1 / 1000000000"
    using jerk(1) x y by blast
  have "v * SERVO_DT_S = rnd64 (z * dt_value)" by (simp add: z servo_dt times_fl_def)
  moreover have "between (- 1) 1 (rnd64 (z * dt_value))"
    using vel z x by (intro between_rnd64) (auto simp: v_def a_def between_def)
  ultimately have "between (- 6) 6 (q + v * SERVO_DT_S)"
    using between_plus [OF q5, of "- 1" 1 "v * SERVO_DT_S" "- 6" 6] by simp
  then have "between l u (np_clip (q + v * SERVO_DT_S) (Fin l) (Fin u))"
    using lu by (intro between_np_clip) auto
  then show "axis_inv (Fin l) (Fin u) (np_clip (q + v * SERVO_DT_S) (Fin l) (Fin u)) v a f'"
    using f' acc vel jerk(2) y z x by (auto simp: axis_inv_def a_def v_def)
qed

lemma interpolator_step_inv:
  assumes inv: "interpolator_inv c" and held: "vector7 to_f64 held ''held_target_q_rad'' = Inr target" and i: "i < 7"
  shows "axis_inv (SAFE_JOINT_LOWER_RAD ! i) (SAFE_JOINT_UPPER_RAD ! i) (ci_q_rad (snd (interpolator_step held c)) ! i)
      (ci_dq_rad_s (snd (interpolator_step held c)) ! i) (ci_ddq_rad_s2 (snd (interpolator_step held c)) ! i)
      (ci_filtered_target_rad (snd (interpolator_step held c)) ! i)"
    "\<exists>x y. ci_ddq_rad_s2 c ! i = Fin x \<and> ci_ddq_rad_s2 (snd (interpolator_step held c)) ! i = Fin y \<and>
       \<bar>y - x\<bar> \<le> 1 / 4 + 1 / 1000000000"
proof -
  obtain l u where lu: "SAFE_JOINT_LOWER_RAD ! i = Fin l" "SAFE_JOINT_UPPER_RAD ! i = Fin u"
    "- 5 \<le> l" "l < u" "u \<le> 5" "rep64 l" "rep64 u"
    using safe_limit_between [OF i] .
  obtain t where t: "target ! i = Fin t" "rep64 t" using vector7_f64_nth(2) [OF held i] by blast
  have "between t t (target ! i)" using t by (auto simp: between_def)
  then have h: "between l u (np_clip (target ! i) (Fin l) (Fin u))" using lu by (intro between_np_clip) auto
  have len: "length (ci_q_rad c) = 7" "length (ci_dq_rad_s c) = 7" "length (ci_ddq_rad_s2 c) = 7"
    "length (ci_filtered_target_rad c) = 7" using inv by (simp_all add: interpolator_inv_def)
  note axes = interpolator_step_axes [OF held i len, unfolded lu]
  have "axis_inv (Fin l) (Fin u) (ci_q_rad c ! i) (ci_dq_rad_s c ! i) (ci_ddq_rad_s2 c ! i) (ci_filtered_target_rad c ! i)"
    using inv i lu by (auto simp: interpolator_inv_def)
  note axis_step [OF this lu(3-7) h]
  then show "axis_inv (SAFE_JOINT_LOWER_RAD ! i) (SAFE_JOINT_UPPER_RAD ! i) (ci_q_rad (snd (interpolator_step held c)) ! i)
      (ci_dq_rad_s (snd (interpolator_step held c)) ! i) (ci_ddq_rad_s2 (snd (interpolator_step held c)) ! i)
      (ci_filtered_target_rad (snd (interpolator_step held c)) ! i)"
    "\<exists>x y. ci_ddq_rad_s2 c ! i = Fin x \<and> ci_ddq_rad_s2 (snd (interpolator_step held c)) ! i = Fin y \<and>
       \<bar>y - x\<bar> \<le> 1 / 4 + 1 / 1000000000"
    unfolding axes lu by blast+
qed

lemma interpolator_step_cases:
  obtains (rejected) e where "vector7 to_f64 held ''held_target_q_rad'' = Inl e" "interpolator_step held c = (Inl e, c)"
    | (stepped) target where "vector7 to_f64 held ''held_target_q_rad'' = Inr target"
        "fst (interpolator_step held c) = Inr (interpolator_state (snd (interpolator_step held c)))"
  by (cases "vector7 to_f64 held ''held_target_q_rad''") (auto simp: interpolator_step_def Let_def)

lemma interpolator_step_length:
  fixes held :: ndarray
  assumes "interpolator_inv c"
  defines "c' \<equiv> snd (interpolator_step held c)"
  shows "length (ci_q_rad c') = 7 \<and> length (ci_dq_rad_s c') = 7 \<and> length (ci_ddq_rad_s2 c') = 7 \<and>
    length (ci_filtered_target_rad c') = 7"
proof (cases "vector7 to_f64 held ''held_target_q_rad''")
  case (Inr target)
  then have "length target = 7" using vector7_f64_nth(1) [OF Inr, of 0] by simp
  with Inr assms show ?thesis
    by (simp add: interpolator_step_def interpolator_inv_def clip_between_def Let_def)
qed (use assms in \<open>simp add: interpolator_step_def interpolator_inv_def\<close>)

lemma interpolator_inv_steps:
  assumes "interpolator_steps c c'" "interpolator_inv c"
  shows "interpolator_inv c'"
proof -
  obtain held where c': "c' = snd (interpolator_step held c)" using assms(1) by (auto simp: interpolator_steps_def)
  from interpolator_step_cases [of held c] show ?thesis
  proof cases
    case rejected
    with assms(2) show ?thesis by (simp add: c')
  next
    case (stepped target)
    with interpolator_step_inv(1) [OF assms(2) stepped(1)] interpolator_step_length [OF assms(2), of held]
    show ?thesis by (simp add: interpolator_inv_def c')
  qed
qed

interpretation interpolator: invariant_system rest_interpolator interpolator_steps interpolator_inv
  by unfold_locales (auto intro: interpolator_inv_init interpolator_inv_steps)

text \<open>C37. Whatever finite targets a run of the 1 kHz interpolator is given, starting from rest, every
  command keeps each position inside its joint limits, each velocity within 0.5 rad/s and each
  acceleration within 5 rad/s2 exactly, in binary64; and a further step with any finite target
  returns a command whose acceleration differs by at most 0.25 rad/s2 plus one part in 10 to
  the 9, the jerk limit of 250 rad/s3 over one millisecond.\<close>

theorem interpolator_command_bounded:
  assumes "reach rest_interpolator interpolator_steps c" and "i < 7"
    and "vector7 to_f64 held ''held_target_q_rad'' = Inr target"
  shows "\<exists>st q v a b. fst (interpolator_step held c) = Inr st \<and>
    q_rad st ! i = Fin q \<and> SAFE_JOINT_LOWER_RAD ! i \<le> Fin q \<and> Fin q \<le> SAFE_JOINT_UPPER_RAD ! i \<and>
    dq_rad_s st ! i = Fin v \<and> \<bar>v\<bar> \<le> 1 / 2 \<and> ddq_rad_s2 st ! i = Fin a \<and> \<bar>a\<bar> \<le> 5 \<and>
    ci_ddq_rad_s2 c ! i = Fin b \<and> \<bar>a - b\<bar> \<le> 1 / 4 + 1 / 1000000000"
proof -
  have inv: "interpolator_inv c" by (rule interpolator.reach_inv [OF assms(1)])
  have "fst (interpolator_step held c) = Inr (interpolator_state (snd (interpolator_step held c)))"
    using interpolator_step_cases [of held c] assms(3) by auto
  with interpolator_step_inv [OF inv assms(3,2)] show ?thesis
    by (fastforce simp: interpolator_state_def axis_inv_def between_def abs_le_iff)
qed

text \<open>At rest at zero, clipped into the limits, with a target beyond every limit.\<close>

theorem interpolator_command_bounded_witness:
  "\<exists>c st v. make_interpolator (Vec (replicate 7 (Fin 0))) None None = Inr c \<and>
     fst (interpolator_step (Vec (replicate 7 (Fin 4))) c) = Inr st \<and> dq_rad_s st ! 0 = Fin v \<and> \<bar>v\<bar> \<le> 1 / 2"
proof -
  have num: "to_f64 (Fin 0) = Fin 0" "to_f64 (Fin 4) = Fin 4" by code_simp+
  then have v: "vector7 to_f64 (Vec (replicate 7 (Fin 0))) name = Inr (replicate 7 (Fin 0))"
    "vector7 to_f64 (Vec (replicate 7 (Fin 4))) name = Inr (replicate 7 (Fin 4))" for name
    by (simp_all add: vector7_def list_all_length Let_def)
  obtain c where c: "make_interpolator (Vec (replicate 7 (Fin 0))) None None = Inr c"
    by (auto simp: make_interpolator_def v Let_def)
  then have "reach rest_interpolator interpolator_steps c"
    by (intro reach_init) (auto simp: rest_interpolator_def)
  from interpolator_command_bounded [OF this _ v(2), of 0] c show ?thesis by auto
qed

end
