(* ===== verification/Reference_Equivalence.thy ===== *)
theory Reference_Equivalence
  imports Command_References Action_Mapper_Proofs
begin

text \<open>
  The offline mappings compute what the production mapper computes: the incremental mapping
  returns the legacy target of \<open>V94ActionMapper\<close> when it is given the mapper's parameters, the
  V225 mapping is the V212 one, and the q_d mapping agrees with the production mapper on every
  axis on which it stays inside the joint limits.
\<close>

section \<open>The same arrays\<close>

lemma vector7_Inr: "vector7 to_f32 v name = Inr xs \<longleftrightarrow> readonly_float_vector v 7 name' = Inr xs"
  by (cases v) (auto simp: vector7_def readonly_float_vector_def Let_def)

lemma vector7_readonly: "readonly_float_vector v 7 name = Inr xs \<Longrightarrow> vector7 to_f32 v name' = Inr xs"
  using vector7_Inr by blast

lemma vector7_vec: "float_vector 7 xs \<Longrightarrow> vector7 to_f32 (Vec xs) name = Inr xs"
  by (rule vector7_readonly [of _ name]) (rule readonly_float_vector_idem)

lemma vector7_take:
  assumes "readonly_float_vector (Vec acts) 13 name = Inr raw"
  shows "vector7 to_f32 (Vec (take 7 acts)) name' = Inr (take 7 raw)"
  using assms
  by (auto simp: readonly_float_vector_def vector7_def Let_def take_map list_all_iff
      dest: in_set_takeD split: if_splits)

text \<open>The arm part of an action, zeroed when the arm target is held.\<close>

abbreviation gated :: "bool \<Rightarrow> fl list \<Rightarrow> fl list" where
  "gated hold acts \<equiv> (if hold then replicate 7 (Fin 0) else take 7 acts)"

lemma vector7_gated:
  assumes "readonly_float_vector (Vec acts) 13 name = Inr raw"
  shows "vector7 to_f32 (Vec (gated hold acts)) name' = Inr (gated hold raw)"
  using vector7_take [OF assms] vector7_vec [of "replicate 7 (Fin 0)"] readonly_float_vector_Inr [OF zeros_vector(1)]
  by simp

lemma clipped_gated:
  assumes "readonly_float_vector (Vec acts) 13 name = Inr raw"
  shows "map (\<lambda>x. np_clip x (Fin (- 1)) (Fin 1)) (gated hold raw) = take 7 (fst (executed_action raw hold))"
  using readonly_float_vector_Inr [OF assms]
  by (simp add: executed_action_def float_vector_def take_map Let_def)

lemma map2_left: "map2 f (map g xs) ys = map2 (\<lambda>x y. f (g x) y) xs ys"
  by (simp add: zip_map1 case_prod_unfold)

lemma safe_interval_fst:
  "map2 (\<lambda>l m. np_maximum l (f32_sub m e)) (map fst ls) q = map2 (\<lambda>(l, u) m. np_maximum l (f32_sub m e)) ls q"
  "map2 (\<lambda>u m. np_minimum u (f32_add m e)) (map snd ls) q = map2 (\<lambda>(l, u) m. np_minimum u (f32_add m e)) ls q"
  by (simp_all add: zip_map1 case_prod_unfold o_def)

lemma tightest_limits:
  assumes "length ls = n" "\<And>i. i < n \<Longrightarrow> tightest32 (c ! i) (ls ! i)"
  shows "float_vector n (map fst ls)" "float_vector n (map snd ls)"
  using assms by (intro float_vectorI; fastforce simp: tightest32_def)+

section \<open>The parameters of a mapper\<close>

definition configured :: "mapper_params \<Rightarrow> action_mapper \<Rightarrow> bool" where
  "configured mp a =
     (am_envelope a = to_f32 (mp_envelope mp) \<and> am_gain a = to_f32 (mp_gain mp) \<and>
      am_alpha a = to_f32 (mp_alpha mp) \<and> am_arm_step a = to_f32 (mp_arm_step mp) \<and>
      (am_contract a = LEGACY_CONTRACT \<longrightarrow>
        list_all (\<lambda>x. is_finite x \<and> 0 < x) [mp_envelope mp, mp_gain mp, mp_alpha mp, mp_arm_step mp]) \<and>
      \<not> 1 < mp_alpha mp)"

definition mapper_of :: "mapper_params \<Rightarrow> limits_arg \<Rightarrow> action_mapper \<Rightarrow> bool" where
  "mapper_of mp limits a = (\<exists>arm hand close contract. make_action_mapper arm hand limits close mp contract = Inr a)"

definition mapper_of_inv :: "mapper_params \<Rightarrow> limits_arg \<Rightarrow> action_mapper \<Rightarrow> bool" where
  "mapper_of_inv mp limits a =
     (configured mp a \<and>
      (\<exists>c. contracted_joint_limits_float64 limits (PyFloat (Fin 0)) = Inr c \<and> mapper_inv c a))"

lemma mapper_of_inv_new:
  assumes "mapper_of mp limits a"
  shows "mapper_of_inv mp limits a"
proof -
  obtain arm hand close contract where mk: "make_action_mapper arm hand limits close mp contract = Inr a"
    using assms by (auto simp: mapper_of_def)
  then obtain ls where "inward_float32_joint_limits limits (PyFloat (Fin 0)) = Inr ls"
    by (auto simp: make_action_mapper_def res_bind_Inr_iff)
  then obtain c where c: "contracted_joint_limits_float64 limits (PyFloat (Fin 0)) = Inr c"
    by (rule inward_limits)
  then have "mapper_inv c a" using mk by (intro mapper_inv_new) (unfold new_mapper_def, blast)
  moreover have "configured mp a"
    using mk by (auto simp: make_action_mapper_def configured_def res_bind_Inr_iff Let_def split: if_splits)
  ultimately show ?thesis using c by (auto simp: mapper_of_inv_def)
qed

lemma mapper_step_config:
  assumes "mapper_step a a'"
  shows "\<exists>arm hand. a' = a\<lparr>am_arm := arm, am_hand := hand\<rparr>"
proof -
  have same: "\<exists>arm hand. a = a\<lparr>am_arm := arm, am_hand := hand\<rparr>"
    by (intro exI [of _ "am_arm a"] exI [of _ "am_hand a"]) simp
  obtain act m sh hold where "a' = snd (map_action act m sh hold a)"
    using assms by (auto simp: mapper_step_def)
  then show ?thesis
    using same by (auto simp: map_action_def Let_def case_prod_unfold split: sum.splits simp del: ex_simps)
qed

lemma mapper_of_inv_step: "mapper_step a a' \<Longrightarrow> mapper_of_inv mp limits a \<Longrightarrow> mapper_of_inv mp limits a'"
  using mapper_step_config [of a a'] mapper_inv_step [of a a']
  by (auto simp: mapper_of_inv_def configured_def)

interpretation made: invariant_system "mapper_of mp limits" mapper_step "mapper_of_inv mp limits"
  by unfold_locales (auto intro: mapper_of_inv_new mapper_of_inv_step)

section \<open>The incremental mapping\<close>

lemma incremental_is_legacy:
  assumes cfg: "configured mp a" "am_contract a = LEGACY_CONTRACT"
    and inv: "mapper_inv c a" and arm: "float_vector 7 (am_arm a)"
    and act: "readonly_float_vector (Vec acts) 13 ''action13'' = Inr raw"
    and q: "readonly_float_vector m 7 ''measured_q_rad'' = Inr q"
  shows "map_incremental_arm_action (Vec (am_arm a)) m (Vec (gated hold acts)) (mp_gain mp) (mp_alpha mp)
      (mp_arm_step mp) (mp_envelope mp) (Vec (map fst (am_limits a))) (Vec (map snd (am_limits a))) =
    Inr (fst (legacy_arm_target a (fst (executed_action raw hold)) q))"
proof -
  have lims: "float_vector 7 (map fst (am_limits a))" "float_vector 7 (map snd (am_limits a))"
    using tightest_limits [of "am_limits a" 7 c] inv by (simp_all add: mapper_inv_def)
  have pos: "is_finite x \<and> \<not> x \<le> 0" if "x \<in> {mp_gain mp, mp_alpha mp, mp_arm_step mp, mp_envelope mp}" for x
    using cfg that by (auto simp: configured_def dest: fl_less_le_not)
  have scalars: "to_f32 (mp_gain mp) = am_gain a" "to_f32 (mp_alpha mp) = am_alpha a"
    "to_f32 (mp_arm_step mp) = am_arm_step a" "to_f32 (mp_envelope mp) = am_envelope a"
    using cfg by (simp_all add: configured_def)
  have "\<not> 1 < mp_alpha mp" using cfg by (simp add: configured_def)
  then show ?thesis
    using pos
    by (simp add: map_incremental_arm_action_def vector7_vec [OF arm] vector7_vec [OF lims(1)] vector7_vec [OF lims(2)]
        vector7_readonly [OF q] vector7_gated [OF act] clipped_gated [OF act] scalars Let_def clip_between_def
        legacy_arm_target_def safe_lower_def safe_upper_def safe_interval_fst low_pass_def [abs_def])
qed

text \<open>C35. The offline incremental mapping is the production mapping of the legacy contract: for every
  mapper built from its parameters and driven by any calls, whose held target is finite, a call
  that returns gives exactly the target \<open>map_incremental_arm_action\<close> computes from the mapper's
  held target, float32 limits and parameters, bit for bit. The offline mapping has no hold gate:
  it is given the arm part of the action as it stands, or zeros when the call holds the arm
  target (\<open>hold_arm_target\<close>).\<close>

theorem incremental_mapping_is_production_mapping:
  assumes "reach (mapper_of mp limits) mapper_step a" and "am_contract a = LEGACY_CONTRACT"
    and "float_vector 7 (am_arm a)" and "map_action (Vec acts) m sh hold a = (Inr x, a')"
  shows "map_incremental_arm_action (Vec (am_arm a)) m (Vec (if hold then replicate 7 (Fin 0) else take 7 acts)) (mp_gain mp) (mp_alpha mp)
      (mp_arm_step mp) (mp_envelope mp) (Vec (map fst (am_limits a))) (Vec (map snd (am_limits a))) =
    Inr (franka_target_q_rad x)"
proof -
  obtain c where inv: "configured mp a" "mapper_inv c a"
    using made.reach_inv [OF assms(1)] by (auto simp: mapper_of_inv_def)
  have "LEGACY_CONTRACT \<noteq> QD_CONTRACT" by (simp add: LEGACY_CONTRACT_def QD_CONTRACT_def)
  then obtain raw q where "readonly_float_vector (Vec acts) 13 ''action13'' = Inr raw"
    "readonly_float_vector m 7 ''measured_q_rad'' = Inr q"
    "franka_target_q_rad x = fst (legacy_arm_target a (fst (executed_action raw hold)) q)"
    using map_action_cases [OF inv(2), of "Vec acts" m sh hold] assms(2,4) by (auto simp: next_arm_target_def)
  with incremental_is_legacy [OF inv(1) assms(2) inv(2) assms(3)] show ?thesis by simp
qed

section \<open>The joint limits\<close>

lemma safe_limit_float32:
  "to_f32 (Fin (- (6065673158123953 / 2251799813685248))) = Fin (- (11298197 / 4194304))"
  "to_f32 (Fin (- (7807890673972229 / 4503599627370496))) = Fin (- (7271665 / 4194304))"
  "to_f32 (Fin (- (802400716109067 / 281474976710656))) = Fin (- (5978351 / 2097152))"
  "to_f32 (Fin (- (6737610222527631 / 2251799813685248))) = Fin (- (12549777 / 4194304))"
  "to_f32 (Fin (- (3103543093211693 / 1125899906842624))) = Fin (- (11561599 / 4194304))"
  "to_f32 (Fin (167336873654485 / 281474976710656)) = Fin (9974055 / 16777216)"
  "to_f32 (Fin (- (6678613067409077 / 2251799813685248))) = Fin (- (6219943 / 2097152))"
  "to_f32 (Fin (6065673158123953 / 2251799813685248)) = Fin (11298197 / 4194304)"
  "to_f32 (Fin (7807890673972229 / 4503599627370496)) = Fin (7271665 / 4194304)"
  "to_f32 (Fin (802400716109067 / 281474976710656)) = Fin (5978351 / 2097152)"
  "to_f32 (Fin (- (7270611238426929 / 36028797018963968))) = Fin (- (13542569 / 67108864))"
  "to_f32 (Fin (3103543093211693 / 1125899906842624)) = Fin (11561599 / 4194304)"
  "to_f32 (Fin (5029282293875317 / 1125899906842624)) = Fin (1170971 / 262144)"
  "to_f32 (Fin (6678613067409077 / 2251799813685248)) = Fin (6219943 / 2097152)"
  by code_simp+

lemma safe_limit_neighbour:
  "next_up32 (Fin (- (11298197 / 4194304))) = Fin (- (2824549 / 1048576))"
  "next_down32 (Fin (11298197 / 4194304)) = Fin (2824549 / 1048576)"
  "next_up32 (Fin (- (7271665 / 4194304))) = Fin (- (14543329 / 8388608))"
  "next_down32 (Fin (7271665 / 4194304)) = Fin (14543329 / 8388608)"
  "next_up32 (Fin (- (12549777 / 4194304))) = Fin (- (784361 / 262144))"
  "next_up32 (Fin (- (11561599 / 4194304))) = Fin (- (5780799 / 2097152))"
  "next_down32 (Fin (11561599 / 4194304)) = Fin (5780799 / 2097152)"
  by code_simp+

section \<open>The V225 mapping\<close>

lemma safe_limits_vector:
  "vector7 to_f32 (Vec SAFE_JOINT_LOWER_RAD) name = Inr (map to_f32 SAFE_JOINT_LOWER_RAD)"
  "vector7 to_f32 (Vec SAFE_JOINT_UPPER_RAD) name = Inr (map to_f32 SAFE_JOINT_UPPER_RAD)"
proof -
  have "list_all is_finite (map to_f32 SAFE_JOINT_LOWER_RAD)" "list_all is_finite (map to_f32 SAFE_JOINT_UPPER_RAD)"
    "length SAFE_JOINT_LOWER_RAD = 7" "length SAFE_JOINT_UPPER_RAD = 7"
    by (simp_all add: safe_limit_table safe_limit_float32)
  then show "vector7 to_f32 (Vec SAFE_JOINT_LOWER_RAD) name = Inr (map to_f32 SAFE_JOINT_LOWER_RAD)"
    "vector7 to_f32 (Vec SAFE_JOINT_UPPER_RAD) name = Inr (map to_f32 SAFE_JOINT_UPPER_RAD)"
    by (simp_all add: vector7_def)
qed

lemma v212_scalars:
  "is_finite (rnd64 (45 / 1000)) \<and> \<not> rnd64 (45 / 1000) \<le> 0"
  "is_finite (rnd64 (40 / 100)) \<and> \<not> rnd64 (40 / 100) \<le> 0"
  "is_finite (rnd64 (5 / 100)) \<and> \<not> rnd64 (5 / 100) \<le> 0"
  "\<not> 1 < rnd64 (40 / 100)"
  "f32_sub 1 (to_f32 (rnd64 (40 / 100))) = to_f32 (rnd64 (60 / 100))"
  by code_simp+

text \<open>The V225 20 Hz mapping, written with its own constants, returns a target exactly when the
  parametrised V212 mapping with the default joint limits does, and then the same one: the
  float32 constant 0.60 is exactly one minus the float32 constant 0.40.\<close>

theorem v225_mapping_is_v212:
  "map_v225_20hz_arm_action previous measured action = Inr t \<longleftrightarrow>
   map_v212_20hz_arm_action previous measured action (Vec SAFE_JOINT_LOWER_RAD) (Vec SAFE_JOINT_UPPER_RAD) = Inr t"
proof -
  have name: "vector7 to_f32 v n = Inr xs \<longleftrightarrow> vector7 to_f32 v n' = Inr xs" for v n n' xs
    using vector7_Inr by metis
  show ?thesis
    using name [of previous "''previous''" _ "''previous_target_q_rad''"]
      name [of measured "''measured''" _ "''measured_q_rad''"] name [of action "''action''" _ "''action_arm''"]
    by (simp add: map_v225_20hz_arm_action_def map_v212_20hz_arm_action_def map_incremental_arm_action_def
        res_bind_Inr_iff safe_limits_vector v212_scalars [simplified] Let_def del: map_map)
qed

section \<open>The q_d mapping\<close>

lemma np_clip_nested:
  assumes "n \<noteq> NaN" "L \<le> l" "l \<le> u" "u \<le> U"
  shows "np_clip (np_clip n (Fin L) (Fin U)) (Fin l) (Fin u) = np_clip n (Fin l) (Fin u)"
  using assms by (cases n) (auto simp: np_clip_def np_maximum_def np_minimum_def less_eq_fl_def)

lemma clip_to_nearest:
  assumes tight: "tightest32 (Fin a, Fin b) (Fin l, Fin u)"
    and near: "rnd32 a = Fin L" "rnd32 b = Fin U" and n: "n \<noteq> NaN" "\<And>z. n = Fin z \<Longrightarrow> rep32 z"
  shows "\<exists>t. np_clip n (Fin L) (Fin U) = Fin t \<and>
    np_clip n (Fin l) (Fin u) = (if t < a then Fin l else if b < t then Fin u else Fin t)"
proof -
  have lu: "rep32 l" "rep32 u" "l < u" "a \<le> l" "u \<le> b" using tight by (auto simp: tightest32_def)
  have LU: "rep32 L" "rep32 U" using near rep32_rnd32 by blast+
  have "L \<le> l" using rnd32_le [OF lu(1,4)] near by simp
  moreover have "u \<le> U" using rnd32_ge [OF lu(2,5)] near by simp
  ultimately have nest: "np_clip n (Fin l) (Fin u) = np_clip (np_clip n (Fin L) (Fin U)) (Fin l) (Fin u)"
    using np_clip_nested n(1) lu(3) by simp
  obtain t where t: "np_clip n (Fin L) (Fin U) = Fin t" "t = L \<or> t = U \<or> n = Fin t"
    using np_clip_finite [OF n(1)] by blast
  then have "rep32 t" using LU n(2) by blast
  then have t': "a \<le> t \<Longrightarrow> l \<le> t" "t \<le> b \<Longrightarrow> t \<le> u" using tight by (auto simp: tightest32_def)
  have "np_clip (Fin t) (Fin l) (Fin u) = (if t < a then Fin l else if b < t then Fin u else Fin t)"
    using lu t' by (cases "t < a"; cases "b < t") (auto simp: np_clip_def np_maximum_def np_minimum_def)
  with nest t(1) show ?thesis by simp
qed

abbreviation safe_limits :: "(fl \<times> fl) list" where
  "safe_limits \<equiv> zip SAFE_JOINT_LOWER_RAD SAFE_JOINT_UPPER_RAD"

lemma fl_zero_margin:
  assumes "is_finite (rnd64 x)"
  shows "rnd64 x + Fin 0 = rnd64 x" "rnd64 x - Fin 0 = rnd64 x"
  using assms round_to_idem [of 53 "-1074" 1024 x]
  by (auto simp: is_finite_iff rnd64_def plus_fl_def minus_fl_def)

lemma safe_limits_contracted: "contracted_joint_limits_float64 (Limits safe_limits) (PyFloat (Fin 0)) = Inr safe_limits"
proof -
  have "list_all is_finite SAFE_JOINT_LOWER_RAD" "list_all is_finite SAFE_JOINT_UPPER_RAD"
    by (simp_all add: safe_limit_table)
  then have "map (\<lambda>(l, u). (l + Fin 0, u - Fin 0)) safe_limits = safe_limits"
    by (simp add: SAFE_JOINT_LOWER_RAD_def SAFE_JOINT_UPPER_RAD_def fl_zero_margin)
  moreover have "length safe_limits = 7" "list_all (\<lambda>(l, u). is_finite l \<and> is_finite u) safe_limits"
    "\<not> list_ex (\<lambda>(l, u). u \<le> l) safe_limits"
    by (simp_all add: safe_limit_table)
  ultimately show ?thesis
    by (simp add: contracted_joint_limits_float64_def float_or_def zero_fl_def)
qed

lemma safe_limits_finite:
  "list_all (\<lambda>(x, y). is_finite x \<and> is_finite y \<and> is_finite (to_f32 x) \<and> is_finite (to_f32 y)) safe_limits"
  "length SAFE_JOINT_LOWER_RAD = 7" "length SAFE_JOINT_UPPER_RAD = 7"
  by (simp_all add: safe_limit_table safe_limit_float32)

lemma safe_limit_values:
  assumes "i < 7"
  obtains a b L U where "SAFE_JOINT_LOWER_RAD ! i = Fin a" "SAFE_JOINT_UPPER_RAD ! i = Fin b"
    "rnd32 a = Fin L" "rnd32 b = Fin U"
proof -
  have "is_finite (SAFE_JOINT_LOWER_RAD ! i)" "is_finite (SAFE_JOINT_UPPER_RAD ! i)"
    "is_finite (to_f32 (SAFE_JOINT_LOWER_RAD ! i))" "is_finite (to_f32 (SAFE_JOINT_UPPER_RAD ! i))"
    using assms safe_limits_finite by (auto simp: list_all_length)
  then show ?thesis using that by (auto simp: is_finite_iff to_f32_def)
qed

lemma np_clip_one: "np_clip x (Fin (- 1)) (Fin 1) = np_clip x (Fin (-1)) (Fin 1)"
  by simp

text \<open>C36. The offline q_d mapping, given the arm part of the action or zeros when the call holds the
  arm target (\<open>hold_arm_target\<close>), and the production mapper with the same joint limits agree on
  every axis on which the offline target lies inside the limits. The offline mapping rounds the
  limits to the nearest float32 values, so its target can leave an axis by that rounding; there
  the production mapper returns the tightest float32 limit inside the axis instead.\<close>

theorem qd_mapping_agrees_inside_limits:
  assumes "reach (mapper_of mp (Limits safe_limits)) mapper_step a" and "am_contract a = QD_CONTRACT"
    and "map_action (Vec acts) m (Some v) hold a = (Inr x, a')" and "i < 7"
  shows "\<exists>ts t. map_qd_g015_20hz_arm_action v (Vec (if hold then replicate 7 (Fin 0) else take 7 acts)) = Inr ts \<and> ts ! i = t \<and>
    franka_target_q_rad x ! i =
      (if t < SAFE_JOINT_LOWER_RAD ! i then fst (am_limits a ! i)
       else if SAFE_JOINT_UPPER_RAD ! i < t then snd (am_limits a ! i) else t)"
proof -
  have inv: "mapper_inv safe_limits a"
    using made.reach_inv [OF assms(1)] safe_limits_contracted by (auto simp: mapper_of_inv_def)
  obtain raw q where ok: "readonly_float_vector (Vec acts) 13 ''action13'' = Inr raw"
    "readonly_float_vector v 7 ''shaper_q_d_rad'' = Inr q"
    and x: "franka_target_q_rad x = fst (qd_arm_target a (fst (executed_action raw hold)) q)"
    using map_action_cases [OF inv, of "Vec acts" m "Some v" hold] assms(2,3)
    by (auto simp: next_arm_target_def res_bind_Inr_iff)
  have ex: "length (fst (executed_action raw hold)) = 13" "length raw = 13"
    "list_all (\<lambda>x. \<exists>r. x = Fin r \<and> \<bar>r\<bar> \<le> 1) (fst (executed_action raw hold))"
    using executed_action_vector [OF readonly_float_vector_Inr [OF ok(1)]] readonly_float_vector_Inr [OF ok(1)]
    by (auto simp: float_vector_def)
  have qv: "float_vector 7 q" by (rule readonly_float_vector_Inr [OF ok(2)])
  obtain z where z: "q ! i = Fin z" using float_vector_nth [OF qv assms(4)] .
  have "\<exists>e. fst (executed_action raw hold) ! i = Fin e \<and> \<bar>e\<bar> \<le> 1"
    using ex assms(4) by (simp add: list_all_length)
  then obtain e where e: "fst (executed_action raw hold) ! i = Fin e" by blast
  have gate: "length (gated hold raw) = 7" using ex(2) by simp
  then have y: "np_clip (gated hold raw ! i) (Fin (- 1)) (Fin 1) = Fin e"
    using e(1) assms(4) arg_cong [OF clipped_gated [OF ok(1), of hold], of "\<lambda>xs. xs ! i"] by (simp del: if_split)
  let ?n = "f32_add (q ! i) (f32_mul QD_ARM_GAIN (Fin e))"
  have tight: "tightest32 (safe_limits ! i) (am_limits a ! i)" and len: "length (am_limits a) = 7" "length q = 7"
    using inv assms(4) qv by (simp_all add: mapper_inv_def float_vector_def)
  obtain l u where lu: "am_limits a ! i = (Fin l, Fin u)" using tight by (auto simp: tightest32_def)
  obtain c d L U where cd: "SAFE_JOINT_LOWER_RAD ! i = Fin c" "SAFE_JOINT_UPPER_RAD ! i = Fin d"
    "rnd32 c = Fin L" "rnd32 d = Fin U"
    using safe_limit_values [OF assms(4)] .
  have n: "?n \<noteq> NaN" using z by (auto intro!: f32_add_not_NaN simp: f32_mul_def QD_ARM_GAIN_value)
  have rep: "rep32 w" if "?n = Fin w" for w
    using that rep32_rnd32 z by (cases "f32_mul QD_ARM_GAIN (Fin e)") (auto simp: f32_add_def)
  have "tightest32 (Fin c, Fin d) (Fin l, Fin u)"
    using tight lu cd safe_limits_finite(2,3) assms(4) by simp
  then obtain t where t: "np_clip ?n (Fin L) (Fin U) = Fin t"
    "np_clip ?n (Fin l) (Fin u) = (if t < c then Fin l else if d < t then Fin u else Fin t)"
    using clip_to_nearest [OF _ cd(3,4) n rep] by blast
  have "franka_target_q_rad x ! i = np_clip ?n (Fin l) (Fin u)"
    unfolding x using qd_arm_nth [OF ex(1) len(2,1) assms(4)] e lu by simp
  moreover have "\<exists>ts. map_qd_g015_20hz_arm_action v (Vec (gated hold acts)) = Inr ts \<and> ts ! i = np_clip ?n (Fin L) (Fin U)"
    using vector7_readonly [OF ok(2)] vector7_gated [OF ok(1)] assms(4) gate len safe_limits_finite cd y
    by (simp add: map_qd_g015_20hz_arm_action_def clip_between_def QD_ARM_GAIN_def to_f32_def Let_def del: if_split)
  ultimately show ?thesis using t cd lu by auto
qed

section \<open>Instances\<close>

lemma mapper_ex_reach': "reach (mapper_of params_ex (Limits limits_ex)) mapper_step (mapper_ex LEGACY_CONTRACT)"
  using mapper_ex_made [of LEGACY_CONTRACT] by (intro reach_init) (auto simp: mapper_of_def)

theorem incremental_mapping_is_production_mapping_witness:
  "\<exists>x a'. map_action act_ex zeros_ex None False (mapper_ex LEGACY_CONTRACT) = (Inr x, a') \<and>
     map_incremental_arm_action zeros_ex zeros_ex (Vec (replicate 7 (Fin 1))) (Fin (1 / 64)) (Fin (1 / 4))
       (Fin (1 / 64)) (Fin (1 / 16)) (Vec (map fst (am_limits (mapper_ex LEGACY_CONTRACT))))
       (Vec (map snd (am_limits (mapper_ex LEGACY_CONTRACT)))) = Inr (franka_target_q_rad x)"
proof -
  have c: "am_contract (mapper_ex LEGACY_CONTRACT) = LEGACY_CONTRACT"
    and arm: "am_arm (mapper_ex LEGACY_CONTRACT) = replicate 7 (Fin 0)" by (simp_all add: mapper_ex_def)
  then have "\<not> bad_arguments (mapper_ex LEGACY_CONTRACT) act_ex zeros_ex None"
    by (simp add: bad_arguments_def act_ex_def zeros_ex_def zeros_vector LEGACY_CONTRACT_def QD_CONTRACT_def)
  then obtain x a' where x: "map_action act_ex zeros_ex None False (mapper_ex LEGACY_CONTRACT) = (Inr x, a')"
    using map_action_cases [OF mapper.reach_inv [OF mapper_ex_reach [of LEGACY_CONTRACT]], of act_ex zeros_ex None False]
    by (auto simp: prod_eq_iff)
  have "float_vector 7 (am_arm (mapper_ex LEGACY_CONTRACT))"
    using readonly_float_vector_Inr [OF zeros_vector(1)] arm by simp
  from incremental_mapping_is_production_mapping [OF mapper_ex_reach' c this x [unfolded act_ex_def]]
  show ?thesis using x by (simp add: arm params_ex_def zeros_ex_def)
qed

text \<open>A mapper of the q_d contract with the safe joint limits: on the first axis the offline target
  is above the upper limit.\<close>

definition safe_inward :: "(fl \<times> fl) list" where
  "safe_inward =
     [(Fin (- (2824549 / 1048576)), Fin (2824549 / 1048576)),
      (Fin (- (14543329 / 8388608)), Fin (14543329 / 8388608)),
      (Fin (- (5978351 / 2097152)), Fin (5978351 / 2097152)),
      (Fin (- (784361 / 262144)), Fin (- (13542569 / 67108864))),
      (Fin (- (5780799 / 2097152)), Fin (5780799 / 2097152)),
      (Fin (9974055 / 16777216), Fin (1170971 / 262144)),
      (Fin (- (6219943 / 2097152)), Fin (6219943 / 2097152))]"

definition safe_mapper :: action_mapper where
  "safe_mapper = (mapper_ex QD_CONTRACT)\<lparr>am_limits := safe_inward\<rparr>"

lemma safe_inward: "inward_float32_joint_limits (Limits safe_limits) (PyFloat (Fin 0)) = Inr safe_inward"
  unfolding inward_float32_joint_limits_def safe_limits_contracted
  by (simp add: safe_limit_table safe_limit_float32 safe_limit_neighbour safe_inward_def)

lemma made_with_limits:
  assumes "make_action_mapper arm hand limits close mp contract = Inr a"
    and "inward_float32_joint_limits limits' (PyFloat (Fin 0)) = Inr ls"
  shows "make_action_mapper arm hand limits' close mp contract = Inr (a\<lparr>am_limits := ls\<rparr>)"
  using assms
  by (cases "normalize_franka_action_contract_id contract";
      cases "readonly_float_vector arm 7 ''initial_arm_target_q_rad''";
      cases "readonly_float_vector hand 6 ''initial_hand_target_q_policy_order_rad''";
      cases "inward_float32_joint_limits limits (PyFloat (Fin 0))";
      cases "readonly_float_vector close 6 ''q_hand_close_rad''")
    (simp_all add: make_action_mapper_def Let_def split: if_split_asm, auto)

lemma safe_mapper_reach: "reach (mapper_of params_ex (Limits safe_limits)) mapper_step safe_mapper"
  using made_with_limits [OF mapper_ex_made [of QD_CONTRACT] safe_inward, simplified] unfolding safe_mapper_def
  by (intro reach_init) (unfold mapper_of_def, blast)

lemma fours_vector: "readonly_float_vector (Vec (replicate 7 (Fin 4))) 7 name = Inr (replicate 7 (Fin 4))"
proof -
  have "to_f32 (Fin 4) = Fin 4" by code_simp
  then show ?thesis by (simp add: readonly_float_vector_def Let_def list_all_length)
qed

lemma qd_numbers:
  "to_f32 (Fin 1) = Fin 1" "to_f32 (Fin 4) = Fin 4" "to_f32 (rnd64 (6 / 100)) = Fin (16106127 / 268435456)"
  "rnd32 (16106127 / 268435456) = Fin (16106127 / 268435456)"
  "rnd32 (4 + 16106127 / 268435456) = Fin (8514437 / 2097152)"
  by code_simp+

lemma qd_ex: "\<exists>ts. map_qd_g015_20hz_arm_action (Vec (replicate 7 (Fin 4))) (Vec (take 7 (replicate 13 (Fin 1)))) = Inr ts \<and>
    SAFE_JOINT_UPPER_RAD ! 0 < ts ! 0 \<and> \<not> ts ! 0 < SAFE_JOINT_LOWER_RAD ! 0"
proof -
  have v: "vector7 to_f32 (Vec (replicate 7 (Fin 4))) name = Inr (replicate 7 (Fin 4))"
    "vector7 to_f32 (Vec (replicate 7 (Fin 1))) name = Inr (replicate 7 (Fin 1))" for name
    by (simp_all add: vector7_def qd_numbers list_all_length Let_def)
  show ?thesis
    by (simp add: map_qd_g015_20hz_arm_action_def v clip_between_def Let_def f32_add_def f32_mul_def safe_limit_table
        qd_numbers [simplified] safe_limit_float32)
qed

theorem qd_mapping_agrees_inside_limits_witness:
  "\<exists>x a' ts. map_action act_ex zeros_ex (Some (Vec (replicate 7 (Fin 4)))) False safe_mapper = (Inr x, a') \<and>
     map_qd_g015_20hz_arm_action (Vec (replicate 7 (Fin 4))) (Vec (take 7 (replicate 13 (Fin 1)))) = Inr ts \<and>
     SAFE_JOINT_UPPER_RAD ! 0 < ts ! 0 \<and> franka_target_q_rad x ! 0 = snd (safe_inward ! 0)"
proof -
  have "\<not> bad_arguments safe_mapper act_ex zeros_ex (Some (Vec (replicate 7 (Fin 4))))"
    by (simp add: bad_arguments_def act_ex_def zeros_ex_def zeros_vector fours_vector)
  moreover obtain c where "mapper_inv c safe_mapper"
    using made.reach_inv [OF safe_mapper_reach] by (auto simp: mapper_of_inv_def)
  ultimately obtain x a' where
    x: "map_action act_ex zeros_ex (Some (Vec (replicate 7 (Fin 4)))) False safe_mapper = (Inr x, a')"
    using map_action_cases [of c safe_mapper act_ex zeros_ex "Some (Vec (replicate 7 (Fin 4)))" False]
    by (auto simp: prod_eq_iff)
  have c: "am_contract safe_mapper = QD_CONTRACT" by (simp add: safe_mapper_def mapper_ex_def)
  from qd_mapping_agrees_inside_limits [OF safe_mapper_reach c x [unfolded act_ex_def], of 0] qd_ex x
  show ?thesis by (auto simp: safe_mapper_def)
qed

end
