(* ===== verification/Substep_Schedule.thy ===== *)
theory Substep_Schedule
  imports Command_References Binary64
begin

text \<open>
  The substep accumulator at 120 Hz. The remainder of a period of three calls is a multiple of
  the unit \<open>2 powi -59\<close> that moves down by one unit a period, so the schedule of the documentation
  does not repeat for ever.
\<close>

fun schedule :: "fl \<Rightarrow> nat \<Rightarrow> fl \<Rightarrow> (exn + int) list" where
  "schedule physics_dt 0 r = []"
| "schedule physics_dt (Suc n) r =
     (let (count, r') = substeps_for physics_dt r in count # schedule physics_dt n r')"

definition ticks :: "int \<Rightarrow> fl" where
  "ticks n = Fin (of_int n / 576460752303423488)"

lemma rep64_ticks: "\<bar>n\<bar> < 2 ^ 53 \<Longrightarrow> rep64 (of_int n / 576460752303423488)"
proof -
  assume "\<bar>n\<bar> < 2 ^ 53"
  then have "rep64 (of_int n * 2 powi (- 59))" by (rule rep64_scaled) auto
  moreover have "(2 :: rat) powi (- 59) = 1 / 576460752303423488" by (simp add: power_int_minus)
  ultimately show ?thesis by (simp only: times_divide_eq_right mult_1_right)
qed

lemma physics_dt: "rnd64 (1 / 120) = ticks 4803839602528529"
  unfolding ticks_def by code_simp

lemma slack_value: "rnd64 (1 / 10 ^ 15) = Fin (2535301200456459 / 2535301200456458802993406410752)"
  by code_simp

lemma consumed:
  "rnd64 (of_int 8) * SERVO_DT_S = ticks 4611686018427388" "rnd64 (of_int 9) * SERVO_DT_S = ticks 5188146770730812"
  unfolding servo_dt ticks_def by code_simp+

text \<open>A call that starts at \<open>n\<close> units and whose accumulated time lies well inside a substep.\<close>

lemma substeps_exact:
  assumes m: "A \<le> n + 4803839602528529" "n + 4803839602528529 \<le> B" "- (2 ^ 53) < A" "B < 2 ^ 53"
    and lo: "rep64 a" "of_int c * (1152921504606847 / 1152921504606846976) \<le> a"
      "a \<le> of_int A / 576460752303423488 + 2535301200456459 / 2535301200456458802993406410752"
    and hi: "rep64 b" "rep64 d" "b \<le> d * (1152921504606847 / 1152921504606846976)" "d < of_int c + 1"
      "of_int B / 576460752303423488 + 2535301200456459 / 2535301200456458802993406410752 \<le> b"
    and c: "\<bar>c\<bar> < 2 ^ 53"
    and used: "rnd64 (of_int c) * SERVO_DT_S = ticks x" "\<bar>n + 4803839602528529 - x\<bar> < 2 ^ 53"
    and r: "r = n + 4803839602528529 - x"
  shows "substeps_for (rnd64 (1 / 120)) (ticks n) = (Inr c, ticks r)"
proof -
  let ?m = "n + 4803839602528529"
  have m': "\<bar>?m\<bar> < 2 ^ 53" using m by linarith
  have "ticks n + rnd64 (1 / 120) = ticks ?m"
    unfolding physics_dt using rnd64_rep [OF rep64_ticks [OF m']]
    by (simp add: ticks_def plus_fl_def add_divide_distrib)
  moreover have "(of_int A :: rat) / 576460752303423488 \<le> of_int ?m / 576460752303423488"
    "(of_int ?m :: rat) / 576460752303423488 \<le> of_int B / 576460752303423488"
    using m(1,2) by (intro divide_right_mono; simp only: of_int_le_iff; simp)+
  then have "between a b (ticks ?m + rnd64 (1 / 10 ^ 15))"
    unfolding slack_value ticks_def plus_fl_def fl_add_with.simps
    using lo hi by (intro between_rnd64; linarith)
  then obtain y where y: "ticks ?m + rnd64 (1 / 10 ^ 15) = Fin y" "a \<le> y" "y \<le> b" by (elim betweenE)
  have "between (of_int c) d (rnd64 (y / (1152921504606847 / 1152921504606846976)))"
    using y lo hi rep64_int [OF c] by (intro between_rnd64) (simp_all add: field_simps)
  then obtain z where z: "fl_div (Fin y) SERVO_DT_S = Fin z" "of_int c \<le> z" "z \<le> d"
    by (elim betweenE) (simp add: servo_dt)
  then have "\<lfloor>z\<rfloor> = c" using hi(4) by (intro floor_unique) auto
  moreover have "ticks ?m - ticks x = ticks (?m - x)"
    using rnd64_rep [OF rep64_ticks [OF used(2)]] by (simp add: ticks_def minus_fl_def diff_divide_distrib)
  moreover have "is_finite (rnd64 (1 / 120)) \<and> \<not> rnd64 (1 / 120) \<le> 0"
    by (simp add: physics_dt ticks_def zero_fl_def)
  ultimately show ?thesis
    using y(1) z(1) used(1) r by (simp add: substeps_for_def Let_def del: fl_div.simps)
qed

section \<open>One period\<close>

lemma rep64_fractions: "rep64 (35 / 4096)" "rep64 (35 / 4)" "rep64 (9 / 1024)" "rep64 (71 / 8)" "rep64 (75 / 8192)" "rep64 (19 / 2)"
  using rep64_scaled [of 35 "-12"] rep64_scaled [of 35 "-2"] rep64_scaled [of 9 "-10"] rep64_scaled [of 71 "-3"]
    rep64_scaled [of 75 "-13"] rep64_scaled [of 19 "-1"]
  by (simp_all add: power_int_minus)

lemma first_call:
  assumes "0 \<le> k" "k \<le> 577"
  shows "substeps_for (rnd64 (1 / 120)) (ticks (- k)) = (Inr 8, ticks (192153584101141 - k))"
proof (rule substeps_exact)
  show "rep64 (of_int 4611686018427388 / 576460752303423488)" by (rule rep64_ticks) simp
  show "rep64 (35 / 4096)" "rep64 (35 / 4)" by (rule rep64_fractions)+
  show "4803839602527952 \<le> - k + 4803839602528529" "- k + 4803839602528529 \<le> 4803839602528529"
    using assms by simp_all
  show "rnd64 (of_int 8) * SERVO_DT_S = ticks 4611686018427388" by (rule consumed)
qed (use assms in simp_all)

lemma second_call:
  assumes "0 \<le> k" "k \<le> 577"
  shows "substeps_for (rnd64 (1 / 120)) (ticks (192153584101141 - k)) = (Inr 8, ticks (384307168202282 - k))"
proof (rule substeps_exact)
  show "rep64 (of_int 4611686018427388 / 576460752303423488)" by (rule rep64_ticks) simp
  show "rep64 (9 / 1024)" "rep64 (71 / 8)" by (rule rep64_fractions)+
  show "4995993186629093 \<le> 192153584101141 - k + 4803839602528529" "192153584101141 - k + 4803839602528529 \<le> 4995993186629670"
    using assms by simp_all
  show "rnd64 (of_int 8) * SERVO_DT_S = ticks 4611686018427388" by (rule consumed)
qed (use assms in simp_all)

lemma third_call:
  assumes "0 \<le> k" "k \<le> 575"
  shows "substeps_for (rnd64 (1 / 120)) (ticks (384307168202282 - k)) = (Inr 9, ticks (- 1 - k))"
proof (rule substeps_exact)
  show "rep64 (of_int 5188146770730812 / 576460752303423488)" by (rule rep64_ticks) simp
  show "rep64 (75 / 8192)" "rep64 (19 / 2)" by (rule rep64_fractions)+
  show "5188146770730236 \<le> 384307168202282 - k + 4803839602528529" "384307168202282 - k + 4803839602528529 \<le> 5188146770730811"
    using assms by simp_all
  show "rnd64 (of_int 9) * SERVO_DT_S = ticks 5188146770730812" by (rule consumed)
qed (use assms in simp_all)

lemma last_calls:
  "substeps_for (rnd64 (1 / 120)) (ticks 384307168201706) = (Inr 9, ticks (- 577))"
  "fst (substeps_for (rnd64 (1 / 120)) (ticks 384307168201705)) = Inr 8"
  unfolding ticks_def by code_simp+

lemma schedule_periods:
  "n \<le> 577 \<Longrightarrow> schedule (rnd64 (1 / 120)) (3 * n + m) (ticks 0) =
     concat (replicate n [Inr 8, Inr 8, Inr 9]) @ schedule (rnd64 (1 / 120)) m (ticks (- int n))"
proof (induction n arbitrary: m)
  case (Suc n)
  have third: "substeps_for (rnd64 (1 / 120)) (ticks (384307168202282 - int n)) = (Inr 9, ticks (- 1 - int n))"
  proof (cases "n = 576")
    case True
    with last_calls show ?thesis by simp
  next
    case False
    with Suc.prems third_call [of "int n"] show ?thesis by (simp add: algebra_simps)
  qed
  have "3 * Suc n + m = 3 * n + Suc (Suc (Suc m))" by simp
  then have "schedule (rnd64 (1 / 120)) (3 * Suc n + m) (ticks 0) =
      concat (replicate n [Inr 8, Inr 8, Inr 9]) @ schedule (rnd64 (1 / 120)) (Suc (Suc (Suc m))) (ticks (- int n))"
    using Suc by (simp only:)
  moreover have "schedule (rnd64 (1 / 120)) (Suc (Suc (Suc m))) (ticks (- int n)) =
      [Inr 8, Inr 8, Inr 9] @ schedule (rnd64 (1 / 120)) m (ticks (- int (Suc n)))"
    using first_call [of "int n"] second_call [of "int n"] third Suc.prems by simp
  moreover have "replicate (Suc n) [Inr 8, Inr 8, Inr 9] = replicate n [Inr 8, Inr 8, Inr 9] @ [[Inr 8, Inr 8, Inr (9 :: int) :: exn + int]]"
    by (simp add: replicate_append_same)
  ultimately show ?case by (simp del: replicate_Suc)
qed simp

text \<open>C39. The documented exact 8, 8, 9 schedule at 120 Hz holds for the first 577 periods of a new
  accumulator, 1731 calls or 14.4 seconds, and then fails: the remainder has drifted one unit a
  period, and the third call of the next period returns 8.\<close>

theorem substep_schedule_drifts:
  "schedule (rnd64 (1 / 120)) 1734 (Fin 0) =
     concat (replicate 577 [Inr 8, Inr 8, Inr 9]) @ [Inr 8, Inr 8, Inr 8]"
proof -
  have "schedule (rnd64 (1 / 120)) (Suc (Suc (Suc 0))) (ticks (- 577)) = [Inr 8, Inr 8, Inr 8]"
    using first_call [of 577] second_call [of 577] last_calls(2)
    by (auto split: prod.splits)
  then show ?thesis
    using schedule_periods [of 577 "Suc (Suc (Suc 0))"] by (simp add: ticks_def)
qed

end
