(* ===== verification/Float_Functions.thy ===== *)
theory Float_Functions
  imports Py_Prelude
begin

text \<open>
  A quotient that keeps infinities, and the text of floats and strings as \<open>repr\<close> writes it, for
  the messages that contain them.
\<close>

text \<open>A quotient by a positive number; an infinity keeps its sign.\<close>

fun fl_over :: "fl \<Rightarrow> fl \<Rightarrow> fl" where
  "fl_over (Fin x) (Fin d) = rnd64 (x / d)"
| "fl_over v (Fin d) = v"
| "fl_over v d = NaN"

text \<open>
  The text of a finite float: its shortest decimal digits that read back as the same value,
  the closest to it among those, written with an exponent outside \<open>[1e-4, 1e16)\<close>.
\<close>

definition log10_floor :: "rat \<Rightarrow> int" where
  "log10_floor x = (case find (\<lambda>k. x < 10 powi (k + 1)) [-324..308] of None \<Rightarrow> 0 | Some k \<Rightarrow> k)"

definition repr_candidates :: "rat \<Rightarrow> int \<Rightarrow> nat \<Rightarrow> (int \<times> int) list" where
  "repr_candidates x k n =
     (let s = k - int n + 1; f = \<lfloor>x / 10 powi s\<rfloor>;
          near = (if x / 10 powi s - of_int f \<le> 1 / 2 then [f, f + 1] else [f + 1, f])
      in map (\<lambda>c. (c, s)) (filter (\<lambda>c. rnd64 (of_int c * 10 powi s) = Fin x) near))"

definition repr_digits :: "rat \<Rightarrow> string \<times> int" where
  "repr_digits x =
     (case concat (map (repr_candidates x (log10_floor x)) [1..<18]) of
        [] \<Rightarrow> ([], 0)
      | (c, s) # _ \<Rightarrow>
          (rev (dropWhile (\<lambda>d. d = CHR ''0'') (rev (int_str c))), int (length (int_str c)) + s))"

definition repr_positive :: "rat \<Rightarrow> string" where
  "repr_positive x =
     (let (ds, point) = repr_digits x; n = int (length ds)
      in if - 4 < point \<and> point \<le> 16
         then (if point \<le> 0 then ''0.'' @ replicate (nat (- point)) (CHR ''0'') @ ds
               else if n \<le> point then ds @ replicate (nat (point - n)) (CHR ''0'') @ ''.0''
               else take (nat point) ds @ ''.'' @ drop (nat point) ds)
         else take 1 ds @ (if n = 1 then [] else ''.'' @ drop 1 ds) @ ''e''
              @ (if point - 1 < 0 then ''-'' else ''+'') @ pad_zeros 2 (int_str \<bar>point - 1\<bar>))"

fun float_repr :: "fl \<Rightarrow> string" where
  "float_repr (Fin x) =
     (if x = 0 then ''0.0'' else (if x < 0 then ''-'' else []) @ repr_positive \<bar>x\<bar>)"
| "float_repr PInf = ''inf''"
| "float_repr NInf = ''-inf''"
| "float_repr NaN = ''nan''"

text \<open>
  The text of a string: in single quotes, unless it contains those and no double ones; the
  control and other unprintable characters are escaped.
\<close>

definition repr_hex_digit :: "int \<Rightarrow> char" where
  "repr_hex_digit d = (if d < 10 then digit_char d else char_of (d + 87))"

definition char_repr :: "char \<Rightarrow> char \<Rightarrow> string" where
  "char_repr q c =
     (let n = (of_char c :: int)
      in if c = q \<or> n = 92 then [char_of (92 :: int), c]
         else if n = 10 then [char_of (92 :: int), CHR ''n'']
         else if n = 13 then [char_of (92 :: int), CHR ''r'']
         else if n = 9 then [char_of (92 :: int), CHR ''t'']
         else if n < 32 \<or> (127 \<le> n \<and> n \<le> 160) \<or> n = 173
         then [char_of (92 :: int), CHR ''x'', repr_hex_digit (n div 16), repr_hex_digit (n mod 16)]
         else [c])"

definition str_repr :: "string \<Rightarrow> string" where
  "str_repr s =
     (let single = char_of (39 :: int); double = char_of (34 :: int);
          q = (if single \<in> set s \<and> double \<notin> set s then double else single)
      in [q] @ concat (map (char_repr q) s) @ [q])"

end
