(* ===== verification/Shaper_Reference.thy ===== *)
theory Shaper_Reference
  imports Command_References Float_Functions
begin

text \<open>
  \<open>V94FrankaCommandShaper\<close> of \<open>robot_control/reference/franka_v94_shaper_reference.py\<close>, the
  offline reference of the native 1 kHz command shaper: one packet moves every axis by an
  acceleration taken from an interval of jerk, velocity and position barriers, and raises
  when that interval is empty or the result leaves the derivative envelope. The names of
  this module's own constants end in \<open>_v94\<close> where the interpolator has another value.
\<close>

section \<open>Constants\<close>

definition MAX_COMMAND_ACCELERATION_v94 :: fl where
  "MAX_COMMAND_ACCELERATION_v94 = Fin 4"

definition MAX_COMMAND_JERK_v94 :: fl where
  "MAX_COMMAND_JERK_v94 = Fin 120"

definition MAX_EPISODE_DELTA_RAD :: fl where
  "MAX_EPISODE_DELTA_RAD = rnd64 (121 / 100)"

definition MAX_TRACKING_ERROR_RAD :: fl where
  "MAX_TRACKING_ERROR_RAD = rnd64 (1 / 100)"

definition MAX_UNCONTROLLED_CONTINUATION_PACKETS :: nat where
  "MAX_UNCONTROLLED_CONTINUATION_PACKETS = 20"

definition VELOCITY_BARRIER_GAIN_PER_S :: fl where
  "VELOCITY_BARRIER_GAIN_PER_S = Fin 1"

definition POSITION_BARRIER_GAIN_PER_S :: fl where
  "POSITION_BARRIER_GAIN_PER_S = Fin 1"

definition POSITION_ACCELERATION_BARRIER_GAIN_PER_S :: fl where
  "POSITION_ACCELERATION_BARRIER_GAIN_PER_S = Fin 1"

definition POSITION_TARGET_RESERVE_RAD :: fl where
  "POSITION_TARGET_RESERVE_RAD = rnd64 (60 / 1000)"

definition POSITION_TRACKING_RESERVE_RAD :: fl where
  "POSITION_TRACKING_RESERVE_RAD = MAX_TRACKING_ERROR_RAD"

section \<open>Square root and sign\<close>

text \<open>The integer square root, and the binary64 value nearest to a square root.\<close>

function isqrt :: "int \<Rightarrow> int" where
  "isqrt n =
     (if n < 1 then 0
      else let r = 2 * isqrt (n div 4) in if (r + 1) * (r + 1) \<le> n then r + 1 else r)"
  by pat_completeness auto
termination
  by (relation "measure nat") auto

declare isqrt.simps [simp del]

text \<open>
  \<open>math.sqrt\<close>: the root of a positive number has its leading bit at half the exponent, so a
  scaled root below \<open>2 ^ 53\<close> is rounded to the nearest integer. The root of a binary64 value
  is never halfway between two others. A negative operand does not occur.
\<close>

definition sqrt_round :: "rat \<Rightarrow> rat" where
  "sqrt_round x =
     (let e = rat_log2 x div 2 - 52;
          y = x * 2 powi (- 2 * e);
          m = isqrt \<lfloor>y\<rfloor>
      in of_int (if (of_int m + 1 / 2) * (of_int m + 1 / 2) < y then m + 1 else m) * 2 powi e)"

fun fl_sqrt :: "fl \<Rightarrow> fl" where
  "fl_sqrt (Fin x) = (if x \<le> 0 then Fin 0 else Fin (sqrt_round x))"
| "fl_sqrt v = v"

fun fl_abs :: "fl \<Rightarrow> fl" where
  "fl_abs (Fin x) = Fin \<bar>x\<bar>"
| "fl_abs NInf = PInf"
| "fl_abs v = v"

text \<open>\<open>math.copysign(x, y)\<close> of a non-negative \<open>x\<close>, zero where \<open>y\<close> is.\<close>

definition fl_copysign :: "fl \<Rightarrow> fl \<Rightarrow> fl" where
  "fl_copysign x y = (if y < Fin 0 then - x else x)"

section \<open>State\<close>

record v94_command_state =
  v94_q_rad :: "fl list"
  v94_dq_rad_s :: "fl list"
  v94_ddq_rad_s2 :: "fl list"

text \<open>\<open>DesiredCommandState.__post_init__\<close>\<close>

definition make_command_state :: "ndarray \<Rightarrow> ndarray \<Rightarrow> ndarray \<Rightarrow> exn + v94_command_state" where
  "make_command_state q0 dq0 ddq0 =
     res_bind (vector7 to_f64 q0 ''q_rad'') (\<lambda>q.
     res_bind (vector7 to_f64 dq0 ''dq_rad_s'') (\<lambda>dq.
     res_bind (vector7 to_f64 ddq0 ''ddq_rad_s2'') (\<lambda>ddq.
       Inr \<lparr>v94_q_rad = q, v94_dq_rad_s = dq, v94_ddq_rad_s2 = ddq\<rparr>)))"

record command_shaper =
  cs_start_q_rad :: "fl list"
  cs_state :: v94_command_state

definition make_command_shaper :: "ndarray \<Rightarrow> ndarray option \<Rightarrow> ndarray option \<Rightarrow> exn + command_shaper" where
  "make_command_shaper start0 dq0 ddq0 =
     (let derivative = (\<lambda>v name. case v of None \<Rightarrow> Inr (replicate 7 (Fin 0))
                                        | Some a \<Rightarrow> vector7 to_f64 a name)
      in res_bind (vector7 to_f64 start0 ''start_q_rad'') (\<lambda>start.
         res_bind (derivative dq0 ''initial_dq_rad_s'') (\<lambda>dq.
         res_bind (derivative ddq0 ''initial_ddq_rad_s2'') (\<lambda>ddq.
         res_bind (make_command_state (Vec start) (Vec dq) (Vec ddq)) (\<lambda>st.
           Inr \<lparr>cs_start_q_rad = start, cs_state = st\<rparr>)))))"

section \<open>One packet of one axis\<close>

text \<open>The interval of a joint, less a reserve at both ends.\<close>

definition raw_position_lower :: "fl \<Rightarrow> fl \<Rightarrow> fl" where
  "raw_position_lower safe start = fl_max safe (start - MAX_EPISODE_DELTA_RAD)"

definition raw_position_upper :: "fl \<Rightarrow> fl \<Rightarrow> fl" where
  "raw_position_upper safe start = fl_min safe (start + MAX_EPISODE_DELTA_RAD)"

text \<open>The acceleration the target asks for.\<close>

definition v94_desired_acceleration :: "fl \<Rightarrow> fl \<Rightarrow> fl \<Rightarrow> fl" where
  "v94_desired_acceleration bounded_target q0 dq0 =
     (let error = bounded_target - q0;
          stopping_velocity = fl_sqrt (Fin 2 * MAX_COMMAND_ACCELERATION_v94 * fl_abs error);
          desired_velocity = fl_copysign (fl_min MAX_COMMAND_VELOCITY_RAD_S stopping_velocity) error
      in fl_over (desired_velocity - dq0) SERVO_DT_S)"

text \<open>The position barriers of one continuation packet.\<close>

definition v94_packet_bounds :: "fl \<Rightarrow> fl \<Rightarrow> fl \<Rightarrow> fl \<Rightarrow> fl \<times> fl \<Rightarrow> nat \<Rightarrow> fl \<times> fl" where
  "v94_packet_bounds q0 dq0 cl cu bounds packet =
     (let dt = SERVO_DT_S; dt_squared = dt * dt; (lower0, upper0) = bounds;
          steps = Fin (of_nat packet);
          base_position = q0 + steps * dq0 * dt;
          coefficient = Fin (1 / 2) * steps * (steps + Fin 1) * dt_squared;
          lower1 = fl_max lower0 (fl_over (cl - base_position) coefficient);
          upper1 = fl_min upper0 (fl_over (cu - base_position) coefficient);
          barrier = steps * dt + POSITION_BARRIER_GAIN_PER_S * coefficient;
          drift = dq0 * (Fin 1 + POSITION_BARRIER_GAIN_PER_S * steps * dt);
          lower2 = fl_max lower1 (fl_over (- POSITION_BARRIER_GAIN_PER_S * (q0 - cl) - drift) barrier);
          upper2 = fl_min upper1 (fl_over (POSITION_BARRIER_GAIN_PER_S * (cu - q0) - drift) barrier);
          position_gain = POSITION_BARRIER_GAIN_PER_S * POSITION_ACCELERATION_BARRIER_GAIN_PER_S;
          velocity_gain = POSITION_BARRIER_GAIN_PER_S + POSITION_ACCELERATION_BARRIER_GAIN_PER_S;
          acceleration = Fin 1 + position_gain * coefficient + velocity_gain * steps * dt;
          lower3 = fl_max lower2 (fl_over (- position_gain * (q0 - cl + steps * dq0 * dt)
                                           - velocity_gain * dq0) acceleration);
          upper3 = fl_min upper2 (fl_over (position_gain * (cu - q0 - steps * dq0 * dt)
                                           - velocity_gain * dq0) acceleration)
      in (lower3, upper3))"

definition v94_acceleration_bounds :: "fl \<Rightarrow> fl \<Rightarrow> fl \<Rightarrow> fl \<Rightarrow> fl \<Rightarrow> fl \<times> fl" where
  "v94_acceleration_bounds q0 dq0 ddq0 cl cu =
     (let dt = SERVO_DT_S;
          denominator = Fin 1 + VELOCITY_BARRIER_GAIN_PER_S * dt;
          lower0 = fl_max (- MAX_COMMAND_ACCELERATION_v94) (ddq0 - MAX_COMMAND_JERK_v94 * dt);
          upper0 = fl_min MAX_COMMAND_ACCELERATION_v94 (ddq0 + MAX_COMMAND_JERK_v94 * dt);
          (lower, upper) = foldl (v94_packet_bounds q0 dq0 cl cu) (lower0, upper0)
                             [1..<MAX_UNCONTROLLED_CONTINUATION_PACKETS + 2]
      in (fl_max lower (fl_over (VELOCITY_BARRIER_GAIN_PER_S * (- MAX_COMMAND_VELOCITY_RAD_S - dq0)) denominator),
          fl_min upper (fl_over (VELOCITY_BARRIER_GAIN_PER_S * (MAX_COMMAND_VELOCITY_RAD_S - dq0)) denominator)))"

definition v94_no_command :: "nat \<Rightarrow> fl \<Rightarrow> fl \<Rightarrow> fl \<Rightarrow> fl \<Rightarrow> fl \<Rightarrow> exn" where
  "v94_no_command index q0 dq0 ddq0 lower upper =
     Exn RuntimeError
       (''no safe jerk-limited command exists: axis='' @ int_str (int index + 1)
        @ '' q='' @ float_repr q0 @ '' dq='' @ float_repr dq0 @ '' ddq='' @ float_repr ddq0
        @ '' lower='' @ float_repr lower @ '' upper='' @ float_repr upper)"

definition v94_axis :: "nat \<Rightarrow> fl \<Rightarrow> fl \<Rightarrow> fl \<Rightarrow> fl \<Rightarrow> fl \<Rightarrow> exn + fl \<times> fl \<times> fl" where
  "v94_axis index start target q0 dq0 ddq0 =
     (let dt = SERVO_DT_S;
          raw_lower = raw_position_lower (SAFE_JOINT_LOWER_RAD ! index) start;
          raw_upper = raw_position_upper (SAFE_JOINT_UPPER_RAD ! index) start;
          cl = raw_lower + POSITION_TRACKING_RESERVE_RAD;
          cu = raw_upper - POSITION_TRACKING_RESERVE_RAD;
          bounded_target = np_clip target (raw_lower + POSITION_TARGET_RESERVE_RAD)
                                          (raw_upper - POSITION_TARGET_RESERVE_RAD);
          desired = v94_desired_acceleration bounded_target q0 dq0;
          (lower, upper) = v94_acceleration_bounds q0 dq0 ddq0 cl cu
      in if upper + rnd64 (1 / 10 ^ 12) < lower then Inl (v94_no_command index q0 dq0 ddq0 lower upper)
         else
           let collapsed = upper + Fin (1 / 2) * (lower - upper);
               (lower', upper') = (if upper < lower then (collapsed, collapsed) else (lower, upper));
               acceleration = np_clip desired lower' upper';
               velocity = dq0 + acceleration * dt;
               position = q0 + velocity * dt;
               dq = fl_over (position - q0) dt;
               ddq = fl_over (dq - dq0) dt;
               jerk = fl_over (ddq - ddq0) dt;
               tolerance = rnd64 (1 / 10 ^ 5)
           in if MAX_COMMAND_VELOCITY_RAD_S + tolerance < fl_abs dq \<or>
                 MAX_COMMAND_ACCELERATION_v94 + tolerance < fl_abs ddq \<or>
                 MAX_COMMAND_JERK_v94 + tolerance < fl_abs jerk
              then Inl (Exn RuntimeError ''reference shaper left derivative envelope'')
              else Inr (position, dq, ddq))"

section \<open>The step\<close>

definition command_shaper_step :: "ndarray \<Rightarrow> (command_shaper, v94_command_state) op" where
  "command_shaper_step held0 c =
     (case res_bind (vector7 to_f64 held0 ''held_target_q_rad'') (\<lambda>target.
           let ref = cs_state c
           in res_bind (res_map (\<lambda>i. v94_axis i (cs_start_q_rad c ! i) (target ! i) (v94_q_rad ref ! i)
                                       (v94_dq_rad_s ref ! i) (v94_ddq_rad_s2 ref ! i)) [0..<7]) (\<lambda>axes.
              make_command_state (Vec (map fst axes)) (Vec (map (fst \<circ> snd) axes))
                                 (Vec (map (snd \<circ> snd) axes)))) of
        Inl e \<Rightarrow> (Inl e, c)
      | Inr st \<Rightarrow> (Inr st, c\<lparr>cs_state := st\<rparr>))"

section \<open>The substep schedule\<close>

text \<open>\<open>ServoSubstepAccumulator\<close> of this module: the servo period and the remainder.\<close>

record substep_accumulator =
  sa_servo_dt_s :: fl
  sa_remainder_s :: fl

definition make_accumulator :: "fl \<Rightarrow> exn + substep_accumulator" where
  "make_accumulator servo_dt =
     (if \<not> is_finite servo_dt \<or> servo_dt \<le> Fin 0
      then Inl (Exn ValueError ''servo_dt_s must be finite and positive'')
      else Inr \<lparr>sa_servo_dt_s = servo_dt, sa_remainder_s = Fin 0\<rparr>)"

definition accumulator_substeps :: "fl \<Rightarrow> (substep_accumulator, int) op" where
  "accumulator_substeps physics_dt a =
     (if \<not> is_finite physics_dt \<or> physics_dt \<le> Fin 0
      then (Inl (Exn ValueError ''physics_dt_s must be finite and positive''), a)
      else
        let accumulated = sa_remainder_s a + physics_dt;
            steps = fl_over (accumulated + rnd64 (1 / 10 ^ 15)) (sa_servo_dt_s a)
        in if \<not> is_finite steps
           then (Inl (Exn OverflowError ''cannot convert float infinity to integer''),
                 a\<lparr>sa_remainder_s := accumulated\<rparr>)
           else
             let count = (case steps of Fin x \<Rightarrow> \<lfloor>x\<rfloor> | _ \<Rightarrow> 0)
             in (Inr count, a\<lparr>sa_remainder_s := accumulated - rnd64 (of_int count) * sa_servo_dt_s a\<rparr>))"

end
