(* ===== verification/Shaper_Reference_Proofs.thy ===== *)
theory Shaper_Reference_Proofs
  imports Shaper_Reference Interpolator_Proofs
begin

text \<open>
  A packet of the reference shaper that is not refused leaves every axis inside its joint
  limits and its episode window, by the tracking reserve: no assumption on the state is needed,
  since a state from which that is impossible leaves no acceleration to choose.
\<close>

section \<open>Maxima and minima of floats\<close>

lemma fl_max_upper: "a \<noteq> NaN \<Longrightarrow> fl_max a b \<noteq> NaN \<and> a \<le> fl_max a b \<and> (b \<noteq> NaN \<longrightarrow> b \<le> fl_max a b)"
  by (cases a; cases b) (auto simp: fl_max_def less_eq_fl_def)

lemma fl_min_lower: "a \<noteq> NaN \<Longrightarrow> fl_min a b \<noteq> NaN \<and> fl_min a b \<le> a \<and> (b \<noteq> NaN \<longrightarrow> fl_min a b \<le> b)"
  by (cases a; cases b) (auto simp: fl_min_def less_eq_fl_def)

text \<open>What a packet does to the bounds it is given.\<close>

definition narrows :: "fl \<times> fl \<Rightarrow> fl \<times> fl \<Rightarrow> bool" where
  "narrows b b' = (fst b \<noteq> NaN \<and> snd b \<noteq> NaN \<longrightarrow>
     fst b' \<noteq> NaN \<and> snd b' \<noteq> NaN \<and> fst b \<le> fst b' \<and> snd b' \<le> snd b)"

lemma narrows_trans: "narrows a b \<Longrightarrow> narrows b c \<Longrightarrow> narrows a c"
  by (auto simp: narrows_def intro: fl_le_trans)

lemma narrows_step: "narrows b (fl_max (fst b) x, fl_min (snd b) y)"
  using fl_max_upper fl_min_lower by (auto simp: narrows_def)

lemma packet_narrows: "narrows b (v94_packet_bounds q0 dq0 cl cu b packet)"
  unfolding v94_packet_bounds_def Let_def split_beta
  by (rule narrows_trans [OF narrows_trans [OF narrows_step]]) (rule narrows_step [of "(_, _)", unfolded fst_conv snd_conv])+

lemma fold_narrows: "narrows b (foldl (v94_packet_bounds q0 dq0 cl cu) b ps)"
proof (induction ps arbitrary: b)
  case Nil
  show ?case by (cases "fst b"; cases "snd b") (auto simp: narrows_def less_eq_fl_def)
next
  case (Cons p ps)
  show ?case using narrows_trans [OF packet_narrows Cons] by simp
qed

text \<open>The position barrier of the first packet.\<close>

definition first_base :: "fl \<Rightarrow> fl \<Rightarrow> fl" where
  "first_base q0 dq0 = q0 + Fin 1 * dq0 * SERVO_DT_S"

definition first_coefficient :: fl where
  "first_coefficient = Fin (1 / 2) * Fin 1 * (Fin 1 + Fin 1) * (SERVO_DT_S * SERVO_DT_S)"

lemma fl_max_first: "a \<noteq> NaN \<Longrightarrow> b \<noteq> NaN \<Longrightarrow> b \<le> fl_max (fl_max (fl_max a b) c) d"
  by (meson fl_le_trans fl_max_upper)

lemma fl_min_first: "a \<noteq> NaN \<Longrightarrow> b \<noteq> NaN \<Longrightarrow> fl_min (fl_min (fl_min a b) c) d \<le> b"
  by (meson fl_le_trans fl_min_lower)

lemma first_packet:
  assumes "lo \<noteq> NaN" "hi \<noteq> NaN"
  shows "fl_over (cl - first_base q0 dq0) first_coefficient \<noteq> NaN \<Longrightarrow>
      fl_over (cl - first_base q0 dq0) first_coefficient \<le> fst (v94_packet_bounds q0 dq0 cl cu (lo, hi) 1)"
    "fl_over (cu - first_base q0 dq0) first_coefficient \<noteq> NaN \<Longrightarrow>
      snd (v94_packet_bounds q0 dq0 cl cu (lo, hi) 1) \<le> fl_over (cu - first_base q0 dq0) first_coefficient"
proof -
  have one: "Fin (of_nat 1) = Fin 1" by simp
  show "fl_over (cl - first_base q0 dq0) first_coefficient \<noteq> NaN \<Longrightarrow>
      fl_over (cl - first_base q0 dq0) first_coefficient \<le> fst (v94_packet_bounds q0 dq0 cl cu (lo, hi) 1)"
    unfolding v94_packet_bounds_def Let_def split_beta fst_conv one first_base_def first_coefficient_def
    by (rule fl_max_first [OF assms(1)])
  show "fl_over (cu - first_base q0 dq0) first_coefficient \<noteq> NaN \<Longrightarrow>
      snd (v94_packet_bounds q0 dq0 cl cu (lo, hi) 1) \<le> fl_over (cu - first_base q0 dq0) first_coefficient"
    unfolding v94_packet_bounds_def Let_def split_beta snd_conv one first_base_def first_coefficient_def
    by (rule fl_min_first [OF assms(2)])
qed

section \<open>The interval of accelerations\<close>

lemma shaper_constants:
  "SERVO_DT_S * SERVO_DT_S = Fin (4722366482869645 / 4722366482869645213696)"
  "Fin (1 / 2) * Fin 1 = Fin (1 / 2)" "Fin (1 / 2) * Fin 2 = Fin 1" "Fin 1 + Fin 1 = Fin 2"
  "Fin 1 * Fin (4722366482869645 / 4722366482869645213696) = Fin (4722366482869645 / 4722366482869645213696)"
  "Fin 1 + Fin 1 * SERVO_DT_S = Fin (2254051613498933 / 2251799813685248)"
  "MAX_TRACKING_ERROR_RAD = Fin (5764607523034235 / 576460752303423488)"
  "rnd64 (1 / 10 ^ 12) = Fin (4951760157141521 / 4951760157141521099596496896)"
  "MAX_EPISODE_DELTA_RAD = Fin (1362338887279575 / 1125899906842624)"
  unfolding servo_dt by code_simp+

lemma first_coefficient: "first_coefficient = Fin (4722366482869645 / 4722366482869645213696)"
  by (simp add: first_coefficient_def shaper_constants)

lemma fl_over_not_NaN [simp]: "x \<noteq> NaN \<Longrightarrow> fl_over x (Fin k) \<noteq> NaN"
  by (cases x) simp_all

text \<open>An operation with a finite operand gives no NaN.\<close>

lemma fl_plus_not_NaN: "x \<noteq> NaN \<Longrightarrow> x + Fin r \<noteq> NaN"
  and fl_minus_not_NaN: "x \<noteq> NaN \<Longrightarrow> x - Fin r \<noteq> NaN"
  and fl_minus_not_NaN': "x \<noteq> NaN \<Longrightarrow> Fin r - x \<noteq> NaN"
  by (cases x; simp add: plus_fl_def minus_fl_def)+

lemma fl_times_not_NaN: "x \<noteq> NaN \<Longrightarrow> 0 < r \<Longrightarrow> Fin r * x \<noteq> NaN"
  by (cases x) (simp_all add: times_fl_def fl_inf_of_sgn_def)

definition velocity_low :: "fl \<Rightarrow> fl" where
  "velocity_low dq0 = fl_over (Fin 1 * (Fin (- (1 / 2)) - dq0)) (Fin (2254051613498933 / 2251799813685248))"

definition velocity_high :: "fl \<Rightarrow> fl" where
  "velocity_high dq0 = fl_over (Fin 1 * (Fin (1 / 2) - dq0)) (Fin (2254051613498933 / 2251799813685248))"

lemma acceleration_bounds:
  fixes d e :: rat and q0 cl cu :: fl
  defines "b \<equiv> v94_acceleration_bounds q0 (Fin d) (Fin e) cl cu"
  shows "fst b \<noteq> NaN" "snd b \<noteq> NaN" "Fin (- 4) \<le> fst b" "snd b \<le> Fin 4"
    "velocity_low (Fin d) \<le> fst b" "snd b \<le> velocity_high (Fin d)"
    "cl - first_base q0 (Fin d) \<noteq> NaN \<Longrightarrow> fl_over (cl - first_base q0 (Fin d)) first_coefficient \<le> fst b"
    "cu - first_base q0 (Fin d) \<noteq> NaN \<Longrightarrow> snd b \<le> fl_over (cu - first_base q0 (Fin d)) first_coefficient"
proof -
  define b0 where "b0 = (fl_max (Fin (- 4)) (Fin e - Fin 120 * SERVO_DT_S), fl_min (Fin 4) (Fin e + Fin 120 * SERVO_DT_S))"
  define b1 where "b1 = v94_packet_bounds q0 (Fin d) cl cu b0 1"
  define b2 where "b2 = foldl (v94_packet_bounds q0 (Fin d) cl cu) b1 [2..<22]"
  have packets: "[1..<MAX_UNCONTROLLED_CONTINUATION_PACKETS + 2] = 1 # [2..<22]"
    by (simp add: MAX_UNCONTROLLED_CONTINUATION_PACKETS_def upt_conv_Cons)
  have b: "fst b = fl_max (fst b2) (velocity_low (Fin d))" "snd b = fl_min (snd b2) (velocity_high (Fin d))"
    unfolding b_def v94_acceleration_bounds_def Let_def packets velocity_low_def velocity_high_def
      MAX_COMMAND_VELOCITY_RAD_S_def VELOCITY_BARRIER_GAIN_PER_S_def shaper_constants b2_def b1_def b0_def
      MAX_COMMAND_ACCELERATION_v94_def MAX_COMMAND_JERK_v94_def
    by (simp_all add: split_beta)
  have b0: "fst b0 \<noteq> NaN" "snd b0 \<noteq> NaN" "Fin (- 4) \<le> fst b0" "snd b0 \<le> Fin 4"
    using fl_max_upper [of "Fin (- 4)"] fl_min_lower [of "Fin 4"] by (simp_all add: b0_def)
  have n1: "narrows b0 b1" unfolding b1_def by (rule packet_narrows)
  have n2: "narrows b1 b2" unfolding b2_def by (rule fold_narrows)
  have b1: "fst b1 \<noteq> NaN" "snd b1 \<noteq> NaN" using n1 b0 by (auto simp: narrows_def)
  have b2: "fst b2 \<noteq> NaN" "snd b2 \<noteq> NaN" "fst b1 \<le> fst b2" "snd b2 \<le> snd b1"
    using n2 b1 by (auto simp: narrows_def)
  have v: "velocity_low (Fin d) \<noteq> NaN" "velocity_high (Fin d) \<noteq> NaN"
    unfolding velocity_low_def velocity_high_def
    by (intro fl_over_not_NaN fl_times_not_NaN fl_minus_not_NaN; simp)+
  note up = fl_max_upper [OF b2(1), of "velocity_low (Fin d)"] and down = fl_min_lower [OF b2(2), of "velocity_high (Fin d)"]
  show "fst b \<noteq> NaN" "snd b \<noteq> NaN" "velocity_low (Fin d) \<le> fst b" "snd b \<le> velocity_high (Fin d)"
    using up down v by (simp_all add: b)
  have low: "fst b1 \<le> fst b" and high: "snd b \<le> snd b1"
    using up down b2(3,4) fl_le_trans by (auto simp: b)
  have "fst b0 \<le> fst b1" "snd b1 \<le> snd b0" using n1 b0 by (auto simp: narrows_def)
  with b0 low high show "Fin (- 4) \<le> fst b" "snd b \<le> Fin 4" by (meson fl_le_trans)+
  have pair: "b0 = (fst b0, snd b0)" by simp
  show "fl_over (cl - first_base q0 (Fin d)) first_coefficient \<le> fst b" if "cl - first_base q0 (Fin d) \<noteq> NaN"
    using first_packet(1) [OF b0(1,2), of cl q0 "Fin d" cu] that low fl_le_trans
    by (simp add: first_coefficient b1_def)
  show "snd b \<le> fl_over (cu - first_base q0 (Fin d)) first_coefficient" if "cu - first_base q0 (Fin d) \<noteq> NaN"
    using first_packet(2) [OF b0(1,2), of cu q0 "Fin d" cl] that high fl_le_trans
    by (simp add: first_coefficient b1_def)
qed

section \<open>What a non-empty interval says\<close>

lemma rep64_quarters: "rep64 (11 / 2)" "rep64 (- (11 / 2))" "rep64 (21 / 4)" "rep64 (- (21 / 4))"
  "rep64 (- (1 / 8192))" "rep64 (1 / 8192)" "rep64 (- 100)" "rep64 100" "rep64 (1 / 128)" "rep64 (- (1 / 128))"
  "rep64 (35 / 4)"
  using rep64_scaled [of 35 "-2"] rep64_scaled [of 11 "-1"] rep64_scaled [of "-11" "-1"] rep64_scaled [of 21 "-2"] rep64_scaled [of "-21" "-2"]
    rep64_scaled [of "-1" "-13"] rep64_scaled [of 1 "-13"] rep64_scaled [of 1 "-7"] rep64_scaled [of "-1" "-7"]
  by (simp_all add: power_int_minus)

lemma over_ge: "Fin z \<le> x \<Longrightarrow> 0 < k \<Longrightarrow> rep64 w \<Longrightarrow> w * k \<le> z \<Longrightarrow> Fin w \<le> fl_over x (Fin k)"
proof (cases x)
  case (Fin y)
  assume a: "Fin z \<le> x" "0 < k" "rep64 w" "w * k \<le> z"
  then have "w * k \<le> y" using Fin by simp
  then have "w \<le> y / k" using a(2) by (simp add: pos_le_divide_eq)
  then show ?thesis using Fin a(3) rnd64_ge by simp
qed (auto simp: less_eq_fl_def)

lemma over_le: "x \<le> Fin z \<Longrightarrow> 0 < k \<Longrightarrow> rep64 w \<Longrightarrow> z \<le> w * k \<Longrightarrow> fl_over x (Fin k) \<le> Fin w"
proof (cases x)
  case (Fin y)
  assume a: "x \<le> Fin z" "0 < k" "rep64 w" "z \<le> w * k"
  then have "y \<le> w * k" using Fin by simp
  then have "y / k \<le> w" using a(2) by (simp add: pos_divide_le_eq)
  then show ?thesis using Fin a(3) rnd64_le by simp
qed (auto simp: less_eq_fl_def)

lemma scale_one_ge:
  assumes "rep64 z" "Fin z \<le> x"
  shows "Fin z \<le> Fin 1 * x"
proof (cases x)
  case (Fin y)
  then show ?thesis using assms rnd64_ge [of z y] by (simp add: times_fl_def)
qed (use assms in \<open>auto simp: times_fl_def fl_inf_of_sgn_def less_eq_fl_def\<close>)

lemma scale_one_le:
  assumes "rep64 z" "x \<le> Fin z"
  shows "Fin 1 * x \<le> Fin z"
proof (cases x)
  case (Fin y)
  then show ?thesis using assms rnd64_le [of z y] by (simp add: times_fl_def)
qed (use assms in \<open>auto simp: times_fl_def fl_inf_of_sgn_def less_eq_fl_def\<close>)

lemma velocity_bounded:
  assumes "velocity_low (Fin d) \<le> Fin 5" "Fin (- 5) \<le> velocity_high (Fin d)"
  shows "- 6 \<le> d" "d \<le> 6"
proof -
  show "- 6 \<le> d"
  proof (rule ccontr)
    assume "\<not> - 6 \<le> d"
    then have "Fin (11 / 2) \<le> Fin (- (1 / 2)) - Fin d"
      using rep64_quarters unfolding minus_fl_def by (simp add: rnd64_ge)
    then have "Fin (21 / 4) \<le> velocity_low (Fin d)"
      unfolding velocity_low_def using rep64_quarters by (intro over_ge [OF scale_one_ge]) auto
    with assms(1) have "Fin (21 / 4) \<le> Fin 5" by (rule fl_le_trans [rotated])
    then show False by simp
  qed
  show "d \<le> 6"
  proof (rule ccontr)
    assume "\<not> d \<le> 6"
    then have "Fin (1 / 2) - Fin d \<le> Fin (- (11 / 2))"
      using rep64_quarters unfolding minus_fl_def by (simp add: rnd64_le)
    then have "velocity_high (Fin d) \<le> Fin (- (21 / 4))"
      unfolding velocity_high_def using rep64_quarters by (intro over_le [OF scale_one_le]) auto
    with assms(2) have "Fin (- 5) \<le> Fin (- (21 / 4))" by (rule fl_le_trans)
    then show False by simp
  qed
qed

lemma fl_total: "a \<noteq> NaN \<Longrightarrow> b \<noteq> NaN \<Longrightarrow> \<not> a < b \<Longrightarrow> b \<le> (a :: fl)"
  by (cases a; cases b) (auto simp: less_eq_fl_def)

lemma interval_finite:
  assumes "l \<noteq> NaN" "u \<noteq> NaN" "Fin (- 4) \<le> l" "u \<le> Fin 4" "\<not> u + Fin (4951760157141521 / 4951760157141521099596496896) < l"
  obtains x y where "l = Fin x" "u = Fin y" "- 4 \<le> x" "x \<le> 5" "- 5 \<le> y" "y \<le> 4" "x \<le> y + 1 / 100000000000"
proof -
  obtain y where y: "u = Fin y"
    using assms by (cases u; cases l) (auto simp: plus_fl_def less_eq_fl_def)
  let ?t = "4951760157141521 / 4951760157141521099596496896 :: rat"
  have "rnd64 (y + ?t) \<le> Fin 5" using y assms(4) by (intro rnd64_le) auto
  moreover have l: "l \<le> rnd64 (y + ?t)" using assms(1,5) y fl_total by (simp add: plus_fl_def)
  ultimately have "l \<le> Fin 5" using fl_le_trans by blast
  with assms(3) l obtain x where x: "l = Fin x" "Fin x \<le> rnd64 (y + ?t)" "x \<le> 5" "- 4 \<le> x"
    by (cases l) (auto simp: less_eq_fl_def [of NInf] less_eq_fl_def [of PInf] less_eq_fl_def [of NaN] less_eq_fl_def [of _ NInf])
  have low: "- 5 \<le> y"
  proof (rule ccontr)
    assume "\<not> - 5 \<le> y"
    moreover have "rep64 (- (9 / 2))" using rep64_scaled [of "-9" "-1"] by (simp add: power_int_minus)
    ultimately have "rnd64 (y + ?t) \<le> Fin (- (9 / 2))" by (intro rnd64_le) auto
    with x(2) have "Fin x \<le> Fin (- (9 / 2))" by (rule fl_le_trans)
    with x(4) show False by simp
  qed
  have high: "y \<le> 4" using assms(4) y by simp
  then have "between (- 5) 5 (rnd64 (y + ?t))" using low by (intro between_rnd64) auto
  then obtain z where z: "rnd64 (y + ?t) = Fin z" by (elim betweenE)
  have "\<bar>z - (y + ?t)\<bar> \<le> 1 / 10000000000000" using low high by (intro rnd64_close [OF z]) (simp add: abs_le_iff)
  moreover have "x \<le> z" using x(2) z by simp
  ultimately have "x \<le> y + 1 / 100000000000" by linarith
  with x y low high show ?thesis using that by blast
qed

text \<open>A position barrier that a finite bound respects: the distance to the limit, and the
  acceleration that keeps it.\<close>

lemma gap_above:
  assumes le: "Fin y \<le> fl_over (Fin c - Fin b) (Fin (4722366482869645 / 4722366482869645213696))" and y: "- 5 \<le> y"
  shows "- (1 / 8192) \<le> c - b"
proof (rule ccontr)
  assume "\<not> - (1 / 8192) \<le> c - b"
  then have "Fin c - Fin b \<le> Fin (- (1 / 8192))"
    using rep64_quarters unfolding minus_fl_def by (simp add: rnd64_le)
  then have "fl_over (Fin c - Fin b) (Fin (4722366482869645 / 4722366482869645213696)) \<le> Fin (- 100)"
    using rep64_quarters by (intro over_le) auto
  with le have "Fin y \<le> Fin (- 100)" by (rule fl_le_trans)
  with y show False by simp
qed

lemma barrier_above:
  assumes le: "Fin y \<le> fl_over (Fin c - Fin b) (Fin (4722366482869645 / 4722366482869645213696))" and y: "- 5 \<le> y" and b: "c - b \<le> 20"
  shows "(4722366482869645 / 4722366482869645213696) * y \<le> c - b + 1 / 1000000000000"
proof -
  have gap: "- (1 / 8192) \<le> c - b" by (rule gap_above [OF le y])
  have "between (- 1) 20 (rnd64 (c - b))" using gap b by (intro between_rnd64) auto
  then obtain g where g: "rnd64 (c - b) = Fin g" "- 1 \<le> g" "g \<le> 20" by (elim betweenE)
  have n: "\<bar>g - (c - b)\<bar> \<le> 1 / 10000000000000" using gap b by (intro rnd64_close [OF g(1)]) (simp add: abs_le_iff)
  have "between (- 2000000) 30000000 (rnd64 (g / (4722366482869645 / 4722366482869645213696)))"
    using g by (intro between_rnd64) (simp_all add: field_simps)
  then obtain h where h: "rnd64 (g / (4722366482869645 / 4722366482869645213696)) = Fin h" by (elim betweenE)
  define w where "w = g / (4722366482869645 / 4722366482869645213696)"
  have "\<bar>h - w\<bar> \<le> \<bar>w\<bar> / 2 ^ 53 + 1 / 2 ^ 100" unfolding w_def by (rule rnd64_near [OF h])
  moreover have "\<bar>w\<bar> \<le> 30000000" using g by (simp add: w_def abs_le_iff field_simps)
  ultimately have "\<bar>h - w\<bar> \<le> 1 / 100000000" by simp
  then have "h \<le> w + 1 / 100000000" by linarith
  then have "h \<le> g / (4722366482869645 / 4722366482869645213696) + 1 / 100000000" by (simp only: w_def)
  moreover have "Fin c - Fin b = Fin g" by (simp add: minus_fl_def g(1))
  with le have "Fin y \<le> Fin h" by (simp only: fl_over.simps h)
  then have "y \<le> h" by simp
  ultimately have "y \<le> g / (4722366482869645 / 4722366482869645213696) + 1 / 100000000" by simp
  then have "(4722366482869645 / 4722366482869645213696) * y \<le> g + 1 / 10000000000000" by (simp add: field_simps)
  then show "(4722366482869645 / 4722366482869645213696) * y \<le> c - b + 1 / 1000000000000" using n by linarith
qed

lemma fl_over_neg: "fl_over (fl_neg v) (Fin k) = fl_neg (fl_over v (Fin k))"
  by (cases v) (simp_all add: fl_neg_rnd64 [symmetric])

lemma over_mirror:
  assumes "fl_over (Fin c - Fin b) (Fin (4722366482869645 / 4722366482869645213696)) \<le> Fin x"
  shows "Fin (- x) \<le> fl_over (Fin (- c) - Fin (- b)) (Fin (4722366482869645 / 4722366482869645213696))"
proof -
  have "fl_neg (Fin c - Fin b) = Fin (- c) - Fin (- b)" by (simp add: fl_neg_minus)
  then show ?thesis
    using assms fl_over_neg [of "Fin c - Fin b"] fl_neg_le [of "Fin x"] by (metis fl_neg.simps(1))
qed

lemma gap_below:
  assumes "fl_over (Fin c - Fin b) (Fin (4722366482869645 / 4722366482869645213696)) \<le> Fin x" "x \<le> 5"
  shows "c - b \<le> 1 / 8192"
  using gap_above [OF over_mirror [OF assms(1)]] assms(2) by simp

lemma barrier_below:
  assumes "fl_over (Fin c - Fin b) (Fin (4722366482869645 / 4722366482869645213696)) \<le> Fin x" "x \<le> 5" "- 20 \<le> c - b"
  shows "c - b - 1 / 1000000000000 \<le> (4722366482869645 / 4722366482869645213696) * x"
  using barrier_above [OF over_mirror [OF assms(1)]] assms(2,3) by simp

section \<open>The position of a packet\<close>

text \<open>The limits of the interval are numbers when it is not empty.\<close>

lemma limits_finite:
  assumes "cl \<noteq> NaN" "cl \<noteq> NInf" "cu \<noteq> NaN" "cu \<noteq> PInf" "base \<noteq> NaN"
    and "cl - base \<noteq> NaN \<Longrightarrow> fl_over (cl - base) (Fin k) \<le> Fin x"
    and "cu - base \<noteq> NaN \<Longrightarrow> Fin y \<le> fl_over (cu - base) (Fin k)"
  obtains b c1 c2 where "base = Fin b" "cl = Fin c1" "cu = Fin c2"
proof -
  have "is_finite base"
  proof (rule ccontr)
    assume "\<not> is_finite base"
    then show False
      using assms by (cases base; cases cl; cases cu) (auto simp: minus_fl_def less_eq_fl_def)
  qed
  then obtain b where b: "base = Fin b" by (auto simp: is_finite_iff)
  moreover have "is_finite cl" using assms(1,2,6) b by (cases cl) (auto simp: minus_fl_def less_eq_fl_def)
  moreover have "is_finite cu" using assms(3,4,7) b by (cases cu) (auto simp: minus_fl_def less_eq_fl_def)
  ultimately show ?thesis using that by (auto simp: is_finite_iff)
qed

lemma first_base_near:
  assumes "first_base (Fin q) (Fin d) = Fin b" "rep64 d" "- 6 \<le> d" "d \<le> 6" "- 6 \<le> b" "b \<le> 6"
  shows "- 8 \<le> q" "q \<le> 8" "\<bar>b - (q + d * dt_value)\<bar> \<le> 1 / 1000000000000"
proof -
  have "between (- (1 / 128)) (1 / 128) (rnd64 (d * dt_value))"
    using assms(3,4) rep64_quarters by (intro between_rnd64) simp_all
  then obtain s where s: "rnd64 (d * dt_value) = Fin s" "- (1 / 128) \<le> s" "s \<le> 1 / 128" by (elim betweenE)
  have b: "rnd64 (q + s) = Fin b"
    using assms(1) rnd64_rep [OF assms(2)] s(1) by (simp add: first_base_def times_fl_def plus_fl_def servo_dt)
  show "- 8 \<le> q"
  proof (rule ccontr)
    assume "\<not> - 8 \<le> q"
    then have "rnd64 (q + s) \<le> Fin (- 7)" using s by (intro rnd64_le) auto
    then show False using b assms(5) by simp
  qed
  moreover show "q \<le> 8"
  proof (rule ccontr)
    assume "\<not> q \<le> 8"
    then have "Fin 7 \<le> rnd64 (q + s)" using s by (intro rnd64_ge) auto
    then show False using b assms(6) by simp
  qed
  ultimately have "\<bar>b - (q + s)\<bar> \<le> 1 / 10000000000000"
    using s by (intro rnd64_close [OF b]) (simp add: abs_le_iff)
  moreover have "\<bar>s - d * dt_value\<bar> \<le> 1 / 10000000000000"
    using assms(3,4) by (intro rnd64_close [OF s(1)]) (simp add: abs_le_iff)
  ultimately show "\<bar>b - (q + d * dt_value)\<bar> \<le> 1 / 1000000000000" by linarith
qed

text \<open>The acceleration chosen in an interval that may be empty by less than the tolerance.\<close>

lemma chosen_acceleration:
  fixes x y :: rat and desired :: fl
  assumes "desired \<noteq> NaN" "- 4 \<le> x" "x \<le> 5" "- 5 \<le> y" "y \<le> 4" "x \<le> y + 1 / 100000000000"
  defines "c \<equiv> Fin y + Fin (1 / 2) * (Fin x - Fin y)"
  obtains a where "np_clip desired (if Fin y < Fin x then c else Fin x) (if Fin y < Fin x then c else Fin y) = Fin a"
    "x - 1 / 1000000000 \<le> a" "a \<le> y + 1 / 1000000000"
proof (cases "y < x")
  case True
  have "between 0 9 (rnd64 (x - y))" using True assms by (intro between_rnd64) auto
  then obtain g where g: "rnd64 (x - y) = Fin g" "0 \<le> g" "g \<le> 9" by (elim betweenE)
  have "between 0 9 (rnd64 (1 / 2 * g))" using g by (intro between_rnd64) auto
  then obtain h where h: "rnd64 (1 / 2 * g) = Fin h" "0 \<le> h" "h \<le> 9" by (elim betweenE)
  have "between (- 5) 13 (rnd64 (y + h))" using assms h by (intro between_rnd64) auto
  then obtain a where a: "rnd64 (y + h) = Fin a" by (elim betweenE)
  have "\<bar>g - (x - y)\<bar> \<le> 1 / 10000000000000" "\<bar>h - 1 / 2 * g\<bar> \<le> 1 / 10000000000000"
    "\<bar>a - (y + h)\<bar> \<le> 1 / 10000000000000"
    using assms g h by (intro rnd64_close [OF g(1)] rnd64_close [OF h(1)] rnd64_close [OF a]; simp add: abs_le_iff)+
  then have "x - 1 / 1000000000 \<le> a \<and> a \<le> y + 1 / 1000000000"
    using True assms(6) by (intro conjI; linarith)
  moreover have "c = Fin a" using g h a by (simp add: c_def minus_fl_def times_fl_def plus_fl_def)
  moreover have "np_clip desired (Fin a) (Fin a) = Fin a"
    using assms(1) by (cases desired) (auto simp: np_clip_def np_maximum_def np_minimum_def less_eq_fl_def)
  ultimately show ?thesis using that True by simp
next
  case False
  obtain a where a: "np_clip desired (Fin x) (Fin y) = Fin a" using np_clip_finite [OF assms(1)] by blast
  moreover have "Fin x \<le> np_clip desired (Fin x) (Fin y)" "np_clip desired (Fin x) (Fin y) \<le> Fin y"
    using np_clip_lower np_clip_upper assms(1) False by simp_all
  ultimately show ?thesis using that False by simp
qed

lemma packet_position:
  assumes "- 8 \<le> q" "q \<le> 8" "- 6 \<le> d" "d \<le> 6" "- 6 \<le> a" "a \<le> 6"
  obtains v p where "Fin d + Fin a * SERVO_DT_S = Fin v" "Fin q + Fin v * SERVO_DT_S = Fin p"
    "\<bar>p - (q + d * dt_value + a * (dt_value * dt_value))\<bar> \<le> 1 / 1000000000000"
proof -
  have "between (- (1 / 128)) (1 / 128) (rnd64 (a * dt_value))"
    using assms rep64_quarters by (intro between_rnd64) simp_all
  then obtain f where f: "rnd64 (a * dt_value) = Fin f" "- (1 / 128) \<le> f" "f \<le> 1 / 128" by (elim betweenE)
  have "between (- 7) 7 (rnd64 (d + f))" using assms f by (intro between_rnd64) auto
  then obtain v where v: "rnd64 (d + f) = Fin v" "- 7 \<le> v" "v \<le> 7" by (elim betweenE)
  have "between (- (1 / 128)) (1 / 128) (rnd64 (v * dt_value))"
    using v rep64_quarters by (intro between_rnd64) simp_all
  then obtain g where g: "rnd64 (v * dt_value) = Fin g" "- (1 / 128) \<le> g" "g \<le> 1 / 128" by (elim betweenE)
  have "between (- 9) 9 (rnd64 (q + g))" using assms g by (intro between_rnd64) auto
  then obtain p where p: "rnd64 (q + g) = Fin p" by (elim betweenE)
  have "\<bar>f - a * dt_value\<bar> \<le> 1 / 10000000000000" "\<bar>v - (d + f)\<bar> \<le> 1 / 10000000000000"
    "\<bar>g - v * dt_value\<bar> \<le> 1 / 10000000000000" "\<bar>p - (q + g)\<bar> \<le> 1 / 10000000000000"
    using assms f v g
    by (intro rnd64_close [OF f(1)] rnd64_close [OF v(1)] rnd64_close [OF g(1)] rnd64_close [OF p]; simp add: abs_le_iff)+
  then have "\<bar>p - (q + d * dt_value + a * (dt_value * dt_value))\<bar> \<le> 1 / 1000000000000" by linarith
  then show ?thesis
    using that f g v p by (simp add: plus_fl_def times_fl_def servo_dt)
qed

lemma desired_not_NaN: "t \<noteq> NaN \<Longrightarrow> v94_desired_acceleration t (Fin q) (Fin d) \<noteq> NaN"
proof -
  assume "t \<noteq> NaN"
  then have e: "t - Fin q \<noteq> NaN" by (rule fl_minus_not_NaN)
  then have "fl_min MAX_COMMAND_VELOCITY_RAD_S w \<noteq> NaN" for w
    using fl_min_lower [of MAX_COMMAND_VELOCITY_RAD_S w] by (simp add: MAX_COMMAND_VELOCITY_RAD_S_def)
  then have "fl_copysign (fl_min MAX_COMMAND_VELOCITY_RAD_S w) v \<noteq> NaN" for v w
    by (cases "fl_min MAX_COMMAND_VELOCITY_RAD_S w") (auto simp: fl_copysign_def uminus_fl_def)
  then show ?thesis
    unfolding v94_desired_acceleration_def Let_def servo_dt by (intro fl_over_not_NaN fl_minus_not_NaN)
qed

text \<open>The packet of one axis, for limits that are given.\<close>

lemma packet_inside:
  fixes q d e :: rat and cl cu desired :: fl
  defines "b \<equiv> v94_acceleration_bounds (Fin q) (Fin d) (Fin e) cl cu"
  defines "c \<equiv> snd b + Fin (1 / 2) * (fst b - snd b)"
  defines "a \<equiv> np_clip desired (if snd b < fst b then c else fst b) (if snd b < fst b then c else snd b)"
  assumes d: "rep64 d" and cl: "cl \<noteq> NaN" "Fin (- 5) \<le> cl" and cu: "cu \<noteq> NaN" "cu \<le> Fin 5"
    and desired: "desired \<noteq> NaN" and ok: "\<not> snd b + Fin (4951760157141521 / 4951760157141521099596496896) < fst b"
  obtains p c1 c2 where "Fin q + (Fin d + a * SERVO_DT_S) * SERVO_DT_S = Fin p" "cl = Fin c1" "cu = Fin c2"
    "c1 - 1 / 10000000000 \<le> p" "p \<le> c2 + 1 / 10000000000" "- 5 \<le> c1" "c1 \<le> 7" "- 7 \<le> c2" "c2 \<le> 5"
proof -
  note bounds = acceleration_bounds [where ?q0.0 = "Fin q" and d = d and e = e and cl = cl and cu = cu, folded b_def]
  obtain x y where xy: "fst b = Fin x" "snd b = Fin y" "- 4 \<le> x" "x \<le> 5" "- 5 \<le> y" "y \<le> 4"
    "x \<le> y + 1 / 100000000000"
    using interval_finite [OF bounds(1-4) ok] .
  have "velocity_low (Fin d) \<le> Fin 5" using fl_le_trans [OF bounds(5), of "Fin 5"] xy by simp
  moreover have "Fin (- 5) \<le> velocity_high (Fin d)" using fl_le_trans [OF _ bounds(6), of "Fin (- 5)"] xy by simp
  ultimately have d6: "- 6 \<le> d" "d \<le> 6" using velocity_bounded by blast+
  have base: "first_base (Fin q) (Fin d) \<noteq> NaN"
    by (cases "rnd64 (d * dt_value)")
      (simp_all add: first_base_def times_fl_def rnd64_rep [OF d] servo_dt plus_fl_def)
  have ends: "cl \<noteq> NInf" "cu \<noteq> PInf" using cl(2) cu(2) by (auto simp: less_eq_fl_def)
  obtain v c1 c2 where v: "first_base (Fin q) (Fin d) = Fin v" "cl = Fin c1" "cu = Fin c2"
    by (rule limits_finite [OF cl(1) ends(1) cu(1) ends(2) base, of "4722366482869645 / 4722366482869645213696" x y])
      (use bounds(7,8) xy in \<open>simp_all add: first_coefficient\<close>)
  have c: "- 5 \<le> c1" "c2 \<le> 5" using cl cu v by simp_all
  have up: "Fin y \<le> fl_over (Fin c2 - Fin v) (Fin (4722366482869645 / 4722366482869645213696))"
    and low: "fl_over (Fin c1 - Fin v) (Fin (4722366482869645 / 4722366482869645213696)) \<le> Fin x"
    using bounds(7,8) v xy by (simp_all add: first_coefficient minus_fl_def)
  have gaps: "- (1 / 8192) \<le> c2 - v" "c1 - v \<le> 1 / 8192"
    using gap_above [OF up] gap_below [OF low] xy by simp_all
  then have v6: "- 6 \<le> v" "v \<le> 6" using c by linarith+
  then have c': "c1 \<le> 7" "- 7 \<le> c2" using gaps by linarith+
  have near: "(4722366482869645 / 4722366482869645213696) * y \<le> c2 - v + 1 / 1000000000000" "c1 - v - 1 / 1000000000000 \<le> (4722366482869645 / 4722366482869645213696) * x"
    using barrier_above [OF up] barrier_below [OF low] xy c c' v6 by simp_all
  obtain w where w: "a = Fin w" "x - 1 / 1000000000 \<le> w" "w \<le> y + 1 / 1000000000"
    using chosen_acceleration [OF desired xy(3-7)] unfolding a_def c_def xy(1,2) by blast
  note q = first_base_near [OF v(1) d d6 v6]
  have w6: "- 6 \<le> w" "w \<le> 6" using w xy by linarith+
  obtain r p where p: "Fin d + a * SERVO_DT_S = Fin r" "Fin q + Fin r * SERVO_DT_S = Fin p"
    "\<bar>p - (q + d * dt_value + w * (dt_value * dt_value))\<bar> \<le> 1 / 1000000000000"
    using packet_position [OF q(1,2) d6 w6] w(1) by metis
  have "p \<le> c2 + 1 / 10000000000" using p(3) q(3) near(1) w(3) w6 by linarith
  moreover have "c1 - 1 / 10000000000 \<le> p" using p(3) q(3) near(2) w(2) w6 by linarith
  ultimately show ?thesis using that p v c c' by simp
qed

section \<open>The limits of an axis\<close>

lemma tracking_reserve: "POSITION_TRACKING_RESERVE_RAD = Fin (5764607523034235 / 576460752303423488)"
  by (simp add: POSITION_TRACKING_RESERVE_RAD_def shaper_constants)

lemma lower_limit:
  assumes cl: "raw_position_lower (Fin l) (Fin s) + POSITION_TRACKING_RESERVE_RAD = Fin c" and c: "c \<le> 7" "- 5 \<le> l"
  shows "l + 1 / 100 - 1 / 10000000000 \<le> c" "s - 121 / 100 + 1 / 100 - 1 / 10000000000 \<le> c"
proof -
  let ?r = "raw_position_lower (Fin l) (Fin s)"
  have r: "?r \<noteq> NaN" "Fin l \<le> ?r" "rnd64 (s - 1362338887279575 / 1125899906842624) \<le> ?r"
    using fl_max_upper [of "Fin l" "rnd64 (s - 1362338887279575 / 1125899906842624)"]
    by (simp_all add: raw_position_lower_def shaper_constants minus_fl_def)
  then obtain x where x: "?r = Fin x" using cl by (cases ?r) (auto simp: tracking_reserve plus_fl_def)
  have cx: "rnd64 (x + 5764607523034235 / 576460752303423488) = Fin c" using cl by (simp add: x tracking_reserve plus_fl_def)
  have x8: "x \<le> 8"
  proof (rule ccontr)
    assume "\<not> x \<le> 8"
    then have "Fin 8 \<le> rnd64 (x + 5764607523034235 / 576460752303423488)" by (intro rnd64_ge) auto
    with cx c show False by simp
  qed
  have lx: "l \<le> x" using r(2) x by simp
  have near: "\<bar>c - (x + 5764607523034235 / 576460752303423488)\<bar> \<le> 1 / 10000000000000"
    using x8 lx c(2) by (intro rnd64_close [OF cx]) (simp add: abs_le_iff)
  then show "l + 1 / 100 - 1 / 10000000000 \<le> c" using lx by linarith
  have s10: "s \<le> 10"
  proof (rule ccontr)
    assume "\<not> s \<le> 10"
    then have "Fin (35 / 4) \<le> rnd64 (s - 1362338887279575 / 1125899906842624)"
      using rep64_quarters by (intro rnd64_ge) simp_all
    from fl_le_trans [OF this r(3) [unfolded x]] have "35 / 4 \<le> x" by simp
    with x8 show False by simp
  qed
  show "s - 121 / 100 + 1 / 100 - 1 / 10000000000 \<le> c"
  proof (cases "s \<le> - 10")
    case True
    then show ?thesis using near lx c(2) by linarith
  next
    case False
    then have "between (- 16) 16 (rnd64 (s - 1362338887279575 / 1125899906842624))" using s10 by (intro between_rnd64) auto
    then obtain y where y: "rnd64 (s - 1362338887279575 / 1125899906842624) = Fin y" by (elim betweenE)
    have "\<bar>y - (s - 1362338887279575 / 1125899906842624)\<bar> \<le> 1 / 10000000000000"
      using False s10 by (intro rnd64_close [OF y]) (simp add: abs_le_iff)
    moreover have "y \<le> x" using r(3) x y by simp
    ultimately show ?thesis using near by linarith
  qed
qed

lemma fl_max_neg: "a \<noteq> NaN \<Longrightarrow> b \<noteq> NaN \<Longrightarrow> fl_max (fl_neg a) (fl_neg b) = fl_neg (fl_min a b)"
  by (cases a; cases b) (auto simp: fl_max_def fl_min_def)

lemma limits_mirror:
  "raw_position_lower (Fin (- u)) (Fin (- s)) + POSITION_TRACKING_RESERVE_RAD =
     fl_neg (raw_position_upper (Fin u) (Fin s) - POSITION_TRACKING_RESERVE_RAD)"
proof -
  have "Fin (- s) - Fin (1362338887279575 / 1125899906842624) = fl_neg (Fin s + Fin (1362338887279575 / 1125899906842624))"
    by (simp add: minus_fl_def plus_fl_def fl_neg_rnd64 [symmetric])
  then have "raw_position_lower (Fin (- u)) (Fin (- s)) = fl_neg (raw_position_upper (Fin u) (Fin s))"
    using fl_max_neg [of "Fin u" "Fin s + Fin (1362338887279575 / 1125899906842624)"]
    by (simp add: raw_position_lower_def raw_position_upper_def shaper_constants plus_fl_def)
  then show ?thesis
    by (cases "raw_position_upper (Fin u) (Fin s)")
      (simp_all add: tracking_reserve minus_fl_def plus_fl_def fl_neg_rnd64 [symmetric])
qed

lemma upper_limit:
  assumes cu: "raw_position_upper (Fin u) (Fin s) - POSITION_TRACKING_RESERVE_RAD = Fin c" and c: "- 7 \<le> c" "u \<le> 5"
  shows "c \<le> u - 1 / 100 + 1 / 10000000000" "c \<le> s + 121 / 100 - 1 / 100 + 1 / 10000000000"
proof -
  have "raw_position_lower (Fin (- u)) (Fin (- s)) + POSITION_TRACKING_RESERVE_RAD = Fin (- c)"
    unfolding limits_mirror cu by simp
  from lower_limit [OF this] c
  show "c \<le> u - 1 / 100 + 1 / 10000000000" "c \<le> s + 121 / 100 - 1 / 100 + 1 / 10000000000" by simp_all
qed

section \<open>A step\<close>

definition packet_envelope :: "fl \<Rightarrow> fl \<Rightarrow> bool" where
  "packet_envelope dq ddq =
     (fl_abs dq \<le> MAX_COMMAND_VELOCITY_RAD_S + rnd64 (1 / 10 ^ 5) \<and>
      fl_abs ddq \<le> MAX_COMMAND_ACCELERATION_v94 + rnd64 (1 / 10 ^ 5))"

lemma envelope_limits:
  "MAX_COMMAND_VELOCITY_RAD_S + rnd64 (1 / 10 ^ 5) \<noteq> NaN" "MAX_COMMAND_ACCELERATION_v94 + rnd64 (1 / 10 ^ 5) \<noteq> NaN"
  by (cases "rnd64 (1 / 10 ^ 5)";
      simp add: MAX_COMMAND_VELOCITY_RAD_S_def MAX_COMMAND_ACCELERATION_v94_def plus_fl_def)+

lemma fl_abs_not_NaN: "v \<noteq> NaN \<Longrightarrow> fl_abs v \<noteq> NaN"
  by (cases v) simp_all

lemma fl_not_above: "v \<noteq> NaN \<Longrightarrow> m \<noteq> NaN \<Longrightarrow> \<not> m < fl_abs v \<Longrightarrow> fl_abs v \<le> m"
  using fl_total fl_abs_not_NaN by blast

text \<open>A computed value is stored as it is.\<close>

lemma to_f64_rnd64 [simp]: "to_f64 (rnd64 x) = rnd64 x"
  using rnd64_rep rep64_rnd64 by (cases "rnd64 x") (auto simp: to_f64_def)

lemma to_f64_plus: "to_f64 (x + y) = x + y"
  by (cases x; cases y) (simp_all add: plus_fl_def, simp_all add: to_f64_def)

lemma to_f64_over: "to_f64 (fl_over x (Fin k)) = fl_over x (Fin k)"
  by (cases x) (simp, simp_all add: to_f64_def)

lemma raw_lower_not_NaN: "raw_position_lower (Fin l) (Fin s) \<noteq> NaN \<and> Fin l \<le> raw_position_lower (Fin l) (Fin s)"
  using fl_max_upper [of "Fin l"] by (simp add: raw_position_lower_def)

lemma raw_upper_not_NaN: "raw_position_upper (Fin u) (Fin s) \<noteq> NaN \<and> raw_position_upper (Fin u) (Fin s) \<le> Fin u"
  using fl_min_lower [of "Fin u"] by (simp add: raw_position_upper_def)

lemma reserve_keeps:
  assumes "r \<noteq> NaN" "0 \<le> x"
  shows "Fin z \<le> r \<Longrightarrow> rep64 z \<Longrightarrow> Fin z \<le> r + Fin x" "r \<le> Fin z \<Longrightarrow> rep64 z \<Longrightarrow> r - Fin x \<le> Fin z"
  using assms
  by (cases r; auto simp: plus_fl_def minus_fl_def less_eq_fl_def [of _ PInf] less_eq_fl_def [of NInf]
      less_eq_fl_def [of _ NInf] less_eq_fl_def [of PInf] intro: rnd64_ge rnd64_le)+

lemma v94_axis_inside:
  assumes axis: "v94_axis i (Fin s) target (Fin q) (Fin d) (Fin e) = Inr (pos, dq, ddq)"
    and i: "i < 7" and d: "rep64 d" and target: "target \<noteq> NaN"
  shows "\<exists>p l u. pos = Fin p \<and> SAFE_JOINT_LOWER_RAD ! i = Fin l \<and> SAFE_JOINT_UPPER_RAD ! i = Fin u \<and>
    l + 1 / 100 - 1 / 1000000000 \<le> p \<and> p \<le> u - 1 / 100 + 1 / 1000000000 \<and>
    \<bar>p - s\<bar> \<le> 121 / 100 - 1 / 100 + 1 / 1000000000 \<and> packet_envelope dq ddq \<and>
    to_f64 pos = pos \<and> to_f64 dq = dq \<and> to_f64 ddq = ddq"
proof -
  obtain l u where lu: "SAFE_JOINT_LOWER_RAD ! i = Fin l" "SAFE_JOINT_UPPER_RAD ! i = Fin u"
    "- 5 \<le> l" "l < u" "u \<le> 5" "rep64 l" "rep64 u"
    using safe_limit_between [OF i] .
  define rl where "rl = raw_position_lower (Fin l) (Fin s)"
  define ru where "ru = raw_position_upper (Fin u) (Fin s)"
  define cl where "cl = rl + POSITION_TRACKING_RESERVE_RAD"
  define cu where "cu = ru - POSITION_TRACKING_RESERVE_RAD"
  define bt where "bt = np_clip target (rl + POSITION_TARGET_RESERVE_RAD) (ru - POSITION_TARGET_RESERVE_RAD)"
  define desired where "desired = v94_desired_acceleration bt (Fin q) (Fin d)"
  define b where "b = v94_acceleration_bounds (Fin q) (Fin d) (Fin e) cl cu"
  define c where "c = snd b + Fin (1 / 2) * (fst b - snd b)"
  define a where "a = np_clip desired (if snd b < fst b then c else fst b) (if snd b < fst b then c else snd b)"
  have raw: "rl \<noteq> NaN" "Fin l \<le> rl" "ru \<noteq> NaN" "ru \<le> Fin u"
    using raw_lower_not_NaN raw_upper_not_NaN by (simp_all add: rl_def ru_def)
  have cl: "cl \<noteq> NaN" "Fin (- 5) \<le> cl"
    using fl_plus_not_NaN raw(1) fl_le_trans [of "Fin (- 5)" "Fin l"] reserve_keeps(1) [OF raw(1) _ raw(2) lu(6)] lu
    by (auto simp: cl_def tracking_reserve)
  have cu: "cu \<noteq> NaN" "cu \<le> Fin 5"
    using fl_minus_not_NaN raw(3) fl_le_trans [of _ "Fin u" "Fin 5"] reserve_keeps(2) [OF raw(3) _ raw(4) lu(7)] lu
    by (auto simp: cu_def tracking_reserve)
  obtain t where t: "POSITION_TARGET_RESERVE_RAD = Fin t"
    using between_rnd64 [of 0 "60 / 1000" 1] by (auto simp: POSITION_TARGET_RESERVE_RAD_def between_def)
  have "bt \<noteq> NaN" unfolding bt_def t using target raw by (intro np_clip_not_NaN fl_plus_not_NaN fl_minus_not_NaN)
  then have desired: "desired \<noteq> NaN" unfolding desired_def by (rule desired_not_NaN)
  have unfolded: "(if snd b + rnd64 (1 / 10 ^ 12) < fst b then Inl (v94_no_command i (Fin q) (Fin d) (Fin e) (fst b) (snd b))
      else let v = Fin d + a * SERVO_DT_S; x = Fin q + v * SERVO_DT_S; v' = fl_over (x - Fin q) SERVO_DT_S;
        a' = fl_over (v' - Fin d) SERVO_DT_S; j = fl_over (a' - Fin e) SERVO_DT_S
      in if MAX_COMMAND_VELOCITY_RAD_S + rnd64 (1 / 10 ^ 5) < fl_abs v' \<or>
            MAX_COMMAND_ACCELERATION_v94 + rnd64 (1 / 10 ^ 5) < fl_abs a' \<or>
            MAX_COMMAND_JERK_v94 + rnd64 (1 / 10 ^ 5) < fl_abs j
         then Inl (Exn RuntimeError ''reference shaper left derivative envelope'') else Inr (x, v', a')) = Inr (pos, dq, ddq)"
    using axis unfolding v94_axis_def Let_def lu rl_def [symmetric] ru_def [symmetric] cl_def [symmetric] cu_def [symmetric]
      bt_def [symmetric] desired_def [symmetric] b_def [symmetric]
    by (cases b) (auto simp: a_def c_def split: if_splits)
  then have ok: "\<not> snd b + Fin (4951760157141521 / 4951760157141521099596496896) < fst b" using shaper_constants(8) by (auto split: if_splits)
  have pos: "pos = Fin q + (Fin d + a * SERVO_DT_S) * SERVO_DT_S"
    and dq: "dq = fl_over (pos - Fin q) SERVO_DT_S" and ddq: "ddq = fl_over (dq - Fin d) SERVO_DT_S"
    and guard: "\<not> MAX_COMMAND_VELOCITY_RAD_S + rnd64 (1 / 10 ^ 5) < fl_abs dq"
      "\<not> MAX_COMMAND_ACCELERATION_v94 + rnd64 (1 / 10 ^ 5) < fl_abs ddq"
    using unfolded by (auto simp: Let_def split: if_splits)
  obtain p c1 c2 where p: "Fin q + (Fin d + a * SERVO_DT_S) * SERVO_DT_S = Fin p" "cl = Fin c1" "cu = Fin c2"
    "c1 - 1 / 10000000000 \<le> p" "p \<le> c2 + 1 / 10000000000" "- 5 \<le> c1" "c1 \<le> 7" "- 7 \<le> c2" "c2 \<le> 5"
    using packet_inside [where q = q and d = d and e = e and cl = cl and cu = cu and desired = desired, OF d cl cu desired]
      ok unfolding a_def c_def b_def by blast
  note low = lower_limit [OF p(2) [unfolded cl_def rl_def] p(7) lu(3)]
    and high = upper_limit [OF p(3) [unfolded cu_def ru_def] p(8) lu(5)]
  have "pos \<noteq> NaN" using p(1) by (simp only: pos) simp
  then have "dq \<noteq> NaN" unfolding dq servo_dt by (intro fl_over_not_NaN fl_minus_not_NaN)
  moreover from this have "ddq \<noteq> NaN" unfolding ddq servo_dt by (intro fl_over_not_NaN fl_minus_not_NaN)
  ultimately have env: "packet_envelope dq ddq"
    unfolding packet_envelope_def using fl_not_above envelope_limits guard by blast
  have "\<bar>p - s\<bar> \<le> 121 / 100 - 1 / 100 + 1 / 1000000000"
    using low(2) high(2) p(4,5) by linarith
  moreover have "l + 1 / 100 - 1 / 1000000000 \<le> p" using low(1) p(4) by linarith
  moreover have "p \<le> u - 1 / 100 + 1 / 1000000000" using high(1) p(5) by linarith
  moreover have "to_f64 pos = pos" "to_f64 dq = dq" "to_f64 ddq = ddq"
    unfolding dq ddq servo_dt pos by (rule to_f64_plus to_f64_over)+
  ultimately show ?thesis using env lu(1,2) pos p(1) by simp
qed

section \<open>Every run\<close>

definition new_shaper :: "fl list \<Rightarrow> command_shaper \<Rightarrow> bool" where
  "new_shaper start c = (\<exists>dq ddq. make_command_shaper (Vec start) dq ddq = Inr c)"

definition shaper_steps :: "command_shaper \<Rightarrow> command_shaper \<Rightarrow> bool" where
  "shaper_steps c c' = (\<exists>held. c' = snd (command_shaper_step held c))"

definition vector64 :: "fl list \<Rightarrow> bool" where
  "vector64 xs = (length xs = 7 \<and> (\<forall>i < 7. \<exists>x. xs ! i = Fin x \<and> rep64 x))"

definition shaper_inv :: "fl list \<Rightarrow> command_shaper \<Rightarrow> bool" where
  "shaper_inv start c =
     (cs_start_q_rad c = map to_f64 start \<and> vector64 (cs_start_q_rad c) \<and> vector64 (v94_q_rad (cs_state c)) \<and>
      vector64 (v94_dq_rad_s (cs_state c)) \<and> vector64 (v94_ddq_rad_s2 (cs_state c)))"

lemma vector64_nth:
  assumes "vector64 xs" "i < 7"
  obtains x where "xs ! i = Fin x" "rep64 x"
  using assms by (auto simp: vector64_def)

lemma vector7_vector64: "vector7 to_f64 v name = Inr xs \<Longrightarrow> vector64 xs"
  using vector7_f64_nth [of v name xs] unfolding vector64_def by (metis zero_less_numeral)

lemma vector7_Vec: "vector7 to_f64 (Vec ys) name = Inr xs \<Longrightarrow> xs = map to_f64 ys"
  by (auto simp: vector7_def Let_def split: if_splits)

lemma make_command_state_inv:
  "make_command_state q dq ddq = Inr st \<Longrightarrow>
    vector64 (v94_q_rad st) \<and> vector64 (v94_dq_rad_s st) \<and> vector64 (v94_ddq_rad_s2 st)"
  by (auto simp: make_command_state_def res_bind_Inr_iff dest: vector7_vector64)

lemma packet_inv_init: "new_shaper start c \<Longrightarrow> shaper_inv start c"
  using make_command_state_inv vector7_vector64 vector7_Vec
  by (auto simp: new_shaper_def shaper_inv_def make_command_shaper_def res_bind_Inr_iff Let_def)

lemma command_shaper_step_Inr:
  assumes "fst (command_shaper_step held c) = Inr st"
  obtains target axes where "vector7 to_f64 held ''held_target_q_rad'' = Inr target"
    "res_map (\<lambda>i. v94_axis i (cs_start_q_rad c ! i) (target ! i) (v94_q_rad (cs_state c) ! i)
       (v94_dq_rad_s (cs_state c) ! i) (v94_ddq_rad_s2 (cs_state c) ! i)) [0..<7] = Inr axes"
    "make_command_state (Vec (map fst axes)) (Vec (map (fst \<circ> snd) axes)) (Vec (map (snd \<circ> snd) axes)) = Inr st"
    "snd (command_shaper_step held c) = c\<lparr>cs_state := st\<rparr>"
  using assms that
  by (auto simp: command_shaper_step_def Let_def split: sum.splits) (auto simp: res_bind_Inr_iff)

lemma command_shaper_step_Inl: "fst (command_shaper_step held c) = Inl e \<Longrightarrow> snd (command_shaper_step held c) = c"
  by (auto simp: command_shaper_step_def split: sum.splits)

lemma packet_inv_step: "shaper_steps c c' \<Longrightarrow> shaper_inv start c \<Longrightarrow> shaper_inv start c'"
proof -
  assume "shaper_steps c c'" and inv: "shaper_inv start c"
  then obtain held where c': "c' = snd (command_shaper_step held c)" by (auto simp: shaper_steps_def)
  show ?thesis
  proof (cases "fst (command_shaper_step held c)")
    case (Inl e)
    then show ?thesis using inv command_shaper_step_Inl c' by metis
  next
    case (Inr st)
    then obtain q dq ddq where "make_command_state q dq ddq = Inr st" "c' = c\<lparr>cs_state := st\<rparr>"
      using c' by (metis command_shaper_step_Inr)
    then show ?thesis using inv make_command_state_inv by (auto simp: shaper_inv_def)
  qed
qed

interpretation shaper_runs: invariant_system "new_shaper start" shaper_steps "shaper_inv start"
  by unfold_locales (auto intro: packet_inv_init packet_inv_step)

text \<open>C38. Whatever targets a run of the reference shaper is given, a packet it returns puts every axis
  inside its joint limits by the tracking reserve of 0.01 rad and inside the episode window of
  1.21 rad around the start by the same reserve, up to 1e-9 rad, with velocity and acceleration
  inside their limits plus the tolerance of 1e-5. No start and no state is excluded: a start
  outside the limits gets no packet.\<close>

theorem shaper_packet_inside_limits:
  assumes "reach (new_shaper start) shaper_steps c" and "fst (command_shaper_step held c) = Inr st" and "i < 7"
  shows "\<exists>p s l u. v94_q_rad st ! i = Fin p \<and> to_f64 (start ! i) = Fin s \<and>
    SAFE_JOINT_LOWER_RAD ! i = Fin l \<and> SAFE_JOINT_UPPER_RAD ! i = Fin u \<and>
    l + 1 / 100 - 1 / 1000000000 \<le> p \<and> p \<le> u - 1 / 100 + 1 / 1000000000 \<and>
    \<bar>p - s\<bar> \<le> 121 / 100 - 1 / 100 + 1 / 1000000000 \<and>
    packet_envelope (v94_dq_rad_s st ! i) (v94_ddq_rad_s2 st ! i)"
proof -
  have inv: "shaper_inv start c" by (rule shaper_runs.reach_inv [OF assms(1)])
  obtain target axes where target: "vector7 to_f64 held ''held_target_q_rad'' = Inr target"
    and axes: "res_map (\<lambda>i. v94_axis i (cs_start_q_rad c ! i) (target ! i) (v94_q_rad (cs_state c) ! i)
       (v94_dq_rad_s (cs_state c) ! i) (v94_ddq_rad_s2 (cs_state c) ! i)) [0..<7] = Inr axes"
    and st: "make_command_state (Vec (map fst axes)) (Vec (map (fst \<circ> snd) axes)) (Vec (map (snd \<circ> snd) axes)) = Inr st"
    and "snd (command_shaper_step held c) = c\<lparr>cs_state := st\<rparr>"
    by (rule command_shaper_step_Inr [OF assms(2)])
  have len: "length axes = 7" using res_map_length [OF axes] by simp
  obtain pos dq ddq where ax: "axes ! i = (pos, dq, ddq)" by (metis prod.exhaust)
  have all: "list_all2 (\<lambda>i y. v94_axis i (cs_start_q_rad c ! i) (target ! i) (v94_q_rad (cs_state c) ! i)
       (v94_dq_rad_s (cs_state c) ! i) (v94_ddq_rad_s2 (cs_state c) ! i) = Inr y) [0..<7] axes"
    using axes by (simp add: res_map_Inr_iff)
  have axis: "v94_axis i (cs_start_q_rad c ! i) (target ! i) (v94_q_rad (cs_state c) ! i)
      (v94_dq_rad_s (cs_state c) ! i) (v94_ddq_rad_s2 (cs_state c) ! i) = Inr (pos, dq, ddq)"
    using list_all2_nthD2 [OF all, of i] assms(3) len ax by simp
  obtain s q d e where v: "cs_start_q_rad c ! i = Fin s" "v94_q_rad (cs_state c) ! i = Fin q"
    "v94_dq_rad_s (cs_state c) ! i = Fin d" "v94_ddq_rad_s2 (cs_state c) ! i = Fin e" "rep64 d"
    using inv assms(3) unfolding shaper_inv_def by (metis vector64_nth)
  have "target ! i \<noteq> NaN" using vector7_f64_nth(2) [OF target assms(3)] by auto
  note inside = v94_axis_inside [OF axis [unfolded v] assms(3) v(5) this]
  then obtain p l u where out: "pos = Fin p" "SAFE_JOINT_LOWER_RAD ! i = Fin l" "SAFE_JOINT_UPPER_RAD ! i = Fin u"
    "l + 1 / 100 - 1 / 1000000000 \<le> p" "p \<le> u - 1 / 100 + 1 / 1000000000"
    "\<bar>p - s\<bar> \<le> 121 / 100 - 1 / 100 + 1 / 1000000000" "packet_envelope dq ddq" by blast
  have same: "to_f64 pos = pos" "to_f64 dq = dq" "to_f64 ddq = ddq" using inside by blast+
  have "v94_q_rad st = map to_f64 (map fst axes)" "v94_dq_rad_s st = map to_f64 (map (fst \<circ> snd) axes)"
    "v94_ddq_rad_s2 st = map to_f64 (map (snd \<circ> snd) axes)"
    using st by (auto simp: make_command_state_def res_bind_Inr_iff dest!: vector7_Vec)
  then have "v94_q_rad st ! i = pos" "v94_dq_rad_s st ! i = dq" "v94_ddq_rad_s2 st ! i = ddq"
    using len assms(3) ax same by simp_all
  moreover have "to_f64 (start ! i) = Fin s"
    using inv v(1) assms(3) by (auto simp: shaper_inv_def vector64_def)
  ultimately show ?thesis using out by blast
qed

section \<open>Holding the start\<close>

text \<open>
  With the target at the start, inside the limits by the target reserve, and at rest, the
  interval contains zero, so the packet is the start itself.
\<close>

definition spans_zero :: "fl \<times> fl \<Rightarrow> bool" where
  "spans_zero b = (fst b \<noteq> NaN \<and> snd b \<noteq> NaN \<and> fst b \<le> Fin 0 \<and> Fin 0 \<le> snd b)"

lemma spans_zero_step:
  "spans_zero b \<Longrightarrow> x \<le> Fin 0 \<Longrightarrow> Fin 0 \<le> y \<Longrightarrow> spans_zero (fl_max (fst b) x, fl_min (snd b) y)"
  by (auto simp: spans_zero_def fl_max_def fl_min_def less_eq_fl_def)

lemma over_sign: "0 < k \<Longrightarrow> x \<le> Fin 0 \<Longrightarrow> fl_over x (Fin k) \<le> Fin 0"
  "0 < k \<Longrightarrow> Fin 0 \<le> x \<Longrightarrow> Fin 0 \<le> fl_over x (Fin k)"
  using over_le [of x 0 k 0] over_ge [of 0 x k 0] by simp_all

lemma between_times:
  assumes "between a b v" "between c d w" "0 \<le> a" "0 \<le> c" "e \<le> a * c" "b * d \<le> f" "rep64 e" "rep64 f"
  shows "between e f (v * w)"
proof -
  obtain x y where xy: "v = Fin x" "w = Fin y" "a \<le> x" "x \<le> b" "c \<le> y" "y \<le> d"
    using assms(1,2) by (elim betweenE)
  then have "a * c \<le> x * y" "x * y \<le> b * d" using assms(3,4) by (auto intro: mult_mono)
  then show ?thesis using xy assms between_rnd64 [of e "x * y" f] by (simp add: times_fl_def)
qed

lemma rep64_powers: "rep64 (1 / 8388608)" "rep64 (1 / 2097152)" "rep64 (1 / 2048)"
  using rep64_scaled [of 1 "-23"] rep64_scaled [of 1 "-21"] rep64_scaled [of 1 "-11"] by (simp_all add: power_int_minus)

lemma between_Fin: "a \<le> x \<Longrightarrow> x \<le> b \<Longrightarrow> rep64 x \<Longrightarrow> between a b (Fin x)"
  by (simp add: between_def)

lemma servo_between: "between (1 / 2048) 1 SERVO_DT_S"
  unfolding SERVO_DT_S_def by (rule between_rnd64) (simp_all add: rep64_powers)

lemma servo_squared_between: "between (1 / 2097152) 1 (SERVO_DT_S * SERVO_DT_S)"
  unfolding servo_dt times_fl_def fl_mul_with.simps by (rule between_rnd64) (simp_all add: rep64_powers)

lemma packet_coefficients:
  assumes "1 \<le> n" "n \<le> 21"
  defines "N \<equiv> Fin (of_nat n)"
  defines "C \<equiv> Fin (1 / 2) * N * (N + Fin 1) * (SERVO_DT_S * SERVO_DT_S)"
  shows "between (1 / 8388608) 1024 C" "between (1 / 2048) 2048 (N * SERVO_DT_S + Fin 1 * C)"
    "between 1 4096 (Fin 1 + Fin 1 * Fin 1 * C + (Fin 1 + Fin 1) * N * SERVO_DT_S)"
    "between 1 64 (Fin 1 + Fin 1 * N * SERVO_DT_S)"
proof -
  have int_n: "rep64 (of_nat n)" using rep64_int [of "int n"] assms(2) by simp
  have N: "between 1 21 N" using assms int_n by (auto intro!: between_Fin simp: N_def)
  have half: "between (1 / 2) (1 / 2) (Fin (1 / 2))" and one: "between 1 1 (Fin 1)" and two: "between 2 2 (Fin 2)"
    by (intro between_Fin; simp)+
  have "between (1 / 2) 21 (Fin (1 / 2) * N)" by (rule between_times [OF half N]) simp_all
  moreover have "between 1 32 (N + Fin 1)" by (rule between_plus [OF N one]) simp_all
  ultimately have "between (1 / 2) 1024 (Fin (1 / 2) * N * (N + Fin 1))" by (rule between_times) simp_all
  then show C: "between (1 / 8388608) 1024 C"
    unfolding C_def using servo_squared_between by (rule between_times) (simp_all add: rep64_powers)
  have C1: "between (1 / 8388608) 1024 (Fin 1 * C)" by (rule between_times [OF one C]) (simp_all add: rep64_powers)
  have Nt: "between (1 / 2048) 32 (N * SERVO_DT_S)"
    by (rule between_times [OF N servo_between]) (simp_all add: rep64_powers)
  show "between (1 / 2048) 2048 (N * SERVO_DT_S + Fin 1 * C)"
    by (rule between_plus [OF Nt C1]) (simp_all add: rep64_powers)
  have a: "between 1 2048 (Fin 1 + Fin 1 * C)" by (rule between_plus [OF one C1]) simp_all
  have "between 1 64 (Fin 2 * N)" by (rule between_times [OF two N]) simp_all
  then have b: "between (1 / 2048) 64 (Fin 2 * N * SERVO_DT_S)"
    using servo_between by (rule between_times) (simp_all add: rep64_powers)
  have "between 1 4096 (Fin 1 + Fin 1 * C + Fin 2 * N * SERVO_DT_S)"
    by (rule between_plus [OF a b]) simp_all
  then show "between 1 4096 (Fin 1 + Fin 1 * Fin 1 * C + (Fin 1 + Fin 1) * N * SERVO_DT_S)"
    using rnd64_rep [of 1] by (simp add: shaper_constants times_fl_def [of "Fin 1" "Fin 1"])
  have "between 1 21 (Fin 1 * N)" by (rule between_times [OF one N]) simp_all
  then have "between (1 / 2048) 32 (Fin 1 * N * SERVO_DT_S)"
    using servo_between by (rule between_times) (simp_all add: rep64_powers)
  then show "between 1 64 (Fin 1 + Fin 1 * N * SERVO_DT_S)" by (rule between_plus [OF one]) simp_all
qed

lemma zero_times: "between a b v \<Longrightarrow> Fin 0 * v = Fin 0" "between a b v \<Longrightarrow> v * Fin 0 = Fin 0"
  using rnd64_rep [of 0] by (auto simp: between_def times_fl_def)

lemma packet_spans_zero:
  assumes n: "1 \<le> n" "n \<le> 21" and q: "rep64 q" "- 8 \<le> q" "q \<le> 8"
    and c: "- 8 \<le> c1" "c1 \<le> q" "q \<le> c2" "c2 \<le> 8" and b: "spans_zero b"
  shows "spans_zero (v94_packet_bounds (Fin q) (Fin 0) (Fin c1) (Fin c2) b n)"
proof -
  define N where "N = Fin (of_nat n)"
  define C where "C = Fin (1 / 2) * N * (N + Fin 1) * (SERVO_DT_S * SERVO_DT_S)"
  note coefficients = packet_coefficients [OF n, folded N_def, folded C_def]
  obtain k where k: "C = Fin k" "0 < k" using coefficients(1) by (auto simp: between_def)
  obtain m where m: "N * SERVO_DT_S + Fin 1 * C = Fin m" "0 < m" using coefficients(2) by (auto simp: between_def)
  obtain r where r: "Fin 1 + Fin 1 * Fin 1 * C + (Fin 1 + Fin 1) * N * SERVO_DT_S = Fin r" "0 < r"
    using coefficients(3) by (auto simp: between_def)
  have drift: "Fin 0 * (Fin 1 + Fin 1 * N * SERVO_DT_S) = Fin 0" by (rule zero_times(1) [OF coefficients(4)])
  have zeros: "N * Fin 0 * SERVO_DT_S = Fin 0" "(Fin 1 + Fin 1) * Fin 0 = Fin 0" "Fin q + Fin 0 = Fin q"
    using rnd64_rep [of 0] rnd64_rep [of 2] rnd64_rep [OF q(1)]
    by (simp_all add: N_def times_fl_def servo_dt shaper_constants plus_fl_def)
  have "between 0 16 (rnd64 (q - c1))" "between 0 16 (rnd64 (c2 - q))"
    using q c by (intro between_rnd64; simp)+
  then obtain g h where g: "rnd64 (q - c1) = Fin g" "0 \<le> g" "rep64 g" and h: "rnd64 (c2 - q) = Fin h" "0 \<le> h" "rep64 h"
    by (elim betweenE)
  have negs: "rnd64 (- g) = Fin (- g)" by (intro rnd64_rep representable_minus g(3))
  have diffs: "Fin q - Fin c1 = Fin g" "Fin c2 - Fin q = Fin h" by (simp_all add: minus_fl_def g h)
  have "fl_neg (rnd64 (q - c1)) = rnd64 (c1 - q)" by (simp add: fl_neg_rnd64 [symmetric])
  then have mirror: "Fin c1 - Fin q = Fin (- g)" by (simp add: minus_fl_def g(1))
  have products: "Fin 1 * Fin g = Fin g" "Fin 1 * Fin h = Fin h" "Fin (- 1) * Fin g = Fin (- g)"
    "Fin g + Fin 0 = Fin g" "Fin h - Fin 0 = Fin h" "Fin (- g) - Fin 0 = Fin (- g)" "- (Fin 1 * Fin 1) = Fin (- 1)"
    "Fin 1 * Fin 1 = Fin 1"
    using rnd64_rep [OF g(3)] rnd64_rep [OF h(3)] negs rnd64_rep [of 1]
    by (simp_all add: times_fl_def plus_fl_def minus_fl_def)
  have b': "v94_packet_bounds (Fin q) (Fin 0) (Fin c1) (Fin c2) b n =
      (fl_max (fl_max (fl_max (fst b) (fl_over (Fin (- g)) (Fin k))) (fl_over (Fin (- g)) (Fin m))) (fl_over (Fin (- g)) (Fin r)),
       fl_min (fl_min (fl_min (snd b) (fl_over (Fin h) (Fin k))) (fl_over (Fin h) (Fin m))) (fl_over (Fin h) (Fin r)))"
    unfolding v94_packet_bounds_def Let_def split_beta N_def [symmetric] C_def [symmetric]
      POSITION_BARRIER_GAIN_PER_S_def POSITION_ACCELERATION_BARRIER_GAIN_PER_S_def
      k(1) drift zeros diffs mirror products fl_neg_Fin m(1) [unfolded k(1)] r(1) [unfolded k(1) products(8)] by simp
  note signs = over_sign(1) [of _ "Fin (- g)"] over_sign(2) [of _ "Fin h"]
  have "spans_zero (fl_max (fst b) (fl_over (Fin (- g)) (Fin k)), fl_min (snd b) (fl_over (Fin h) (Fin k)))"
    using signs k g h by (intro spans_zero_step b) auto
  from spans_zero_step [OF this, of "fl_over (Fin (- g)) (Fin m)" "fl_over (Fin h) (Fin m)"] signs m g h
  have "spans_zero (fl_max (fl_max (fst b) (fl_over (Fin (- g)) (Fin k))) (fl_over (Fin (- g)) (Fin m)),
      fl_min (fl_min (snd b) (fl_over (Fin h) (Fin k))) (fl_over (Fin h) (Fin m)))" by auto
  from spans_zero_step [OF this, of "fl_over (Fin (- g)) (Fin r)" "fl_over (Fin h) (Fin r)"] signs r g h
  show ?thesis unfolding b' by auto
qed

lemma rnd64_zero [simp]: "rnd64 0 = Fin 0"
  by (rule rnd64_rep) simp

lemma bounds_span_zero:
  assumes q: "rep64 q" "- 8 \<le> q" "q \<le> 8" and c: "- 8 \<le> c1" "c1 \<le> q" "q \<le> c2" "c2 \<le> 8"
  shows "spans_zero (v94_acceleration_bounds (Fin q) (Fin 0) (Fin 0) (Fin c1) (Fin c2))"
proof -
  have step: "spans_zero (foldl (v94_packet_bounds (Fin q) (Fin 0) (Fin c1) (Fin c2)) b ns)"
    if "spans_zero b" "list_all (\<lambda>n. 1 \<le> n \<and> n \<le> 21) ns" for b ns
    using that
  proof (induction ns arbitrary: b)
    case (Cons n ns)
    then show ?case using packet_spans_zero [OF _ _ q c Cons.prems(1), of n] by simp
  qed simp
  define b0 where "b0 = (fl_max (- MAX_COMMAND_ACCELERATION_v94) (Fin 0 - MAX_COMMAND_JERK_v94 * SERVO_DT_S),
      fl_min MAX_COMMAND_ACCELERATION_v94 (Fin 0 + MAX_COMMAND_JERK_v94 * SERVO_DT_S))"
  define b1 where "b1 = foldl (v94_packet_bounds (Fin q) (Fin 0) (Fin c1) (Fin c2)) b0
      [1..<MAX_UNCONTROLLED_CONTINUATION_PACKETS + 2]"
  have "between 0 1 (MAX_COMMAND_JERK_v94 * SERVO_DT_S)"
    unfolding MAX_COMMAND_JERK_v94_def servo_dt times_fl_def fl_mul_with.simps by (rule between_rnd64) simp_all
  then obtain j where j: "MAX_COMMAND_JERK_v94 * SERVO_DT_S = Fin j" "0 \<le> j" "rep64 j" by (elim betweenE)
  have "spans_zero (Fin (- 4), Fin 4)" by (simp add: spans_zero_def)
  from spans_zero_step [OF this, of "Fin (- j)" "Fin j"] have "spans_zero b0"
    using j rnd64_rep [OF j(3)] rnd64_rep [OF representable_minus [OF j(3)]]
    by (simp add: b0_def MAX_COMMAND_ACCELERATION_v94_def minus_fl_def plus_fl_def)
  moreover have "list_all (\<lambda>n. 1 \<le> n \<and> n \<le> 21) [1..<MAX_UNCONTROLLED_CONTINUATION_PACKETS + 2]"
    by (simp add: MAX_UNCONTROLLED_CONTINUATION_PACKETS_def list_all_iff)
  ultimately have "spans_zero b1" unfolding b1_def by (rule step)
  moreover have "velocity_low (Fin 0) \<le> Fin 0" "Fin 0 \<le> velocity_high (Fin 0)"
    using rnd64_rep [of "1 / 2"] rnd64_rep [of "- (1 / 2)"]
    by (simp_all add: velocity_low_def velocity_high_def minus_fl_def times_fl_def rnd64_le rnd64_ge)
  ultimately have "spans_zero (fl_max (fst b1) (velocity_low (Fin 0)), fl_min (snd b1) (velocity_high (Fin 0)))"
    by (rule spans_zero_step)
  then show ?thesis
    unfolding v94_acceleration_bounds_def Let_def velocity_low_def velocity_high_def b1_def b0_def
      MAX_COMMAND_VELOCITY_RAD_S_def VELOCITY_BARRIER_GAIN_PER_S_def shaper_constants
    by (simp add: split_beta)
qed

lemma limits_around:
  assumes s: "rep64 s" "l + 1 / 8 \<le> s" "s \<le> u - 1 / 8" and lu: "- 5 \<le> l" "u \<le> 5" and x: "0 \<le> x" "x \<le> 1 / 10"
  shows "\<exists>c. raw_position_lower (Fin l) (Fin s) + Fin x = Fin c \<and> - 8 \<le> c \<and> c \<le> s"
    "\<exists>c. raw_position_upper (Fin u) (Fin s) - Fin x = Fin c \<and> s \<le> c \<and> c \<le> 8"
proof -
  have s5: "- 5 \<le> s" "s \<le> 5" using s lu by linarith+
  have "rep64 (9 / 8)" using rep64_scaled [of 9 "-3"] by (simp add: power_int_minus)
  have "between (- 7) 6 (rnd64 (s - 1362338887279575 / 1125899906842624))" "between (- 6) 7 (rnd64 (s + 1362338887279575 / 1125899906842624))"
    using s5 by (intro between_rnd64; simp)+
  then obtain g h where g: "rnd64 (s - 1362338887279575 / 1125899906842624) = Fin g" "- 7 \<le> g" and h: "rnd64 (s + 1362338887279575 / 1125899906842624) = Fin h" "h \<le> 7"
    by (elim betweenE)
  have "\<bar>g - (s - 1362338887279575 / 1125899906842624)\<bar> \<le> 1 / 10000000000000" "\<bar>h - (s + 1362338887279575 / 1125899906842624)\<bar> \<le> 1 / 10000000000000"
    using s5 by (intro rnd64_close [OF g(1)] rnd64_close [OF h(1)]; simp add: abs_le_iff)+
  then have gh: "g \<le> s - 1" "s + 1 \<le> h" by linarith+
  have "raw_position_lower (Fin l) (Fin s) = Fin (max l g)" "raw_position_upper (Fin u) (Fin s) = Fin (min u h)"
    by (auto simp: raw_position_lower_def raw_position_upper_def shaper_constants minus_fl_def plus_fl_def g(1) h(1)
        fl_max_def fl_min_def)
  moreover have "between (- 8) s (rnd64 (max l g + x))"
    using gh(1) g(2) s x by (intro between_rnd64) auto
  moreover have "between s 8 (rnd64 (min u h - x))"
    using gh(2) h(2) s x by (intro between_rnd64) auto
  ultimately show "\<exists>c. raw_position_lower (Fin l) (Fin s) + Fin x = Fin c \<and> - 8 \<le> c \<and> c \<le> s"
    "\<exists>c. raw_position_upper (Fin u) (Fin s) - Fin x = Fin c \<and> s \<le> c \<and> c \<le> 8"
    by (auto simp: between_def plus_fl_def minus_fl_def)
qed

lemma desired_hold: "rep64 s \<Longrightarrow> v94_desired_acceleration (Fin s) (Fin s) (Fin 0) = Fin 0"
  using rnd64_rep [of 8]
  by (simp add: v94_desired_acceleration_def Let_def minus_fl_def times_fl_def MAX_COMMAND_ACCELERATION_v94_def
      MAX_COMMAND_VELOCITY_RAD_S_def fl_min_def fl_copysign_def servo_dt)

lemma margin_not_negative:
  assumes "0 \<le> m"
  shows "\<not> Fin m + rnd64 (1 / 10 ^ 5) < Fin 0"
proof -
  have "between 0 1 (rnd64 (1 / 10 ^ 5))" by (rule between_rnd64) simp_all
  then obtain y where "rnd64 (1 / 10 ^ 5) = Fin y" "0 \<le> y" by (elim betweenE)
  then have "Fin 0 \<le> Fin m + rnd64 (1 / 10 ^ 5)" using assms by (simp add: plus_fl_def rnd64_ge)
  then show ?thesis using fl_less_le_not by blast
qed

lemma hold_axis:
  assumes i: "i < 7" and s: "rep64 s"
    and limits: "SAFE_JOINT_LOWER_RAD ! i = Fin l" "SAFE_JOINT_UPPER_RAD ! i = Fin u" "l + 1 / 8 \<le> s" "s \<le> u - 1 / 8"
  shows "v94_axis i (Fin s) (Fin s) (Fin s) (Fin 0) (Fin 0) = Inr (Fin s, Fin 0, Fin 0)"
proof -
  have lu: "- 5 \<le> l" "u \<le> 5" using safe_limit_between [OF i] limits by auto
  have s8: "- 8 \<le> s" "s \<le> 8" using lu limits by linarith+
  obtain t where t: "POSITION_TARGET_RESERVE_RAD = Fin t" "0 \<le> t" "t \<le> 1 / 10"
  proof -
    have "rep64 (1 / 16)" using rep64_scaled [of 1 "-4"] by (simp add: power_int_minus)
    then have "between 0 (1 / 16) POSITION_TARGET_RESERVE_RAD"
      unfolding POSITION_TARGET_RESERVE_RAD_def by (intro between_rnd64) auto
    then show ?thesis using that by (auto simp: between_def)
  qed
  obtain c1 c2 where c: "raw_position_lower (Fin l) (Fin s) + POSITION_TRACKING_RESERVE_RAD = Fin c1"
    "raw_position_upper (Fin u) (Fin s) - POSITION_TRACKING_RESERVE_RAD = Fin c2" "- 8 \<le> c1" "c1 \<le> s" "s \<le> c2" "c2 \<le> 8"
    using limits_around [OF s limits(3,4) lu, of "5764607523034235 / 576460752303423488"] unfolding tracking_reserve by auto
  obtain t1 t2 where "raw_position_lower (Fin l) (Fin s) + POSITION_TARGET_RESERVE_RAD = Fin t1"
    "raw_position_upper (Fin u) (Fin s) - POSITION_TARGET_RESERVE_RAD = Fin t2" "t1 \<le> s" "s \<le> t2"
    using limits_around [OF s limits(3,4) lu t(2,3)] unfolding t(1) by auto
  then have target: "np_clip (Fin s) (raw_position_lower (Fin l) (Fin s) + POSITION_TARGET_RESERVE_RAD)
      (raw_position_upper (Fin u) (Fin s) - POSITION_TARGET_RESERVE_RAD) = Fin s" by simp
  define b where "b = v94_acceleration_bounds (Fin s) (Fin 0) (Fin 0) (Fin c1) (Fin c2)"
  have zero: "spans_zero b" unfolding b_def by (rule bounds_span_zero [OF s s8 c(3-6)])
  have order: "\<not> snd b < fst b" "np_clip (Fin 0) (fst b) (snd b) = Fin 0"
    using zero np_clip_inside by (auto simp: spans_zero_def dest: fl_le_trans fl_less_le_not)
  have "Fin 0 \<le> snd b + rnd64 (1 / 10 ^ 12)"
    using zero rnd64_ge [of 0] unfolding shaper_constants
    by (cases "snd b") (auto simp: spans_zero_def plus_fl_def less_eq_fl_def [of _ PInf] less_eq_fl_def [of _ NInf])
  then have gap: "\<not> snd b + rnd64 (1 / 10 ^ 12) < fst b"
    using zero by (auto simp: spans_zero_def dest: fl_le_trans fl_less_le_not)
  have moves: "Fin 0 + Fin 0 * SERVO_DT_S = Fin 0" "Fin s + Fin 0 * SERVO_DT_S = Fin s" "Fin s - Fin s = Fin 0"
    "Fin 0 - Fin 0 = Fin 0" "fl_over (Fin 0) SERVO_DT_S = Fin 0"
    using rnd64_rep [OF s] by (simp_all add: plus_fl_def minus_fl_def times_fl_def servo_dt)
  have margins: "\<not> MAX_COMMAND_VELOCITY_RAD_S + rnd64 (1 / 10 ^ 5) < Fin 0"
    "\<not> MAX_COMMAND_ACCELERATION_v94 + rnd64 (1 / 10 ^ 5) < Fin 0" "\<not> MAX_COMMAND_JERK_v94 + rnd64 (1 / 10 ^ 5) < Fin 0"
    unfolding MAX_COMMAND_VELOCITY_RAD_S_def MAX_COMMAND_ACCELERATION_v94_def MAX_COMMAND_JERK_v94_def
    by (rule margin_not_negative; simp)+
  show ?thesis
    unfolding v94_axis_def Let_def limits c(1,2) target desired_hold [OF s] b_def [symmetric]
    using order gap margins by (cases b) (simp add: moves)
qed

definition hold_start :: "fl list" where
  "hold_start = map Fin [0, 0, 0, - 1, 0, 1, 0]"

lemma hold_start_axis:
  assumes i: "i < 7"
  shows "v94_axis i (hold_start ! i) (hold_start ! i) (hold_start ! i) (Fin 0) (Fin 0) = Inr (hold_start ! i, Fin 0, Fin 0)"
proof -
  obtain l u where lu: "SAFE_JOINT_LOWER_RAD ! i = Fin l" "SAFE_JOINT_UPPER_RAD ! i = Fin u"
    by (rule safe_limit_between [OF i])
  have "i = 0 \<or> i = 1 \<or> i = 2 \<or> i = 3 \<or> i = 4 \<or> i = 5 \<or> i = 6" using i by linarith
  then have "\<exists>r. hold_start ! i = Fin r \<and> rep64 r \<and> l + 1 / 8 \<le> r \<and> r \<le> u - 1 / 8"
    using lu by (elim disjE) (auto simp: hold_start_def safe_limit_table)
  then obtain r where r: "hold_start ! i = Fin r" "rep64 r" "l + 1 / 8 \<le> r" "r \<le> u - 1 / 8" by blast
  show ?thesis unfolding r(1) by (rule hold_axis [OF i r(2) lu r(3,4)])
qed

theorem shaper_packet_inside_limits_witness:
  "\<exists>c st p. make_command_shaper (Vec hold_start) None None = Inr c \<and>
     fst (command_shaper_step (Vec hold_start) c) = Inr st \<and> v94_q_rad st ! 3 = Fin p \<and>
     p \<le> - 2018 / 10000 - 1 / 100 + 1 / 100000000"
proof -
  have "map to_f64 hold_start = hold_start" "list_all is_finite hold_start" "length hold_start = 7"
    and zero: "to_f64 (Fin 0) = Fin 0"
    using rnd64_rep [of "- 1"] rnd64_rep [of 1] by (simp_all add: hold_start_def to_f64_def)
  then have v: "vector7 to_f64 (Vec hold_start) name = Inr hold_start" for name
    by (simp add: vector7_def Let_def)
  have v0: "vector7 to_f64 (Vec (replicate 7 (Fin 0))) name = Inr (replicate 7 (Fin 0))" for name
    by (simp add: vector7_def Let_def zero list_all_length)
  define c where "c = \<lparr>cs_start_q_rad = hold_start, cs_state = \<lparr>v94_q_rad = hold_start,
    v94_dq_rad_s = replicate 7 (Fin 0), v94_ddq_rad_s2 = replicate 7 (Fin 0)\<rparr>\<rparr>"
  have made: "make_command_shaper (Vec hold_start) None None = Inr c"
    by (simp add: make_command_shaper_def make_command_state_def v v0 c_def)
  have axes: "res_map (\<lambda>i. v94_axis i (hold_start ! i) (hold_start ! i) (hold_start ! i) (replicate 7 (Fin 0) ! i)
      (replicate 7 (Fin 0) ! i)) [0..<7] = Inr (map (\<lambda>i. (hold_start ! i, Fin 0, Fin 0)) [0..<7])"
    unfolding res_map_Inr_iff by (simp add: list_all2_conv_all_nth hold_start_axis)
  have parts: "map (fst \<circ> (\<lambda>i. (hold_start ! i, Fin 0, Fin 0))) [0..<7] = hold_start"
    "map (fst \<circ> snd \<circ> (\<lambda>i. (hold_start ! i, Fin 0, Fin 0))) [0..<7] = replicate 7 (Fin 0)"
    "map (snd \<circ> snd \<circ> (\<lambda>i. (hold_start ! i, Fin 0, Fin 0))) [0..<7] = replicate 7 (Fin 0)"
    by (simp_all add: hold_start_def upt_rec numeral_eq_Suc)
  obtain st where st: "fst (command_shaper_step (Vec hold_start) c) = Inr st"
    by (simp add: command_shaper_step_def make_command_state_def c_def v v0 axes parts)
  have "reach (new_shaper hold_start) shaper_steps c" using made by (intro reach_init) (auto simp: new_shaper_def)
  from shaper_packet_inside_limits [OF this st, of 3] obtain p u where
    "v94_q_rad st ! 3 = Fin p" "SAFE_JOINT_UPPER_RAD ! 3 = Fin u" "p \<le> u - 1 / 100 + 1 / 1000000000"
    by auto
  then have "p \<le> - 2018 / 10000 - 1 / 100 + 1 / 100000000" by (simp add: safe_limit_table)
  with made st \<open>v94_q_rad st ! 3 = Fin p\<close> show ?thesis by blast
qed

end
