(* ===== verification/Watchdog_Values.thy ===== *)
theory Watchdog_Values
  imports Actuator_Commands Float_Functions
begin

text \<open>
  The values of \<open>robot_control/rh56/watchdog.py\<close>: its checks, the settings of the owner (the
  keyword arguments of \<open>RH56WatchdogOwner.__init__\<close>), the periodic poll deadline, and the
  frozen records that cross the owner's boundary. \<open>_finite_float\<close> and \<open>_positive_float\<close> of the
  module are the same functions as the actuator's \<open>finite_float\<close> and \<open>positive_float\<close>.
\<close>

definition owner_error :: "string \<Rightarrow> exn" where
  "owner_error m = Exn (OtherException ''RH56WatchdogOwnerError'') m"

datatype owner_state = OS_CREATED | OS_STARTING | OS_RUNNING | OS_FAULT_LATCHED | OS_STOPPED

section \<open>Checks\<close>

definition bounded_positive_integer :: "pyval \<Rightarrow> string \<Rightarrow> int \<Rightarrow> exn + int" where
  "bounded_positive_integer v name maximum =
     (let err = Exn ValueError (name @ '' must be a positive integer'')
      in if is_py_bool v then Inl err
         else res_bind (float_or v err) (\<lambda>numeric.
           if \<not> is_finite numeric \<or> \<not> fl_is_integer numeric
              \<or> \<not> (1 \<le> fl_trunc numeric \<and> fl_trunc numeric \<le> maximum)
           then Inl (Exn ValueError (name @ '' must be a positive integer <= '' @ int_str maximum))
           else Inr (fl_trunc numeric)))"

text \<open>\<open>math.floor\<close> of an infinity raises.\<close>

definition advance_periodic_deadline :: "fl \<Rightarrow> fl \<Rightarrow> fl \<Rightarrow> exn + fl" where
  "advance_periodic_deadline deadline_s period_s now_s =
     res_bind (finite_float (PyFloat deadline_s) ''periodic deadline'') (\<lambda>deadline.
     res_bind (positive_float (PyFloat period_s) ''periodic period'') (\<lambda>period.
     res_bind (finite_float (PyFloat now_s) ''periodic now'') (\<lambda>now.
       if now < deadline then Inr deadline
       else
         case fl_over (now - deadline) period of
           Fin periods \<Rightarrow> Inr (deadline + rnd64 (of_int (\<lfloor>periods\<rfloor> + 1)) * period)
         | _ \<Rightarrow> Inl (Exn OverflowError ''cannot convert float infinity to integer''))))"

section \<open>Settings\<close>

record owner_config =
  startup_timeout_s :: fl
  response_timeout_s :: fl
  join_timeout_s :: fl
  bootstrap_feedback_samples :: int
  feedback_history_capacity :: int
  supervised_target_only :: bool
  feedback_period_s :: fl
  feedback_hard_age_s :: fl
  tracking_significant_gap_units :: int
  tracking_min_progress_units :: int
  tracking_position_min_progress_units :: int
  tracking_contact_force_delta_g :: int
  tracking_contact_force_absolute_g :: int
  tracking_timeout_s :: fl
  thread_name :: string

text \<open>
  The keyword arguments, and their defaults. \<open>session_factory\<close>, the ledger, the callback and
  the clocks are functions of the model, so their \<open>callable\<close> checks always pass.
\<close>

record owner_args =
  arg_startup_timeout_s :: pyval
  arg_response_timeout_s :: pyval
  arg_join_timeout_s :: pyval
  arg_bootstrap_feedback_samples :: pyval
  arg_feedback_history_capacity :: pyval
  arg_supervised_target_only :: pyval
  arg_feedback_period_s :: pyval
  arg_feedback_hard_age_s :: pyval
  arg_tracking_significant_gap_units :: pyval
  arg_tracking_min_progress_units :: pyval
  arg_tracking_contact_force_delta_g :: pyval
  arg_tracking_contact_force_absolute_g :: pyval
  arg_tracking_timeout_s :: pyval
  arg_thread_name :: string

definition default_owner_args :: owner_args where
  "default_owner_args =
     \<lparr>arg_startup_timeout_s = PyFloat (Fin 2), arg_response_timeout_s = PyFloat (Fin 2), arg_join_timeout_s = PyFloat (Fin 2),
      arg_bootstrap_feedback_samples = PyInt 2, arg_feedback_history_capacity = PyInt 8,
      arg_supervised_target_only = PyBool False, arg_feedback_period_s = PyFloat (fl_over 1 (Fin 30)),
      arg_feedback_hard_age_s = PyFloat (rnd64 (50 / 1000)),
      arg_tracking_significant_gap_units = PyInt 30, arg_tracking_min_progress_units = PyInt 3,
      arg_tracking_contact_force_delta_g = PyInt 150, arg_tracking_contact_force_absolute_g = PyInt 200,
      arg_tracking_timeout_s = PyFloat (Fin (3 / 4)), arg_thread_name = ''rh56-watchdog-owner''\<rparr>"

definition make_owner_config :: "owner_args \<Rightarrow> exn + owner_config" where
  "make_owner_config a =
     (case arg_supervised_target_only a of
        PyBool supervised \<Rightarrow>
          if py_strip (arg_thread_name a) = [] then value_error ''thread_name must be non-empty''
          else
          res_bind (positive_float (arg_startup_timeout_s a) ''startup_timeout_s'') (\<lambda>startup.
          res_bind (positive_float (arg_response_timeout_s a) ''response_timeout_s'') (\<lambda>response.
          res_bind (positive_float (arg_join_timeout_s a) ''join_timeout_s'') (\<lambda>join_timeout.
          res_bind (bounded_positive_integer (arg_bootstrap_feedback_samples a)
                      ''bootstrap_feedback_samples'' 16) (\<lambda>samples.
          if samples < 2 then value_error ''bootstrap_feedback_samples must be at least two''
          else
          res_bind (bounded_positive_integer (arg_feedback_history_capacity a)
                      ''feedback_history_capacity'' 1024) (\<lambda>capacity.
          if capacity < samples
          then value_error ''feedback_history_capacity cannot be smaller than bootstrap samples''
          else
          res_bind (positive_float (arg_feedback_period_s a) ''feedback_period_s'') (\<lambda>period.
          res_bind (positive_float (arg_feedback_hard_age_s a) ''feedback_hard_age_s'') (\<lambda>hard_age.
          if hard_age \<le> period
          then value_error ''feedback_period_s must be below feedback_hard_age_s''
          else
          res_bind (bounded_positive_integer (arg_tracking_significant_gap_units a)
                      ''tracking_significant_gap_units'' 1000) (\<lambda>gap.
          res_bind (bounded_positive_integer (arg_tracking_min_progress_units a)
                      ''tracking_min_progress_units'' 1000) (\<lambda>progress.
          if gap \<le> progress
          then value_error ''tracking_min_progress_units must be below tracking_significant_gap_units''
          else
          res_bind (bounded_positive_integer (arg_tracking_contact_force_delta_g a)
                      ''tracking_contact_force_delta_g'' 32767) (\<lambda>force_delta.
          res_bind (bounded_positive_integer (arg_tracking_contact_force_absolute_g a)
                      ''tracking_contact_force_absolute_g'' 32767) (\<lambda>force_absolute.
          if force_absolute < force_delta
          then value_error ''tracking_contact_force_delta_g cannot exceed tracking_contact_force_absolute_g''
          else
          res_bind (positive_float (arg_tracking_timeout_s a) ''tracking_timeout_s'') (\<lambda>tracking_timeout.
            Inr \<lparr>startup_timeout_s = startup, response_timeout_s = response, join_timeout_s = join_timeout,
                 bootstrap_feedback_samples = samples, feedback_history_capacity = capacity,
                 supervised_target_only = supervised, feedback_period_s = period,
                 feedback_hard_age_s = hard_age, tracking_significant_gap_units = gap,
                 tracking_min_progress_units = progress,
                 tracking_position_min_progress_units = max 5 progress,
                 tracking_contact_force_delta_g = force_delta,
                 tracking_contact_force_absolute_g = force_absolute,
                 tracking_timeout_s = tracking_timeout,
                 thread_name = py_strip (arg_thread_name a)\<rparr>))))))))))))
      | _ \<Rightarrow> Inl (Exn TypeError ''supervised_target_only must be boolean''))"

section \<open>Records\<close>

text \<open>\<open>RH56TimestampedFeedback\<close>\<close>

record timestamped_feedback =
  tf_feedback :: safety_feedback
  captured_realtime_s :: fl
  cached_monotonic_s :: fl

definition make_timestamped :: "safety_feedback \<Rightarrow> fl \<Rightarrow> fl \<Rightarrow> exn + timestamped_feedback" where
  "make_timestamped feedback realtime0 cached0 =
     res_bind (finite_float (PyFloat realtime0) ''captured_realtime_s'') (\<lambda>realtime.
     res_bind (finite_float (PyFloat cached0) ''cached_monotonic_s'') (\<lambda>cached.
       if cached < captured_monotonic_s feedback
       then value_error ''feedback cannot be cached before it was captured''
       else Inr \<lparr>tf_feedback = feedback, captured_realtime_s = realtime, cached_monotonic_s = cached\<rparr>))"

text \<open>\<open>RH56OwnerFault\<close>, and its text in a message (the generated \<open>repr\<close> of the dataclass).\<close>

record owner_fault =
  fault_reason :: string
  detected_monotonic_s :: fl
  fault_pending_sequence :: "int option"
  fault_stop_confirmed :: bool
  fault_stop_error :: "string option"

definition fault_str :: "owner_fault option \<Rightarrow> string" where
  "fault_str v =
     (case v of
        None \<Rightarrow> ''None''
      | Some f \<Rightarrow>
          ''RH56OwnerFault(reason='' @ str_repr (fault_reason f)
          @ '', detected_monotonic_s='' @ float_repr (detected_monotonic_s f)
          @ '', pending_sequence='' @ opt_int_str (fault_pending_sequence f)
          @ '', stop_confirmed='' @ (if fault_stop_confirmed f then ''True'' else ''False'')
          @ '', stop_error='' @ (case fault_stop_error f of None \<Rightarrow> ''None'' | Some m \<Rightarrow> str_repr m)
          @ '')'')"

text \<open>\<open>RH56OwnerStopResult\<close>\<close>

record owner_stop_result =
  result_worker_stopped :: bool
  rh56_disabled_verified :: bool
  result_disable_attempted :: bool
  result_close_attempted :: bool
  result_serial_closed :: bool
  result_stop_report :: "stop_report option"
  result_fault :: "owner_fault option"

section \<open>Tickets\<close>

text \<open>
  \<open>RH56OwnerTicket\<close>: \<open>_event\<close> is set exactly when there is a result, an exception or a receipt
  (every completion gives one of the two).
\<close>

datatype owner_receipt = FullReceipt transaction_receipt | TargetReceipt target_receipt

record owner_ticket =
  tk_sequence :: int
  tk_result :: "(exn + owner_receipt) option"

definition ticket_done :: "owner_ticket \<Rightarrow> bool" where
  "ticket_done k = (tk_result k \<noteq> None)"

text \<open>\<open>_complete\<close>: the first result stays.\<close>

definition ticket_complete :: "exn + owner_receipt \<Rightarrow> owner_ticket \<Rightarrow> owner_ticket" where
  "ticket_complete r k = (if ticket_done k then k else k\<lparr>tk_result := Some r\<rparr>)"

text \<open>\<open>result\<close>, when the wait ends: with the event set, or by its timeout.\<close>

definition ticket_result :: "owner_ticket \<Rightarrow> exn + owner_receipt" where
  "ticket_result k =
     (case tk_result k of
        None \<Rightarrow> Inl (owner_error (''RH56 owner response timed out for sequence '' @ int_str (tk_sequence k)))
      | Some (Inl e) \<Rightarrow>
          Inl (owner_error (''RH56 owner rejected sequence '' @ int_str (tk_sequence k) @ '': '' @ exn_msg e))
      | Some (Inr receipt) \<Rightarrow> Inr receipt)"

record execute_request =
  req_command :: closed_loop_command
  req_ticket :: nat
  submitted_monotonic_s :: fl

end
