(* ===== verification/Watchdog_Tracking.thy ===== *)
theory Watchdog_Tracking
  imports Watchdog_Values
begin

text \<open>
  The physical-tracking evidence of \<open>RH56WatchdogOwner\<close>: for each axis, whether a numeric target
  opened a challenge, what it was measured against, and whether later feedback showed motion or
  contact. The code keeps one list of six entries per attribute; here it is one record per axis,
  so the loops over the axes are maps.
\<close>

section \<open>State\<close>

record axis_tracking =
  tr_challenged :: bool
  tr_verified :: bool
  tr_contact_verified :: bool
  tr_failed :: bool
  tr_active :: bool
  tr_direction :: int
  tr_baseline_angle :: int
  tr_baseline_position :: int
  tr_baseline_force_g :: int
  epoch_active :: bool
  epoch_direction :: int
  epoch_baseline_g :: int
  tr_deadline_s :: fl

record tracking =
  latest_target :: "int list option"
  axes :: "axis_tracking list"
  tracking_failure_reason :: "string option"

definition new_axis :: axis_tracking where
  "new_axis =
     \<lparr>tr_challenged = False, tr_verified = False, tr_contact_verified = False, tr_failed = False,
      tr_active = False, tr_direction = 0, tr_baseline_angle = 0, tr_baseline_position = 0,
      tr_baseline_force_g = 0, epoch_active = False, epoch_direction = 0, epoch_baseline_g = 0,
      tr_deadline_s = Fin 0\<rparr>"

definition new_tracking :: tracking where
  "new_tracking = \<lparr>latest_target = None, axes = replicate 6 new_axis, tracking_failure_reason = None\<rparr>"

section \<open>A numeric target\<close>

text \<open>The force baseline of a target stream that keeps its direction.\<close>

definition force_epoch :: "int option \<Rightarrow> int \<Rightarrow> int \<Rightarrow> axis_tracking \<Rightarrow> axis_tracking" where
  "force_epoch previous target force a =
     (case previous of
        None \<Rightarrow> a
      | Some p \<Rightarrow>
          let delta = target - p; stream = (if 0 < delta then 1 else - 1)
          in if delta \<noteq> 0 \<and> (\<not> epoch_active a \<or> epoch_direction a \<noteq> stream)
             then a\<lparr>epoch_active := True, epoch_direction := stream, epoch_baseline_g := force\<rparr>
             else a)"

text \<open>One axis: its previous and new target, and its measured angle, position and force.\<close>

definition register_axis ::
    "owner_config \<Rightarrow> fl \<Rightarrow> int option \<Rightarrow> int \<Rightarrow> int \<Rightarrow> int \<Rightarrow> int \<Rightarrow> axis_tracking \<Rightarrow> axis_tracking" where
  "register_axis cfg now previous target actual position force a0 =
     (let a = force_epoch previous target force a0; gap = target - actual
      in if \<bar>gap\<bar> < tracking_significant_gap_units cfg then a\<lparr>tr_active := False, tr_direction := 0\<rparr>
         else
           let towards = (if 0 < gap then 1 else - 1)
           in if \<not> tr_challenged a
                 \<and> (case previous of None \<Rightarrow> False | Some p \<Rightarrow> \<bar>target - actual\<bar> < \<bar>p - actual\<bar>)
              then a
              else if tr_verified a
              then a\<lparr>tr_challenged := True, tr_active := False, tr_direction := 0\<rparr>
              else if \<not> tr_active a \<or> tr_direction a \<noteq> towards
              then a\<lparr>tr_challenged := True, tr_active := True, tr_direction := towards,
                     tr_baseline_angle := actual, tr_baseline_position := position,
                     tr_baseline_force_g := (if epoch_active a \<and> epoch_direction a = towards
                                             then epoch_baseline_g a else force),
                     tr_deadline_s := now + tracking_timeout_s cfg\<rparr>
              else a\<lparr>tr_challenged := True\<rparr>)"

definition register_targets ::
    "owner_config \<Rightarrow> fl \<Rightarrow> int list \<Rightarrow> safety_feedback \<Rightarrow> tracking \<Rightarrow> tracking" where
  "register_targets cfg now targets f tr =
     tr\<lparr>latest_target := Some targets,
        axes := map (\<lambda>i. register_axis cfg now (map_option (\<lambda>p. p ! i) (latest_target tr)) (targets ! i)
                           (angles f ! i) (positions f ! i) (forces_g f ! i) (axes tr ! i)) [0..<6]\<rparr>"

section \<open>A feedback sample\<close>

text \<open>Contact: the firmware's status, or a large force that changed by a large amount.\<close>

definition shows_contact :: "owner_config \<Rightarrow> int \<Rightarrow> int \<Rightarrow> axis_tracking \<Rightarrow> bool" where
  "shows_contact cfg force status a =
     (status = 3 \<or>
      tracking_contact_force_absolute_g cfg \<le> \<bar>force\<bar> \<and>
      tracking_contact_force_delta_g cfg \<le> \<bar>force - tr_baseline_force_g a\<bar>)"

definition shows_motion :: "owner_config \<Rightarrow> int \<Rightarrow> int \<Rightarrow> axis_tracking \<Rightarrow> bool" where
  "shows_motion cfg angle position a =
     (tracking_min_progress_units cfg \<le> tr_direction a * (angle - tr_baseline_angle a) \<or>
      tracking_position_min_progress_units cfg \<le> \<bar>position - tr_baseline_position a\<bar>)"

text \<open>The axis after the sample, and whether it failed just now.\<close>

definition evaluate_axis ::
    "owner_config \<Rightarrow> fl \<Rightarrow> int \<Rightarrow> int \<Rightarrow> int \<Rightarrow> int \<Rightarrow> axis_tracking \<Rightarrow> axis_tracking \<times> bool" where
  "evaluate_axis cfg now angle position force status a =
     (if \<not> tr_active a then (a, False)
      else
        let contact = shows_contact cfg force status a
        in if shows_motion cfg angle position a \<or> contact
           then (a\<lparr>tr_verified := True, tr_contact_verified := contact, tr_active := False, tr_direction := 0\<rparr>,
                 False)
           else if tr_deadline_s a \<le> now then (a\<lparr>tr_failed := True, tr_active := False\<rparr>, True)
           else (a, False))"

definition evaluate_tracking :: "owner_config \<Rightarrow> safety_feedback \<Rightarrow> (tracking, unit) op" where
  "evaluate_tracking cfg f tr =
     (if latest_target tr = None then (Inr (), tr)
      else
        let results = map (\<lambda>i. evaluate_axis cfg (captured_monotonic_s f) (angles f ! i) (positions f ! i)
                                 (forces_g f ! i) (statuses f ! i) (axes tr ! i)) [0..<6];
            failure_axes = filter (\<lambda>i. snd (results ! i)) [0..<6];
            reason = ''RH56 physical tracking made no ANGLE_ACT/POS_ACT progress on axes [''
                     @ join '','' (map (\<lambda>i. int_str (int i)) failure_axes) @ ''] within ''
                     @ fixed_str 3 (tracking_timeout_s cfg) @ ''s'';
            tr' = tr\<lparr>axes := map fst results\<rparr>
        in if failure_axes = [] then (Inr (), tr')
           else (Inl (owner_error reason), tr'\<lparr>tracking_failure_reason := Some reason\<rparr>))"

section \<open>The report\<close>

datatype verdict = Failed | ChallengedUnverified | Verified | ChallengedWithdrawnUnverified | NotExercised

definition active_unverified :: "axis_tracking \<Rightarrow> bool" where
  "active_unverified a = (tr_challenged a \<and> \<not> tr_verified a \<and> tr_active a)"

definition tracking_verdict :: "tracking \<Rightarrow> verdict" where
  "tracking_verdict tr =
     (if list_ex tr_failed (axes tr) then Failed
      else if list_ex active_unverified (axes tr) then ChallengedUnverified
      else if list_ex tr_challenged (axes tr) \<and> list_ex tr_verified (axes tr) then Verified
      else if list_ex tr_challenged (axes tr) then ChallengedWithdrawnUnverified
      else NotExercised)"

end
