(* ===== verification/Watchdog_Owner.thy ===== *)
theory Watchdog_Owner
  imports Watchdog_Tracking
begin

text \<open>
  \<open>RH56WatchdogOwner\<close> of \<open>robot_control/rh56/watchdog.py\<close>: its state and what the threads other
  than the worker may do with it. Everything here runs under the owner's condition lock, so a
  method is one function of the state, except where it waits: then it is one function for the
  part before the wait and one for the part after it. The worker is \<open>Watchdog_Worker\<close>.
\<close>

section \<open>State\<close>

text \<open>
  The decision of the worker at the top of its loop is taken from these values, which it reads
  before it takes the lock.
\<close>

record loop_view =
  view_now :: fl
  view_deadline :: "fl option"
  view_awaiting_first :: bool
  view_feedback_due :: bool
  view_feedback_expired :: bool

text \<open>
  Where the worker is: before each point another thread may take the lock. \<open>W_Bootstrap n\<close> has
  \<open>n\<close> samples to go; \<open>W_Wait\<close> and \<open>W_WaitFirst\<close> wait on the condition for at most the given
  time; a request that was taken off the queue travels with the worker, and so does an exception
  that escapes the handler and is raised again after the final block.
\<close>

datatype worker_pc =
    W_None | W_Start | W_Bootstrap nat | W_Ready
  | W_Top | W_Choose loop_view | W_Wait fl | W_WaitFirst fl
  | W_Settle | W_Settled | W_Stop "execute_request option" | W_Watchdog "execute_request option" fl
  | W_Stale "execute_request option" fl | W_Poll
  | W_Execute execute_request | W_AfterAck execute_request | W_Failed execute_request exn
  | W_Handler exn | W_Final "exn option" | W_Last "exn option" | W_End | W_Dead exn

text \<open>\<open>own_log\<close> is a history of the three acts whose order matters; no operation reads it.\<close>

datatype owner_event = FaultPublished string | StopCalled | CloseCalled

record 's owner =
  own_cfg :: owner_config
  own_sys :: "'s system"
  own_state :: owner_state
  own_pc :: worker_pc
  own_session :: bool
  own_ready :: bool
  worker_stopped :: bool
  fault_event :: bool
  stop_requested :: bool
  own_request :: "execute_request option"
  request_inflight :: bool
  final_settle_requested :: bool
  final_settle_active :: bool
  final_settle_deadline_s :: "fl option"
  first_command_readiness :: bool
  own_fault :: "owner_fault option"
  fault_callback_sent :: bool
  startup_error :: "exn option"
  actuator_watchdog_timeout_s :: "fl option"
  default_feedback_maximum_age_s :: "fl option"
  feedback_history :: "timestamped_feedback list"
  own_tracking :: tracking
  own_stop_report :: "stop_report option"
  disable_attempted :: bool
  close_attempted :: bool
  serial_closed :: bool
  tickets :: "owner_ticket list"
  last_feedback_captured_s :: fl
  next_feedback_deadline_s :: fl
  own_log :: "owner_event list"

text \<open>
  What the owner is given: the actuator's environment, the two clocks, the factory that opens,
  claims and arms the session, the session's \<open>close\<close>, and the fault callback, which latches
  the shared gate and may touch everything but the actuator.
\<close>

type_synonym 's outside = "safety_gate \<times> action_ledger \<times> 's"

record 's owner_env =
  actuator_env :: "'s env"
  own_monotonic :: "('s, fl) op"
  own_realtime :: "('s, fl) op"
  session_factory :: "('s system, unit) prog"
  session_close :: "('s, unit) prog"
  fault_callback :: "(owner_fault \<Rightarrow> ('s outside, unit) prog) option"

definition new_owner :: "owner_config \<Rightarrow> 's system \<Rightarrow> 's owner" where
  "new_owner cfg s =
     \<lparr>own_cfg = cfg, own_sys = s, own_state = OS_CREATED, own_pc = W_None, own_session = False,
      own_ready = False, worker_stopped = False, fault_event = False, stop_requested = False,
      own_request = None, request_inflight = False, final_settle_requested = False,
      final_settle_active = False, final_settle_deadline_s = None, first_command_readiness = False,
      own_fault = None, fault_callback_sent = False, startup_error = None,
      actuator_watchdog_timeout_s = None, default_feedback_maximum_age_s = None,
      feedback_history = [], own_tracking = new_tracking, own_stop_report = None,
      disable_attempted = False, close_attempted = False, serial_closed = False, tickets = [],
      last_feedback_captured_s = Fin 0, next_feedback_deadline_s = Fin 0, own_log = []\<rparr>"

definition set_result :: "nat \<Rightarrow> exn + owner_receipt \<Rightarrow> owner_ticket list \<Rightarrow> owner_ticket list" where
  "set_result i r ks = ks[i := ticket_complete r (ks ! i)]"

definition complete_ticket :: "nat \<Rightarrow> exn + owner_receipt \<Rightarrow> 's owner \<Rightarrow> 's owner" where
  "complete_ticket i r ow = ow\<lparr>tickets := set_result i r (tickets ow)\<rparr>"

section \<open>Clocks\<close>

definition world_clock :: "('s, fl) op \<Rightarrow> string \<Rightarrow> ('s owner, fl) op" where
  "world_clock clock name ow =
     (let (r, w) = clock (world (own_sys ow))
      in (res_bind r (\<lambda>t. finite_float (PyFloat t) name), ow\<lparr>own_sys := (own_sys ow)\<lparr>world := w\<rparr>\<rparr>))"

definition own_now :: "'s owner_env \<Rightarrow> ('s owner, fl) op" where
  "own_now X = world_clock (own_monotonic X) ''monotonic clock''"

definition wall_now :: "'s owner_env \<Rightarrow> ('s owner, fl) op" where
  "wall_now X = world_clock (own_realtime X) ''realtime clock''"

text \<open>A time argument: \<open>None\<close> reads the clock, anything else must be finite.\<close>

definition now_or :: "'s owner_env \<Rightarrow> pyval option \<Rightarrow> ('s owner, fl) op" where
  "now_or X now0 ow =
     (case now0 of None \<Rightarrow> own_now X ow | Some v \<Rightarrow> (finite_float v ''now_monotonic_s'', ow))"

section \<open>Observers\<close>

text \<open>\<open>thread.is_alive()\<close>: the thread was started and its function has not returned.\<close>

fun pc_ended :: "worker_pc \<Rightarrow> bool" where
  "pc_ended W_End = True"
| "pc_ended (W_Dead e) = True"
| "pc_ended p = False"

definition worker_alive :: "'s owner \<Rightarrow> bool" where
  "worker_alive ow = (own_pc ow \<noteq> W_None \<and> \<not> pc_ended (own_pc ow))"

definition independent_watchdog_active :: "'s owner \<Rightarrow> bool" where
  "independent_watchdog_active ow =
     (own_state ow = OS_RUNNING \<and> worker_alive ow \<and> actuator_watchdog_timeout_s ow \<noteq> None)"

definition fault_callback_configured :: "'s owner_env \<Rightarrow> 's owner \<Rightarrow> bool" where
  "fault_callback_configured X ow = (own_state ow = OS_RUNNING \<and> fault_callback X \<noteq> None)"

definition first_command_readiness_verified :: "'s owner \<Rightarrow> bool" where
  "first_command_readiness_verified ow = (own_state ow = OS_RUNNING \<and> first_command_readiness ow)"

definition raise_if_faulted :: "'s owner \<Rightarrow> exn + unit" where
  "raise_if_faulted ow =
     (if own_fault ow \<noteq> None \<or> own_state ow = OS_FAULT_LATCHED
      then Inl (owner_error (''RH56 owner fault is latched: '' @ fault_str (own_fault ow))) else Inr ())"

record history_snapshot =
  snap_samples :: "timestamped_feedback list"
  snap_observed_monotonic_s :: fl
  snap_latest_age_s :: fl
  snap_maximum_age_s :: fl
  snap_fresh :: bool
  snap_owner_state :: owner_state

definition feedback_history_snapshot ::
    "'s owner_env \<Rightarrow> pyval option \<Rightarrow> pyval option \<Rightarrow> ('s owner, history_snapshot) op" where
  "feedback_history_snapshot X maximum_age0 now0 ow =
     (let (n, ow') = now_or X now0 ow
      in (res_bind n (\<lambda>now.
          if feedback_history ow' = [] then Inl (owner_error ''RH56 feedback cache is empty'')
          else
          res_bind (case maximum_age0 of
                      Some v \<Rightarrow> positive_float v ''maximum_age_s''
                    | None \<Rightarrow>
                        (case default_feedback_maximum_age_s ow' of
                           Some m \<Rightarrow> Inr m
                         | None \<Rightarrow> Inl (owner_error ''RH56 feedback freshness limit is unavailable before startup'')))
            (\<lambda>maximum.
              let latest_age = now - captured_monotonic_s (tf_feedback (last (feedback_history ow')))
              in if latest_age < 0
                 then Inl (owner_error ''RH56 feedback snapshot clock precedes the cached sample'')
                 else Inr \<lparr>snap_samples = feedback_history ow', snap_observed_monotonic_s = now,
                           snap_latest_age_s = latest_age, snap_maximum_age_s = maximum,
                           snap_fresh = (latest_age \<le> maximum), snap_owner_state = own_state ow'\<rparr>)), ow'))"

definition require_fresh_feedback_history ::
    "'s owner_env \<Rightarrow> pyval \<Rightarrow> pyval option \<Rightarrow> pyval option \<Rightarrow> ('s owner, history_snapshot) op" where
  "require_fresh_feedback_history X minimum0 maximum_age0 now0 ow =
     (case bounded_positive_integer minimum0 ''minimum_samples'' 1024 of
        Inl e \<Rightarrow> (Inl e, ow)
      | Inr minimum \<Rightarrow>
          let (r, ow') = feedback_history_snapshot X maximum_age0 now0 ow
          in (res_bind r (\<lambda>snapshot.
                if int (length (snap_samples snapshot)) < minimum
                then Inl (owner_error (''RH56 feedback history has '' @ int_str (int (length (snap_samples snapshot)))
                       @ '' samples, requires '' @ int_str minimum))
                else if \<not> snap_fresh snapshot
                then Inl (owner_error (''RH56 feedback is stale: age='' @ fixed_str 6 (snap_latest_age_s snapshot)
                       @ ''s, limit='' @ fixed_str 6 (snap_maximum_age_s snapshot) @ ''s''))
                else Inr snapshot), ow'))"

definition latest_feedback_snapshot ::
    "'s owner_env \<Rightarrow> pyval option \<Rightarrow> pyval option \<Rightarrow> ('s owner, timestamped_feedback) op" where
  "latest_feedback_snapshot X maximum_age0 now0 ow =
     (let (r, ow') = require_fresh_feedback_history X (PyInt 1) maximum_age0 now0 ow
      in (res_bind r (\<lambda>snapshot. Inr (last (snap_samples snapshot))), ow'))"

record tracking_snapshot =
  ts_verdict :: verdict
  challenged_axes :: "bool list"
  verified_axes :: "bool list"
  contact_verified_axes :: "bool list"
  failed_axes :: "bool list"
  active_challenge_axes :: "bool list"
  latest_feedback_fresh :: bool
  latest_feedback_age_s :: "fl option"
  ts_latest_target :: "int list option"
  latest_angles :: "int list option"
  latest_positions :: "int list option"
  ts_failure_reason :: "string option"

text \<open>The settings the snapshot repeats are those of \<open>own_cfg\<close>.\<close>

definition physical_tracking_snapshot ::
    "'s owner_env \<Rightarrow> pyval option \<Rightarrow> ('s owner, tracking_snapshot) op" where
  "physical_tracking_snapshot X now0 ow =
     (let (n, ow') = now_or X now0 ow
      in (res_bind n (\<lambda>now.
          let tr = own_tracking ow';
              latest = (if feedback_history ow' = [] then None else Some (tf_feedback (last (feedback_history ow'))));
              age = map_option (\<lambda>f. fl_max (Fin 0) (now - captured_monotonic_s f)) latest
          in Inr \<lparr>ts_verdict = tracking_verdict tr,
                  challenged_axes = map tr_challenged (axes tr), verified_axes = map tr_verified (axes tr),
                  contact_verified_axes = map tr_contact_verified (axes tr),
                  failed_axes = map tr_failed (axes tr), active_challenge_axes = map tr_active (axes tr),
                  latest_feedback_fresh = (case age of None \<Rightarrow> False | Some x \<Rightarrow> x \<le> feedback_hard_age_s (own_cfg ow')),
                  latest_feedback_age_s = age, ts_latest_target = latest_target tr,
                  latest_angles = map_option angles latest, latest_positions = map_option positions latest,
                  ts_failure_reason = tracking_failure_reason tr\<rparr>), ow'))"

section \<open>Starting and stopping\<close>

definition request_stop :: "'s owner \<Rightarrow> 's owner" where
  "request_stop ow = ow\<lparr>stop_requested := True\<rparr>"

definition start_owner :: "('s owner, unit) op" where
  "start_owner ow =
     (if own_state ow \<noteq> OS_CREATED then (Inl (owner_error ''RH56 owner is single-use''), ow)
      else (Inr (), ow\<lparr>own_state := OS_STARTING, own_pc := W_Start\<rparr>))"

text \<open>The rest of \<open>start\<close>, after \<open>_ready\<close> was set or the wait for it ended without.\<close>

definition start_result :: "bool \<Rightarrow> ('s owner, unit) op" where
  "start_result became_ready ow =
     (if \<not> became_ready
      then (Inl (owner_error ''RH56 owner startup exceeded its bounded timeout''), request_stop ow)
      else if startup_error ow \<noteq> None \<or> own_state ow \<noteq> OS_RUNNING
      then (Inl (owner_error (''RH56 owner failed during startup: ''
               @ (case startup_error ow of Some e \<Rightarrow> exn_msg e | None \<Rightarrow> fault_str (own_fault ow)))), ow)
      else (Inr (), ow))"

text \<open>The rest of \<open>stop_and_close\<close>, after the join.\<close>

definition stop_result :: "'s owner \<Rightarrow> exn + owner_stop_result" where
  "stop_result ow =
     (if own_pc ow = W_None
      then Inr \<lparr>result_worker_stopped = True, rh56_disabled_verified = True, result_disable_attempted = False,
                result_close_attempted = False, result_serial_closed = True, result_stop_report = None,
                result_fault = None\<rparr>
      else if worker_alive ow
      then Inl (owner_error ''RH56 owner did not stop before bounded join timeout'')
      else Inr \<lparr>result_worker_stopped = True,
                rh56_disabled_verified =
                  ((case own_stop_report ow of None \<Rightarrow> False | Some r \<Rightarrow> report_verified r) \<or>
                   (case own_fault ow of None \<Rightarrow> False | Some f \<Rightarrow> fault_stop_confirmed f)),
                result_disable_attempted = disable_attempted ow, result_close_attempted = close_attempted ow,
                result_serial_closed = serial_closed ow, result_stop_report = own_stop_report ow,
                result_fault = own_fault ow\<rparr>)"

section \<open>Submitting a command\<close>

definition submit_refused :: "closed_loop_command \<Rightarrow> 's owner \<Rightarrow> exn option" where
  "submit_refused c ow =
     (if own_state ow = OS_FAULT_LATCHED
      then Some (owner_error (''RH56 owner fault is latched: '' @ fault_str (own_fault ow)))
      else if own_state ow \<noteq> OS_RUNNING then Some (owner_error ''RH56 owner is not running'')
      else if stop_requested ow then Some (owner_error ''RH56 owner stop is already requested'')
      else if final_settle_requested ow \<or> final_settle_active ow
      then Some (owner_error ''RH56 owner rejects commands during final tracking settle'')
      else if own_request ow \<noteq> None \<or> request_inflight ow
      then Some (owner_error ''RH56 owner accepts only one in-flight request'')
      else if ledger_pending_sequence (ledger_of (own_sys ow)) \<noteq> Some (cmd_sequence c)
      then Some (owner_error (''RH56 sequence '' @ int_str (cmd_sequence c) @ '' is not staged in the ledger''))
      else None)"

text \<open>The result is the index of the new ticket.\<close>

definition submit :: "'s owner_env \<Rightarrow> closed_loop_command \<Rightarrow> ('s owner, nat) op" where
  "submit X c ow =
     (case submit_refused c ow of
        Some e \<Rightarrow> (Inl e, ow)
      | None \<Rightarrow>
          (case own_now X ow of
             (Inl e, ow') \<Rightarrow> (Inl e, ow')
           | (Inr now, ow') \<Rightarrow>
               let i = length (tickets ow')
               in (Inr i, ow'\<lparr>tickets := tickets ow' @ [\<lparr>tk_sequence = cmd_sequence c, tk_result = None\<rparr>],
                             own_request := Some \<lparr>req_command = c, req_ticket = i, submitted_monotonic_s = now\<rparr>\<rparr>)))"

text \<open>The rest of \<open>execute\<close>, when the wait for the ticket ends.\<close>

definition execute_result :: "nat \<Rightarrow> ('s owner, owner_receipt) op" where
  "execute_result i ow =
     (let k = tickets ow ! i
      in (ticket_result k, if ticket_done k then ow else request_stop ow))"

section \<open>The final tracking settle\<close>

definition challenged_indices :: "tracking \<Rightarrow> nat list" where
  "challenged_indices tr = filter (\<lambda>i. tr_challenged (axes tr ! i)) [0..<6]"

definition settle_refused :: "'s owner \<Rightarrow> exn option" where
  "settle_refused ow =
     (if own_state ow = OS_FAULT_LATCHED
      then Some (owner_error (''RH56 owner fault is latched: '' @ fault_str (own_fault ow)))
      else if own_state ow \<noteq> OS_RUNNING then Some (owner_error ''RH56 owner is not running'')
      else if stop_requested ow then Some (owner_error ''RH56 owner stop is already requested'')
      else if own_request ow \<noteq> None \<or> request_inflight ow
      then Some (owner_error ''final tracking settle requires an idle request boundary'')
      else if final_settle_requested ow \<or> final_settle_active ow
      then Some (owner_error ''final tracking settle is already active'')
      else if ledger_pending_sequence (ledger_of (own_sys ow)) \<noteq> None
      then Some (owner_error ''final tracking settle is forbidden with a pending ledger sequence'')
      else if last_committed_sequence (ledger_of (own_sys ow)) < 1
      then Some (owner_error ''final tracking settle requires a committed policy sequence'')
      else if list_ex tr_failed (axes (own_tracking ow))
      then Some (owner_error (case tracking_failure_reason (own_tracking ow) of
                                None \<Rightarrow> ''RH56 physical tracking already failed'' | Some m \<Rightarrow> m))
      else None)"

text \<open>The deadline of the settle, when there is motion left to prove at \<open>now\<close>.\<close>

definition settle_deadline :: "owner_config \<Rightarrow> fl \<Rightarrow> tracking \<Rightarrow> exn + fl option" where
  "settle_deadline cfg now tr =
     (let challenged = challenged_indices tr
      in if challenged = [] \<or> list_all (\<lambda>i. tr_verified (axes tr ! i)) challenged then Inr None
         else
           let open_axes = filter (\<lambda>i. \<not> tr_verified (axes tr ! i) \<and> tr_active (axes tr ! i)) challenged
           in case map (\<lambda>i. tr_deadline_s (axes tr ! i)) open_axes of
                [] \<Rightarrow> Inl (owner_error ''RH56 challenged axis is unverified without an active physical-tracking window'')
              | d # ds \<Rightarrow>
                  let deadline = fl_min (fold (\<lambda>x m. fl_max m x) ds d + feedback_hard_age_s cfg)
                                        (now + tracking_timeout_s cfg + feedback_hard_age_s cfg)
                  in if deadline \<le> now
                     then Inl (owner_error ''RH56 physical-tracking settle deadline already elapsed'')
                     else Inr (Some deadline))"

text \<open>
  \<open>begin_final_tracking_settle\<close> up to its wait: \<open>Inr (Some t)\<close> returns \<open>t\<close> at once, \<open>Inr None\<close>
  waits for the worker.
\<close>

definition begin_final_settle :: "'s owner_env \<Rightarrow> pyval option \<Rightarrow> ('s owner, fl option) op" where
  "begin_final_settle X timeout0 ow =
     (if \<not> supervised_target_only (own_cfg ow)
      then (Inl (owner_error ''final tracking settle requires supervised target-only mode''), ow)
      else
        case (case timeout0 of None \<Rightarrow> Inr (response_timeout_s (own_cfg ow))
              | Some v \<Rightarrow> positive_float v ''final tracking settle timeout_s'') of
          Inl e \<Rightarrow> (Inl e, ow)
        | Inr timeout \<Rightarrow>
            (case own_now X ow of
               (Inl e, ow') \<Rightarrow> (Inl e, ow')
             | (Inr now, ow') \<Rightarrow>
                 (case settle_refused ow' of
                    Some e \<Rightarrow> (Inl e, ow')
                  | None \<Rightarrow>
                      (case settle_deadline (own_cfg ow') now (own_tracking ow') of
                         Inl e \<Rightarrow> (Inl e, ow')
                       | Inr None \<Rightarrow> (Inr (Some now), ow')
                       | Inr (Some d) \<Rightarrow>
                           (Inr None, ow'\<lparr>final_settle_deadline_s := Some d, final_settle_requested := True\<rparr>)))))"

text \<open>
  One turn of its wait loop: \<open>Inr (Some t)\<close> returns, \<open>Inr None\<close> waits on. \<open>expired\<close> says that
  the wait deadline has passed.
\<close>

definition await_final_settle :: "bool \<Rightarrow> ('s owner, fl option) op" where
  "await_final_settle expired ow =
     (if final_settle_active ow then (Inr (final_settle_deadline_s ow), ow)
      else if own_state ow \<noteq> OS_RUNNING \<or> own_fault ow \<noteq> None \<or> stop_requested ow
      then (Inl (owner_error (''RH56 final tracking settle rejected: '' @ fault_str (own_fault ow))),
            ow\<lparr>final_settle_requested := False\<rparr>)
      else if expired
      then (Inl (owner_error ''RH56 final tracking settle readiness timed out''),
            ow\<lparr>final_settle_requested := False\<rparr>)
      else (Inr None, ow))"

end
