(* ===== verification/Watchdog_Worker.thy ===== *)
theory Watchdog_Worker
  imports Watchdog_Owner
begin

text \<open>
  The worker thread of \<open>RH56WatchdogOwner\<close>: \<open>_worker_main\<close> with its helpers, cut where another
  thread may take the lock. Each piece is a program that ends with the next program counter. A
  piece does its transport calls and the following region under the lock; what it does between
  publishing a fault and the end of the stop commutes with every other thread, which can then
  only read the owner's state or set its stop flag.
\<close>

section \<open>Helpers\<close>

definition sysO :: "('s system, 'a) prog \<Rightarrow> ('s owner, 'a) prog" where
  "sysO m = on_part own_sys (\<lambda>s ow. ow\<lparr>own_sys := s\<rparr>) m"

text \<open>Calls that reach the world, or everything but the actuator.\<close>

definition worldO :: "('s, 'a) prog \<Rightarrow> ('s owner, 'a) prog" where
  "worldO m = sysO (on_part world (\<lambda>w s. s\<lparr>world := w\<rparr>) m)"

definition outsideO :: "('s outside, 'a) prog \<Rightarrow> ('s owner, 'a) prog" where
  "outsideO m =
     sysO (on_part (\<lambda>s. (gate_of s, ledger_of s, world s))
             (\<lambda>(g, l, w) s. s\<lparr>gate_of := g, ledger_of := l, world := w\<rparr>) m)"

definition opO :: "('s owner, 'a) op \<Rightarrow> ('s owner, 'a) prog" where
  "opO f = call_part (\<lambda>ow. ow) (\<lambda>ow _. ow) f"

definition the_actuator :: "('s owner, actuator) prog" where
  "the_actuator = gets (act \<circ> own_sys)"

definition logO :: "owner_event \<Rightarrow> ('s owner, unit) prog" where
  "logO c = modify (\<lambda>ow. ow\<lparr>own_log := own_log ow @ [c]\<rparr>)"

definition attempt_disable :: "('s owner, unit) prog" where
  "attempt_disable = modify (\<lambda>ow. ow\<lparr>disable_attempted := True\<rparr>)"

definition cache_feedback :: "'s owner_env \<Rightarrow> safety_feedback \<Rightarrow> ('s owner, unit) prog" where
  "cache_feedback X f =
     bindP (opO (own_now X)) (\<lambda>cached.
     bindP (opO (wall_now X)) (\<lambda>realtime_now.
     let age = cached - captured_monotonic_s f in
     thenP (raise_if (age < 0) (owner_error ''RH56 feedback timestamp is in the future at cache boundary''))
    (bindP (lift_res (make_timestamped f (realtime_now - age) cached)) (\<lambda>sample.
     thenP (modify (\<lambda>ow. ow\<lparr>feedback_history :=
                          push_bounded (feedback_history_capacity (own_cfg ow)) sample (feedback_history ow)\<rparr>))
    (bindP (gets own_cfg) (\<lambda>cfg.
       call_part own_tracking (\<lambda>tr ow. ow\<lparr>own_tracking := tr\<rparr>) (evaluate_tracking cfg f)))))))"

definition register_tracking_target :: "int list \<Rightarrow> fl \<Rightarrow> ('s owner, unit) prog" where
  "register_tracking_target targets now0 =
     bindP (lift_res (finite_float (PyFloat now0) ''tracking target time'')) (\<lambda>now.
     bindP (gets id) (\<lambda>ow.
     thenP (raise_if (feedback_history ow = [])
              (owner_error ''RH56 physical tracking cannot start without feedback''))
           (modify (\<lambda>ow. ow\<lparr>own_tracking :=
              register_targets (own_cfg ow) now targets (tf_feedback (last (feedback_history ow)))
                (own_tracking ow)\<rparr>))))"

text \<open>\<open>_fail_pending_ledger\<close>: whatever \<open>fail\<close> raises is dropped.\<close>

definition fail_pending_ledger :: "string \<Rightarrow> ('s owner, int option) prog" where
  "fail_pending_ledger reason =
     bindP (gets (ledger_pending_sequence \<circ> ledger_of \<circ> own_sys)) (\<lambda>pending.
     case pending of
       None \<Rightarrow> ret None
     | Some sequence \<Rightarrow>
         thenP (tryP (sysO (ledger_op (ledger_fail ''rh56'' sequence reason)))) (ret (Some sequence)))"

definition complete_request :: "execute_request option \<Rightarrow> exn \<Rightarrow> 's owner \<Rightarrow> 's owner" where
  "complete_request request e ow =
     (case request of None \<Rightarrow> ow | Some q \<Rightarrow> complete_ticket (req_ticket q) (Inl e) ow)"

definition new_fault :: "string \<Rightarrow> fl \<Rightarrow> int option \<Rightarrow> owner_fault" where
  "new_fault detail now pending =
     \<lparr>fault_reason = detail, detected_monotonic_s = now, fault_pending_sequence = pending,
      fault_stop_confirmed = False, fault_stop_error = None\<rparr>"

definition publish_fault :: "'s owner_env \<Rightarrow> string \<Rightarrow> ('s owner, unit) prog" where
  "publish_fault X reason =
     (let detail = strip_or reason ''unspecified RH56 owner fault'' in
     bindP (fail_pending_ledger detail) (\<lambda>pending.
     bindP (gets own_fault) (\<lambda>fault.
     thenP (case fault of
              None \<Rightarrow> bindP (opO (own_now X)) (\<lambda>now.
                        modify (\<lambda>ow. ow\<lparr>own_fault := Some (new_fault detail now pending)\<rparr>))
            | Some f \<Rightarrow> ret ())
    (bindP (gets id) (\<lambda>ow.
     thenP (modify (\<lambda>ow. ow\<lparr>own_state := OS_FAULT_LATCHED, fault_event := True, fault_callback_sent := True,
              own_request := None\<rparr>))
    (thenP (modify (complete_request (own_request ow) (owner_error detail)))
    (thenP (logO (FaultPublished detail))
           (case fault_callback X of
              None \<Rightarrow> ret ()
            | Some callback \<Rightarrow>
                (case own_fault ow of
                   None \<Rightarrow> ret ()
                 | Some f \<Rightarrow>
                     if fault_callback_sent ow then ret ()
                     else thenP (tryP (outsideO (callback f))) (ret ()))))))))))"

definition finished_fault ::
    "stop_report option \<Rightarrow> exn option \<Rightarrow> bool \<Rightarrow> owner_fault \<Rightarrow> owner_fault" where
  "finished_fault report stop_error override f =
     (let newly = override \<or> (case report of None \<Rightarrow> False | Some r \<Rightarrow> report_verified r);
          confirmed = fault_stop_confirmed f \<or> newly
      in f\<lparr>fault_stop_confirmed := confirmed,
           fault_stop_error := (if confirmed then None
                                else case stop_error of Some e \<Rightarrow> Some (exn_msg e) | None \<Rightarrow> fault_stop_error f)\<rparr>)"

definition finish_fault_stop :: "stop_report option \<Rightarrow> exn option \<Rightarrow> bool \<Rightarrow> 's owner \<Rightarrow> 's owner" where
  "finish_fault_stop report stop_error override ow =
     (case own_fault ow of
        None \<Rightarrow> ow
      | Some f \<Rightarrow>
          ow\<lparr>own_fault := Some (finished_fault report stop_error override f),
            own_stop_report := (case report of None \<Rightarrow> own_stop_report ow | Some r \<Rightarrow> Some r)\<rparr>)"

text \<open>\<open>fault_and_disable\<close> with its outcome as a report or an error.\<close>

definition stop_after_fault :: "nat \<Rightarrow> 's owner_env \<Rightarrow> string \<Rightarrow> ('s owner, exn + stop_report) prog" where
  "stop_after_fault tid X reason =
     thenP (logO StopCalled) (tryP (sysO (fault_and_disable tid (actuator_env X) reason)))"

fun report_of :: "exn + stop_report \<Rightarrow> stop_report option" where
  "report_of (Inl e) = None"
| "report_of (Inr r) = Some r"

fun error_of :: "exn + stop_report \<Rightarrow> exn option" where
  "error_of (Inl e) = Some e"
| "error_of (Inr r) = None"

definition watchdog_expire :: "nat \<Rightarrow> 's owner_env \<Rightarrow> fl \<Rightarrow> ('s owner, unit) prog" where
  "watchdog_expire tid X now =
     bindP the_actuator (\<lambda>a.
     let reason = ''RH56 independent owner watchdog reached the command heartbeat deadline=''
           @ (case policy_watchdog_deadline_monotonic_s a of None \<Rightarrow> ''None'' | Some d \<Rightarrow> float_repr d)
           @ '', now='' @ fixed_str 9 now in
     thenP (publish_fault X reason)
    (thenP attempt_disable
    (thenP (logO StopCalled)
    (bindP (tryP (bindP (sysO (enforce_policy_watchdog tid (actuator_env X) (Some (PyFloat now)))) (\<lambda>r.
              case r of
                None \<Rightarrow> throw (tx_error ''owner selected watchdog expiry before actuator deadline'')
              | Some rep \<Rightarrow> ret rep))) (\<lambda>r.
     bindP the_actuator (\<lambda>b.
     bindP (if report_of r = None \<and> act_state b = AS_ARMED then stop_after_fault tid X reason else ret r) (\<lambda>r'.
       modify (finish_fault_stop (report_of r') (error_of r') False)))))))) "

definition normal_disable :: "nat \<Rightarrow> 's owner_env \<Rightarrow> ('s owner, unit) prog" where
  "normal_disable tid X =
     thenP attempt_disable
    (thenP (logO StopCalled)
    (bindP (sysO (disable_and_verify tid (actuator_env X))) (\<lambda>report.
       modify (\<lambda>ow. ow\<lparr>own_stop_report := Some report\<rparr>))))"

definition poll_owner_safety :: "nat \<Rightarrow> 's owner_env \<Rightarrow> ('s owner, safety_feedback) prog" where
  "poll_owner_safety tid X =
     bindP (gets (supervised_target_only \<circ> own_cfg)) (\<lambda>supervised.
       sysO (poll_safety tid (actuator_env X) (PyBool supervised)))"

section \<open>Starting\<close>

definition worker_open :: "nat \<Rightarrow> 's owner_env \<Rightarrow> ('s owner, worker_pc) prog" where
  "worker_open tid X =
     thenP (sysO (session_factory X))
    (thenP (modify (\<lambda>ow. ow\<lparr>own_session := True\<rparr>))
    (bindP the_actuator (\<lambda>a.
     thenP (raise_if (owner_thread (act_owner a) \<noteq> Some tid)
              (owner_error ''RH56 actuator was not claimed by its lifecycle worker''))
    (thenP (raise_if (act_state a \<noteq> AS_ARMED)
              (owner_error ''RH56 owned session did not return an armed actuator''))
    (thenP (raise_if (policy_watchdog_deadline_monotonic_s a = None \<and> \<not> awaiting_first_numeric_command a)
              (owner_error ''RH56 bootstrap heartbeat/deadline is absent after arm''))
    (thenP (modify (\<lambda>ow. ow\<lparr>actuator_watchdog_timeout_s := Some (inter_command_watchdog_timeout_s a),
                          default_feedback_maximum_age_s := Some (maximum_feedback_age_s (settings_of a))\<rparr>))
    (bindP (gets own_cfg) (\<lambda>cfg. ret (W_Bootstrap (nat (bootstrap_feedback_samples cfg)))))))))))"

text \<open>The heartbeat must be alive, or the supervised session still waiting for its first command.\<close>

definition check_bootstrap_heartbeat :: "nat \<Rightarrow> 's owner_env \<Rightarrow> string \<Rightarrow> ('s owner, unit) prog" where
  "check_bootstrap_heartbeat tid X message =
     bindP (opO (own_now X)) (\<lambda>now.
     bindP the_actuator (\<lambda>a.
     case policy_watchdog_deadline_monotonic_s a of
       None \<Rightarrow>
         if awaiting_first_numeric_command a then ret ()
         else thenP (watchdog_expire tid X now) (throw (owner_error message))
     | Some deadline \<Rightarrow>
         if deadline \<le> now then thenP (watchdog_expire tid X now) (throw (owner_error message)) else ret ()))"

definition worker_bootstrap :: "nat \<Rightarrow> 's owner_env \<Rightarrow> nat \<Rightarrow> ('s owner, worker_pc) prog" where
  "worker_bootstrap tid X n =
     (case n of
        0 \<Rightarrow> ret W_Ready
      | Suc m \<Rightarrow>
          thenP (check_bootstrap_heartbeat tid X ''RH56 bootstrap heartbeat expired before readiness'')
         (bindP (poll_owner_safety tid X) (\<lambda>feedback.
          thenP (cache_feedback X feedback) (ret (W_Bootstrap m)))))"

definition worker_ready :: "nat \<Rightarrow> 's owner_env \<Rightarrow> ('s owner, worker_pc) prog" where
  "worker_ready tid X =
     thenP (check_bootstrap_heartbeat tid X ''RH56 bootstrap heartbeat expired during feedback bootstrap'')
    (bindP the_actuator (\<lambda>a.
     bindP (gets own_cfg) (\<lambda>cfg.
     thenP (raise_if (supervised_target_only cfg \<and>
                      maximum_feedback_age_s (settings_of a) + rnd64 (1 / 10 ^ 12) < feedback_hard_age_s cfg)
              (owner_error ''supervised feedback hard age exceeds the actuator freshness bound''))
    (bindP (gets feedback_history) (\<lambda>history.
     thenP (raise_if (history = []) (owner_error ''RH56 bootstrap produced no cached feedback''))
    (let captured = captured_monotonic_s (tf_feedback (last history)) in
     thenP (modify (\<lambda>ow. ow\<lparr>last_feedback_captured_s := captured,
              next_feedback_deadline_s := captured + feedback_period_s cfg, own_state := OS_RUNNING,
              first_command_readiness := True, own_ready := True\<rparr>))
           (ret W_Top)))))))"

section \<open>The loop\<close>

definition worker_top :: "nat \<Rightarrow> 's owner_env \<Rightarrow> ('s owner, worker_pc) prog" where
  "worker_top tid X =
     bindP (opO (own_now X)) (\<lambda>now0.
     bindP (gets id) (\<lambda>ow.
     bindP (if final_settle_active ow \<and> \<not> stop_requested ow
            then
              thenP (raise_if (case final_settle_deadline_s ow of None \<Rightarrow> True | Some d \<Rightarrow> d \<le> now0)
                       (owner_error ''RH56 bounded final physical-tracking settle expired without a verified result''))
             (thenP (sysO (refresh_supervised_sample_hold_heartbeat tid (actuator_env X))) (opO (own_now X)))
            else ret now0) (\<lambda>now.
     bindP the_actuator (\<lambda>a.
     let deadline = policy_watchdog_deadline_monotonic_s a; awaiting = awaiting_first_numeric_command a in
     thenP (raise_if (deadline = None \<and> \<not> awaiting)
              (owner_error ''RH56 watchdog deadline disappeared while running''))
    (bindP (gets id) (\<lambda>ow.
       ret (W_Choose
         \<lparr>view_now = now, view_deadline = deadline, view_awaiting_first = awaiting,
          view_feedback_due = (supervised_target_only (own_cfg ow) \<and> next_feedback_deadline_s ow \<le> now),
          view_feedback_expired = (supervised_target_only (own_cfg ow) \<and>
             last_feedback_captured_s ow + feedback_hard_age_s (own_cfg ow) \<le> now)\<rparr>)))))))"

text \<open>The deadlines the worker may sleep until.\<close>

definition wake_deadlines :: "loop_view \<Rightarrow> 's owner \<Rightarrow> fl list" where
  "wake_deadlines v ow =
     (case view_deadline v of None \<Rightarrow> [] | Some d \<Rightarrow> [d])
     @ (if supervised_target_only (own_cfg ow) then [next_feedback_deadline_s ow] else [])
     @ (if final_settle_active ow then (case final_settle_deadline_s ow of None \<Rightarrow> [] | Some d \<Rightarrow> [d]) else [])"

text \<open>The decision under the lock.\<close>

definition worker_choose :: "loop_view \<Rightarrow> ('s owner, worker_pc) prog" where
  "worker_choose v =
     bindP (gets id) (\<lambda>ow.
     let request = own_request ow; take = modify (\<lambda>ow. ow\<lparr>own_request := None\<rparr>) in
     if stop_requested ow then thenP take (ret (W_Stop request))
     else if final_settle_requested ow
     then thenP (modify (\<lambda>ow. ow\<lparr>final_settle_requested := False\<rparr>)) (ret W_Settle)
     else if (case view_deadline v of None \<Rightarrow> False | Some d \<Rightarrow> d \<le> view_now v)
     then thenP take (ret (W_Watchdog request (view_now v)))
     else if view_feedback_expired v then thenP take (ret (W_Stale request (view_now v)))
     else case request of
       Some q \<Rightarrow> thenP take (thenP (modify (\<lambda>ow. ow\<lparr>request_inflight := True\<rparr>)) (ret (W_Execute q)))
     | None \<Rightarrow>
         if view_feedback_due v then ret W_Poll
         else if view_awaiting_first v \<and> \<not> supervised_target_only (own_cfg ow)
         then ret (W_WaitFirst (fl_max (rnd64 (1 / 1000))
                (maximum_feedback_age_s (settings_of (act (own_sys ow))) * Fin (1 / 2))))
         else
           (case wake_deadlines v ow of
              [] \<Rightarrow> throw (owner_error ''RH56 owner has no watchdog or feedback wake deadline'')
            | d # ds \<Rightarrow> ret (W_Wait (fl_max (Fin 0) (fold (\<lambda>x m. fl_min m x) ds d - view_now v)))))"

definition worker_wake_first :: "('s owner, worker_pc) prog" where
  "worker_wake_first =
     bindP (gets id) (\<lambda>ow. ret (if stop_requested ow \<or> own_request ow \<noteq> None then W_Top else W_Poll))"

definition worker_settle :: "nat \<Rightarrow> 's owner_env \<Rightarrow> ('s owner, worker_pc) prog" where
  "worker_settle tid X =
     thenP (sysO (refresh_supervised_sample_hold_heartbeat tid (actuator_env X)))
    (bindP the_actuator (\<lambda>a.
     bindP (gets own_cfg) (\<lambda>cfg.
     thenP (raise_if (inter_command_watchdog_timeout_s a \<le> feedback_period_s cfg)
              (owner_error ''RH56 feedback period cannot sustain the bounded final sample-hold heartbeat''))
           (ret W_Settled))))"

definition worker_settled :: "('s owner, worker_pc) prog" where
  "worker_settled =
     thenP (modify (\<lambda>ow. if stop_requested ow then ow else ow\<lparr>final_settle_active := True\<rparr>)) (ret W_Top)"

definition worker_stop :: "nat \<Rightarrow> 's owner_env \<Rightarrow> execute_request option \<Rightarrow> ('s owner, worker_pc) prog" where
  "worker_stop tid X request =
     thenP (case request of
              None \<Rightarrow> ret ()
            | Some q \<Rightarrow>
                let reason = ''RH56 owner stopped before queued sequence executed'' in
                thenP (fail_pending_ledger reason) (modify (complete_request request (owner_error reason))))
    (thenP (normal_disable tid X) (ret (W_Final None)))"

definition worker_watchdog ::
    "nat \<Rightarrow> 's owner_env \<Rightarrow> execute_request option \<Rightarrow> fl \<Rightarrow> ('s owner, worker_pc) prog" where
  "worker_watchdog tid X request now =
     thenP (modify (complete_request request (owner_error ''RH56 watchdog expired before queued execution'')))
    (thenP (watchdog_expire tid X now) (ret (W_Final None)))"

definition worker_stale :: "execute_request option \<Rightarrow> fl \<Rightarrow> ('s owner, worker_pc) prog" where
  "worker_stale request now =
     thenP (modify (complete_request request
              (owner_error ''RH56 complete feedback became stale before queued execution'')))
    (bindP (gets id) (\<lambda>ow.
       throw (owner_error (''RH56 complete feedback hard-age deadline expired: age=''
         @ fixed_str 6 (now - last_feedback_captured_s ow) @ ''s, limit=''
         @ fixed_str 6 (feedback_hard_age_s (own_cfg ow)) @ ''s''))))"

text \<open>A sample that was cached is the last one, and the next poll is due one period on.\<close>

definition advance_feedback :: "fl \<Rightarrow> ('s owner, unit) prog" where
  "advance_feedback captured =
     thenP (modify (\<lambda>ow. ow\<lparr>last_feedback_captured_s := captured\<rparr>))
    (bindP (gets id) (\<lambda>ow.
     bindP (lift_res (advance_periodic_deadline (next_feedback_deadline_s ow)
                        (feedback_period_s (own_cfg ow)) captured)) (\<lambda>next.
       modify (\<lambda>ow. ow\<lparr>next_feedback_deadline_s := next\<rparr>))))"

definition worker_poll :: "nat \<Rightarrow> 's owner_env \<Rightarrow> ('s owner, worker_pc) prog" where
  "worker_poll tid X =
     bindP (poll_owner_safety tid X) (\<lambda>feedback.
     bindP (gets id) (\<lambda>ow.
     let interval = captured_monotonic_s feedback - last_feedback_captured_s ow;
         limit = feedback_hard_age_s (own_cfg ow) in
     thenP (raise_if (supervised_target_only (own_cfg ow) \<and> limit < interval)
              (owner_error (''RH56 complete feedback interval exceeded hard age: actual=''
                 @ fixed_str 6 interval @ ''s, limit='' @ fixed_str 6 limit @ ''s'')))
    (thenP (cache_feedback X feedback)
    (thenP (advance_feedback (captured_monotonic_s feedback)) (ret W_Top)))))"

definition end_inflight :: "'s owner \<Rightarrow> 's owner" where
  "end_inflight ow = ow\<lparr>request_inflight := False\<rparr>"

definition worker_execute :: "nat \<Rightarrow> 's owner_env \<Rightarrow> execute_request \<Rightarrow> ('s owner, worker_pc) prog" where
  "worker_execute tid X q =
     bindP (gets (supervised_target_only \<circ> own_cfg)) (\<lambda>supervised.
     if supervised then
       bindP (sysO (execute_target_and_ack tid (actuator_env X) (req_command q))) (\<lambda>receipt.
       thenP (if numeric_write_performed receipt
              then register_tracking_target (exact_target receipt) (tgt_acknowledged_monotonic_s receipt)
              else ret ())
      (thenP (modify end_inflight)
      (thenP (modify (complete_ticket (req_ticket q) (Inr (TargetReceipt receipt)))) (ret (W_AfterAck q)))))
     else
       bindP (sysO (execute tid (actuator_env X) (req_command q))) (\<lambda>receipt.
       thenP (cache_feedback X (rcpt_feedback receipt))
      (thenP (modify (\<lambda>ow. ow\<lparr>last_feedback_captured_s := captured_monotonic_s (rcpt_feedback receipt)\<rparr>))
      (thenP (modify (complete_ticket (req_ticket q) (Inr (FullReceipt receipt))))
      (thenP (modify end_inflight) (ret W_Top))))))"

text \<open>A supervised target is acknowledged before a due poll; here is the poll.\<close>

definition worker_after_ack :: "nat \<Rightarrow> 's owner_env \<Rightarrow> ('s owner, worker_pc) prog" where
  "worker_after_ack tid X =
     bindP (opO (own_now X)) (\<lambda>now_after_ack.
     bindP (gets id) (\<lambda>ow.
     thenP (raise_if (last_feedback_captured_s ow + feedback_hard_age_s (own_cfg ow) \<le> now_after_ack)
              (owner_error ''RH56 complete feedback became stale during target ACK''))
    (thenP (if next_feedback_deadline_s ow \<le> now_after_ack
            then
              bindP (poll_owner_safety tid X) (\<lambda>feedback.
              bindP (gets id) (\<lambda>ow.
              thenP (raise_if (feedback_hard_age_s (own_cfg ow)
                                 < captured_monotonic_s feedback - last_feedback_captured_s ow)
                       (owner_error ''RH56 complete feedback interval exceeded hard age after target ACK''))
             (thenP (cache_feedback X feedback) (advance_feedback (captured_monotonic_s feedback)))))
            else ret ())
    (thenP (modify end_inflight) (ret W_Top)))))"

section \<open>Failures and the end\<close>

text \<open>
  The exception handler of a request: the fault is published, the actuator is stopped unless its
  own transaction already was, and the ticket fails.
\<close>

definition failure_reason :: "execute_request \<Rightarrow> exn \<Rightarrow> string" where
  "failure_reason q e = ''RH56 owner sequence '' @ int_str (cmd_sequence (req_command q)) @ '': '' @ exn_msg e"

definition stop_failed_request ::
    "nat \<Rightarrow> 's owner_env \<Rightarrow> string \<Rightarrow> ('s owner, stop_report option \<times> exn option) prog" where
  "stop_failed_request tid X reason =
     bindP the_actuator (\<lambda>a.
     thenP attempt_disable
    (if stop_confirmed a then bindP (gets own_stop_report) (\<lambda>existing. ret (existing, None))
     else if act_state a = AS_ARMED \<or> act_state a = AS_FAULT_LATCHED
     then bindP (stop_after_fault tid X reason) (\<lambda>r. ret (report_of r, error_of r))
     else ret (None, Some (tx_error (case act_fault_reason a of
                                       None \<Rightarrow> ''RH56 execute stop was unconfirmed''
                                     | Some m \<Rightarrow> if m = [] then ''RH56 execute stop was unconfirmed'' else m)))))"

definition worker_failed ::
    "nat \<Rightarrow> 's owner_env \<Rightarrow> execute_request \<Rightarrow> exn \<Rightarrow> ('s owner, worker_pc) prog" where
  "worker_failed tid X q e =
     finallyP
       (let reason = failure_reason q e in
        thenP (publish_fault X reason)
       (bindP (stop_failed_request tid X reason) (\<lambda>(report, stop_error).
        bindP the_actuator (\<lambda>a.
        thenP (modify (finish_fault_stop report stop_error (stop_confirmed a)))
       (thenP (modify (complete_ticket (req_ticket q) (Inl e))) (ret (W_Final None)))))))
       end_inflight"

text \<open>The outer \<open>except BaseException\<close>.\<close>

definition worker_handler :: "nat \<Rightarrow> 's owner_env \<Rightarrow> exn \<Rightarrow> ('s owner, worker_pc) prog" where
  "worker_handler tid X e =
     (let reason = ''RH56 owner worker failed: '' @ exn_msg e in
     thenP (modify (\<lambda>ow. if own_state ow = OS_STARTING then ow\<lparr>startup_error := Some e\<rparr> else ow))
    (bindP (gets own_fault) (\<lambda>fault.
     thenP (if fault = None then publish_fault X reason else ret ())
    (bindP (gets id) (\<lambda>ow.
     let a = act (own_sys ow) in
     if own_session ow \<and> \<not> stop_confirmed a \<and> (act_state a = AS_ARMED \<or> act_state a = AS_FAULT_LATCHED)
     then
       thenP attempt_disable
      (bindP (stop_after_fault tid X reason) (\<lambda>r.
       thenP (modify (finish_fault_stop (report_of r) (error_of r) False)) (ret (W_Final None))))
     else if own_session ow \<and> stop_confirmed a
     then
       thenP attempt_disable
      (thenP (modify (finish_fault_stop (own_stop_report ow) None True)) (ret (W_Final None)))
     else ret (W_Final None))))))"

text \<open>The outer \<open>finally\<close>: a last disable if none was attempted, then the close.\<close>

definition last_disable :: "nat \<Rightarrow> 's owner_env \<Rightarrow> ('s owner, unit) prog" where
  "last_disable tid X =
     bindP (gets id) (\<lambda>ow.
     if act_state (act (own_sys ow)) = AS_ARMED \<and> \<not> disable_attempted ow
     then
       thenP attempt_disable
      (catchP (normal_disable tid X) (\<lambda>e.
         thenP (publish_fault X (''RH56 final disable before close failed: '' @ exn_msg e))
               (modify (finish_fault_stop None (Some e) False))))
     else ret ())"

definition close_session :: "'s owner_env \<Rightarrow> ('s owner, unit) prog" where
  "close_session X =
     thenP (modify (\<lambda>ow. ow\<lparr>close_attempted := True\<rparr>))
    (thenP (logO CloseCalled)
    (catchP
       (thenP (worldO (session_close X)) (modify (\<lambda>ow. ow\<lparr>serial_closed := True\<rparr>)))
       (\<lambda>e.
          thenP (modify (\<lambda>ow. ow\<lparr>serial_closed := False\<rparr>))
         (thenP (publish_fault X (''RH56 owned serial close failed: '' @ exn_msg e))
         (bindP (gets id) (\<lambda>ow.
            modify (finish_fault_stop (own_stop_report ow) None (stop_confirmed (act (own_sys ow))))))))))"

text \<open>Both parts carry the exception the handler raised, if any; it is raised again after the last one.\<close>

definition worker_final :: "nat \<Rightarrow> 's owner_env \<Rightarrow> exn option \<Rightarrow> ('s owner, worker_pc) prog" where
  "worker_final tid X pending =
     bindP (gets own_session) (\<lambda>session.
     if session then thenP (last_disable tid X) (thenP (close_session X) (ret (W_Last pending)))
     else ret (W_Last pending))"

definition worker_last :: "exn option \<Rightarrow> ('s owner, worker_pc) prog" where
  "worker_last pending =
     thenP (modify (\<lambda>ow. ow\<lparr>final_settle_requested := False, final_settle_active := False,
              final_settle_deadline_s := None,
              own_state := (if own_fault ow = None then OS_STOPPED else OS_FAULT_LATCHED),
              own_ready := True, worker_stopped := True\<rparr>))
           (ret (case pending of None \<Rightarrow> W_End | Some e \<Rightarrow> W_Dead e))"

section \<open>The worker\<close>

fun worker_phase :: "nat \<Rightarrow> 's owner_env \<Rightarrow> worker_pc \<Rightarrow> ('s owner, worker_pc) prog" where
  "worker_phase tid X W_None = ret W_None"
| "worker_phase tid X W_Start = worker_open tid X"
| "worker_phase tid X (W_Bootstrap n) = worker_bootstrap tid X n"
| "worker_phase tid X W_Ready = worker_ready tid X"
| "worker_phase tid X W_Top = worker_top tid X"
| "worker_phase tid X (W_Choose v) = worker_choose v"
| "worker_phase tid X (W_Wait t) = ret W_Top"
| "worker_phase tid X (W_WaitFirst t) = worker_wake_first"
| "worker_phase tid X W_Settle = worker_settle tid X"
| "worker_phase tid X W_Settled = worker_settled"
| "worker_phase tid X (W_Stop r) = worker_stop tid X r"
| "worker_phase tid X (W_Watchdog r now) = worker_watchdog tid X r now"
| "worker_phase tid X (W_Stale r now) = worker_stale r now"
| "worker_phase tid X W_Poll = worker_poll tid X"
| "worker_phase tid X (W_Execute q) = worker_execute tid X q"
| "worker_phase tid X (W_AfterAck q) = worker_after_ack tid X"
| "worker_phase tid X (W_Failed q e) = worker_failed tid X q e"
| "worker_phase tid X (W_Handler e) = worker_handler tid X e"
| "worker_phase tid X (W_Final p) = worker_final tid X p"
| "worker_phase tid X (W_Last p) = worker_last p"
| "worker_phase tid X W_End = ret W_End"
| "worker_phase tid X (W_Dead e) = ret (W_Dead e)"

text \<open>Where an exception of a phase is handled.\<close>

fun raised :: "worker_pc \<Rightarrow> exn \<Rightarrow> worker_pc" where
  "raised (W_Execute q) e = W_Failed q e"
| "raised (W_AfterAck q) e = W_Failed q e"
| "raised (W_Handler e0) e = W_Final (Some e)"
| "raised (W_Final p) e = W_Dead e"
| "raised (W_Last p) e = W_Dead e"
| "raised p e = W_Handler e"

text \<open>One step of the worker; \<open>None\<close> where a call in it never returns.\<close>

definition worker_step :: "nat \<Rightarrow> 's owner_env \<Rightarrow> 's owner \<Rightarrow> 's owner option" where
  "worker_step tid X ow =
     map_option (\<lambda>(r, ow'). ow'\<lparr>own_pc := (case r of Inl e \<Rightarrow> raised (own_pc ow) e | Inr pc \<Rightarrow> pc)\<rparr>)
       (worker_phase tid X (own_pc ow) ow)"

section \<open>All threads\<close>

text \<open>
  What the other threads do between two steps of the worker: the owner's methods, and whatever
  they do to the ledger, the gate and the world.
\<close>

inductive thread_step :: "nat \<Rightarrow> 's owner_env \<Rightarrow> 's owner \<Rightarrow> 's owner \<Rightarrow> bool" for tid X where
  by_worker: "worker_alive ow \<Longrightarrow> worker_step tid X ow = Some ow' \<Longrightarrow> thread_step tid X ow ow'"
| by_start: "start_owner ow = (r, ow') \<Longrightarrow> thread_step tid X ow ow'"
| by_start_result: "(ready \<longrightarrow> own_ready ow) \<Longrightarrow> start_result ready ow = (r, ow') \<Longrightarrow> thread_step tid X ow ow'"
| by_submit: "submit X c ow = (r, ow') \<Longrightarrow> thread_step tid X ow ow'"
| by_execute_result: "execute_result i ow = (r, ow') \<Longrightarrow> thread_step tid X ow ow'"
| by_begin_settle: "begin_final_settle X t ow = (r, ow') \<Longrightarrow> thread_step tid X ow ow'"
| by_await_settle: "await_final_settle expired ow = (r, ow') \<Longrightarrow> thread_step tid X ow ow'"
| by_request_stop: "thread_step tid X ow (request_stop ow)"
| by_peer: "thread_step tid X ow (ow\<lparr>own_sys := (own_sys ow)\<lparr>ledger_of := l, gate_of := g, world := w\<rparr>\<rparr>)"

end
