(* ===== verification/Watchdog_Frames.thy ===== *)
theory Watchdog_Frames
  imports Watchdog_Worker Actuator_Command_Proofs
begin

text \<open>
  What the calls of the watchdog's worker change. \<open>grows s t\<close>: an operation of the actuator kept
  its settings, only added to the history of its transport, and confirms a stop only on evidence
  in that history (\<open>proven\<close>). \<open>others ow ow'\<close>: only the ledger, the gate and the world moved.
\<close>

section \<open>The actuator's operations\<close>

definition proven :: "'s system \<Rightarrow> bool" where
  "proven s = (\<exists>a evs b fs. io_log s = a @ evs @ b \<and> stop_evidence (\<lambda>_. True) (settings_of (act s)) evs fs)"

definition grows :: "'s system \<Rightarrow> 's system \<Rightarrow> bool" where
  "grows s t =
     (settings_of (act t) = settings_of (act s) \<and> (\<exists>evs. io_log t = io_log s @ evs) \<and>
      (stop_confirmed (act t) \<longrightarrow> stop_confirmed (act s) \<or> proven t))"

definition backed :: "'s system \<Rightarrow> bool" where
  "backed s = (stop_confirmed (act s) \<longrightarrow> proven s)"

lemma grows_proven: "grows s t \<Longrightarrow> proven s \<Longrightarrow> proven t"
  unfolding grows_def proven_def by (metis append.assoc)

lemma grows_backed: "grows s t \<Longrightarrow> backed s \<Longrightarrow> backed t"
  using grows_proven by (auto simp: grows_def backed_def)

lemma grows_trans: "grows s t \<Longrightarrow> grows t u \<Longrightarrow> grows s u"
  using grows_proven [of t u] by (auto simp: grows_def)

lemma provenI:
  "io_log t = io_log s @ a @ evs @ b \<Longrightarrow> settings_of (act t) = cfg \<Longrightarrow> stop_evidence (\<lambda>_. True) cfg evs fs \<Longrightarrow> proven t"
  unfolding proven_def by (metis append.assoc)

lemma refused_grows: "refused s t \<Longrightarrow> grows s t"
  by (auto simp: refused_def grows_def)

lemma logged_grows:
  assumes "io_log t = io_log s @ evs @ stop" "stopped_log (\<lambda>_. True) (settings_of (act s)) (act t) stop"
  shows "grows s t"
  using assms provenI [of t s evs stop "[]" "settings_of (act s)"] by (auto simp: grows_def stopped_log_def)

lemma stop_post_grows:
  assumes "stop_post (\<lambda>_. True) (\<lambda>_. True) preserve s rep t"
  shows "grows s t \<and> report_verified rep \<and> proven t"
proof -
  obtain evs fs where e: "stop_evidence (\<lambda>_. True) (settings_of (act s)) evs fs" "io_log t = io_log s @ evs"
    "settings_of (act t) = settings_of (act s)" "report_verified rep"
    using assms by (auto simp: stop_post_def after_io_def stopped_actuator_def Let_def)
  then have "proven t" using provenI [of t s "[]" evs "[]" "settings_of (act s)" fs] by simp
  with e show ?thesis by (simp add: grows_def)
qed

lemma stop_fail_grows: "stop_fail (\<lambda>_. True) c s e t \<Longrightarrow> grows s t"
  by (auto simp: stop_fail_def after_io_def grows_def)

text \<open>The same operation started from a state whose actuator differs only in fields that do not matter here.\<close>

lemma grows_from:
  assumes "grows s' t" "io_log s' = io_log s" "settings_of (act s') = settings_of (act s)"
    "stop_confirmed (act s') \<longrightarrow> stop_confirmed (act s)"
  shows "grows s t"
  using assms by (auto simp: grows_def)

lemma wp_run_stop_grows:
  "wp (run_stop E preserve) (\<lambda>rep t. grows s t \<and> report_verified rep \<and> proven t) (\<lambda>_ t. grows s t) s"
  by (rule wp_mono [OF any_world.wp_run_stop]) (auto dest: stop_post_grows stop_fail_grows)

lemma command_grows:
  "executed (\<lambda>_. True) c s r t \<Longrightarrow> grows s t" "stopped_after (\<lambda>_. True) c s t \<Longrightarrow> grows s t"
  "target_executed c s q t \<Longrightarrow> grows s t" "target_failed c s t \<Longrightarrow> grows s t"
  "polled (\<lambda>_. True) s f t \<Longrightarrow> grows s t" "poll_failed (\<lambda>_. True) d s t \<Longrightarrow> grows s t"
  by (auto simp: executed_def target_executed_def target_failed_def polled_def grows_def
      acknowledged_command_def record_feedback_def Let_def)
    (auto simp: stopped_after_def poll_failed_def dest!: logged_grows simp: grows_def split: if_splits)

lemma watchdog_stopped_grows: "watchdog_stopped (\<lambda>_. True) s t \<Longrightarrow> grows s t \<and> proven t"
  using provenI [of t s "[]" _ "[]" "settings_of (act s)"] by (fastforce simp: watchdog_stopped_def grows_def)

lemma wp_execute_grows: "wp (execute tid E c) (\<lambda>r t. executed (\<lambda>_. True) c s r t \<and> grows s t) (\<lambda>_ t. grows s t) s"
  by (rule wp_mono [OF any_world.wp_execute]) (auto dest: command_grows refused_grows)

lemma wp_target_grows:
  "wp (execute_target_and_ack tid E c) (\<lambda>r t. target_executed c s r t \<and> grows s t) (\<lambda>_ t. grows s t) s"
  by (rule wp_mono [OF any_world.wp_execute_target]) (auto dest: command_grows refused_grows)

lemma wp_poll_grows: "wp (poll_safety tid E d) (\<lambda>_ t. grows s t) (\<lambda>_ t. grows s t) s"
  by (rule wp_mono [OF any_world.wp_poll_safety]) (auto dest: command_grows refused_grows)

lemma wp_watchdog_grows:
  "wp (enforce_policy_watchdog tid E v) (\<lambda>r t. grows s t \<and> (r \<noteq> None \<longrightarrow> proven t)) (\<lambda>_ t. grows s t) s"
  by (rule wp_mono [OF any_world.wp_watchdog])
    (auto dest: command_grows refused_grows watchdog_stopped_grows split: if_splits)

lemma wp_disable_grows:
  "wp (disable_and_verify tid E) (\<lambda>rep t. grows s t \<and> report_verified rep \<and> proven t) (\<lambda>_ t. grows s t) s"
proof -
  have "grows s s" by (simp add: grows_def)
  then show ?thesis
    unfolding disable_and_verify_def wp_thenP
    by (intro wp_mono [OF wp_require_owner]) (auto simp: the_act_def intro: wp_run_stop_grows)
qed

lemma wp_fault_stop_grows:
  "wp (fault_and_disable tid E reason) (\<lambda>rep t. grows s t \<and> report_verified rep \<and> proven t) (\<lambda>_ t. grows s t) s"
proof -
  have "wp (run_stop E True) (\<lambda>rep t. grows s t \<and> report_verified rep \<and> proven t) (\<lambda>_ t. grows s t)
      (s\<lparr>act := latch_fault reason (act s)\<rparr>)"
    by (rule wp_mono [OF wp_run_stop_grows]) (auto intro: grows_from)
  moreover have "grows s s" by (simp add: grows_def)
  ultimately show ?thesis
    unfolding fault_and_disable_def wp_thenP
    by (intro wp_mono [OF wp_require_owner]) (auto simp: the_act_def on_act_def)
qed

lemma wp_refresh_grows:
  "wp (refresh_supervised_sample_hold_heartbeat tid E) (\<lambda>_ t. grows s t) (\<lambda>_ t. grows s t) s"
proof -
  have fr: "io_frame (\<lambda>_. True) [] s s" by (simp add: io_frame_def)
  show ?thesis
    unfolding refresh_supervised_sample_hold_heartbeat_def wp_thenP wp_bindP
    apply (rule wp_mono [OF wp_require_owner])
     apply (elim conjE, simp only:)
     apply (rule wp_mono [OF any_world.wp_act_now [OF fr]])
      apply (rule wp_mono [OF wp_require_armed])
    by (auto simp: the_act_def on_act_def grows_def io_frame_def dest!: same_but_gate_fields split: option.split)
qed

end
