(* ===== verification/Watchdog_Calls.thy ===== *)
theory Watchdog_Calls
  imports Watchdog_Frames
begin

text \<open>
  What the helpers of the watchdog's worker do, given a clock that gives finite times: publishing
  a fault, stopping after it, the last disable, and caching a sample. \<open>latched_by\<close> is the state
  after a fault, relative to the one it was published in; \<open>honest\<close> says that whatever the owner
  reports as a confirmed stop is proven by the history of the transport.
\<close>

definition sound_clock :: "'s owner_env \<Rightarrow> bool" where
  "sound_clock X = (\<forall>w. \<exists>t w'. own_monotonic X w = (Inr (Fin t), w'))"

section \<open>Calls\<close>

lemma wp_sysO [simp]:
  "wp (sysO m) Q E ow = wp m (\<lambda>x s. Q x (ow\<lparr>own_sys := s\<rparr>)) (\<lambda>e s. E e (ow\<lparr>own_sys := s\<rparr>)) (own_sys ow)"
  by (simp add: sysO_def)

lemma wp_the_actuator [simp]: "wp the_actuator Q E ow = Q (act (own_sys ow)) ow"
  by (simp add: the_actuator_def)

lemma wp_logO [simp]: "wp (logO c) Q E ow = Q () (ow\<lparr>own_log := own_log ow @ [c]\<rparr>)"
  by (simp add: logO_def)

lemma wp_attempt_disable [simp]: "wp attempt_disable Q E ow = Q () (ow\<lparr>disable_attempted := True\<rparr>)"
  by (simp add: attempt_disable_def)

lemma wp_opO [simp]:
  "wp (opO f) Q E ow = (case f ow of (r, ow') \<Rightarrow> (case r of Inl e \<Rightarrow> E e ow' | Inr x \<Rightarrow> Q x ow'))"
  by (simp add: opO_def)

text \<open>Only the ledger, the gate and the world moved.\<close>

definition touched :: "'s system \<Rightarrow> 's system \<Rightarrow> bool" where
  "touched s t = (act t = act s \<and> io_log t = io_log s)"

lemma touched_refl [simp]: "touched s s" "touched s (s\<lparr>world := w\<rparr>)" "touched s (s\<lparr>ledger_of := l\<rparr>)"
    "touched s (s\<lparr>gate_of := g, ledger_of := l, world := w\<rparr>)" "touched s (s\<lparr>ledger_of := l, gate_of := g, world := w\<rparr>)"
  by (simp_all add: touched_def)

lemma touched_trans: "touched s t \<Longrightarrow> touched t u \<Longrightarrow> touched s u"
  by (simp add: touched_def)

lemma touched_grows: "touched s t \<Longrightarrow> grows s t"
  by (simp add: touched_def grows_def)

lemma touched_proven: "touched s t \<Longrightarrow> proven t = proven s" "touched s t \<Longrightarrow> backed t = backed s"
  by (simp_all add: touched_def proven_def backed_def)

lemma grows_touched: "touched s t \<Longrightarrow> grows t u \<Longrightarrow> grows s u"
  by (auto simp: touched_def grows_def)

definition aside :: "'s owner \<Rightarrow> 's owner \<Rightarrow> bool" where
  "aside ow ow' = (\<exists>s. touched (own_sys ow) s \<and> ow' = ow\<lparr>own_sys := s\<rparr>)"

lemma asideI [intro]: "touched (own_sys ow) s \<Longrightarrow> aside ow (ow\<lparr>own_sys := s\<rparr>)"
  by (auto simp: aside_def)

lemma aside_refl [simp]: "aside ow ow"
  unfolding aside_def by (rule exI [of _ "own_sys ow"]) simp

lemma wp_clock:
  "wp (opO (world_clock c nm)) (\<lambda>n ow'. is_finite n \<and> aside ow ow') (\<lambda>_ ow'. aside ow ow') ow"
  by (auto simp: world_clock_def finite_float_PyFloat res_bind_Inr_iff split: prod.splits sum.splits if_splits)

lemma wp_own_now:
  assumes "sound_clock X"
  shows "wp (opO (own_now X)) (\<lambda>n ow'. is_finite n \<and> aside ow ow') (\<lambda>_ _. False) ow"
proof -
  obtain t w where "own_monotonic X (world (own_sys ow)) = (Inr (Fin t), w)"
    using assms unfolding sound_clock_def by metis
  then show ?thesis by (auto simp: own_now_def world_clock_def finite_float_PyFloat)
qed

section \<open>Tickets\<close>

definition open_tickets :: "owner_ticket list \<Rightarrow> nat set" where
  "open_tickets ks = {i. i < length ks \<and> \<not> ticket_done (ks ! i)}"

definition taken :: "execute_request option \<Rightarrow> nat set" where
  "taken r = (case r of None \<Rightarrow> {} | Some q \<Rightarrow> {req_ticket q})"

lemma taken_simps [simp]: "taken None = {}" "taken (Some q) = {req_ticket q}"
  by (simp_all add: taken_def)

lemma open_set_result [simp]: "open_tickets (set_result i r ks) = open_tickets ks - {i}"
  by (cases "i < length ks")
    (auto simp: open_tickets_def set_result_def ticket_complete_def ticket_done_def nth_list_update split: if_splits)

lemma complete_request_alt:
  "complete_request r e ow = ow\<lparr>tickets := (case r of None \<Rightarrow> tickets ow | Some q \<Rightarrow> set_result (req_ticket q) (Inl e) (tickets ow))\<rparr>"
  by (cases r) (simp_all add: complete_request_def complete_ticket_def)

lemma open_complete_request [simp]:
  "open_tickets (case r of None \<Rightarrow> ks | Some q \<Rightarrow> set_result (req_ticket q) x ks) = open_tickets ks - taken r"
  by (cases r) simp_all

lemma open_append [simp]: "open_tickets (ks @ [\<lparr>tk_sequence = n, tk_result = None\<rparr>]) = insert (length ks) (open_tickets ks)"
  by (auto simp: open_tickets_def ticket_done_def nth_append less_Suc_eq)

section \<open>Publishing a fault\<close>

text \<open>What publishing keeps, and what it leaves.\<close>

definition core :: "'s owner \<Rightarrow> owner_config \<times> bool \<times> bool \<times> bool \<times> bool \<times> bool \<times> stop_report option" where
  "core ow = (own_cfg ow, own_session ow, stop_requested ow, request_inflight ow, close_attempted ow,
              disable_attempted ow, own_stop_report ow)"

definition published :: "'s owner \<Rightarrow> 's owner \<Rightarrow> bool" where
  "published ow ow' =
     (touched (own_sys ow) (own_sys ow') \<and> core ow' = core ow \<and> own_state ow' = OS_FAULT_LATCHED \<and>
      own_request ow' = None \<and> open_tickets (tickets ow') = open_tickets (tickets ow) - taken (own_request ow) \<and>
      (\<exists>f. own_fault ow' = Some f \<and> (own_fault ow = None \<longrightarrow> \<not> fault_stop_confirmed f) \<and>
           (\<forall>h. own_fault ow = Some h \<longrightarrow> f = h)))"

lemma wp_fail_pending: "wp (fail_pending_ledger d) (\<lambda>_ ow'. aside ow ow') (\<lambda>_ _. False) ow"
  by (auto simp: fail_pending_ledger_def ledger_op_def split: option.split prod.splits sum.splits)

lemma wp_publish:
  fixes X :: "'s owner_env"
  assumes "sound_clock X"
  shows "wp (publish_fault X r) (\<lambda>_ ow'. published ow ow') (\<lambda>_ _. False) ow"
proof -
  have callback: "wp (case fault_callback X of None \<Rightarrow> ret ()
      | Some k \<Rightarrow> (case fl of None \<Rightarrow> ret () | Some f \<Rightarrow> if b then ret () else thenP (tryP (outsideO (k f))) (ret ())))
      (\<lambda>_ ow'. published ow ow') (\<lambda>_ _. False) u" if "published ow u" for fl b u
  proof -
    have "published ow (u\<lparr>own_sys := s\<rparr>)" if "touched (own_sys u) s" for s
      using \<open>published ow u\<close> that by (auto simp: published_def core_def dest: touched_trans)
    then have "wp m (\<lambda>_ z. published ow (u\<lparr>own_sys := (case z of (g, l, w) \<Rightarrow> \<lambda>s. s\<lparr>gate_of := g, ledger_of := l, world := w\<rparr>) (own_sys u)\<rparr>))
        (\<lambda>_ z. published ow (u\<lparr>own_sys := (case z of (g, l, w) \<Rightarrow> \<lambda>s. s\<lparr>gate_of := g, ledger_of := l, world := w\<rparr>) (own_sys u)\<rparr>)) z"
      for m :: "('s outside, unit) prog" and z
      by (intro wp_I) (auto split: prod.split)
    then show ?thesis using that by (simp add: outsideO_def split: option.split)
  qed
  define mark where "mark = (\<lambda>u :: 's owner. u\<lparr>own_state := OS_FAULT_LATCHED, fault_event := True,
    fault_callback_sent := True, own_request := None\<rparr>)"
  have marked: "published ow (complete_request (own_request u) e (mark u)\<lparr>own_log := l\<rparr>)"
    if "touched (own_sys ow) (own_sys u)" "core u = core ow" "own_request u = own_request ow" "tickets u = tickets ow"
      "own_fault u = Some f" "own_fault ow = None \<longrightarrow> \<not> fault_stop_confirmed f" "\<forall>h. own_fault ow = Some h \<longrightarrow> f = h" for u f e l
    using that by (simp add: published_def complete_request_alt core_def mark_def)
  have rest: "wp (bindP (gets id) (\<lambda>ow. thenP (modify (\<lambda>u. mark u)) (thenP (modify (complete_request (own_request ow) e))
      (thenP (logO c) (case fault_callback X of None \<Rightarrow> ret ()
        | Some k \<Rightarrow> (case own_fault ow of None \<Rightarrow> ret ()
            | Some f \<Rightarrow> if fault_callback_sent ow then ret () else thenP (tryP (outsideO (k f))) (ret ())))))))
      (\<lambda>_ ow'. published ow ow') (\<lambda>_ _. False) u"
    if "touched (own_sys ow) (own_sys u)" "core u = core ow" "own_request u = own_request ow" "tickets u = tickets ow"
      "own_fault u = Some f" "own_fault ow = None \<longrightarrow> \<not> fault_stop_confirmed f" "\<forall>h. own_fault ow = Some h \<longrightarrow> f = h" for u f e c
    using callback [OF marked [OF that]] by (simp del: wp_case_option)
  show ?thesis
    unfolding publish_fault_def Let_def wp_bindP mark_def [symmetric]
  proof (rule wp_mono [OF wp_fail_pending], goal_cases)
    case (1 pending v)
    then obtain s where s: "touched (own_sys ow) s" "v = ow\<lparr>own_sys := s\<rparr>" by (auto simp: aside_def)
    show ?case
    proof (cases "own_fault ow")
      case None
      have recorded: "wp (bindP (opO (own_now X)) (\<lambda>now. modify (\<lambda>ow. ow\<lparr>own_fault := Some (new_fault d now pending)\<rparr>)))
          (\<lambda>_ z. \<exists>s' n. touched (own_sys ow) s' \<and> z = ow\<lparr>own_sys := s', own_fault := Some (new_fault d n pending)\<rparr>) (\<lambda>_ _. False) v" for d
        unfolding wp_bindP
        by (rule wp_mono [OF wp_own_now [OF assms]]) (use s in \<open>auto simp: aside_def dest: touched_trans\<close>)
      then show ?thesis
        unfolding wp_gets s(2) using None
        by (simp del: wp_case_option wp_bindP, intro wp_mono [OF recorded [unfolded s(2)]])
          (auto simp: core_def new_fault_def simp del: wp_case_option wp_bindP intro!: rest)
    next
      case (Some f)
      then show ?thesis using s by (auto simp: core_def simp del: wp_case_option wp_bindP intro!: rest)
    qed
  qed simp
qed

section \<open>Stopping after a fault\<close>

text \<open>Whatever the owner reports as a confirmed stop is proven by the history of the transport.\<close>

definition honest :: "'s owner \<Rightarrow> bool" where
  "honest ow =
     ((own_session ow \<longrightarrow> backed (own_sys ow)) \<and>
      (\<forall>r. own_stop_report ow = Some r \<longrightarrow> report_verified r \<longrightarrow> proven (own_sys ow)) \<and>
      (\<forall>f. own_fault ow = Some f \<longrightarrow> fault_stop_confirmed f \<longrightarrow> proven (own_sys ow)))"

lemma honest_grows: "honest ow \<Longrightarrow> grows (own_sys ow) s \<Longrightarrow> honest (ow\<lparr>own_sys := s\<rparr>)"
  by (auto simp: honest_def dest: grows_backed grows_proven)

lemma honest_finish:
  assumes "honest ow" "\<And>r. report = Some r \<Longrightarrow> report_verified r \<Longrightarrow> proven (own_sys ow)"
    "override \<Longrightarrow> proven (own_sys ow)"
  shows "honest (finish_fault_stop report err override ow)"
  using assms by (auto simp: honest_def finish_fault_stop_def finished_fault_def Let_def split: option.splits)

lemma finish_keeps [simp]:
  "own_cfg (finish_fault_stop r e b ow) = own_cfg ow" "own_session (finish_fault_stop r e b ow) = own_session ow"
  "stop_requested (finish_fault_stop r e b ow) = stop_requested ow"
  "request_inflight (finish_fault_stop r e b ow) = request_inflight ow"
  "close_attempted (finish_fault_stop r e b ow) = close_attempted ow"
  "disable_attempted (finish_fault_stop r e b ow) = disable_attempted ow"
  "own_state (finish_fault_stop r e b ow) = own_state ow" "own_request (finish_fault_stop r e b ow) = own_request ow"
  "own_sys (finish_fault_stop r e b ow) = own_sys ow" "tickets (finish_fault_stop r e b ow) = tickets ow"
  "own_fault (finish_fault_stop r e b ow) = None \<longleftrightarrow> own_fault ow = None"
  by (simp_all add: finish_fault_stop_def split: option.split)

definition frame :: "'s owner \<Rightarrow> owner_config \<times> bool \<times> bool \<times> bool \<times> bool" where
  "frame ow = (own_cfg ow, own_session ow, stop_requested ow, request_inflight ow, close_attempted ow)"

definition latched_by :: "'s owner \<Rightarrow> 's owner \<Rightarrow> bool" where
  "latched_by ow u =
     (frame u = frame ow \<and> own_state u = OS_FAULT_LATCHED \<and> own_request u = None \<and> own_fault u \<noteq> None \<and>
      open_tickets (tickets u) = open_tickets (tickets ow) - taken (own_request ow) \<and>
      grows (own_sys ow) (own_sys u) \<and> honest u)"

lemma latched_by_grows: "latched_by ow u \<Longrightarrow> grows (own_sys u) s \<Longrightarrow> latched_by ow (u\<lparr>own_sys := s\<rparr>)"
  using honest_grows [of u s] grows_trans [of "own_sys ow" "own_sys u" s] by (simp add: latched_by_def frame_def)

lemma latched_by_log [simp]:
  "latched_by ow (u\<lparr>own_log := l\<rparr>) = latched_by ow u" "latched_by ow (u\<lparr>disable_attempted := b\<rparr>) = latched_by ow u"
  by (simp_all add: latched_by_def frame_def honest_def)

lemma latched_by_finish:
  assumes "latched_by ow u" "\<And>r. report = Some r \<Longrightarrow> report_verified r \<Longrightarrow> proven (own_sys u)"
    "override \<Longrightarrow> proven (own_sys u)"
  shows "latched_by ow (finish_fault_stop report err override u)"
  using assms honest_finish [of u report override] by (auto simp: latched_by_def frame_def)

lemma core_frame:
  assumes "core u = core ow"
  shows "frame u = frame ow" "disable_attempted u = disable_attempted ow" "own_stop_report u = own_stop_report ow"
    "own_session u = own_session ow"
  using assms by (simp_all add: core_def frame_def)

lemma published_latched:
  assumes "published ow u" "honest ow"
  shows "latched_by ow u" "touched (own_sys ow) (own_sys u)" "disable_attempted u = disable_attempted ow"
proof -
  have p: "touched (own_sys ow) (own_sys u)" "core u = core ow" "own_state u = OS_FAULT_LATCHED" "own_request u = None"
    "open_tickets (tickets u) = open_tickets (tickets ow) - taken (own_request ow)"
    using assms(1) by (simp_all add: published_def)
  obtain f where f: "own_fault u = Some f" "own_fault ow = None \<longrightarrow> \<not> fault_stop_confirmed f"
    "\<forall>h. own_fault ow = Some h \<longrightarrow> f = h"
    using assms(1) unfolding published_def by (elim conjE exE) (rule that)
  have "honest u"
    using assms(2) f unfolding honest_def touched_proven [OF p(1)] core_frame [OF p(2)]
    by (cases "own_fault ow") auto
  with p f show "latched_by ow u" "touched (own_sys ow) (own_sys u)" "disable_attempted u = disable_attempted ow"
    by (simp_all add: latched_by_def core_frame [OF p(2)] touched_grows)
qed

lemma wp_publish_latched:
  assumes "sound_clock X" "honest ow"
  shows "wp (publish_fault X r) (\<lambda>_ u. latched_by ow u \<and> touched (own_sys ow) (own_sys u) \<and>
      disable_attempted u = disable_attempted ow) (\<lambda>_ _. False) ow"
  by (rule wp_mono [OF wp_publish [OF assms(1)]]) (simp_all add: published_latched [OF _ assms(2)])

text \<open>A second publication keeps the fault that is there.\<close>

lemma latched_by_trans: "latched_by ow u \<Longrightarrow> latched_by u v \<Longrightarrow> latched_by ow v"
  using grows_trans [of "own_sys ow" "own_sys u" "own_sys v"] by (simp add: latched_by_def)

lemma wp_publish_again:
  assumes "sound_clock X" "latched_by ow u"
  shows "wp (publish_fault X r) (\<lambda>_ v. latched_by ow v \<and> touched (own_sys u) (own_sys v) \<and>
      disable_attempted v = disable_attempted u) (\<lambda>_ _. False) u"
proof (rule wp_mono [OF wp_publish_latched [OF assms(1)]])
  show "honest u" using assms(2) by (simp add: latched_by_def)
qed (use latched_by_trans [OF assms(2)] in auto)

lemma wp_stop_after_fault:
  assumes "latched_by ow u"
  shows "wp (stop_after_fault tid X r) (\<lambda>res v. latched_by ow v \<and> disable_attempted v = disable_attempted u \<and>
      (\<forall>rep. report_of res = Some rep \<longrightarrow> proven (own_sys v))) (\<lambda>_ _. False) u"
  using assms unfolding stop_after_fault_def wp_thenP wp_logO wp_tryP wp_sysO
  by (auto intro!: wp_mono [OF wp_fault_stop_grows] latched_by_grows simp: latched_by_log)

lemma wp_watchdog_expire:
  assumes "sound_clock X" "honest ow"
  shows "wp (watchdog_expire tid X now) (\<lambda>_ u. latched_by ow u \<and> disable_attempted u) (\<lambda>_ _. False) ow"
proof -
  have expire: "wp (tryP (bindP (sysO (enforce_policy_watchdog tid E v)) (\<lambda>r. case r of None \<Rightarrow> throw e | Some rep \<Rightarrow> ret rep)))
      (\<lambda>r w. latched_by ow w \<and> disable_attempted w = disable_attempted u \<and> (\<forall>rep. report_of r = Some rep \<longrightarrow> proven (own_sys w)))
      (\<lambda>_ _. False) u" if "latched_by ow u" for u E v e
    unfolding wp_tryP wp_bindP wp_sysO
    by (rule wp_mono [OF wp_watchdog_grows]) (use that in \<open>auto intro: latched_by_grows\<close>)
  have finish: "wp (bindP (if b then stop_after_fault tid X reason else ret r) (\<lambda>r'.
        modify (finish_fault_stop (report_of r') (error_of r') False)))
      (\<lambda>_ u. latched_by ow u \<and> disable_attempted u) (\<lambda>_ _. False) u"
    if "latched_by ow u" "disable_attempted u" "\<forall>rep. report_of r = Some rep \<longrightarrow> proven (own_sys u)" for u r b reason
    unfolding wp_bindP
    using that by (auto intro!: wp_mono [OF wp_stop_after_fault [OF that(1)]] latched_by_finish)
  show ?thesis
    unfolding watchdog_expire_def wp_bindP [of the_actuator] wp_the_actuator Let_def wp_thenP
  proof (rule wp_mono [OF wp_publish_latched [OF assms]], goal_cases)
    case (1 x t)
    then have t: "latched_by ow (t\<lparr>disable_attempted := True, own_log := l\<rparr>)" for l by simp
    show ?case
      unfolding wp_attempt_disable wp_logO
    proof (subst wp_bindP, rule wp_mono [OF expire], goal_cases)
      case (2 r u)
      then show ?case
        by (simp only: wp_bindP [of the_actuator] wp_the_actuator) (intro finish; simp)
    qed (use t in auto)
  qed simp
qed

lemma wp_normal_disable:
  "wp (normal_disable tid X)
     (\<lambda>_ u. \<exists>s l rep. grows (own_sys ow) s \<and> proven s \<and> report_verified rep \<and>
        u = ow\<lparr>disable_attempted := True, own_log := l, own_sys := s, own_stop_report := Some rep\<rparr>)
     (\<lambda>_ u. \<exists>s l. grows (own_sys ow) s \<and> u = ow\<lparr>disable_attempted := True, own_log := l, own_sys := s\<rparr>) ow"
  unfolding normal_disable_def wp_thenP wp_logO wp_attempt_disable wp_bindP wp_sysO
  by (rule wp_mono [OF wp_disable_grows]) auto

section \<open>Feedback\<close>

definition sampled :: "'s owner \<Rightarrow> 's owner \<Rightarrow> bool" where
  "sampled ow u =
     (\<exists>s h tr. touched (own_sys ow) s \<and> u = ow\<lparr>own_sys := s, feedback_history := h, own_tracking := tr\<rparr>)"

lemma sampledI:
  "touched (own_sys ow) s \<Longrightarrow> sampled ow (ow\<lparr>own_sys := s\<rparr>)"
  "touched (own_sys ow) s \<Longrightarrow> sampled ow (ow\<lparr>own_sys := s, feedback_history := h, own_tracking := tr\<rparr>)"
proof -
  show "sampled ow (ow\<lparr>own_sys := s, feedback_history := h, own_tracking := tr\<rparr>)" if "touched (own_sys ow) s" for h tr
    unfolding sampled_def using that by (intro exI conjI) (assumption, rule refl)
  from this [of "own_tracking ow" "feedback_history ow"] show "sampled ow (ow\<lparr>own_sys := s\<rparr>)" if "touched (own_sys ow) s"
    using that by simp
qed

lemma wp_cache_feedback:
  "wp (cache_feedback X f)
     (\<lambda>_ u. sampled ow u \<and> (1 \<le> feedback_history_capacity (own_cfg ow) \<longrightarrow>
        feedback_history u \<noteq> [] \<and> tf_feedback (last (feedback_history u)) = f))
     (\<lambda>_ u. sampled ow u) ow"
proof -
  have last: "1 \<le> n \<Longrightarrow> push_bounded n x xs \<noteq> [] \<and> last (push_bounded n x xs) = x" for n and x :: 'b and xs
    by (auto simp: push_bounded_def)
  have sample: "make_timestamped f r c = Inr z \<Longrightarrow> tf_feedback z = f" for r c z
    by (auto simp: make_timestamped_def res_bind_Inr_iff value_error_def split: if_splits)
  show ?thesis
    unfolding cache_feedback_def wp_bindP own_now_def wall_now_def Let_def
  proof (rule wp_mono [OF wp_clock], goal_cases)
    case (1 c u)
    then obtain s where s: "touched (own_sys ow) s" "u = ow\<lparr>own_sys := s\<rparr>" by (auto simp: aside_def)
    show ?case
    proof (rule wp_mono [OF wp_clock], goal_cases)
      case (1 r v)
      then obtain t where t: "touched (own_sys ow) t" "v = ow\<lparr>own_sys := t\<rparr>"
        using s by (auto simp: aside_def dest: touched_trans)
      note kept = sampledI [OF t(1)]
      show ?case
        unfolding t(2) by (simp add: kept last sample split: sum.split prod.split)
    qed (use s in \<open>auto simp: aside_def intro!: sampledI dest: touched_trans\<close>)
  qed (auto simp: aside_def intro!: sampledI)
qed

lemma wp_register_target:
  "wp (register_tracking_target ts n) (\<lambda>_ u. \<exists>tr. u = ow\<lparr>own_tracking := tr\<rparr>) (\<lambda>_ u. u = ow) ow"
  by (auto simp: register_tracking_target_def split: sum.split)

lemma wp_advance_feedback:
  "wp (advance_feedback t) (\<lambda>_ u. \<exists>n. u = ow\<lparr>last_feedback_captured_s := t, next_feedback_deadline_s := n\<rparr>)
     (\<lambda>_ u. u = ow\<lparr>last_feedback_captured_s := t\<rparr>) ow"
  by (auto simp: advance_feedback_def split: sum.split)

lemma wp_poll_owner:
  "wp (poll_owner_safety tid X) (\<lambda>_ u. \<exists>s. grows (own_sys ow) s \<and> u = ow\<lparr>own_sys := s\<rparr>)
     (\<lambda>_ u. \<exists>s. grows (own_sys ow) s \<and> u = ow\<lparr>own_sys := s\<rparr>) ow"
  by (auto simp: poll_owner_safety_def intro!: wp_mono [OF wp_poll_grows])

end
