(* ===== verification/Watchdog_Proofs.thy ===== *)
theory Watchdog_Proofs
  imports Watchdog_Calls
begin

text \<open>
  The invariant of the watchdog owner and its threads. \<open>owner_inv\<close> says for every point of the
  worker which state the owner is in, which tickets are still open and who will complete them,
  and what a confirmed stop rests on; each phase of the worker and each method of the other
  threads keeps it.
\<close>

section \<open>The invariant\<close>

definition booting :: "owner_state \<Rightarrow> 's owner \<Rightarrow> bool" where
  "booting st ow =
     (own_state ow = st \<and> own_fault ow = None \<and> own_stop_report ow = None \<and> \<not> close_attempted ow \<and>
      own_request ow = None \<and> \<not> request_inflight ow \<and> open_tickets (tickets ow) = {})"

text \<open>In the loop, with \<open>hand\<close> the tickets the worker has taken off the queue.\<close>

definition running :: "nat set \<Rightarrow> 's owner \<Rightarrow> bool" where
  "running hand ow =
     (own_state ow = OS_RUNNING \<and> own_fault ow = None \<and> own_stop_report ow = None \<and> \<not> close_attempted ow \<and>
      own_session ow \<and> open_tickets (tickets ow) \<subseteq> taken (own_request ow) \<union> hand)"

definition cached :: "'s owner \<Rightarrow> bool" where
  "cached ow =
     (feedback_history ow \<noteq> [] \<and>
      last_feedback_captured_s ow = captured_monotonic_s (tf_feedback (last (feedback_history ow))))"

definition viewed :: "loop_view \<Rightarrow> 's owner \<Rightarrow> bool" where
  "viewed v ow =
     (view_deadline v = policy_watchdog_deadline_monotonic_s (act (own_sys ow)) \<and>
      view_feedback_expired v = (supervised_target_only (own_cfg ow) \<and>
        last_feedback_captured_s ow + feedback_hard_age_s (own_cfg ow) \<le> view_now v))"

definition faulted :: "'s owner \<Rightarrow> bool" where
  "faulted ow =
     (own_fault ow \<noteq> None \<and> own_state ow = OS_FAULT_LATCHED \<and> own_request ow = None \<and>
      open_tickets (tickets ow) = {})"

definition stopped_clean :: "'s owner \<Rightarrow> bool" where
  "stopped_clean ow =
     (own_fault ow = None \<and> own_state ow = OS_RUNNING \<and> stop_requested ow \<and> own_request ow = None \<and>
      open_tickets (tickets ow) = {} \<and> (\<exists>r. own_stop_report ow = Some r \<and> report_verified r))"

definition disabled :: "'s owner \<Rightarrow> bool" where
  "disabled ow = (own_session ow \<longrightarrow> disable_attempted ow \<or> act_state (act (own_sys ow)) = AS_DISARMED)"

fun at_pc :: "worker_pc \<Rightarrow> 's owner \<Rightarrow> bool" where
  "at_pc W_None ow = (booting OS_CREATED ow \<and> \<not> own_session ow)"
| "at_pc W_Start ow = (booting OS_STARTING ow \<and> \<not> own_session ow)"
| "at_pc (W_Bootstrap n) ow = (booting OS_STARTING ow \<and> own_session ow)"
| "at_pc W_Ready ow = (booting OS_STARTING ow \<and> own_session ow)"
| "at_pc W_Top ow = (running {} ow \<and> \<not> request_inflight ow \<and> cached ow)"
| "at_pc (W_Choose v) ow = (running {} ow \<and> \<not> request_inflight ow \<and> cached ow \<and> viewed v ow)"
| "at_pc (W_Wait t) ow = (running {} ow \<and> \<not> request_inflight ow \<and> cached ow)"
| "at_pc (W_WaitFirst t) ow = (running {} ow \<and> \<not> request_inflight ow \<and> cached ow)"
| "at_pc W_Settle ow = (running {} ow \<and> \<not> request_inflight ow \<and> cached ow)"
| "at_pc W_Settled ow = (running {} ow \<and> \<not> request_inflight ow \<and> cached ow)"
| "at_pc (W_Stop r) ow = (running (taken r) ow \<and> stop_requested ow \<and> own_request ow = None)"
| "at_pc (W_Watchdog r t) ow = running (taken r) ow"
| "at_pc (W_Stale r t) ow = running (taken r) ow"
| "at_pc W_Poll ow = (running {} ow \<and> \<not> request_inflight ow \<and> cached ow)"
| "at_pc (W_Execute q) ow = (running {req_ticket q} ow \<and> request_inflight ow \<and> own_request ow = None \<and> cached ow)"
| "at_pc (W_AfterAck q) ow = (running {} ow \<and> \<not> request_inflight ow \<and> cached ow)"
| "at_pc (W_Failed q e) ow = running {req_ticket q} ow"
| "at_pc (W_Handler e) ow =
     (\<not> close_attempted ow \<and>
      (faulted ow \<or> own_fault ow = None \<and> own_stop_report ow = None \<and>
         (own_state ow = OS_STARTING \<or> own_state ow = OS_RUNNING) \<and>
         open_tickets (tickets ow) \<subseteq> taken (own_request ow)))"
| "at_pc (W_Final p) ow = (p = None \<and> (faulted ow \<or> stopped_clean ow) \<and> disabled ow \<and> \<not> close_attempted ow)"
| "at_pc (W_Last p) ow = (p = None \<and> (faulted ow \<or> stopped_clean ow) \<and> disabled ow \<and> (own_session ow \<longrightarrow> close_attempted ow))"
| "at_pc W_End ow =
     (own_request ow = None \<and> open_tickets (tickets ow) = {} \<and> disabled ow \<and>
      (own_session ow \<longrightarrow> close_attempted ow) \<and>
      (own_fault ow \<noteq> None \<and> own_state ow = OS_FAULT_LATCHED \<or>
       own_fault ow = None \<and> own_state ow = OS_STOPPED \<and>
       (\<exists>r. own_stop_report ow = Some r \<and> report_verified r)))"
| "at_pc (W_Dead e) ow = False"

definition keeps_last :: "'s owner \<Rightarrow> bool" where
  "keeps_last ow = (1 \<le> feedback_history_capacity (own_cfg ow))"

definition inv_at :: "worker_pc \<Rightarrow> 's owner \<Rightarrow> bool" where
  "inv_at p ow = (honest ow \<and> keeps_last ow \<and> at_pc p ow)"

definition owner_inv :: "'s owner \<Rightarrow> bool" where
  "owner_inv ow = inv_at (own_pc ow) ow"

lemmas inv_defs = inv_at_def keeps_last_def booting_def running_def cached_def faulted_def stopped_clean_def disabled_def

lemma honest_running:
  "own_fault ow = None \<Longrightarrow> own_stop_report ow = None \<Longrightarrow> honest ow = (own_session ow \<longrightarrow> backed (own_sys ow))"
  by (simp add: honest_def)

text \<open>A session factory may hand over an actuator that already has a confirmed stop only with its evidence.\<close>

definition honest_factory :: "'s owner_env \<Rightarrow> bool" where
  "honest_factory X = (\<forall>s. wp (session_factory X) (\<lambda>_ t. backed t) (\<lambda>_ _. True) s)"

lemma sys_simps [simp]:
  "booting st (ow\<lparr>own_sys := s\<rparr>) = booting st ow" "running hand (ow\<lparr>own_sys := s\<rparr>) = running hand ow"
  "cached (ow\<lparr>own_sys := s\<rparr>) = cached ow" "faulted (ow\<lparr>own_sys := s\<rparr>) = faulted ow"
  "stopped_clean (ow\<lparr>own_sys := s\<rparr>) = stopped_clean ow" "keeps_last (ow\<lparr>own_sys := s\<rparr>) = keeps_last ow"
  by (simp_all add: inv_defs)

text \<open>The ends of a program, without their state.\<close>

lemma wp_ends:
  "wp (ret x) Q E = Q x" "wp (throw e) Q1 E = E e" "wp (modify f) Q2 E = (\<lambda>s. Q2 () (f s))"
  "wp (thenP m k) Q3 E = wp m (\<lambda>_. wp k Q3 E) E"
  by (rule ext, simp)+

text \<open>An operation of the actuator, and nothing else.\<close>

definition acted :: "'s owner \<Rightarrow> 's owner \<Rightarrow> bool" where
  "acted ow u = (\<exists>s. grows (own_sys ow) s \<and> u = ow\<lparr>own_sys := s\<rparr>)"

lemma actedI: "grows (own_sys ow) s \<Longrightarrow> acted ow (ow\<lparr>own_sys := s\<rparr>)"
  by (auto simp: acted_def)

text \<open>Before a fault, the handler finds the owner as the phase left it.\<close>

lemma to_handler:
  assumes "honest ow" "keeps_last ow" "\<not> close_attempted ow" "own_fault ow = None" "own_stop_report ow = None"
    "own_state ow = OS_STARTING \<or> own_state ow = OS_RUNNING" "open_tickets (tickets ow) \<subseteq> taken (own_request ow)"
  shows "inv_at (W_Handler e) ow"
  using assms by (simp add: inv_at_def)

lemma latched_to_handler:
  assumes "latched_by ow u" "keeps_last ow" "\<not> close_attempted ow" "open_tickets (tickets ow) \<subseteq> taken (own_request ow)"
  shows "inv_at (W_Handler e) u"
  using assms by (auto simp: latched_by_def frame_def inv_at_def keeps_last_def faulted_def)

lemma running_to_handler:
  "honest ow \<Longrightarrow> keeps_last ow \<Longrightarrow> running {} ow \<Longrightarrow> inv_at (W_Handler e) ow"
  by (rule to_handler) (simp_all add: running_def)

lemma booting_to_handler:
  "honest ow \<Longrightarrow> keeps_last ow \<Longrightarrow> booting OS_STARTING ow \<Longrightarrow> inv_at (W_Handler e) ow"
  by (rule to_handler) (simp_all add: booting_def)

lemma aside_honest: "aside ow u \<Longrightarrow> honest ow \<Longrightarrow> honest u"
  by (auto simp: aside_def intro: honest_grows touched_grows)

lemma aside_latched: "aside ow u \<Longrightarrow> latched_by u v \<Longrightarrow> latched_by ow v"
proof -
  assume "aside ow u" "latched_by u v"
  moreover have "frame (ow\<lparr>own_sys := s\<rparr>) = frame ow" for s by (simp add: frame_def)
  ultimately show "latched_by ow v" by (auto simp: aside_def latched_by_def intro: grows_touched)
qed

section \<open>Starting\<close>

lemma wp_heartbeat:
  assumes "sound_clock X" "honest ow"
  shows "wp (check_bootstrap_heartbeat tid X m) (\<lambda>_ u. aside ow u) (\<lambda>_ u. latched_by ow u) ow"
proof -
  have expire: "wp (thenP (watchdog_expire tid X n) (throw e)) (\<lambda>_ u. aside ow u) (\<lambda>_ u. latched_by ow u) v"
    if "aside ow v" for n e v
    unfolding wp_thenP
    by (rule wp_mono [OF wp_watchdog_expire [OF assms(1) aside_honest [OF that assms(2)]]])
      (simp_all add: aside_latched [OF that])
  show ?thesis
    unfolding check_bootstrap_heartbeat_def wp_bindP
    by (rule wp_mono [OF wp_own_now [OF assms(1)]])
      (auto simp del: wp_thenP wp_case_option intro!: expire split: option.split)
qed

lemma open_phase:
  assumes "sound_clock X" "honest_factory X" "inv_at W_Start ow"
  shows "wp (worker_open tid X) inv_at (\<lambda>e. inv_at (W_Handler e)) ow"
proof -
  have b: "booting OS_STARTING ow" "keeps_last ow" "\<not> own_session ow" using assms(3) by (simp_all add: inv_at_def)
  have failed: "inv_at (W_Handler e) (ow\<lparr>own_sys := s\<rparr>)" for e s
    using b by (intro booting_to_handler) (simp_all add: booting_def honest_def)
  have opened: "inv_at (W_Handler e) (ow\<lparr>own_sys := s, own_session := True\<rparr>)"
    "inv_at (W_Bootstrap n) (ow\<lparr>own_sys := s, own_session := True, actuator_watchdog_timeout_s := w, default_feedback_maximum_age_s := f\<rparr>)"
    if "backed s" for e s n w f
    using b that by (simp_all add: inv_defs honest_def)
  have factory: "wp (session_factory X) (\<lambda>_ t. backed t) (\<lambda>_ _. True) s" for s
    using assms(2) by (simp add: honest_factory_def)
  show ?thesis
    unfolding worker_open_def wp_thenP wp_sysO
    by (rule wp_mono [OF factory]) (simp_all add: failed opened)
qed

lemma bootstrap_phase:
  assumes "sound_clock X" "inv_at (W_Bootstrap n) ow"
  shows "wp (worker_bootstrap tid X n) inv_at (\<lambda>e. inv_at (W_Handler e)) ow"
proof (cases n)
  case 0
  then show ?thesis using assms(2) by (simp add: worker_bootstrap_def inv_at_def)
next
  case (Suc m)
  have b: "booting OS_STARTING ow" "keeps_last ow" "own_session ow" "honest ow"
    using assms(2) by (simp_all add: inv_at_def)
  have cache: "wp (cache_feedback X f) (\<lambda>_ u. inv_at (W_Bootstrap m) u) (\<lambda>e. inv_at (W_Handler e)) u"
    if u: "u = ow\<lparr>own_sys := s\<rparr>" "grows (own_sys ow) s" for u s f
  proof -
    have kept: "inv_at (W_Bootstrap m) v \<and> inv_at (W_Handler e) v" if v: "sampled u v" for v e
    proof -
      obtain t h tr where t: "touched s t" "v = ow\<lparr>own_sys := t, feedback_history := h, own_tracking := tr\<rparr>"
        using v u by (auto simp: sampled_def)
      have "backed t" using b(3,4) u(2) touched_proven(2) [OF t(1)] by (auto simp: honest_def intro: grows_backed)
      then show ?thesis using b t(2) by (simp add: inv_defs honest_def)
    qed
    show ?thesis by (rule wp_mono [OF wp_cache_feedback]) (simp_all add: kept)
  qed
  show ?thesis
    unfolding worker_bootstrap_def Suc nat.case wp_thenP wp_bindP
  proof (rule wp_mono [OF wp_heartbeat [OF assms(1) b(4)]], goal_cases)
    case (1 x u)
    then obtain s where s: "touched (own_sys ow) s" "u = ow\<lparr>own_sys := s\<rparr>" by (auto simp: aside_def)
    show ?case
    proof (rule wp_mono [OF wp_poll_owner], goal_cases)
      case (1 f v)
      then obtain t where "grows (own_sys ow) t" "v = ow\<lparr>own_sys := t\<rparr>" using s grows_touched [OF s(1)] by auto
      then show ?case using cache [of v t f] by (simp add: wp_ends)
    next
      case (2 e v)
      then obtain t where t: "grows (own_sys ow) t" "v = ow\<lparr>own_sys := t\<rparr>" using s grows_touched [OF s(1)] by auto
      then show ?case using b honest_grows [OF b(4) t(1)] by (auto intro: booting_to_handler)
    qed
  next
    case (2 e u)
    then show ?case using b by (intro latched_to_handler [of ow]) (simp_all add: booting_def)
  qed
qed

lemma ready_phase:
  assumes "sound_clock X" "inv_at W_Ready ow"
  shows "wp (worker_ready tid X) inv_at (\<lambda>e. inv_at (W_Handler e)) ow"
proof -
  have b: "booting OS_STARTING ow" "keeps_last ow" "own_session ow" "honest ow"
    using assms(2) by (simp_all add: inv_at_def)
  show ?thesis
    unfolding worker_ready_def wp_thenP [of "check_bootstrap_heartbeat _ _ _"]
  proof (rule wp_mono [OF wp_heartbeat [OF assms(1) b(4)]], goal_cases)
    case (1 x u)
    then have u: "booting OS_STARTING u" "keeps_last u" "own_session u" "honest u"
      using b aside_honest by (auto simp: aside_def)
    then have "inv_at (W_Handler e) u" for e by (intro booting_to_handler)
    moreover have "inv_at W_Top (u\<lparr>last_feedback_captured_s := captured_monotonic_s (tf_feedback (last (feedback_history u))),
        next_feedback_deadline_s := d, own_state := OS_RUNNING, first_command_readiness := True, own_ready := True\<rparr>)"
      if "feedback_history u \<noteq> []" for d
      using u that by (simp add: inv_defs honest_def)
    ultimately show ?case by (simp add: Let_def)
  next
    case (2 e u)
    then show ?case using b by (intro latched_to_handler [of ow]) (simp_all add: booting_def)
  qed
qed

section \<open>The loop\<close>

lemma top_phase:
  assumes "sound_clock X" "inv_at W_Top ow"
  shows "wp (worker_top tid X) inv_at (\<lambda>e. inv_at (W_Handler e)) ow"
proof -
  have b: "running {} ow" "\<not> request_inflight ow" "cached ow" "keeps_last ow" "honest ow"
    using assms(2) by (simp_all add: inv_at_def)
  have kept: "honest u" "inv_at (W_Handler e) u" "viewed v u \<Longrightarrow> inv_at (W_Choose v) u"
    if "u = ow\<lparr>own_sys := s\<rparr>" "grows (own_sys ow) s" for u s e v
    using b that honest_grows [OF b(5) that(2)] running_to_handler [of u e] by (simp_all add: inv_at_def)
  show ?thesis
    unfolding worker_top_def wp_bindP [of "opO _"]
  proof (rule wp_mono [OF wp_own_now [OF assms(1)]], goal_cases)
    case (1 n0 u)
    then obtain s where s: "touched (own_sys ow) s" "u = ow\<lparr>own_sys := s\<rparr>" by (auto simp: aside_def)
    have "wp (if c then thenP (raise_if d e) (thenP (sysO (refresh_supervised_sample_hold_heartbeat tid E)) (opO (own_now X))) else ret n0)
        (\<lambda>_. acted ow) (\<lambda>e. inv_at (W_Handler e)) u" for c d e E
    proof -
      have "wp (refresh_supervised_sample_hold_heartbeat tid E)
          (\<lambda>_ t. wp (opO (own_now X)) (\<lambda>_. acted ow)
             (\<lambda>e. inv_at (W_Handler e)) (ow\<lparr>own_sys := t\<rparr>))
          (\<lambda>e t. inv_at (W_Handler e) (ow\<lparr>own_sys := t\<rparr>)) s"
      proof (rule wp_mono [OF wp_refresh_grows], goal_cases)
        case (1 x t)
        then have t: "grows (own_sys ow) t" using grows_touched [OF s(1)] by blast
        show ?case
          by (rule wp_mono [OF wp_own_now [OF assms(1)]])
            (use grows_trans [OF t touched_grows] in \<open>auto simp: aside_def intro!: actedI\<close>)
      qed (use kept(2) [OF refl grows_touched [OF s(1)]] in simp)
      then show ?thesis using s kept [OF s(2) touched_grows [OF s(1)]] touched_grows [OF s(1)] by (auto intro!: actedI)
    qed
    then show ?case
      unfolding wp_bindP [of "gets _"] wp_gets id_apply wp_bindP [of "if _ then _ else _"]
      by (rule wp_mono) (auto simp: Let_def viewed_def acted_def intro!: kept)
  qed simp
qed

lemma choose_phase:
  assumes "inv_at (W_Choose v) ow"
  shows "wp (worker_choose v) inv_at (\<lambda>e. inv_at (W_Handler e)) ow"
  using assms
  by (auto simp: worker_choose_def Let_def inv_at_def keeps_last_def running_def cached_def honest_def split: option.split list.split)

lemma settle_phase:
  assumes "inv_at W_Settle ow"
  shows "wp (worker_settle tid X) inv_at (\<lambda>e. inv_at (W_Handler e)) ow"
proof -
  have b: "running {} ow" "\<not> request_inflight ow" "cached ow" "keeps_last ow" "honest ow"
    using assms by (simp_all add: inv_at_def)
  have "inv_at W_Settled (ow\<lparr>own_sys := s\<rparr>)" "inv_at (W_Handler e) (ow\<lparr>own_sys := s\<rparr>)"
    if "grows (own_sys ow) s" for s e
    using b honest_grows [OF b(5) that] running_to_handler [of "ow\<lparr>own_sys := s\<rparr>" e] by (simp_all add: inv_at_def)
  then show ?thesis
    unfolding worker_settle_def wp_thenP wp_bindP wp_sysO
    by (auto intro!: wp_mono [OF wp_refresh_grows])
qed

lemma stop_phase:
  assumes "inv_at (W_Stop r) ow"
  shows "wp (worker_stop tid X r) inv_at (\<lambda>e. inv_at (W_Handler e)) ow"
proof -
  have b: "running (taken r) ow" "stop_requested ow" "own_request ow = None" "keeps_last ow" "honest ow"
    using assms by (simp_all add: inv_at_def)
  have stop: "wp (thenP (normal_disable tid X) (ret (W_Final None))) inv_at (\<lambda>e. inv_at (W_Handler e)) u"
    if u: "running {} u" "stop_requested u" "own_request u = None" "keeps_last u" "honest u" for u
    unfolding wp_thenP
  proof (rule wp_mono [OF wp_normal_disable], goal_cases)
    case (1 x v)
    then show ?case using u grows_backed by (auto simp: inv_defs honest_def)
  next
    case (2 e v)
    then show ?case using u grows_backed by (auto simp: inv_defs honest_def)
  qed
  show ?thesis
  proof (cases r)
    case None
    then show ?thesis using stop [of ow] b by (simp add: worker_stop_def)
  next
    case (Some q)
    have "wp (fail_pending_ledger m) (\<lambda>_ u. wp (thenP (normal_disable tid X) (ret (W_Final None))) inv_at
        (\<lambda>e. inv_at (W_Handler e)) (complete_request r e u)) (\<lambda>_ _. False) ow" for m e
    proof (rule wp_mono [OF wp_fail_pending], rule stop)
      fix u assume u: "aside ow u"
      show "running {} (complete_request r e u)" "keeps_last (complete_request r e u)" "stop_requested (complete_request r e u)"
        "own_request (complete_request r e u) = None"
        using u b by (auto simp: aside_def complete_request_alt inv_defs)
      show "honest (complete_request r e u)"
        using aside_honest [OF u b(5)] by (simp add: complete_request_alt honest_def)
    qed simp
    then show ?thesis
      unfolding worker_stop_def Some option.case Let_def wp_thenP [of _ "thenP _ _"] wp_thenP [of "fail_pending_ledger _"]
      by (rule wp_mono) (simp_all add: Some)
  qed
qed

lemma watchdog_phase:
  assumes "sound_clock X" "inv_at (W_Watchdog r t) ow"
  shows "wp (worker_watchdog tid X r t) inv_at (\<lambda>e. inv_at (W_Handler e)) ow"
proof -
  let ?u = "complete_request r (owner_error ''RH56 watchdog expired before queued execution'') ow"
  have b: "running (taken r) ow" "keeps_last ow" "honest ow" using assms(2) by (simp_all add: inv_at_def)
  then have u: "running {} ?u" "keeps_last ?u" "honest ?u"
    by (auto simp: complete_request_alt inv_defs honest_def)
  have "wp (watchdog_expire tid X t) (\<lambda>_ v. inv_at (W_Final None) v) (\<lambda>_ _. False) ?u"
    by (rule wp_mono [OF wp_watchdog_expire [OF assms(1) u(3)]])
      (use u in \<open>auto simp: latched_by_def frame_def inv_defs\<close>)
  then show ?thesis
    unfolding worker_watchdog_def wp_thenP wp_modify wp_ends by (rule wp_mono) simp_all
qed

lemma stale_phase:
  assumes "inv_at (W_Stale r t) ow"
  shows "wp (worker_stale r t) inv_at (\<lambda>e. inv_at (W_Handler e)) ow"
  using assms by (auto simp: worker_stale_def complete_request_alt inv_defs honest_def)

text \<open>A sample that is cached and advances the poll deadline, in the loop.\<close>

lemma running_sampled:
  assumes "sampled ow u" "running hand ow" "keeps_last ow" "honest ow"
  shows "running hand u" "keeps_last u" "honest u" "request_inflight u = request_inflight ow" "own_request u = own_request ow"
    "stop_requested u = stop_requested ow"
proof -
  obtain s h tr where u: "touched (own_sys ow) s" "u = ow\<lparr>own_sys := s, feedback_history := h, own_tracking := tr\<rparr>"
    using assms(1) by (auto simp: sampled_def)
  show "running hand u" "keeps_last u" "request_inflight u = request_inflight ow" "own_request u = own_request ow"
    "stop_requested u = stop_requested ow"
    using assms(2,3) u(2) by (simp_all add: running_def keeps_last_def)
  show "honest u"
    using assms(2,4) u(2) touched_proven(2) [OF u(1)] by (simp add: running_def honest_def)
qed

lemma wp_cache_and_advance:
  assumes "running hand ow" "keeps_last ow" "honest ow"
  shows "wp (thenP (cache_feedback X f) (advance_feedback (captured_monotonic_s f)))
    (\<lambda>_ u. running hand u \<and> keeps_last u \<and> honest u \<and> cached u \<and> (request_inflight u \<longleftrightarrow> request_inflight ow))
    (\<lambda>_ u. running hand u \<and> keeps_last u \<and> honest u) ow"
  unfolding wp_thenP
proof (rule wp_mono [OF wp_cache_feedback], goal_cases)
  case (1 x u)
  note u = running_sampled [OF conjunct1 [OF 1] assms]
  have h: "feedback_history u \<noteq> []" "tf_feedback (last (feedback_history u)) = f"
    using 1 assms(2) by (simp_all add: keeps_last_def)
  show ?case
    by (rule wp_mono [OF wp_advance_feedback]) (use u h in \<open>auto simp: inv_defs honest_def\<close>)
next
  case (2 e u)
  then show ?case using running_sampled [OF 2 assms] by simp
qed

lemma poll_phase:
  assumes "inv_at W_Poll ow"
  shows "wp (worker_poll tid X) inv_at (\<lambda>e. inv_at (W_Handler e)) ow"
proof -
  have b: "running {} ow" "\<not> request_inflight ow" "cached ow" "keeps_last ow" "honest ow"
    using assms by (simp_all add: inv_at_def)
  show ?thesis
    unfolding worker_poll_def wp_bindP [of "poll_owner_safety _ _"]
  proof (rule wp_mono [OF wp_poll_owner], goal_cases)
    case (1 f u)
    then have u: "running {} u" "\<not> request_inflight u" "keeps_last u" "honest u"
      using b honest_grows by auto
    have "wp (thenP (cache_feedback X f) (advance_feedback (captured_monotonic_s f))) (\<lambda>_. inv_at W_Top)
        (\<lambda>e. inv_at (W_Handler e)) u"
    proof (rule wp_mono [OF wp_cache_and_advance [OF u(1,3,4)]], goal_cases)
      case (1 x v)
      then show ?case using u(2) by (simp add: inv_at_def)
    next
      case (2 e v)
      then show ?case by (intro running_to_handler) simp_all
    qed
    then show ?case using running_to_handler [OF u(4,3,1)] by (simp add: Let_def wp_ends)
  next
    case (2 e u)
    then have u: "running {} u" "keeps_last u" "honest u" using b honest_grows by auto
    then show ?case by (intro running_to_handler)
  qed
qed

lemma execute_phase:
  assumes "inv_at (W_Execute q) ow"
  shows "wp (worker_execute tid X q) inv_at (\<lambda>e. inv_at (W_Failed q e)) ow"
proof -
  have b: "running {req_ticket q} ow" "request_inflight ow" "own_request ow = None" "cached ow" "keeps_last ow" "honest ow"
    using assms by (simp_all add: inv_at_def)
  show ?thesis
  proof (cases "supervised_target_only (own_cfg ow)")
    case True
    have failed: "inv_at (W_Failed q e) (ow\<lparr>own_sys := s\<rparr>)" if "grows (own_sys ow) s" for e s
      using b honest_grows [OF b(6) that] by (simp add: inv_at_def)
    have acked: "inv_at (W_AfterAck q) (complete_ticket (req_ticket q) r (end_inflight u))"
      if "u = ow\<lparr>own_sys := s\<rparr> \<or> u = ow\<lparr>own_sys := s, own_tracking := tr\<rparr>" "grows (own_sys ow) s" for r u s tr
      using b honest_grows [OF b(6) that(2)] that(1)
      by (auto simp: complete_ticket_def end_inflight_def inv_defs honest_def)
    have rest: "wp (thenP (if n then register_tracking_target ts t else ret ()) (thenP (modify end_inflight)
        (thenP (modify (complete_ticket (req_ticket q) r)) (ret (W_AfterAck q))))) inv_at (\<lambda>e. inv_at (W_Failed q e))
        (ow\<lparr>own_sys := s\<rparr>)" if "grows (own_sys ow) s" for n ts t r s
    proof (cases n)
      case True
      show ?thesis
        unfolding wp_ends if_P [OF True]
        by (rule wp_mono [OF wp_register_target]) (use acked failed that in auto)
    next
      case False
      then show ?thesis using acked [OF disjI1 [OF refl] that] by simp
    qed
    show ?thesis
      unfolding worker_execute_def wp_bindP [of "gets _"] wp_gets o_apply if_P [OF True] wp_bindP [of "sysO _"] wp_sysO
      by (rule wp_mono [OF wp_target_grows]) (use rest failed in blast)+
  next
    case False
    show ?thesis
      unfolding worker_execute_def wp_bindP [of "gets _"] wp_gets o_apply if_not_P [OF False] wp_bindP [of "sysO _"] wp_sysO
    proof (rule wp_mono [OF wp_execute_grows], goal_cases)
      case (1 receipt s)
      let ?u = "ow\<lparr>own_sys := s\<rparr>"
      have u: "running {req_ticket q} ?u" "keeps_last ?u" "honest ?u" using b honest_grows 1 by auto
      show ?case
        unfolding wp_ends
      proof (rule wp_mono [OF wp_cache_feedback], goal_cases)
        case (1 x v)
        note v = running_sampled [OF conjunct1 [OF 1] u]
        have "feedback_history v \<noteq> []" "tf_feedback (last (feedback_history v)) = rcpt_feedback receipt"
          using 1 u(2) by (simp_all add: keeps_last_def)
        then show ?case
          using v b(3) by (auto simp: complete_ticket_def end_inflight_def inv_defs honest_def)
      next
        case (2 e v)
        show ?case using running_sampled [OF 2 u] by (simp add: inv_at_def)
      qed
    next
      case (2 e s)
      then show ?case using b honest_grows by (simp add: inv_at_def)
    qed
  qed
qed

lemma after_ack_phase:
  assumes "sound_clock X" "inv_at (W_AfterAck q) ow"
  shows "wp (worker_after_ack tid X) inv_at (\<lambda>e. inv_at (W_Failed q e)) ow"
proof -
  have b: "running {} ow" "\<not> request_inflight ow" "cached ow" "keeps_last ow" "honest ow"
    using assms(2) by (simp_all add: inv_at_def)
  have to_failed: "running {} u \<Longrightarrow> keeps_last u \<Longrightarrow> honest u \<Longrightarrow> inv_at (W_Failed q e) u" for u e
    by (auto simp: inv_at_def running_def)
  have top: "inv_at W_Top (end_inflight u)" if "running {} u" "keeps_last u" "honest u" "cached u" for u
    using that by (simp add: inv_defs honest_def end_inflight_def)
  have poll: "wp (bindP (poll_owner_safety tid X) (\<lambda>f. bindP (gets id) (\<lambda>ow. thenP (raise_if (c f ow) err)
      (thenP (cache_feedback X f) (advance_feedback (captured_monotonic_s f))))))
      (\<lambda>_ u. inv_at W_Top (end_inflight u)) (\<lambda>e. inv_at (W_Failed q e)) u"
    if u: "running {} u" "keeps_last u" "honest u" for u c err
    unfolding wp_bindP [of "poll_owner_safety _ _"]
  proof (rule wp_mono [OF wp_poll_owner], goal_cases)
    case (1 f v)
    then have v: "running {} v" "keeps_last v" "honest v" using u honest_grows by auto
    have "wp (thenP (cache_feedback X f) (advance_feedback (captured_monotonic_s f)))
        (\<lambda>_ u. inv_at W_Top (end_inflight u)) (\<lambda>e. inv_at (W_Failed q e)) v"
      by (rule wp_mono [OF wp_cache_and_advance [OF v]]) (auto intro: top to_failed)
    then show ?case using to_failed [OF v] by simp
  next
    case (2 e v)
    then have "running {} v" "keeps_last v" "honest v" using u honest_grows by auto
    then show ?case by (rule to_failed)
  qed
  show ?thesis
    unfolding worker_after_ack_def wp_bindP [of "opO _"]
  proof (rule wp_mono [OF wp_own_now [OF assms(1)]], goal_cases)
    case (1 n u)
    then have u: "running {} u" "keeps_last u" "honest u" "cached u"
      using b aside_honest by (auto simp: aside_def)
    then show ?case
      using to_failed [OF u(1-3)] top [OF u] poll [OF u(1-3)] by (simp add: wp_ends)
  qed simp
qed

section \<open>Failures and the end\<close>

text \<open>A failed request ends the loop: the fault is latched, a stop was tried, every ticket is complete.\<close>

definition ended_by_fault :: "worker_pc \<Rightarrow> 's owner \<Rightarrow> bool" where
  "ended_by_fault pc u = (pc = (W_Final None) \<and> inv_at (W_Final None) u \<and> faulted u \<and> disable_attempted u)"

lemma failed_latches:
  assumes "sound_clock X" "inv_at (W_Failed q e) ow"
  shows "wp (worker_failed tid X q e) ended_by_fault (\<lambda>_ _. False) ow"
proof -
  have b: "running {req_ticket q} ow" "keeps_last ow" "honest ow" using assms(2) by (simp_all add: inv_at_def)
  have stop: "wp (stop_failed_request tid X m)
      (\<lambda>res v. latched_by ow v \<and> disable_attempted v \<and> (\<forall>rep. fst res = Some rep \<longrightarrow> report_verified rep \<longrightarrow> proven (own_sys v)))
      (\<lambda>_ _. False) u" if u: "latched_by ow u" for u m
  proof -
    let ?u = "u\<lparr>disable_attempted := True\<rparr>"
    have "wp (stop_after_fault tid X m) (\<lambda>res v. latched_by ow v \<and> disable_attempted v \<and>
        (\<forall>rep. report_of res = Some rep \<longrightarrow> report_verified rep \<longrightarrow> proven (own_sys v))) (\<lambda>_ _. False) ?u"
      by (rule wp_mono [OF wp_stop_after_fault [of ow ?u]]) (use u in auto)
    moreover have "own_stop_report u = Some rep \<Longrightarrow> report_verified rep \<Longrightarrow> proven (own_sys u)" for rep
      using u by (simp add: latched_by_def honest_def)
    ultimately show ?thesis
      using u by (auto simp: stop_failed_request_def wp_ends elim!: wp_mono)
  qed
  have finish: "ended_by_fault (W_Final None) (end_inflight (complete_ticket (req_ticket q) r
      (finish_fault_stop report err (stop_confirmed (act (own_sys v))) v)))"
    if v: "latched_by ow v" "disable_attempted v" "\<forall>rep. report = Some rep \<longrightarrow> report_verified rep \<longrightarrow> proven (own_sys v)" for v r report err
  proof -
    have "own_session v" "honest v" using v(1) b(1) by (simp_all add: latched_by_def frame_def running_def)
    then have "stop_confirmed (act (own_sys v)) \<Longrightarrow> proven (own_sys v)" by (simp add: honest_def backed_def)
    then have "latched_by ow (finish_fault_stop report err (stop_confirmed (act (own_sys v))) v)"
      using v by (intro latched_by_finish) auto
    then show ?thesis
      using b v(2) by (auto simp: latched_by_def frame_def inv_defs ended_by_fault_def complete_ticket_def end_inflight_def honest_def)
  qed
  show ?thesis
    unfolding worker_failed_def wp_finallyP Let_def wp_thenP [of "publish_fault _ _"]
  proof (rule wp_mono [OF wp_publish_latched [OF assms(1) b(3)]], goal_cases)
    case (1 x u)
    show ?case
      unfolding wp_bindP [of "stop_failed_request _ _ _"]
      by (rule wp_mono [OF stop [OF conjunct1 [OF 1]]]) (auto intro!: finish split: prod.split)
  qed simp
qed

lemma failed_phase:
  assumes "sound_clock X" "inv_at (W_Failed q e) ow"
  shows "wp (worker_failed tid X q e) inv_at (\<lambda>e. inv_at (W_Handler e)) ow"
  by (rule wp_mono [OF failed_latches [OF assms]]) (simp_all add: ended_by_fault_def)

lemma handler_phase:
  assumes "sound_clock X" "inv_at (W_Handler e) ow"
  shows "wp (worker_handler tid X e) inv_at (\<lambda>_ _. False) ow"
proof -
  have b: "honest ow" "keeps_last ow" "\<not> close_attempted ow" using assms(2) by (simp_all add: inv_at_def)
  define v where "v = (if own_state ow = OS_STARTING then ow\<lparr>startup_error := Some e\<rparr> else ow)"
  have v: "honest v" "keeps_last v" "\<not> close_attempted v" "own_fault v = own_fault ow" "inv_at (W_Handler e) v"
    using b assms(2) by (auto simp: v_def inv_defs honest_def)
  have faulted_latched: "latched_by u u" if "faulted u" "honest u" for u :: "'a owner"
    using that by (simp add: latched_by_def faulted_def grows_def)
  have published: "wp (if own_fault v = None then publish_fault X m else ret ())
      (\<lambda>_ u. faulted u \<and> honest u \<and> keeps_last u \<and> \<not> close_attempted u) (\<lambda>_ _. False) v" for m
  proof (cases "own_fault v")
    case None
    then have "open_tickets (tickets v) \<subseteq> taken (own_request v)" using v(5) by (simp add: inv_defs)
    then show ?thesis
      using None v(2,3) by (simp, intro wp_mono [OF wp_publish_latched [OF assms(1) v(1)]])
        (auto simp: latched_by_def frame_def faulted_def keeps_last_def)
  next
    case (Some f)
    then show ?thesis using v by (simp add: inv_at_def)
  qed
  show ?thesis
    unfolding worker_handler_def Let_def wp_thenP [of "modify _"] wp_modify wp_bindP [of "gets _"] wp_gets id_apply
      wp_thenP [of "if _ then publish_fault _ _ else _"] v_def [symmetric]
  proof (rule wp_mono [OF published], goal_cases)
    case (1 x u)
    then have u: "latched_by u u" "keeps_last u" "faulted u" "\<not> close_attempted u" "honest u" using faulted_latched by auto
    have stop: "wp (stop_after_fault tid X m) (\<lambda>r v. inv_at (W_Final None) (finish_fault_stop (report_of r) (error_of r) False v))
        (\<lambda>_ _. False) (u\<lparr>disable_attempted := True\<rparr>)" for m
    proof (rule wp_mono [OF wp_stop_after_fault [of u]], goal_cases)
      case (2 r v)
      then have "latched_by u (finish_fault_stop (report_of r) (error_of r) False v)"
        by (intro latched_by_finish) auto
      then show ?case using 2 u(2-4) by (auto simp: latched_by_def frame_def inv_defs)
    qed (use u in simp_all)
    have confirmed: "inv_at (W_Final None) (finish_fault_stop (own_stop_report u) None True (u\<lparr>disable_attempted := True\<rparr>))"
      if "own_session u" "stop_confirmed (act (own_sys u))"
    proof -
      have "proven (own_sys u)" using u(5) that by (simp add: honest_def backed_def)
      then have "honest (finish_fault_stop (own_stop_report u) None True (u\<lparr>disable_attempted := True\<rparr>))"
        using u(5) by (intro honest_finish) (auto simp: honest_def)
      then show ?thesis using u(2-4) by (auto simp: inv_defs)
    qed
    have disarmed: "inv_at (W_Final None) u" if "own_session u \<longrightarrow> act_state (act (own_sys u)) = AS_DISARMED"
      using u that by (simp add: inv_at_def disabled_def)
    show ?case
      using confirmed disarmed stop by (cases "act_state (act (own_sys u))") (auto simp: wp_ends elim!: wp_mono)
  qed simp
qed

lemma wp_worldO:
  assumes "\<And>x s. touched (own_sys ow) s \<Longrightarrow> Q x (ow\<lparr>own_sys := s\<rparr>)" "\<And>e s. touched (own_sys ow) s \<Longrightarrow> E e (ow\<lparr>own_sys := s\<rparr>)"
  shows "wp (worldO m) Q E ow"
  using assms unfolding worldO_def wp_sysO by (auto intro!: wp_I)

lemma closing_phase:
  assumes "sound_clock X" "inv_at (W_Final None) ow"
  shows "wp (worker_final tid X None) inv_at (\<lambda>_ _. False) ow"
proof (cases "own_session ow")
  case False
  then show ?thesis using assms(2) by (simp add: worker_final_def inv_at_def)
next
  case True
  have b: "faulted ow \<or> stopped_clean ow" "disabled ow" "honest ow" "keeps_last ow"
    using assms(2) by (simp_all add: inv_at_def)
  define c where "c = ow\<lparr>close_attempted := True, own_log := own_log ow @ [CloseCalled]\<rparr>"
  have c: "own_sys c = own_sys ow" "faulted c = faulted ow" "stopped_clean c = stopped_clean ow" "disabled c" "honest c"
    "keeps_last c" "close_attempted c" "open_tickets (tickets c) = {}" "own_session c"
    using b True by (auto simp: c_def inv_defs honest_def)
  have closed: "inv_at (W_Last None) (c\<lparr>own_sys := s, serial_closed := True\<rparr>)" if "touched (own_sys c) s" for s
    using b(1) c that by (simp add: inv_defs honest_def touched_proven [OF that] touched_def [of _ s])
  have last: "inv_at (W_Last None) v" if "latched_by c v" "disabled v" for v
    using c that by (simp add: latched_by_def frame_def inv_defs)
  have failed: "wp (thenP (modify (\<lambda>ow. ow\<lparr>serial_closed := False\<rparr>)) (thenP (publish_fault X m) (bindP (gets id) (\<lambda>ow.
      modify (finish_fault_stop (own_stop_report ow) None (stop_confirmed (act (own_sys ow)))))))) (\<lambda>_. inv_at (W_Last None))
      (\<lambda>_ _. False) (c\<lparr>own_sys := s\<rparr>)" if s: "touched (own_sys c) s" for s m
  proof -
    let ?u = "c\<lparr>own_sys := s, serial_closed := False\<rparr>"
    have u: "honest ?u" using c(5) touched_proven [OF s] by (simp add: honest_def)
    show ?thesis
      unfolding wp_ends
    proof (rule wp_mono [OF wp_publish_latched [OF assms(1) u]], goal_cases)
      case (1 x v)
      then have "latched_by c v"
        using grows_touched [OF s] by (simp add: latched_by_def frame_def)
      moreover have "proven (own_sys v)" if "stop_confirmed (act (own_sys v))"
        using calculation that c(9) by (simp add: latched_by_def honest_def backed_def frame_def)
      moreover have "report_verified r \<Longrightarrow> proven (own_sys v)" if "own_stop_report v = Some r" for r
        using calculation(1) that by (simp add: latched_by_def honest_def)
      ultimately have "latched_by c (finish_fault_stop (own_stop_report v) None (stop_confirmed (act (own_sys v))) v)"
        by (intro latched_by_finish)
      moreover have "disabled v" using 1 s c(4) by (simp add: latched_by_def frame_def disabled_def touched_def)
      ultimately show ?case using last by (simp add: disabled_def)
    qed simp
  qed
  have "wp (close_session X) (\<lambda>_. inv_at (W_Last None)) (\<lambda>_ _. False) ow"
    unfolding close_session_def wp_ends(4) wp_ends(3) wp_logO wp_catchP
    using closed failed by (simp add: c_def [symmetric] wp_ends del: wp_thenP, intro wp_worldO) (simp_all)
  moreover have skip: "\<not> (act_state (act (own_sys ow)) = AS_ARMED \<and> \<not> disable_attempted ow)"
    using b(2) True by (auto simp: disabled_def)
  have "wp (last_disable tid X) Q E ow = Q () ow" for Q E
    unfolding last_disable_def wp_bindP wp_gets id_apply if_not_P [OF skip] wp_ret ..
  ultimately show ?thesis using True by (simp add: worker_final_def wp_ends)
qed

lemma last_phase:
  assumes "inv_at (W_Last None) ow"
  shows "wp (worker_last None) inv_at (\<lambda>_ _. False) ow"
  using assms by (auto simp: worker_last_def inv_defs honest_def)

end
