(* ===== verification/Watchdog_Invariant.thy ===== *)
theory Watchdog_Invariant
  imports Watchdog_Proofs
begin

text \<open>
  Every step of the worker and every method of the other threads keeps \<open>owner_inv\<close>, whatever
  their interleaving: the owner is an instance of the locale of systems with an invariant.
\<close>

section \<open>The worker\<close>

lemma at_pc_irrelevant [simp]:
  "at_pc p (ow\<lparr>own_pc := q\<rparr>) = at_pc p ow" "at_pc p (ow\<lparr>final_settle_requested := b\<rparr>) = at_pc p ow"
  "at_pc p (ow\<lparr>final_settle_active := b\<rparr>) = at_pc p ow" "at_pc p (ow\<lparr>final_settle_deadline_s := d\<rparr>) = at_pc p ow"
  by (cases p; simp add: inv_defs viewed_def)+

lemma honest_irrelevant [simp]:
  "honest (ow\<lparr>own_pc := q\<rparr>) = honest ow" "honest (ow\<lparr>final_settle_requested := b\<rparr>) = honest ow"
  "honest (ow\<lparr>final_settle_active := b\<rparr>) = honest ow" "honest (ow\<lparr>final_settle_deadline_s := d\<rparr>) = honest ow"
  "honest (ow\<lparr>stop_requested := b\<rparr>) = honest ow"
  by (simp_all add: honest_def)

lemma inv_at_irrelevant [simp]:
  "inv_at p (ow\<lparr>own_pc := q\<rparr>) = inv_at p ow" "inv_at p (ow\<lparr>final_settle_requested := b\<rparr>) = inv_at p ow"
  "inv_at p (ow\<lparr>final_settle_active := b\<rparr>) = inv_at p ow" "inv_at p (ow\<lparr>final_settle_deadline_s := d\<rparr>) = inv_at p ow"
  by (simp_all add: inv_at_def keeps_last_def)

lemma phase_keeps:
  assumes "sound_clock X" "honest_factory X" "inv_at p ow"
  shows "wp (worker_phase tid X p) inv_at (\<lambda>e. inv_at (raised p e)) ow"
proof (cases p)
  case W_Settled
  then have "inv_at W_Top ow" using assms(3) by (simp add: inv_at_def)
  with W_Settled show ?thesis by (simp add: worker_settled_def)
next
  case (W_Wait t)
  then show ?thesis using assms(3) by (simp add: inv_at_def)
next
  case (W_WaitFirst t)
  then show ?thesis using assms(3) by (simp add: worker_wake_first_def inv_at_def)
next
  case (W_Handler e)
  then show ?thesis using wp_mono [OF handler_phase [OF assms(1)]] assms(3) by fastforce
next
  case (W_Final q)
  then have "q = None" using assms(3) by (simp add: inv_at_def)
  then show ?thesis using wp_mono [OF closing_phase [OF assms(1)]] W_Final assms(3) by fastforce
next
  case (W_Last q)
  then have "q = None" using assms(3) by (simp add: inv_at_def)
  then show ?thesis using wp_mono [OF last_phase] W_Last assms(3) by fastforce
qed (use assms open_phase bootstrap_phase ready_phase top_phase choose_phase settle_phase stop_phase watchdog_phase
  stale_phase poll_phase execute_phase after_ack_phase failed_phase in simp_all)

lemma worker_step_keeps:
  assumes "sound_clock X" "honest_factory X" "owner_inv ow" "worker_step tid X ow = Some u"
  shows "owner_inv u"
proof -
  obtain r v where m: "worker_phase tid X (own_pc ow) ow = Some (r, v)"
    and u: "u = v\<lparr>own_pc := (case r of Inl e \<Rightarrow> raised (own_pc ow) e | Inr pc \<Rightarrow> pc)\<rparr>"
    using assms(4) by (auto simp: worker_step_def)
  have "case r of Inl e \<Rightarrow> inv_at (raised (own_pc ow) e) v | Inr pc \<Rightarrow> inv_at pc v"
    using phase_keeps [OF assms(1,2), of "own_pc ow" ow tid] assms(3) m by (simp add: owner_inv_def wp_def)
  then show ?thesis by (cases r) (simp_all add: owner_inv_def u)
qed

section \<open>The other threads\<close>

lemma inv_at_touched:
  assumes "touched (own_sys ow) s"
  shows "inv_at p (ow\<lparr>own_sys := s\<rparr>) = inv_at p ow"
  using assms touched_proven [OF assms]
  by (cases p) (simp_all add: inv_at_def honest_def viewed_def disabled_def touched_def)

lemma inv_at_stop: "inv_at p ow \<Longrightarrow> inv_at p (request_stop ow)"
  by (cases p) (auto simp: request_stop_def inv_defs viewed_def)

lemma clock_touched:
  "own_now X ow = (r, u) \<Longrightarrow> aside ow u"
  by (auto simp: own_now_def world_clock_def split: prod.splits)

lemma start_keeps: "start_owner ow = (r, u) \<Longrightarrow> owner_inv ow \<Longrightarrow> owner_inv u"
  by (cases "own_pc ow") (auto simp: start_owner_def owner_inv_def inv_defs honest_def split: if_splits)

lemma submit_keeps:
  assumes "submit X c ow = (r, u)" "owner_inv ow"
  shows "owner_inv u"
proof (cases "submit_refused c ow")
  case None
  obtain n v where n: "own_now X ow = (n, v)" by (cases "own_now X ow")
  then obtain s where s: "touched (own_sys ow) s" "v = ow\<lparr>own_sys := s\<rparr>" using clock_touched unfolding aside_def by blast
  have v: "inv_at (own_pc ow) v" using assms(2) s(2) inv_at_touched [OF s(1)] by (simp add: owner_inv_def)
  have q: "own_state v = OS_RUNNING" "\<not> stop_requested v" "own_request v = None" "\<not> request_inflight v"
    using None s(2) by (auto simp: submit_refused_def split: if_splits)
  show ?thesis
  proof (cases n)
    case (Inr now)
    let ?w = "\<lambda>x r. v\<lparr>tickets := tickets v @ [\<lparr>tk_sequence = x, tk_result = None\<rparr>], own_request := Some r\<rparr>"
    have "inv_at (own_pc ow) (?w x r)" if "req_ticket r = length (tickets v)" for x r
      using v q that by (cases "own_pc ow") (auto simp: inv_defs honest_def viewed_def)
    then show ?thesis
      using assms(1) None n Inr s(2) by (auto simp: submit_def owner_inv_def Let_def)
  qed (use assms None n v s(2) in \<open>auto simp: submit_def owner_inv_def\<close>)
qed (use assms in \<open>simp add: submit_def\<close>)

lemma begin_settle_keeps:
  assumes "begin_final_settle X t ow = (r, u)" "owner_inv ow"
  shows "owner_inv u"
proof -
  obtain n v where n: "own_now X ow = (n, v)" by (cases "own_now X ow")
  then obtain s where s: "touched (own_sys ow) s" "v = ow\<lparr>own_sys := s\<rparr>" using clock_touched unfolding aside_def by blast
  have "owner_inv v" "own_pc v = own_pc ow"
    using assms(2) s(2) inv_at_touched [OF s(1)] by (simp_all add: owner_inv_def)
  then show ?thesis
    using assms n by (auto simp: begin_final_settle_def owner_inv_def split: if_splits sum.splits option.splits)
qed

lemma owner_step_keeps:
  assumes "sound_clock X" "honest_factory X" "thread_step tid X ow u" "owner_inv ow"
  shows "owner_inv u"
  using assms(3,4)
proof (induction rule: thread_step.induct)
  case (by_worker ow ow')
  then show ?case using worker_step_keeps [OF assms(1,2)] by blast
next
  case (by_start_result b ow r ow')
  then have "ow' = ow \<or> ow' = request_stop ow" by (auto simp: start_result_def split: if_splits)
  then show ?case using by_start_result inv_at_stop by (auto simp: owner_inv_def request_stop_def)
next
  case (by_execute_result i ow r ow')
  then have "ow' = ow \<or> ow' = request_stop ow" by (auto simp: execute_result_def Let_def)
  then show ?case using by_execute_result inv_at_stop by (auto simp: owner_inv_def request_stop_def)
next
  case (by_await_settle b ow r ow')
  then show ?case by (auto simp: await_final_settle_def owner_inv_def split: if_splits)
next
  case (by_request_stop ow)
  then show ?case using inv_at_stop by (auto simp: owner_inv_def request_stop_def)
next
  case (by_peer ow l g w)
  then show ?case by (simp add: owner_inv_def inv_at_touched)
qed (use start_keeps submit_keeps begin_settle_keeps in blast)+

section \<open>The owner as a system with an invariant\<close>

definition owner_init :: "'s owner \<Rightarrow> bool" where
  "owner_init ow = (\<exists>cfg s args. make_owner_config args = Inr cfg \<and> ow = new_owner cfg s)"

text \<open>The environment's assumptions are part of the step, so that they stand in every statement over it.\<close>

definition owned_step :: "nat \<Rightarrow> 's owner_env \<Rightarrow> 's owner \<Rightarrow> 's owner \<Rightarrow> bool" where
  "owned_step tid X ow u = (sound_clock X \<and> honest_factory X \<and> thread_step tid X ow u)"

lemma config_capacity:
  assumes "make_owner_config args = Inr cfg"
  shows "1 \<le> feedback_history_capacity cfg"
  using assms
  by (auto simp: make_owner_config_def bounded_positive_integer_def res_bind_Inr_iff value_error_def
      split: pyval.splits if_splits)

lemma new_owner_inv: "1 \<le> feedback_history_capacity cfg \<Longrightarrow> owner_inv (new_owner cfg s)"
  by (auto simp: owner_inv_def new_owner_def inv_defs honest_def open_tickets_def)

interpretation watched: invariant_system owner_init "owned_step tid X" owner_inv for tid X
  by unfold_locales (auto simp: owner_init_def owned_step_def intro: new_owner_inv config_capacity owner_step_keeps)

end
