(* ===== verification/Watchdog_Flow.thy ===== *)
theory Watchdog_Flow
  imports Watchdog_Invariant
begin

text \<open>
  The control flow of the worker: which program counter may follow which, the measure by which a
  requested stop brings it to its end, and the fault, which stays.
\<close>

section \<open>What a phase can return\<close>

definition yields :: "('x \<Rightarrow> bool) \<Rightarrow> ('s, 'x) prog \<Rightarrow> bool" where
  "yields P m = (\<forall>s. wp m (\<lambda>x _. P x) (\<lambda>_ _. True) s)"

lemma yields_any: "yields (\<lambda>_. True) m"
  by (auto simp: yields_def intro!: wp_I)

lemma yields_rules [intro!]:
  "P x \<Longrightarrow> yields P (ret x)" "yields P (throw e)" "(\<And>x. yields P (k x)) \<Longrightarrow> yields P (bindP m1 k)"
  "yields P k2 \<Longrightarrow> yields P (thenP m2 k2)" "(b \<Longrightarrow> yields P m3) \<Longrightarrow> (\<not> b \<Longrightarrow> yields P k3) \<Longrightarrow> yields P (if b then m3 else k3)"
  "yields P m4 \<Longrightarrow> yields P (finallyP m4 f)"
  by (auto simp: yields_def intro!: wp_I [of m1] wp_I [of m2])

lemma yields_options [intro!]:
  "(v = None \<Longrightarrow> yields P m) \<Longrightarrow> (\<And>x. v = Some x \<Longrightarrow> yields P (k x)) \<Longrightarrow> yields P (case v of None \<Rightarrow> m | Some x \<Rightarrow> k x)"
  "(xs = [] \<Longrightarrow> yields P m') \<Longrightarrow> (\<And>x ys. xs = x # ys \<Longrightarrow> yields P (k' x ys)) \<Longrightarrow> yields P (case xs of [] \<Rightarrow> m' | x # ys \<Rightarrow> k' x ys)"
  "(n = 0 \<Longrightarrow> yields P m'') \<Longrightarrow> (\<And>x. n = Suc x \<Longrightarrow> yields P (k'' x)) \<Longrightarrow> yields P (case n of 0 \<Rightarrow> m'' | Suc x \<Rightarrow> k'' x)"
  "(\<And>x y. yields P (k3 x y)) \<Longrightarrow> yields P (case z of (x, y) \<Rightarrow> k3 x y)"
  by (auto split: option.split list.split nat.split prod.split)

fun phase_next :: "worker_pc \<Rightarrow> worker_pc \<Rightarrow> bool" where
  "phase_next W_Start p = (\<exists>n. p = W_Bootstrap n)"
| "phase_next (W_Bootstrap n) p = (case n of 0 \<Rightarrow> p = W_Ready | Suc m \<Rightarrow> p = W_Bootstrap m)"
| "phase_next W_Ready p = (p = W_Top)"
| "phase_next W_Top p = (\<exists>v. p = W_Choose v)"
| "phase_next (W_Choose v) p =
     ((\<exists>r. p = W_Stop r) \<or> p = W_Settle \<or> (\<exists>r t. p = W_Watchdog r t) \<or> (\<exists>r t. p = W_Stale r t) \<or>
      (\<exists>q. p = W_Execute q) \<or> p = W_Poll \<or> (\<exists>t. p = W_WaitFirst t) \<or> (\<exists>t. p = W_Wait t))"
| "phase_next (W_WaitFirst t) p = (p = W_Top \<or> p = W_Poll)"
| "phase_next W_Settle p = (p = W_Settled)"
| "phase_next (W_Execute q) p = (p = W_AfterAck q \<or> p = W_Top)"
| "phase_next (W_Stop r) p = (p = W_Final None)"
| "phase_next (W_Watchdog r t) p = (p = W_Final None)"
| "phase_next (W_Stale r t) p = False"
| "phase_next (W_Failed q e) p = (p = W_Final None)"
| "phase_next (W_Handler e) p = (p = W_Final None)"
| "phase_next (W_Final x) p = (p = W_Last x)"
| "phase_next (W_Last x) p = (p = (case x of None \<Rightarrow> W_End | Some e \<Rightarrow> W_Dead e))"
| "phase_next W_End p = (p = W_End)"
| "phase_next (W_Dead e) p = (p = W_Dead e)"
| "phase_next W_None p = (p = W_None)"
| "phase_next _ p = (p = W_Top)"

lemmas phase_defs = worker_open_def worker_bootstrap_def worker_ready_def worker_top_def worker_choose_def worker_wake_first_def
  worker_settle_def worker_settled_def worker_stop_def worker_watchdog_def worker_stale_def worker_poll_def worker_execute_def
  worker_after_ack_def worker_failed_def worker_handler_def worker_final_def worker_last_def

lemma phase_yields: "yields (phase_next p) (worker_phase tid X p)"
  by (cases p) (auto simp: phase_defs Let_def)

text \<open>A step goes on to the next phase, or to the handler of what the phase raised.\<close>

lemma worker_step_next:
  assumes "worker_step tid X ow = Some u"
  shows "phase_next (own_pc ow) (own_pc u) \<or> (\<exists>e. own_pc u = raised (own_pc ow) e)"
proof -
  obtain r v where m: "worker_phase tid X (own_pc ow) ow = Some (r, v)"
    and u: "u = v\<lparr>own_pc := (case r of Inl e \<Rightarrow> raised (own_pc ow) e | Inr pc \<Rightarrow> pc)\<rparr>"
    using assms by (auto simp: worker_step_def)
  then show ?thesis
    using phase_yields [of "own_pc ow" tid X] by (cases r) (auto simp: yields_def wp_def dest: spec [of _ ow])
qed

section \<open>A requested stop\<close>

text \<open>The most steps the worker has left when a stop is requested.\<close>

fun steps_left :: "worker_pc \<Rightarrow> owner_config \<Rightarrow> nat" where
  "steps_left W_Start cfg = 10 + nat (bootstrap_feedback_samples cfg)"
| "steps_left (W_Bootstrap n) cfg = 9 + n"
| "steps_left W_Ready cfg = 8"
| "steps_left W_Top cfg = 6"
| "steps_left (W_Choose v) cfg = 5"
| "steps_left (W_Wait t) cfg = 7"
| "steps_left (W_WaitFirst t) cfg = 8"
| "steps_left W_Settle cfg = 8"
| "steps_left W_Settled cfg = 7"
| "steps_left (W_Execute q) cfg = 8"
| "steps_left (W_AfterAck q) cfg = 7"
| "steps_left W_Poll cfg = 7"
| "steps_left (W_Failed q e) cfg = 4"
| "steps_left (W_Stop r) cfg = 4"
| "steps_left (W_Watchdog r t) cfg = 4"
| "steps_left (W_Stale r t) cfg = 4"
| "steps_left (W_Handler e) cfg = 3"
| "steps_left (W_Final p) cfg = 2"
| "steps_left (W_Last p) cfg = 1"
| "steps_left W_End cfg = 0"
| "steps_left (W_Dead e) cfg = 0"
| "steps_left W_None cfg = 11 + nat (bootstrap_feedback_samples cfg)"

text \<open>
  What every program of the worker keeps, as a relation between its first and last state. The
  rules for the program constructs hold for every reflexive and transitive relation.
\<close>

definition relates :: "('s \<Rightarrow> 's \<Rightarrow> bool) \<Rightarrow> ('s, 'x) prog \<Rightarrow> bool" where
  "relates R m = (\<forall>s r t. m s = Some (r, t) \<longrightarrow> R s t)"

lemmas prog_defs = bindP_def thenP_def ret_def throw_def gets_def modify_def raise_if_def tryP_def catchP_def finallyP_def
  lift_res_def

locale kept_order =
  fixes R :: "'s \<Rightarrow> 's \<Rightarrow> bool"
  assumes kept_refl: "R s s"
    and kept_trans: "R s t \<Longrightarrow> R t u \<Longrightarrow> R s u"
begin

lemma relates_basic [intro!]:
  "relates R (ret x)" "relates R (throw e)" "relates R (gets h)" "relates R (lift_res r)" "relates R (raise_if b e)"
  "(\<And>s. R s (f s)) \<Longrightarrow> relates R (modify f)"
  using kept_refl by (auto simp: relates_def prog_defs split: if_splits)

lemma relates_bind [intro!]:
  assumes "relates R m" "\<And>x. relates R (k x)"
  shows "relates R (bindP m k)"
  unfolding relates_def bindP_def
proof (intro allI impI)
  fix s r t
  assume b: "(case m s of None \<Rightarrow> None | Some (r, s') \<Rightarrow> (case r of Inl e \<Rightarrow> Some (Inl e, s') | Inr x \<Rightarrow> k x s')) = Some (r, t)"
  then obtain r' u where m: "m s = Some (r', u)" by (auto split: option.splits)
  then show "R s t" using b assms kept_trans [of s u t] by (cases r') (auto simp: relates_def)
qed

lemma relates_catch [intro!]:
  assumes "relates R m" "\<And>e. relates R (h e)"
  shows "relates R (catchP m h)"
  unfolding relates_def catchP_def
proof (intro allI impI)
  fix s r t
  assume b: "(case m s of None \<Rightarrow> None | Some (r, s') \<Rightarrow> (case r of Inl e \<Rightarrow> h e s' | Inr x \<Rightarrow> Some (Inr x, s'))) = Some (r, t)"
  then obtain r' u where m: "m s = Some (r', u)" by (auto split: option.splits)
  then show "R s t" using b assms kept_trans [of s u t] by (cases r') (auto simp: relates_def)
qed

lemma relates_rules [intro!]:
  "relates R m1 \<Longrightarrow> relates R k1 \<Longrightarrow> relates R (thenP m1 k1)"
  "relates R m2 \<Longrightarrow> relates R k2 \<Longrightarrow> relates R (if b then m2 else k2)"
  unfolding thenP_def by auto

lemma relates_try [intro!]: "relates R m \<Longrightarrow> relates R (tryP m)"
  by (auto simp: relates_def tryP_def split: option.splits)

lemma relates_finally [intro!]: "relates R m \<Longrightarrow> (\<And>s. R s (f s)) \<Longrightarrow> relates R (finallyP m f)"
  using kept_trans by (fastforce simp: relates_def finallyP_def split: option.splits)

lemma relates_cases [intro!]:
  "(v = None \<Longrightarrow> relates R m) \<Longrightarrow> (\<And>x. v = Some x \<Longrightarrow> relates R (k x)) \<Longrightarrow> relates R (case v of None \<Rightarrow> m | Some x \<Rightarrow> k x)"
  "(xs = [] \<Longrightarrow> relates R m') \<Longrightarrow> (\<And>x ys. xs = x # ys \<Longrightarrow> relates R (k' x ys)) \<Longrightarrow> relates R (case xs of [] \<Rightarrow> m' | x # ys \<Rightarrow> k' x ys)"
  "(n = 0 \<Longrightarrow> relates R m'') \<Longrightarrow> (\<And>x. n = Suc x \<Longrightarrow> relates R (k'' x)) \<Longrightarrow> relates R (case n of 0 \<Rightarrow> m'' | Suc x \<Rightarrow> k'' x)"
  "(\<And>x y. relates R (k3 x y)) \<Longrightarrow> relates R (case z of (x, y) \<Rightarrow> k3 x y)"
  by (auto split: option.split list.split nat.split prod.split)

end

text \<open>The settings and the stop flag stay, and so does a fault, whose stop can only become confirmed.\<close>

definition worker_kept :: "'s owner \<Rightarrow> 's owner \<Rightarrow> bool" where
  "worker_kept ow u =
     (own_cfg u = own_cfg ow \<and> stop_requested u = stop_requested ow \<and>
      (\<forall>f. own_fault ow = Some f \<longrightarrow> (\<exists>h. own_fault u = Some h \<and> fault_reason h = fault_reason f \<and>
         (fault_stop_confirmed f \<longrightarrow> fault_stop_confirmed h))))"

interpretation worker: kept_order worker_kept
  by unfold_locales (auto simp: worker_kept_def)

lemma kept_by_call [intro!]: "relates worker_kept (sysO m)" "relates worker_kept (opO (own_now X))"
  "relates worker_kept (opO (wall_now X))" "relates worker_kept (worldO c)" "relates worker_kept (outsideO d)"
  "relates worker_kept the_actuator" "relates worker_kept (logO ev)" "relates worker_kept attempt_disable"
  "relates worker_kept (call_part own_tracking (\<lambda>tr ow. ow\<lparr>own_tracking := tr\<rparr>) f)"
  by (auto simp: relates_def worker_kept_def sysO_def worldO_def outsideO_def on_part_def opO_def call_part_def own_now_def
      wall_now_def world_clock_def Let_def the_actuator_def gets_def logO_def modify_def attempt_disable_def split: prod.splits)

lemma kept_by_update [intro!]:
  "worker_kept ow (complete_request r e ow)" "worker_kept ow (finish_fault_stop re er b ow)"
  "worker_kept ow (complete_ticket i x ow)" "worker_kept ow (end_inflight ow)"
  by (simp_all add: worker_kept_def complete_request_alt complete_ticket_def end_inflight_def finish_fault_stop_def
      finished_fault_def Let_def split: option.split)

text \<open>A fault is recorded only where there is none.\<close>

lemma kept_by_recording:
  assumes "relates worker_kept k"
  shows "relates worker_kept (bindP (gets own_fault) (\<lambda>fault. thenP (case fault of
      None \<Rightarrow> bindP (opO (own_now X)) (\<lambda>now. modify (\<lambda>ow. ow\<lparr>own_fault := Some (new_fault d now pending)\<rparr>))
    | Some f \<Rightarrow> ret ()) k))"
proof -
  have "worker_kept s t" if "bindP (gets own_fault) (\<lambda>fault. thenP (case fault of
      None \<Rightarrow> bindP (opO (own_now X)) (\<lambda>now. modify (\<lambda>ow. ow\<lparr>own_fault := Some (new_fault d now pending)\<rparr>))
    | Some f \<Rightarrow> ret ()) k) s = Some (r, t)" for s r t
  proof (cases "own_fault s")
    case (Some f)
    then show ?thesis using that assms by (simp add: bindP_def thenP_def gets_def ret_def relates_def)
  next
    case None
    let ?m = "bindP (opO (own_now X)) (\<lambda>now. modify (\<lambda>ow. ow\<lparr>own_fault := Some (new_fault d now pending)\<rparr>))"
    have run: "bindP ?m (\<lambda>_. k) s = Some (r, t)" using that None by (simp add: bindP_def thenP_def gets_def)
    then obtain r' u where m: "?m s = Some (r', u)" by (auto simp: bindP_def split: option.splits)
    then have "worker_kept s u"
      using None by (auto simp: bindP_def opO_def call_part_def modify_def own_now_def world_clock_def worker_kept_def Let_def
          split: prod.splits sum.splits)
    then show ?thesis
      using run m assms worker.kept_trans [of s u t] by (cases r') (auto simp: bindP_def [of ?m] relates_def)
  qed
  then show ?thesis unfolding relates_def by blast
qed

lemmas helper_defs = cache_feedback_def register_tracking_target_def fail_pending_ledger_def publish_fault_def stop_after_fault_def
  watchdog_expire_def normal_disable_def poll_owner_safety_def check_bootstrap_heartbeat_def advance_feedback_def
  stop_failed_request_def last_disable_def close_session_def

lemma kept_by_helpers [intro!]:
  "relates worker_kept (cache_feedback X f)" "relates worker_kept (register_tracking_target ts n)"
  "relates worker_kept (fail_pending_ledger m)"
  "relates worker_kept (publish_fault X m)" "relates worker_kept (stop_after_fault tid X m)" "relates worker_kept (normal_disable tid X)"
  "relates worker_kept (watchdog_expire tid X t)" "relates worker_kept (poll_owner_safety tid X)"
  "relates worker_kept (check_bootstrap_heartbeat tid X m)" "relates worker_kept (advance_feedback t)"
  "relates worker_kept (stop_failed_request tid X m)" "relates worker_kept (last_disable tid X)" "relates worker_kept (close_session X)"
  by (auto simp: helper_defs Let_def intro!: kept_by_recording) (auto simp: worker_kept_def)

lemma phase_kept: "relates worker_kept (worker_phase tid X p)"
  by (cases p; (auto simp: phase_defs Let_def)[1]) (auto simp: worker_kept_def)

text \<open>After a requested stop every step of the worker uses up one of the steps it has left.\<close>

lemma stopping_step:
  assumes "stop_requested ow" "worker_alive ow" "worker_step tid X ow = Some u"
  shows "stop_requested u" "own_cfg u = own_cfg ow" "steps_left (own_pc u) (own_cfg u) < steps_left (own_pc ow) (own_cfg ow)"
proof -
  obtain r v where m: "worker_phase tid X (own_pc ow) ow = Some (r, v)"
    and u: "u = v\<lparr>own_pc := (case r of Inl e \<Rightarrow> raised (own_pc ow) e | Inr pc \<Rightarrow> pc)\<rparr>"
    using assms(3) by (auto simp: worker_step_def)
  have "worker_kept ow v"
    using phase_kept [of tid X "own_pc ow"] m unfolding relates_def by blast
  then show cfg: "stop_requested u" "own_cfg u = own_cfg ow" using assms(1) u by (simp_all add: worker_kept_def)
  have next_pc: "phase_next (own_pc ow) (own_pc u) \<or> (\<exists>e. own_pc u = raised (own_pc ow) e)"
    by (rule worker_step_next [OF assms(3)])
  show "steps_left (own_pc u) (own_cfg u) < steps_left (own_pc ow) (own_cfg ow)"
  proof (cases "own_pc ow")
    case W_Start
    have "wp (worker_open tid X) (\<lambda>p u. p = W_Bootstrap (nat (bootstrap_feedback_samples (own_cfg u)))) (\<lambda>_ _. True) ow"
      unfolding worker_open_def wp_thenP wp_sysO by (rule wp_I) simp_all
    then show ?thesis using m u cfg(2) W_Start by (cases r) (auto simp: wp_def)
  next
    case (W_Choose w)
    then show ?thesis using m u assms(1) by (auto simp: worker_choose_def prog_defs)
  next
    case (W_WaitFirst t)
    then show ?thesis using m u assms(1) by (auto simp: worker_wake_first_def prog_defs)
  next
    case (W_Bootstrap n)
    then show ?thesis using next_pc by (cases n) auto
  qed (use next_pc assms(2) in \<open>auto simp: worker_alive_def split: option.splits\<close>)
qed


text \<open>The other threads leave the worker where it is, except that \<open>start\<close> starts it.\<close>

lemma client_step:
  assumes "thread_step tid X ow u" "owner_inv ow" "stop_requested ow" "own_pc ow \<noteq> W_None"
  shows "worker_alive ow \<and> worker_step tid X ow = Some u \<or>
    stop_requested u \<and> own_cfg u = own_cfg ow \<and> own_pc u = own_pc ow"
  using assms
proof (induction rule: thread_step.induct)
  case (by_start ow r ow')
  then show ?case
    by (cases "own_pc ow") (auto simp: start_owner_def owner_inv_def inv_defs split: if_splits)
next
  case (by_submit c ow r ow')
  obtain n v where n: "own_now X ow = (n, v)" by (cases "own_now X ow")
  then show ?case using by_submit clock_touched [OF n]
    by (cases n) (auto simp: submit_def submit_refused_def Let_def split: if_splits)
next
  case (by_begin_settle t ow r ow')
  obtain n v where n: "own_now X ow = (n, v)" by (cases "own_now X ow")
  then show ?case using by_begin_settle clock_touched [OF n]
    by (auto simp: begin_final_settle_def aside_def split: if_splits sum.splits option.splits)
qed (auto simp: start_result_def execute_result_def await_final_settle_def request_stop_def Let_def split: if_splits)

section \<open>The close of the session\<close>

text \<open>Only the last phase but one touches what is recorded of the close.\<close>

definition close_kept :: "'s owner \<Rightarrow> 's owner \<Rightarrow> bool" where
  "close_kept ow u = (close_attempted u = close_attempted ow \<and> serial_closed u = serial_closed ow)"

interpretation closing: kept_order close_kept
  by unfold_locales (auto simp: close_kept_def)

lemma close_kept_call [intro!]: "relates close_kept (sysO m)" "relates close_kept (opO (own_now X))"
  "relates close_kept (opO (wall_now X))" "relates close_kept (worldO c)" "relates close_kept (outsideO d)"
  "relates close_kept the_actuator" "relates close_kept (logO ev)" "relates close_kept attempt_disable"
  "relates close_kept (call_part own_tracking (\<lambda>tr ow. ow\<lparr>own_tracking := tr\<rparr>) f)"
  by (auto simp: relates_def close_kept_def sysO_def worldO_def outsideO_def on_part_def opO_def call_part_def own_now_def
      wall_now_def world_clock_def Let_def the_actuator_def gets_def logO_def modify_def attempt_disable_def split: prod.splits)

lemma close_kept_update [intro!]:
  "close_kept ow (complete_request r e ow)" "close_kept ow (finish_fault_stop re er b ow)"
  "close_kept ow (complete_ticket i x ow)" "close_kept ow (end_inflight ow)"
  by (simp_all add: close_kept_def complete_request_alt complete_ticket_def end_inflight_def finish_fault_stop_def
      split: option.split)

lemma close_kept_helpers [intro!]:
  "relates close_kept (cache_feedback X f)" "relates close_kept (register_tracking_target ts n)"
  "relates close_kept (fail_pending_ledger m)"
  "relates close_kept (publish_fault X m)" "relates close_kept (stop_after_fault tid X m)" "relates close_kept (normal_disable tid X)"
  "relates close_kept (watchdog_expire tid X t)" "relates close_kept (poll_owner_safety tid X)"
  "relates close_kept (check_bootstrap_heartbeat tid X m)" "relates close_kept (advance_feedback t)"
  "relates close_kept (stop_failed_request tid X m)" "relates close_kept (last_disable tid X)"
  by (auto simp: helper_defs Let_def) (auto simp: close_kept_def)

lemma phase_close_kept:
  assumes "\<And>q. p \<noteq> W_Final q"
  shows "relates close_kept (worker_phase tid X p)"
  using assms by (cases p; (auto simp: phase_defs Let_def)[1]) (auto simp: close_kept_def)

text \<open>The call of \<open>close\<close> returned or raised, and that is what the owner says of it.\<close>

definition close_returned :: "'s owner_env \<Rightarrow> 's owner \<Rightarrow> bool" where
  "close_returned X ow =
     (\<exists>w r w'. session_close X w = Some (r, w') \<and> (serial_closed ow \<longleftrightarrow> (\<exists>u. r = Inr u)))"

lemma relates_wp: "relates R m \<Longrightarrow> wp m (\<lambda>_. R s) (\<lambda>_. R s) s"
  by (auto simp: relates_def wp_def split: option.split sum.split prod.split)

lemma close_session_returned:
  "wp (close_session X) (\<lambda>_. close_returned X) (\<lambda>_. close_returned X) ow"
proof -
  have failed: "wp (thenP (modify (\<lambda>ow. ow\<lparr>serial_closed := False\<rparr>)) (thenP (publish_fault X m) (bindP (gets id) (\<lambda>ow.
      modify (finish_fault_stop (own_stop_report ow) None (stop_confirmed (act (own_sys ow)))))))) (\<lambda>_. close_returned X)
      (\<lambda>_. close_returned X) u" if c: "session_close X w = Some (Inl e, w')" for m u w e w'
  proof -
    have "relates close_kept (thenP (publish_fault X m) (bindP (gets id) (\<lambda>ow.
      modify (finish_fault_stop (own_stop_report ow) None (stop_confirmed (act (own_sys ow)))))))"
      by auto
    from relates_wp [OF this, of "u\<lparr>serial_closed := False\<rparr>"] show ?thesis
      unfolding wp_thenP [of "modify _"] wp_modify
      by (rule wp_mono) (use c in \<open>auto simp: close_returned_def close_kept_def\<close>)
  qed
  have call: "wp (worldO (session_close X)) (\<lambda>x u. \<exists>w w'. session_close X w = Some (Inr x, w'))
      (\<lambda>e u. \<exists>w w'. session_close X w = Some (Inl e, w')) u" for u :: "'a owner"
    by (auto simp: wp_def worldO_def sysO_def on_part_def split: option.split sum.split prod.split)
  show ?thesis
    unfolding close_session_def wp_thenP [of "modify (close_attempted_update _)"] wp_modify wp_thenP [of "logO _"] wp_logO
      wp_catchP wp_thenP [of "worldO _"]
    by (rule wp_mono [OF call]) (use failed in \<open>auto simp: close_returned_def simp del: wp_thenP wp_bindP\<close>)
qed

lemma final_close:
  "wp (worker_final tid X p) (\<lambda>_ u. close_kept ow u \<or> close_returned X u) (\<lambda>_ u. close_kept ow u \<or> close_returned X u) ow"
proof (cases "own_session ow")
  case True
  have "wp (last_disable tid X) (\<lambda>_. close_kept ow) (\<lambda>_. close_kept ow) ow"
    by (rule relates_wp) auto
  with True show ?thesis
    by (auto simp: worker_final_def wp_ends elim!: wp_mono intro!: wp_mono [OF close_session_returned])
qed (simp add: worker_final_def close_kept_def)

lemma worker_step_close:
  assumes "worker_step tid X ow = Some u"
  shows "close_kept ow u \<or> close_returned X u"
proof -
  obtain r v where m: "worker_phase tid X (own_pc ow) ow = Some (r, v)"
    and u: "u = v\<lparr>own_pc := (case r of Inl e \<Rightarrow> raised (own_pc ow) e | Inr pc \<Rightarrow> pc)\<rparr>"
    using assms by (auto simp: worker_step_def)
  have "close_kept ow v \<or> close_returned X v"
  proof (cases "\<exists>q. own_pc ow = W_Final q")
    case True
    then obtain q where "worker_final tid X q ow = Some (r, v)" using m by auto
    then show ?thesis using final_close [of tid X q ow] by (cases r) (auto simp: wp_def)
  next
    case False
    then show ?thesis using m phase_close_kept [of "own_pc ow" tid X] unfolding relates_def by blast
  qed
  then show ?thesis using u by (simp add: close_kept_def close_returned_def)
qed

lemma thread_step_close:
  assumes "thread_step tid X ow u"
  shows "close_kept ow u \<or> close_returned X u"
  using assms
proof (induction rule: thread_step.induct)
  case (by_worker ow ow')
  then show ?case using worker_step_close by blast
next
  case (by_submit c ow r ow')
  obtain n v where n: "own_now X ow = (n, v)" by (cases "own_now X ow")
  then show ?case using by_submit clock_touched [OF n]
    by (cases n) (auto simp: submit_def Let_def aside_def close_kept_def split: option.splits)
next
  case (by_begin_settle t ow r ow')
  obtain n v where n: "own_now X ow = (n, v)" by (cases "own_now X ow")
  then show ?case using by_begin_settle clock_touched [OF n]
    by (auto simp: begin_final_settle_def aside_def close_kept_def split: if_splits sum.splits option.splits)
qed (auto simp: start_owner_def start_result_def execute_result_def await_final_settle_def request_stop_def
    close_kept_def Let_def split: if_splits)

lemma reach_close:
  "reach owner_init (owned_step tid X) ow \<Longrightarrow> close_attempted ow \<Longrightarrow> close_returned X ow"
proof (induction rule: reach.induct)
  case (reach_init ow)
  then show ?case by (auto simp: owner_init_def new_owner_def)
next
  case (reach_step ow u)
  then show ?case
    using thread_step_close [of tid X ow u] by (auto simp: owned_step_def close_kept_def close_returned_def)
qed

section \<open>A failed command\<close>

text \<open>
  The call of \<open>fault_and_disable\<close> with which the handler of a failed command stops the hand: it starts
  from the actuator the command left, and what it leaves is what the step leaves.
\<close>

definition stop_called :: "nat \<Rightarrow> 's owner_env \<Rightarrow> 's owner \<Rightarrow> 's owner \<Rightarrow> bool" where
  "stop_called tid X ow u =
     (\<exists>s m r. touched (own_sys ow) s \<and> fault_and_disable tid (actuator_env X) m s = Some (r, own_sys u))"

lemma same_sys [simp]:
  "own_sys (finish_fault_stop report err b ow) = own_sys ow" "own_sys (complete_ticket i x ow) = own_sys ow"
  "own_sys (end_inflight ow) = own_sys ow"
  by (simp_all add: finish_fault_stop_def complete_ticket_def end_inflight_def split: option.split)

lemma failed_stops:
  assumes "sound_clock X" "honest ow" "\<not> stop_confirmed (act (own_sys ow))" "act_state (act (own_sys ow)) \<noteq> AS_DISARMED"
  shows "wp (worker_failed tid X q e) (\<lambda>_. stop_called tid X ow) (\<lambda>_ _. True) ow"
proof -
  have stop: "wp (stop_failed_request tid X m) (\<lambda>_. stop_called tid X ow) (\<lambda>_ _. True) u"
    if u: "touched (own_sys ow) (own_sys u)" for u m
  proof -
    have "wp (stop_after_fault tid X m) (\<lambda>_. stop_called tid X ow) (\<lambda>_ _. True) (u\<lparr>disable_attempted := True\<rparr>)"
      using u unfolding stop_after_fault_def wp_thenP wp_logO wp_tryP wp_sysO
      by (auto simp: wp_def stop_called_def split: option.split sum.split prod.split)
    moreover have "\<not> stop_confirmed (act (own_sys u))" "act_state (act (own_sys u)) \<noteq> AS_DISARMED"
      using u assms(3,4) by (simp_all add: touched_def)
    ultimately show ?thesis
      by (cases "act_state (act (own_sys u))") (auto simp: stop_failed_request_def wp_ends elim!: wp_mono)
  qed
  show ?thesis
    unfolding worker_failed_def wp_finallyP Let_def wp_thenP [of "publish_fault _ _"]
  proof (rule wp_mono [OF wp_publish_latched [OF assms(1,2)]], goal_cases)
    case (1 x u)
    then show ?case
      unfolding wp_bindP [of "stop_failed_request _ _ _"]
      by (intro wp_mono [OF stop]) (auto simp: stop_called_def split: prod.split)
  qed simp
qed

end
