(* ===== verification/Watchdog_Sim.thy ===== *)
theory Watchdog_Sim
  imports Watchdog_Flow Actuator_Sim Binary64
begin

text \<open>
  A run of the watchdog owner on the simulated hand, for the witnesses: start, two bootstrap
  samples, the loop, then either one command or a requested stop, the last disable and the close.
  Every state of the run is an explicit term.
\<close>

section \<open>The owner\<close>

definition owner_env_ex :: "hand_sim owner_env" where
  "owner_env_ex =
     \<lparr>actuator_env = sim_env,
      own_monotonic = (\<lambda>w. (Inr (tick (sim_ticks w)), w\<lparr>sim_ticks := sim_ticks w + 1\<rparr>)),
      own_realtime = (\<lambda>w. (Inr (tick (sim_ticks w)), w\<lparr>sim_ticks := sim_ticks w + 1\<rparr>)),
      session_factory = modify (\<lambda>_. system_ex), session_close = ret (), fault_callback = None\<rparr>"

definition owner_cfg_ex :: owner_config where
  "owner_cfg_ex =
     \<lparr>startup_timeout_s = Fin 2, response_timeout_s = Fin 2, join_timeout_s = Fin 2, bootstrap_feedback_samples = 2,
      feedback_history_capacity = 8, supervised_target_only = False, feedback_period_s = tick 32, feedback_hard_age_s = tick 64,
      tracking_significant_gap_units = 30, tracking_min_progress_units = 3, tracking_position_min_progress_units = 5,
      tracking_contact_force_delta_g = 150, tracking_contact_force_absolute_g = 200, tracking_timeout_s = Fin (3 / 4),
      thread_name = ''rh56-watchdog-owner''\<rparr>"

definition owner_args_ex :: owner_args where
  "owner_args_ex = default_owner_args\<lparr>arg_feedback_period_s := PyFloat (tick 32), arg_feedback_hard_age_s := PyFloat (tick 64)\<rparr>"

lemma owner_config_ex: "make_owner_config owner_args_ex = Inr owner_cfg_ex"
  by code_simp

lemma env_ex [simp]:
  "own_now owner_env_ex ow = (Inr (tick (sim_ticks (world (own_sys ow)))), ow\<lparr>own_sys := advance 1 (own_sys ow)\<rparr>)"
  "wall_now owner_env_ex ow = (Inr (tick (sim_ticks (world (own_sys ow)))), ow\<lparr>own_sys := advance 1 (own_sys ow)\<rparr>)"
  "actuator_env owner_env_ex = sim_env" "session_factory owner_env_ex = modify (\<lambda>_. system_ex)"
  "session_close owner_env_ex = ret ()" "fault_callback owner_env_ex = None"
  by (simp_all add: owner_env_ex_def own_now_def wall_now_def world_clock_def finite_float_PyFloat advance_def)

lemma sound_ex: "sound_clock owner_env_ex"
proof -
  have "\<exists>t. tick n = Fin t" for n unfolding tick_def by blast
  then show ?thesis by (simp add: sound_clock_def owner_env_ex_def)
qed

lemma factory_ex: "honest_factory owner_env_ex"
  by (simp add: honest_factory_def backed_def) (simp add: armed_ex_def)

text \<open>The hand rests; the clock, the gate and the last sample move.\<close>

abbreviation rest_ex :: "int list" where "rest_ex \<equiv> [0, 200, 400, 600, 800, 1000]"

definition sim_at :: "int \<Rightarrow> hand_sim" where
  "sim_at n = \<lparr>sim_ticks = n, sim_targets = replicate 6 (-1), sim_angles = rest_ex\<rparr>"
definition gate_at :: "int \<Rightarrow> safety_gate" where
  "gate_at g = gate_armed\<lparr>last_motion_check_by_thread := [7 \<mapsto> tick g], last_motion_check := Some (tick g)\<rparr>"
definition armed_at :: "int \<Rightarrow> actuator" where
  "armed_at m = armed_ex\<lparr>last_feedback_monotonic_s := Some (tick m)\<rparr>"
definition sys_at :: "int \<Rightarrow> int \<Rightarrow> int \<Rightarrow> io_event list \<Rightarrow> hand_sim system" where
  "sys_at n g m l = \<lparr>act = armed_at m, gate_of = gate_at g, ledger_of = ledger_ex_half, world = sim_at n, io_log = l\<rparr>"

lemma gate_at_simps [simp]:
  "gate_state (gate_at g) = ARMED" "gate_authorization (gate_at g) = Some auth_ex"
  "last_motion_check_by_thread (gate_at g) = [7 \<mapsto> tick g]" "last_motion_check (gate_at g) = Some (tick g)"
  "deadman_asserted (gate_at g) = Some True" "estop_healthy (gate_at g) = Some True"
  "(gate_at g)\<lparr>last_motion_check_by_thread := [7 \<mapsto> tick h], last_motion_check := Some (tick h)\<rparr> = gate_at h"
  by (simp_all add: gate_at_def)

lemma armed_at_simps [simp]:
  "settings_of (armed_at m) = settings_ex" "act_state (armed_at m) = AS_ARMED" "last_feedback_monotonic_s (armed_at m) = Some (tick m)"
  "last_command_monotonic_s (armed_at m) = Some (tick 2048)" "act_pending_sequence (armed_at m) = None"
  "last_acknowledged_sequence (armed_at m) = 0" "act_run_id (armed_at m) = Some ''run''" "safety_gate_bound (armed_at m)"
  "act_fault_reason (armed_at m) = None" "supervised_awaiting_first_numeric_command (armed_at m) = False"
  "act_owner (armed_at m) = \<lparr>endpoint_name = ''RH56 transport sim'', owner_thread = Some 7\<rparr>" "supervised_session (armed_at m) = False"
  "stop_confirmed (armed_at m) = False"
  "inter_command_watchdog_timeout_s (armed_at m) = tick 32" "awaiting_first_numeric_command (armed_at m) = False"
  "policy_watchdog_deadline_monotonic_s (armed_at m) = Some (tick 2080)"
  by (simp_all add: armed_at_def armed_ex_def inter_command_watchdog_timeout_s_def awaiting_first_numeric_command_def
      policy_watchdog_deadline_monotonic_s_def tick_plus)

lemma record_at [simp]: "record_feedback (sim_feedback n a) (armed_at m) = armed_at n"
  by (simp add: record_feedback_def armed_at_def)

lemma sys_at_simps [simp]:
  "act (sys_at n g m l) = armed_at m" "gate_of (sys_at n g m l) = gate_at g"
  "ledger_of (sys_at n g m l) = ledger_ex_half" "world (sys_at n g m l) = sim_at n" "io_log (sys_at n g m l) = l"
  "sim_ticks (sim_at n) = n" "sim_targets (sim_at n) = replicate 6 (-1)" "sim_angles (sim_at n) = rest_ex"
  "advance k (sys_at n g m l) = sys_at (n + k) g m l" "(sys_at n g m l)\<lparr>io_log := l'\<rparr> = sys_at n g m l'"
  "(sys_at n g m l)\<lparr>act := armed_at m'\<rparr> = sys_at n g m' l" "(sys_at n g m l)\<lparr>gate_of := gate_at h\<rparr> = sys_at n h m l"
  by (simp_all add: sys_at_def sim_at_def advance_def)

lemma owner_at: "require_owner 7 (sys_at n g m l) = Some (Inr (), sys_at n g m l)"
  by (simp add: require_owner_def require_current_thread_def run_defs)

lemma system_ex_at: "system_ex = sys_at 2049 2048 2048 []"
  by (simp add: system_ex_def sys_at_def sim_at_def armed_at_def gate_at_def armed_ex_def gate_armed_def gate_ready_def Fin_tick)

lemma poll_at:
  assumes "2048 \<le> g" "2048 \<le> m" "g \<le> n" "m \<le> n" "n < 2070"
  shows "poll_safety 7 sim_env (PyBool False) (sys_at n g m l) =
    Some (Inr (sim_feedback (n + 2) rest_ex), sys_at (n + 3) n (n + 2) (l @ [ReadFeedback, GotFeedback (sim_feedback (n + 2) rest_ex)]))"
  using assms
  by (simp add: poll_safety_def poll_body_def poll_feedback_def command_run owner_at sim_run require_bool_def
      run_defs Let_def del: fixed_str.simps)
    (simp add: sys_at_def advance_def sim_at_def gate_at_def fl_max_def add.commute)

lemmas owner_run = sysO_def opO_def worldO_def the_actuator_def logO_def attempt_disable_def run_defs

definition sample_at :: "int \<Rightarrow> timestamped_feedback" where
  "sample_at n = \<lparr>tf_feedback = sim_feedback n rest_ex, captured_realtime_s = tick (n + 1), cached_monotonic_s = tick (n + 1)\<rparr>"

text \<open>Caching a sample of tick \<open>n\<close>, in any state, and in a state of the simulated run.\<close>

lemma cache_any:
  assumes "sim_ticks (world (own_sys ow)) = n + k" "own_cfg ow = owner_cfg_ex" "latest_target (own_tracking ow) = None"
    "0 \<le> k" "0 \<le> n" "n < 10000" "k < 10000"
  shows "cache_feedback owner_env_ex (sim_feedback n rest_ex) ow = Some (Inr (),
    ow\<lparr>own_sys := advance 2 (own_sys ow), feedback_history := push_bounded 8
      \<lparr>tf_feedback = sim_feedback n rest_ex, captured_realtime_s = tick (n + 1), cached_monotonic_s = tick (n + k)\<rparr> (feedback_history ow)\<rparr>)"
  using assms
  by (simp add: cache_feedback_def owner_run make_timestamped_def finite_float_PyFloat tick_minus Let_def evaluate_tracking_def
      owner_cfg_ex_def algebra_simps)

lemma cache_at:
  assumes "own_sys ow = sys_at k g m l" "own_cfg ow = owner_cfg_ex" "latest_target (own_tracking ow) = None" "k = n + 1" "0 \<le> n" "n < 10000"
  shows "cache_feedback owner_env_ex (sim_feedback n rest_ex) ow = Some (Inr (),
    ow\<lparr>own_sys := sys_at (k + 2) g m l, feedback_history := push_bounded 8 (sample_at n) (feedback_history ow)\<rparr>)"
  using assms cache_any [of ow n 1] by (simp add: sample_at_def)

definition started_ex :: "hand_sim owner" where
  "started_ex = (new_owner owner_cfg_ex system_ex)\<lparr>own_state := OS_STARTING, own_pc := W_Start\<rparr>"

definition opened_ex :: "nat \<Rightarrow> hand_sim system \<Rightarrow> timestamped_feedback list \<Rightarrow> hand_sim owner" where
  "opened_ex n s h = started_ex\<lparr>own_sys := s, own_session := True, own_pc := W_Bootstrap n, feedback_history := h,
     actuator_watchdog_timeout_s := Some (tick 32), default_feedback_maximum_age_s := Some (tick 16)\<rparr>"

lemma owner_cfg_ex_simps [simp]: "supervised_target_only owner_cfg_ex = False"
  "bootstrap_feedback_samples owner_cfg_ex = 2" "feedback_history_capacity owner_cfg_ex = 8"
  "feedback_period_s owner_cfg_ex = tick 32" "feedback_hard_age_s owner_cfg_ex = tick 64"
  by (simp_all add: owner_cfg_ex_def)

lemma opened_ex_simps [simp]: "own_pc (opened_ex n s h) = W_Bootstrap n" "own_sys (opened_ex n s h) = s"
  "own_cfg (opened_ex n s h) = owner_cfg_ex" "feedback_history (opened_ex n s h) = h" "own_tracking (opened_ex n s h) = new_tracking"
  "own_pc started_ex = W_Start"
  by (simp_all add: opened_ex_def started_ex_def new_owner_def)

lemma open_ex: "worker_step 7 owner_env_ex started_ex = Some (opened_ex 2 (sys_at 2049 2048 2048 []) [])"
  by (simp add: worker_step_def owner_run worker_open_def system_ex_at)
   (simp add: opened_ex_def started_ex_def new_owner_def)

lemma opened_ex_update [simp]: "(opened_ex n s h)\<lparr>own_sys := t\<rparr> = opened_ex n t h"
  "(opened_ex n s h)\<lparr>own_pc := W_Bootstrap k\<rparr> = opened_ex k s h"
  "(opened_ex n s h)\<lparr>feedback_history := h'\<rparr> = opened_ex n s h'"
  by (simp_all add: opened_ex_def)

definition sampled_ex :: "int \<Rightarrow> io_event list" where
  "sampled_ex n = [ReadFeedback, GotFeedback (sim_feedback n rest_ex)]"

lemma boot_ex:
  "worker_step 7 owner_env_ex (opened_ex 2 (sys_at 2049 2048 2048 []) []) =
     Some (opened_ex 1 (sys_at 2055 2050 2052 (sampled_ex 2052)) [sample_at 2052])"
  "worker_step 7 owner_env_ex (opened_ex 1 (sys_at 2055 2050 2052 (sampled_ex 2052)) [sample_at 2052]) =
     Some (opened_ex 0 (sys_at 2061 2056 2058 (sampled_ex 2052 @ sampled_ex 2058)) [sample_at 2052, sample_at 2058])"
  "worker_step 7 owner_env_ex (opened_ex 0 (sys_at 2061 2056 2058 l) h) =
     Some ((opened_ex 0 (sys_at 2061 2056 2058 l) h)\<lparr>own_pc := W_Ready\<rparr>)"
  by (simp_all add: worker_step_def worker_bootstrap_def check_bootstrap_heartbeat_def poll_owner_safety_def owner_run poll_at cache_at
      push_bounded_def new_tracking_def sampled_ex_def)

definition running_ex :: "worker_pc \<Rightarrow> hand_sim system \<Rightarrow> hand_sim owner" where
  "running_ex p s = (opened_ex 0 s [sample_at 2052, sample_at 2058])\<lparr>own_pc := p, own_state := OS_RUNNING, first_command_readiness := True,
     own_ready := True, last_feedback_captured_s := tick 2058, next_feedback_deadline_s := tick 2090\<rparr>"

lemma ready_ex: "worker_step 7 owner_env_ex ((opened_ex 0 (sys_at 2061 2056 2058 l) [sample_at 2052, sample_at 2058])\<lparr>own_pc := W_Ready\<rparr>) =
     Some (running_ex W_Top (sys_at 2062 2056 2058 l))"
  by (simp add: worker_step_def worker_ready_def check_bootstrap_heartbeat_def owner_run Let_def sample_at_def tick_plus)
    (simp add: running_ex_def sample_at_def opened_ex_def started_ex_def new_owner_def)

lemma rep64_tick: "\<bar>k\<bar> < 2 ^ 40 \<Longrightarrow> rep64 (of_int k / 1024)"
  using rep64_scaled [of k "-10"] by (simp add: power_int_minus)

lemma grace_at:
  assumes "\<bar>n\<bar> < 2 ^ 39"
  shows "\<not> tick n + RH56_SUPERVISED_WRITE_RESPONSE_GRACE_S < tick (n + 2)"
proof -
  have "between (of_int 20 / 1024) 1 RH56_SUPERVISED_WRITE_RESPONSE_GRACE_S"
    unfolding RH56_SUPERVISED_WRITE_RESPONSE_GRACE_S_def
    by (rule between_rnd64) (use rep64_tick [of 20] in simp_all)
  then obtain g where g: "RH56_SUPERVISED_WRITE_RESPONSE_GRACE_S = Fin g" "20 / 1024 \<le> g" "g \<le> 1"
    by (auto elim: betweenE)
  have "between (of_int (n + 2) / 1024) (of_int (n + 1024) / 1024) (rnd64 (of_int n / 1024 + g))"
    by (rule between_rnd64 [OF _ _ rep64_tick rep64_tick]) (use g(2,3) assms in \<open>auto simp: add_divide_distrib\<close>)
  then show ?thesis by (auto simp: g(1) tick_def plus_fl_def elim!: betweenE)
qed

definition top_ex :: "hand_sim owner" where
  "top_ex = running_ex W_Top (sys_at 2062 2056 2058 (sampled_ex 2052 @ sampled_ex 2058))"

lemma running_ex_simps [simp]: "own_pc (running_ex p s) = p" "own_sys (running_ex p s) = s" "own_cfg (running_ex p s) = owner_cfg_ex"
  "stop_requested (running_ex p s) = False" "own_request (running_ex p s) = None" "final_settle_active (running_ex p s) = False"
  "final_settle_requested (running_ex p s) = False" "last_feedback_captured_s (running_ex p s) = tick 2058"
  "next_feedback_deadline_s (running_ex p s) = tick 2090" "own_state (running_ex p s) = OS_RUNNING" "request_inflight (running_ex p s) = False"
  "tickets (running_ex p s) = []" "own_fault (running_ex p s) = None" "own_tracking (running_ex p s) = new_tracking"
  "(running_ex p s)\<lparr>own_sys := t\<rparr> = running_ex p t"
  by (simp_all add: running_ex_def opened_ex_def started_ex_def new_owner_def)

definition view_ex :: "int \<Rightarrow> loop_view" where
  "view_ex n = \<lparr>view_now = tick n, view_deadline = Some (tick 2080), view_awaiting_first = False, view_feedback_due = False,
     view_feedback_expired = False\<rparr>"

definition request_ex :: execute_request where
  "request_ex = \<lparr>req_command = cmd_ex 1 2, req_ticket = 0, submitted_monotonic_s = tick 2062\<rparr>"

definition queued_ex :: "hand_sim owner" where
  "queued_ex = (running_ex W_Top (sys_at 2063 2056 2058 (sampled_ex 2052 @ sampled_ex 2058)))\<lparr>
     tickets := [\<lparr>tk_sequence = 1, tk_result = None\<rparr>], own_request := Some request_ex\<rparr>"

lemma submit_ex: "submit owner_env_ex (cmd_ex 1 2) top_ex = (Inr 0, queued_ex)"
  by (simp add: submit_def submit_refused_def top_ex_def queued_ex_def request_ex_def cmd_ex_def)

lemma top_step_ex: "worker_step 7 owner_env_ex queued_ex = Some (queued_ex\<lparr>own_sys := advance 1 (own_sys queued_ex), own_pc := W_Choose (view_ex 2063)\<rparr>)"
  by (simp add: worker_step_def worker_top_def owner_run queued_ex_def Let_def view_ex_def)

definition chosen_ex :: "hand_sim owner" where
  "chosen_ex = queued_ex\<lparr>own_sys := sys_at 2064 2056 2058 (sampled_ex 2052 @ sampled_ex 2058), own_pc := W_Choose (view_ex 2063)\<rparr>"

definition executing_ex :: "hand_sim owner" where
  "executing_ex = chosen_ex\<lparr>own_request := None, request_inflight := True, own_pc := W_Execute request_ex\<rparr>"

lemma choose_ex: "worker_step 7 owner_env_ex chosen_ex = Some executing_ex"
  by (simp add: worker_step_def worker_choose_def owner_run queued_ex_def Let_def view_ex_def chosen_ex_def executing_ex_def)



definition receipt_ex :: transaction_receipt where
  "receipt_ex = \<lparr>rcpt_sequence = 1, rcpt_acknowledged_monotonic_s = tick 2071, rcpt_latency_s = tick 23, rcpt_exact_readback = rest_ex,
     rcpt_feedback = sim_feedback 2070 rest_ex, rcpt_commit_completed = True\<rparr>"

lemma execute_at: "\<exists>t. execute 7 sim_env (cmd_ex 1 2) (sys_at 2064 2056 2058 l) = Some (Inr receipt_ex, t) \<and> sim_ticks (world t) = 2072"
  by (simp add: command_run owner_at sim_run sim_write Fin_tick ledger_ack_ex run_defs Let_def fl_max_def receipt_ex_def
      del: fixed_str.simps)

lemma executing_step_ex: "\<exists>u. worker_step 7 owner_env_ex executing_ex = Some u \<and> own_pc u = W_Top"
proof -
  obtain t where t: "execute 7 sim_env (cmd_ex 1 2) (sys_at 2064 2056 2058 (sampled_ex 2052 @ sampled_ex 2058)) = Some (Inr receipt_ex, t)"
    "sim_ticks (world t) = 2072" using execute_at by blast
  show ?thesis
    by (simp add: worker_step_def worker_execute_def owner_run executing_ex_def chosen_ex_def queued_ex_def request_ex_def t receipt_ex_def
       cache_any [of _ 2070 2] new_tracking_def complete_ticket_def end_inflight_def)
qed

lemma stop_at: "\<exists>rep t. disable_and_verify 7 sim_env (sys_at 2063 2056 2058 l) = Some (Inr rep, t)"
  by (simp add: disable_and_verify_def owner_at the_act_def stop_run sim_run grace_at [of 2066, simplified]
    grace_at [of 2083, simplified] grace_at [of 2088, simplified] run_defs loopP.simps Let_def del: fixed_str.simps)

definition stopping_ex :: "hand_sim owner" where
  "stopping_ex = request_stop top_ex"

lemma stopping_step_ex:
  "worker_step 7 owner_env_ex stopping_ex = Some (stopping_ex\<lparr>own_sys := advance 1 (own_sys stopping_ex), own_pc := W_Choose (view_ex 2062)\<rparr>)"
  "worker_step 7 owner_env_ex (stopping_ex\<lparr>own_sys := s, own_pc := W_Choose v\<rparr>) = Some (stopping_ex\<lparr>own_sys := s, own_pc := W_Stop None\<rparr>)"
  by (simp_all add: worker_step_def worker_top_def worker_choose_def owner_run stopping_ex_def request_stop_def top_ex_def Let_def view_ex_def)

lemma stopped_step_ex: "\<exists>s rep. proven s \<and> report_verified rep \<and>
  worker_step 7 owner_env_ex (stopping_ex\<lparr>own_sys := sys_at 2063 2056 2058 l, own_pc := W_Stop None\<rparr>) =
    Some (stopping_ex\<lparr>own_sys := s, own_pc := W_Final None, disable_attempted := True, own_log := [StopCalled], own_stop_report := Some rep\<rparr>)"
proof -
  obtain rep t where t: "disable_and_verify 7 sim_env (sys_at 2063 2056 2058 l) = Some (Inr rep, t)" using stop_at by blast
  have "proven t \<and> report_verified rep" using wp_disable_grows [of 7 sim_env "sys_at 2063 2056 2058 l"] t by (simp add: wp_def)
  then show ?thesis
    by (intro exI [of _ t] exI [of _ rep])
     (simp add: worker_step_def worker_stop_def normal_disable_def owner_run t stopping_ex_def request_stop_def top_ex_def running_ex_def opened_ex_def started_ex_def new_owner_def)
qed

lemma final_step_ex:
  assumes "own_session ow" "disable_attempted ow" 
  shows "worker_step 7 owner_env_ex (ow\<lparr>own_pc := W_Final None\<rparr>) =
     Some (ow\<lparr>close_attempted := True, own_log := own_log ow @ [CloseCalled], serial_closed := True, own_pc := W_Last None\<rparr>)"
    "worker_step 7 owner_env_ex (ow\<lparr>own_pc := W_Last None\<rparr>) =
     Some (ow\<lparr>final_settle_requested := False, final_settle_active := False,
              final_settle_deadline_s := None,
              own_state := (if own_fault ow = None then OS_STOPPED else OS_FAULT_LATCHED),
              own_ready := True, worker_stopped := True, own_pc := W_End\<rparr>)"
  using assms by (simp_all add: worker_step_def worker_final_def worker_last_def last_disable_def close_session_def owner_run)


section \<open>The run is one of the system\<close>

lemma ex_worker_step:
  "worker_step 7 owner_env_ex ow = Some u \<Longrightarrow> worker_alive ow \<Longrightarrow> owned_step 7 owner_env_ex ow u"
  using sound_ex factory_ex by (auto simp: owned_step_def intro: by_worker)

lemma ex_reach_worker:
  "reach owner_init (owned_step 7 owner_env_ex) ow \<Longrightarrow> worker_step 7 owner_env_ex ow = Some u \<Longrightarrow> worker_alive ow \<Longrightarrow>
    reach owner_init (owned_step 7 owner_env_ex) u"
  by (blast intro: reach_step ex_worker_step)

lemma reach_top_ex: "reach owner_init (owned_step 7 owner_env_ex) top_ex"
proof -
  have "owner_init (new_owner owner_cfg_ex system_ex)" using owner_config_ex unfolding owner_init_def by blast
  moreover have "owned_step 7 owner_env_ex (new_owner owner_cfg_ex system_ex) started_ex"
    unfolding owned_step_def
    by (intro conjI sound_ex factory_ex by_start [where r = "Inr ()"]) (simp add: start_owner_def started_ex_def new_owner_def)
  ultimately have "reach owner_init (owned_step 7 owner_env_ex) started_ex" by (blast intro: reach.intros)
  note r = ex_reach_worker [OF this open_ex]
  note r = ex_reach_worker [OF r boot_ex(1)]
  note r = ex_reach_worker [OF r boot_ex(2)]
  note r = ex_reach_worker [OF r boot_ex(3)]
  note r = ex_reach_worker [OF r ready_ex]
  show ?thesis unfolding top_ex_def by (rule r) (simp_all add: worker_alive_def)
qed

lemma submit_step_ex: "owned_step 7 owner_env_ex top_ex queued_ex"
  using sound_ex factory_ex submit_ex by (auto simp: owned_step_def intro: by_submit)

lemma reach_chosen_ex: "reach owner_init (owned_step 7 owner_env_ex) chosen_ex"
proof -
  have q: "reach owner_init (owned_step 7 owner_env_ex) queued_ex" using reach_top_ex submit_step_ex by (rule reach_step)
  have "own_sys queued_ex = sys_at 2063 2056 2058 (sampled_ex 2052 @ sampled_ex 2058)" by (simp add: queued_ex_def)
  with ex_reach_worker [OF q top_step_ex] show ?thesis by (simp add: chosen_ex_def worker_alive_def queued_ex_def)
qed

lemma reach_executing_ex: "reach owner_init (owned_step 7 owner_env_ex) executing_ex"
  by (rule ex_reach_worker [OF reach_chosen_ex choose_ex]) (simp add: chosen_ex_def worker_alive_def)

lemma reach_stopping_ex: "reach owner_init (owned_step 7 owner_env_ex) stopping_ex"
  unfolding stopping_ex_def using reach_top_ex by (rule reach_step) (simp add: owned_step_def sound_ex factory_ex by_request_stop)

text \<open>The run from the requested stop to the end, after which only \<open>request_stop\<close> is repeated.\<close>

lemma stop_run_ex:
  "\<exists>f. f 0 = stopping_ex \<and> (\<forall>i. owned_step 7 owner_env_ex (f i) (f (Suc i))) \<and> (\<forall>i\<ge>5. own_pc (f i) = W_End) \<and>
     own_session (f 5) \<and> (\<exists>r. stop_result (f 5) = Inr r \<and> rh56_disabled_verified r)"
proof -
  obtain s rep where s: "report_verified rep"
    "worker_step 7 owner_env_ex (stopping_ex\<lparr>own_sys := sys_at 2063 2056 2058 (sampled_ex 2052 @ sampled_ex 2058), own_pc := W_Stop None\<rparr>) =
    Some (stopping_ex\<lparr>own_sys := s, own_pc := W_Final None, disable_attempted := True, own_log := [StopCalled], own_stop_report := Some rep\<rparr>)"
    using stopped_step_ex by blast
  let ?t = "sys_at 2063 2056 2058 (sampled_ex 2052 @ sampled_ex 2058)"
  define d where "d = stopping_ex\<lparr>own_sys := s, own_pc := W_Final None, disable_attempted := True, own_log := [StopCalled], own_stop_report := Some rep\<rparr>"
  define c where "c = d\<lparr>close_attempted := True, own_log := own_log d @ [CloseCalled], serial_closed := True, own_pc := W_Last None\<rparr>"
  define z where "z = c\<lparr>final_settle_requested := False, final_settle_active := False, final_settle_deadline_s := None,
    own_state := (if own_fault c = None then OS_STOPPED else OS_FAULT_LATCHED), own_ready := True, worker_stopped := True, own_pc := W_End\<rparr>"
  define f where "f = (\<lambda>i::nat. [stopping_ex, stopping_ex\<lparr>own_sys := ?t, own_pc := W_Choose (view_ex 2062)\<rparr>,
    stopping_ex\<lparr>own_sys := ?t, own_pc := W_Stop None\<rparr>, d, c, z] ! min i 5)"
  have base: "own_session stopping_ex" "own_pc stopping_ex = W_Top" "stop_requested stopping_ex" "own_sys stopping_ex = sys_at 2062 2056 2058 (sampled_ex 2052 @ sampled_ex 2058)"
    by (simp_all add: stopping_ex_def request_stop_def top_ex_def) (simp add: running_ex_def opened_ex_def)
  have d: "d = d\<lparr>own_pc := W_Final None\<rparr>" "own_session d" "disable_attempted d" and c: "c = c\<lparr>own_pc := W_Last None\<rparr>" "own_session c" "disable_attempted c"
    and z: "z\<lparr>stop_requested := True\<rparr> = z" "own_pc z = W_End"
    using base by (simp_all add: d_def c_def z_def)
  have fs: "f 0 = stopping_ex" "f (Suc 0) = stopping_ex\<lparr>own_sys := ?t, own_pc := W_Choose (view_ex 2062)\<rparr>"
    "f (Suc (Suc 0)) = stopping_ex\<lparr>own_sys := ?t, own_pc := W_Stop None\<rparr>" "f (Suc (Suc (Suc 0))) = d"
    "f (Suc (Suc (Suc (Suc 0)))) = c" "f (Suc (Suc (Suc (Suc (Suc 0))))) = z" "\<And>i. 5 \<le> i \<Longrightarrow> f i = z"
    by (simp_all add: f_def)
  have alive: "worker_alive (f 0)" "worker_alive (f (Suc 0))" "worker_alive (f (Suc (Suc 0)))"
    "worker_alive d" "worker_alive c"
    using base d(1) c(1) by (simp_all add: fs worker_alive_def) (simp_all add: d_def c_def)
  have chain: "worker_step 7 owner_env_ex (f 0) = Some (f (Suc 0))"
    "worker_step 7 owner_env_ex (f (Suc 0)) = Some (f (Suc (Suc 0)))"
    "worker_step 7 owner_env_ex (f (Suc (Suc 0))) = Some d"
    using stopping_step_ex s(2) base by (simp_all add: fs d_def)
  have tail: "worker_step 7 owner_env_ex d = Some c" "worker_step 7 owner_env_ex c = Some z"
    using final_step_ex(1) [OF d(2,3), folded d(1)] final_step_ex(2) [OF c(2,3), folded c(1)] by (simp_all add: c_def z_def)
  have step: "owned_step 7 owner_env_ex (f i) (f (Suc i))" for i
  proof (cases "5 \<le> i")
    case True
    have "owned_step 7 owner_env_ex z (request_stop z)"
      by (simp add: owned_step_def sound_ex factory_ex by_request_stop)
    then show ?thesis using True z(1) by (simp add: fs(7) request_stop_def)
  next
    case False
    then have "i = 0 \<or> i = Suc 0 \<or> i = Suc (Suc 0) \<or> i = Suc (Suc (Suc 0)) \<or> i = Suc (Suc (Suc (Suc 0)))" by linarith
    then show ?thesis
      using ex_worker_step [OF chain(1) alive(1)] ex_worker_step [OF chain(2) alive(2)] ex_worker_step [OF chain(3) alive(3)]
        ex_worker_step [OF tail(1) alive(4)] ex_worker_step [OF tail(2) alive(5)] fs(4-6) by metis
  qed
  have "f 0 = stopping_ex" "own_pc (f i) = W_End" if "5 \<le> i" for i using that z by (simp_all add: fs)
  moreover have "own_session (f 5)" using c(2) by (simp add: fs(7) z_def)
  moreover have "\<exists>r. stop_result (f 5) = Inr r \<and> rh56_disabled_verified r"
    using s(1) by (simp add: fs(7) z_def stop_result_def worker_alive_def c_def d_def)
  ultimately show ?thesis using step by (intro exI [of _ f]) (simp add: fs(1))
qed

lemma stop_reach_ex:
  "\<exists>ow r. reach owner_init (owned_step 7 owner_env_ex) ow \<and> own_pc ow = W_End \<and> own_session ow \<and> close_attempted ow \<and>
    stop_result ow = Inr r \<and> rh56_disabled_verified r"
proof -
  obtain f r where f: "f 0 = stopping_ex" "\<And>i. owned_step 7 owner_env_ex (f i) (f (Suc i))" "own_pc (f 5) = W_End" "own_session (f 5)"
    "stop_result (f 5) = Inr r" "rh56_disabled_verified r"
    using stop_run_ex by (metis order_refl)
  have reach: "reach owner_init (owned_step 7 owner_env_ex) (f i)" for i
    by (induction i) (use f(1,2) reach_stopping_ex in \<open>auto intro: reach_step\<close>)
  have "close_attempted (f 5)"
    using watched.reach_inv [OF reach [of 5]] f(3,4) by (simp add: owner_inv_def inv_at_def)
  with f reach show ?thesis by blast
qed

section \<open>A command that fails\<close>

text \<open>Another thread disarms the gate before the execution: the command is refused, and the hand is stopped.\<close>

definition blocked_ex :: "hand_sim owner" where
  "blocked_ex = executing_ex\<lparr>own_sys := (own_sys executing_ex)\<lparr>ledger_of := ledger_of (own_sys executing_ex), gate_of := gate_ready,
     world := world (own_sys executing_ex)\<rparr>\<rparr>"

lemma reach_blocked_ex: "reach owner_init (owned_step 7 owner_env_ex) blocked_ex"
  unfolding blocked_ex_def using reach_executing_ex
  by (rule reach_step) (simp only: owned_step_def sound_ex factory_ex by_peer simp_thms)

lemma owner_any: "act s = armed_at m \<Longrightarrow> require_owner 7 s = Some (Inr (), s)"
  by (cases s) (simp add: require_owner_def require_current_thread_def run_defs armed_at_def armed_ex_def)

lemma gate_ready_state [simp]: "gate_state gate_ready = DISARMED"
  by (simp add: gate_ready_def new_gate_def)

lemma refused_at: "\<exists>e g. execute 7 sim_env (cmd_ex 1 2) ((sys_at 2064 2056 2058 l)\<lparr>gate_of := gate_ready\<rparr>) =
    Some (Inl e, (sys_at 2065 2056 2058 l)\<lparr>gate_of := g\<rparr>)"
  unfolding execute_def thenP_def bindP_def
  by (simp add: owner_any [of _ 2058] sim_now require_armed_def gate_op_def require_motion_def run_defs the_act_def proto_def)
    (simp add: sys_at_def advance_def sim_at_def)

lemma fault_stop_at:
  assumes "act s = armed_at m" "world s = sim_at 2066" "m \<le> 2066"
  shows "\<exists>rep t. fault_and_disable 7 sim_env r s = Some (Inr rep, t)"
  using assms
  by (simp add: fault_and_disable_def owner_any latch_fault_def the_act_def stop_run sim_run grace_at [of 2069, simplified]
    grace_at [of 2086, simplified] grace_at [of 2091, simplified] run_defs loopP.simps Let_def del: fixed_str.simps)

lemma blocked_step_ex: "\<exists>e g. worker_step 7 owner_env_ex blocked_ex =
    Some (blocked_ex\<lparr>own_sys := (sys_at 2065 2056 2058 (sampled_ex 2052 @ sampled_ex 2058))\<lparr>gate_of := g\<rparr>, own_pc := W_Failed request_ex e\<rparr>)"
proof -
  obtain e g where x: "execute 7 sim_env (cmd_ex 1 2) ((sys_at 2064 2056 2058 (sampled_ex 2052 @ sampled_ex 2058))\<lparr>gate_of := gate_ready\<rparr>) =
    Some (Inl e, (sys_at 2065 2056 2058 (sampled_ex 2052 @ sampled_ex 2058))\<lparr>gate_of := g\<rparr>)"
    using refused_at by blast
  have b: "own_sys blocked_ex = (sys_at 2064 2056 2058 (sampled_ex 2052 @ sampled_ex 2058))\<lparr>gate_of := gate_ready\<rparr>"
    "own_pc blocked_ex = W_Execute request_ex" "own_cfg blocked_ex = owner_cfg_ex"
    by (simp_all add: blocked_ex_def executing_ex_def chosen_ex_def queued_ex_def)
  have "req_command request_ex = cmd_ex 1 2" by (simp add: request_ex_def)
  then show ?thesis
    by (intro exI [of _ e] exI [of _ g]) (simp add: worker_step_def worker_execute_def owner_run b x)
qed

lemma publish_any:
  assumes "own_fault ow = None"
  shows "\<exists>v. publish_fault owner_env_ex r ow = Some (Inr (), v) \<and> act (own_sys v) = act (own_sys ow) \<and>
    world (own_sys v) = world (advance 1 (own_sys ow))"
  using assms
  by (simp add: publish_fault_def fail_pending_ledger_def ledger_op_def owner_run complete_request_alt Let_def advance_def
      split: option.split prod.split)

lemma failed_step_ex:
  assumes "own_pc ow = W_Failed q e" "act (own_sys ow) = armed_at m" "world (own_sys ow) = sim_at 2065" "own_fault ow = None" "m \<le> 2066"
  shows "\<exists>u. worker_step 7 owner_env_ex ow = Some u"
proof -
  obtain v where v: "publish_fault owner_env_ex (failure_reason q e) ow = Some (Inr (), v)" "act (own_sys v) = armed_at m"
    "world (own_sys v) = sim_at 2066"
    using publish_any [OF assms(4), of "failure_reason q e"] assms(2,3) by (auto simp: advance_def sim_at_def)
  obtain rep t where t: "fault_and_disable 7 sim_env (failure_reason q e) (own_sys v) = Some (Inr rep, t)"
    using fault_stop_at [OF v(2,3) assms(5)] by blast
  show ?thesis
    by (simp add: worker_step_def assms(1) worker_failed_def finallyP_def Let_def owner_run v t stop_failed_request_def stop_after_fault_def)
qed

lemma reach_failed_ex:
  "\<exists>ow e u. reach owner_init (owned_step 7 owner_env_ex) ow \<and> own_pc ow = W_Failed request_ex e \<and> worker_step 7 owner_env_ex ow = Some u"
proof -
  obtain e g where s: "worker_step 7 owner_env_ex blocked_ex =
      Some (blocked_ex\<lparr>own_sys := (sys_at 2065 2056 2058 (sampled_ex 2052 @ sampled_ex 2058))\<lparr>gate_of := g\<rparr>, own_pc := W_Failed request_ex e\<rparr>)"
    (is "_ = Some ?f")
    using blocked_step_ex by blast
  have b: "worker_alive blocked_ex" "own_fault blocked_ex = None"
    by (simp_all add: blocked_ex_def executing_ex_def chosen_ex_def queued_ex_def worker_alive_def)
  have "reach owner_init (owned_step 7 owner_env_ex) ?f" by (rule ex_reach_worker [OF reach_blocked_ex s b(1)])
  moreover have "\<exists>u. worker_step 7 owner_env_ex ?f = Some u"
    by (rule failed_step_ex [where m = 2058]) (simp_all add: b)
  ultimately show ?thesis by (intro exI [of _ ?f]) auto
qed

end
