(* ===== verification/Watchdog_Properties.thy ===== *)
theory Watchdog_Properties
  imports Watchdog_Flow Watchdog_Sim
begin

text \<open>
  What the watchdog owner promises, over every interleaving of its worker with the other threads:
  the end of the worker, the evidence behind a reported stop, when a command reaches the
  actuator, and that a fault stays.
\<close>

section \<open>The end of the worker\<close>

lemma owner_reach_inv: "reach owner_init (owned_step tid X) ow \<Longrightarrow> owner_inv ow"
  by (rule watched.reach_inv)

lemma open_none: "open_tickets ks = {} \<longleftrightarrow> list_all ticket_done ks"
  by (auto simp: open_tickets_def list_all_length)



text \<open>The port of an opened session is closed only after the actuator was disarmed or a disable was
  attempted on it: in every reachable state the close comes last.\<close>

theorem close_follows_disable:
  assumes "reach owner_init (owned_step tid X) ow" "close_attempted ow" "own_session ow"
  shows "(disable_attempted ow \<or> act_state (act (own_sys ow)) = AS_DISARMED) \<and> (own_pc ow = W_Last None \<or> own_pc ow = W_End)"
  using owner_reach_inv [OF assms(1)] assms(2,3)
  by (cases "own_pc ow") (auto simp: owner_inv_def inv_defs)

theorem close_follows_disable_witness:
  "\<exists>ow :: hand_sim owner. own_session ow \<and> (disable_attempted ow \<or> act_state (act (own_sys ow)) = AS_DISARMED) \<and> (own_pc ow = W_Last None \<or> own_pc ow = W_End)"
proof -
  obtain ow where ow: "reach owner_init (owned_step 7 owner_env_ex) ow" "own_session ow" "close_attempted ow"
    using stop_reach_ex by blast
  then show ?thesis using close_follows_disable [OF ow(1,3,2)] by (intro exI [of _ ow]) simp
qed

section \<open>What a reported stop rests on\<close>



section \<open>When a command reaches the actuator\<close>

text \<open>What a step of another thread leaves.\<close>

lemma owner_step_pc:
  assumes "thread_step tid X ow u"
  shows "worker_alive ow \<and> worker_step tid X ow = Some u \<or>
    own_fault u = own_fault ow \<and> own_cfg u = own_cfg ow \<and> (own_pc u = own_pc ow \<or> own_pc u = W_Start)"
  using assms
proof (induction rule: thread_step.induct)
  case (by_submit c ow r ow')
  obtain n v where n: "own_now X ow = (n, v)" by (cases "own_now X ow")
  then show ?case using by_submit clock_touched [OF n]
    by (cases n) (auto simp: submit_def Let_def aside_def split: option.splits)
next
  case (by_begin_settle t ow r ow')
  obtain n v where n: "own_now X ow = (n, v)" by (cases "own_now X ow")
  then show ?case using by_begin_settle clock_touched [OF n]
    by (auto simp: begin_final_settle_def aside_def split: if_splits sum.splits option.splits)
qed (auto simp: start_owner_def start_result_def execute_result_def await_final_settle_def request_stop_def Let_def split: if_splits)

text \<open>The worker starts the execution of \<open>q\<close>.\<close>

definition starts_execution :: "nat \<Rightarrow> 's owner_env \<Rightarrow> execute_request \<Rightarrow> 's owner \<Rightarrow> 's owner \<Rightarrow> bool" where
  "starts_execution tid X q ow u =
     (owner_inv ow \<and> owned_step tid X ow u \<and> own_pc u = W_Execute q \<and> own_pc ow \<noteq> W_Execute q)"

lemma execution_starts:
  assumes "starts_execution tid X q ow u"
  obtains v r t where "own_pc ow = W_Choose v" "inv_at (W_Choose v) ow" "worker_choose v ow = Some (r, t)"
    "u = t\<lparr>own_pc := (case r of Inl e \<Rightarrow> raised (W_Choose v) e | Inr pc \<Rightarrow> pc)\<rparr>" "own_pc u = W_Execute q"
proof -
  have s: "thread_step tid X ow u" "owner_inv ow" "own_pc u = W_Execute q" "own_pc ow \<noteq> W_Execute q"
    using assms by (simp_all add: starts_execution_def owned_step_def)
  have w: "worker_step tid X ow = Some u" using owner_step_pc [OF s(1)] s(3,4) by auto
  obtain v where v: "own_pc ow = W_Choose v"
    using worker_step_next [OF w] s(3,4) by (cases "own_pc ow") (auto split: nat.splits option.splits)
  moreover have "inv_at (W_Choose v) ow" using s(2) v by (simp add: owner_inv_def)
  moreover obtain r t where "worker_choose v ow = Some (r, t)"
    "u = t\<lparr>own_pc := (case r of Inl e \<Rightarrow> raised (W_Choose v) e | Inr pc \<Rightarrow> pc)\<rparr>"
    using w unfolding worker_step_def v by auto
  ultimately show ?thesis by (rule that) (rule s(3))
qed

text \<open>C11. A queued command goes to the actuator only while the owner is running without a fault, no stop and no
  final settle are requested, the heartbeat deadline of the previous command has not passed and, in supervised
  mode, the last cached feedback is younger than its hard age; it is taken off the queue at the same time. The
  step is one of the system, whose clocks give finite readings and whose session factory hands over no
  confirmed stop without its evidence.\<close>

theorem execution_gate:
  assumes "starts_execution tid X q ow u"
  shows "\<exists>v. own_pc ow = W_Choose v \<and> own_request ow = Some q \<and> own_request u = None \<and> request_inflight u \<and>
    \<not> stop_requested ow \<and> \<not> final_settle_requested ow \<and> own_fault ow = None \<and> own_state ow = OS_RUNNING \<and>
    (\<forall>d. policy_watchdog_deadline_monotonic_s (act (own_sys ow)) = Some d \<longrightarrow> \<not> d \<le> view_now v) \<and>
    (supervised_target_only (own_cfg ow) \<longrightarrow>
       \<not> captured_monotonic_s (tf_feedback (last (feedback_history ow))) + feedback_hard_age_s (own_cfg ow) \<le> view_now v)"
proof -
  obtain v r t where "own_pc ow = W_Choose v" "inv_at (W_Choose v) ow" "worker_choose v ow = Some (r, t)"
    "u = t\<lparr>own_pc := (case r of Inl e \<Rightarrow> raised (W_Choose v) e | Inr pc \<Rightarrow> pc)\<rparr>" "own_pc u = W_Execute q"
    using execution_starts [OF assms] .
  then show ?thesis
    by (auto simp: worker_choose_def prog_defs Let_def inv_at_def running_def cached_def viewed_def
        split: if_splits option.splits list.splits)
qed

theorem execution_gate_witness:
  "starts_execution 7 owner_env_ex request_ex chosen_ex executing_ex \<and> own_request chosen_ex = Some request_ex \<and>
   own_state chosen_ex = OS_RUNNING"
proof -
  have "starts_execution 7 owner_env_ex request_ex chosen_ex executing_ex"
    using owner_reach_inv [OF reach_chosen_ex] ex_worker_step [OF choose_ex]
    by (simp add: starts_execution_def executing_ex_def chosen_ex_def worker_alive_def)
  from execution_gate [OF this] this show ?thesis by blast
qed

text \<open>C12. One execution step of the worker either has the actuator execute exactly that command, once, and gives its
  receipt to exactly that command's ticket; or it goes to the failure handler with every ticket as it was. A
  ticket never gets a receipt for a command the actuator did not execute.\<close>

theorem execution_step:
  assumes "own_pc ow = W_Execute q" "worker_step tid X ow = Some u"
  shows "(\<exists>r. target_executed (req_command q) (own_sys ow) r (own_sys u) \<and> supervised_target_only (own_cfg ow) \<and>
        own_pc u = W_AfterAck q \<and> tickets u = set_result (req_ticket q) (Inr (TargetReceipt r)) (tickets ow)) \<or>
    (\<exists>r s. executed (\<lambda>_. True) (req_command q) (own_sys ow) r s \<and> touched s (own_sys u) \<and>
        own_pc u = W_Top \<and> tickets u = set_result (req_ticket q) (Inr (FullReceipt r)) (tickets ow) \<and>
        last_feedback_captured_s u = captured_monotonic_s (rcpt_feedback r)) \<or>
    (\<exists>e. own_pc u = W_Failed q e \<and> tickets u = tickets ow)"
proof -
  let ?ok = "\<lambda>pc v. (\<exists>r. target_executed (req_command q) (own_sys ow) r (own_sys v) \<and> supervised_target_only (own_cfg ow) \<and>
        pc = W_AfterAck q \<and> tickets v = set_result (req_ticket q) (Inr (TargetReceipt r)) (tickets ow)) \<or>
    (\<exists>r s. executed (\<lambda>_. True) (req_command q) (own_sys ow) r s \<and> touched s (own_sys v) \<and>
        pc = W_Top \<and> tickets v = set_result (req_ticket q) (Inr (FullReceipt r)) (tickets ow) \<and>
        last_feedback_captured_s v = captured_monotonic_s (rcpt_feedback r))"
  have "wp (worker_execute tid X q) ?ok (\<lambda>_ v. tickets v = tickets ow) ow"
  proof (cases "supervised_target_only (own_cfg ow)")
    case True
    show ?thesis
      unfolding worker_execute_def wp_bindP [of "gets _"] wp_gets o_apply if_P [OF True] wp_bindP [of "sysO _"] wp_sysO
    proof (rule wp_mono [OF wp_target_grows], goal_cases)
      case (1 r s)
      have "wp (register_tracking_target ts n) (\<lambda>_ v. own_sys v = s \<and> tickets v = tickets ow) (\<lambda>_ v. tickets v = tickets ow)
          (ow\<lparr>own_sys := s\<rparr>)" for ts n
        by (rule wp_mono [OF wp_register_target]) auto
      then show ?case
        using 1 True unfolding wp_ends
        by (cases "numeric_write_performed r")
          (simp_all add: complete_ticket_def end_inflight_def, rule wp_mono, blast, auto)
    qed auto
  next
    case False
    show ?thesis
      unfolding worker_execute_def wp_bindP [of "gets _"] wp_gets o_apply if_not_P [OF False] wp_bindP [of "sysO _"] wp_sysO
    proof (rule wp_mono [OF wp_execute_grows], goal_cases)
      case (1 r s)
      then show ?case
        unfolding wp_ends
        by (intro wp_mono [OF wp_cache_feedback]) (auto simp: complete_ticket_def end_inflight_def sampled_def, blast+)
    qed auto
  qed
  moreover obtain r v where "worker_execute tid X q ow = Some (r, v)"
    "u = v\<lparr>own_pc := (case r of Inl e \<Rightarrow> raised (W_Execute q) e | Inr pc \<Rightarrow> pc)\<rparr>"
    using assms(2) unfolding worker_step_def assms(1) by auto
  ultimately show ?thesis by (cases r) (auto simp: wp_def)
qed

theorem execution_step_witness:
  "\<exists>u r s. worker_step 7 owner_env_ex executing_ex = Some u \<and> own_pc u = W_Top \<and>
    executed (\<lambda>_. True) (cmd_ex 1 2) (own_sys executing_ex) r s \<and>
    tickets u = [\<lparr>tk_sequence = 1, tk_result = Some (Inr (FullReceipt r))\<rparr>]"
proof -
  obtain u where u: "worker_step 7 owner_env_ex executing_ex = Some u" "own_pc u = W_Top" using executing_step_ex by blast
  have "own_pc executing_ex = W_Execute request_ex" by (simp add: executing_ex_def)
  from execution_step [OF this u(1)] u show ?thesis
    by (auto simp: request_ex_def executing_ex_def chosen_ex_def queued_ex_def set_result_def ticket_complete_def ticket_done_def)
qed

section \<open>Faults\<close>

text \<open>C13. A command that fails on its way (rejected, unacknowledged, late, or with a stale or implausible feedback)
  always ends the owner: the fault is latched and no ticket is left open. Unless the actuator was disarmed
  or its stop already confirmed on evidence, the step called the actuator's \<open>fault_and_disable\<close> on the
  actuator as the command left it, and the actuator is as that call left it. If the owner says that the stop
  is confirmed, the history of the transport proves it. The clocks give finite readings and the session
  factory hands over no confirmed stop without its evidence, as every step of the system states.\<close>

theorem failed_command_latches:
  assumes "reach owner_init (owned_step tid X) ow" "sound_clock X" "own_pc ow = W_Failed q e" "worker_step tid X ow = Some u"
  shows "own_pc u = W_Final None \<and> own_state u = OS_FAULT_LATCHED \<and> disable_attempted u \<and> list_all ticket_done (tickets u) \<and>
    own_request u = None \<and>
    (act_state (act (own_sys ow)) = AS_DISARMED \<or> stop_confirmed (act (own_sys ow)) \<and> proven (own_sys ow) \<or>
     (\<exists>s m r. touched (own_sys ow) s \<and> fault_and_disable tid (actuator_env X) m s = Some (r, own_sys u))) \<and>
    (\<exists>f. own_fault u = Some f \<and> (fault_stop_confirmed f \<longrightarrow> proven (own_sys u)))"
proof -
  have inv: "inv_at (W_Failed q e) ow" using owner_reach_inv [OF assms(1)] assms(3) by (simp add: owner_inv_def)
  then have h: "honest ow" "own_session ow" by (simp_all add: inv_at_def running_def)
  note w = failed_latches [OF assms(2) inv, of tid]
  obtain r v where m: "worker_failed tid X q e ow = Some (r, v)"
    "u = v\<lparr>own_pc := (case r of Inl e' \<Rightarrow> raised (W_Failed q e) e' | Inr pc \<Rightarrow> pc)\<rparr>"
    using assms(4) unfolding worker_step_def assms(3) by auto
  then obtain pc where pc: "r = Inr pc" "ended_by_fault pc v" using w by (cases r) (auto simp: wp_def)
  have "stop_called tid X ow v"
    if "act_state (act (own_sys ow)) \<noteq> AS_DISARMED" "\<not> stop_confirmed (act (own_sys ow))"
    using failed_stops [OF assms(2) h(1) that(2,1), of tid q e] m(1) pc(1) by (auto simp: wp_def)
  moreover have "stop_confirmed (act (own_sys ow)) \<Longrightarrow> proven (own_sys ow)"
    using h by (simp add: honest_def backed_def)
  ultimately have "act_state (act (own_sys ow)) = AS_DISARMED \<or> stop_confirmed (act (own_sys ow)) \<and> proven (own_sys ow) \<or>
     (\<exists>s m r. touched (own_sys ow) s \<and> fault_and_disable tid (actuator_env X) m s = Some (r, own_sys u))"
    using m(2) unfolding stop_called_def by auto
  then show ?thesis
    using m(2) pc by (auto simp: ended_by_fault_def faulted_def open_none inv_at_def honest_def)
qed

theorem failed_command_latches_witness:
  "\<exists>(u :: hand_sim owner) f. own_pc u = W_Final None \<and> own_state u = OS_FAULT_LATCHED \<and> own_fault u = Some f \<and> list_all ticket_done (tickets u)"
proof -
  obtain ow e u where r: "reach owner_init (owned_step 7 owner_env_ex) ow" "own_pc ow = W_Failed request_ex e"
    "worker_step 7 owner_env_ex ow = Some u"
    using reach_failed_ex by blast
  show ?thesis using failed_command_latches [OF r(1) sound_ex r(2,3)] by blast
qed

text \<open>The reason of the fault is the one part of it that never changes.\<close>

definition fault_of :: "'s owner \<Rightarrow> string option" where
  "fault_of ow = map_option fault_reason (own_fault ow)"

lemma owned_step_fault: "owned_step tid X ow u \<Longrightarrow> fault_of ow = Some r \<Longrightarrow> fault_of u = Some r"
proof -
  assume s: "owned_step tid X ow u" and r: "fault_of ow = Some r"
  have "worker_kept ow u" if w: "worker_step tid X ow = Some u"
  proof -
    obtain x v where "worker_phase tid X (own_pc ow) ow = Some (x, v)"
      "u = v\<lparr>own_pc := (case x of Inl e \<Rightarrow> raised (own_pc ow) e | Inr pc \<Rightarrow> pc)\<rparr>"
      using w by (auto simp: worker_step_def)
    then show ?thesis using phase_kept [of tid X "own_pc ow"] unfolding relates_def by (auto simp: worker_kept_def)
  qed
  then show "fault_of u = Some r"
    using s r owner_step_pc [of tid X ow u] by (auto simp: fault_of_def owned_step_def worker_kept_def)
qed

interpretation owner_latch: fault_latch fault_of "owned_step tid X" "\<lambda>ow u. \<exists>q. starts_execution tid X q ow u" for tid X
proof
  show "fault_of u = Some r" if "owned_step tid X ow u" "fault_of ow = Some r" for ow u r
    using that by (rule owned_step_fault)
  show "fault_of ow = None" if e: "\<exists>q. starts_execution tid X q ow u" for ow u
  proof -
    obtain q v where "inv_at (W_Choose v) ow" using e execution_starts by metis
    then show ?thesis by (simp add: fault_of_def inv_at_def running_def)
  qed
qed

text \<open>C14. Once a fault is latched, whatever the threads do, its reason stays and no command is started any more.
  The steps are those of the system, whose clocks give finite readings and whose session factory hands over
  no confirmed stop without its evidence.\<close>

theorem no_execution_after_fault:
  assumes "fault_of ow = Some r" "(owned_step tid X)\<^sup>*\<^sup>* ow t"
  shows "fault_of t = Some r \<and> \<not> starts_execution tid X q t u"
  using owner_latch.run_latched [OF assms(2,1)] owner_latch.no_work_after_fault [OF assms] by blast

theorem no_execution_after_fault_witness:
  "fault_of (request_stop (top_ex\<lparr>own_fault := Some (new_fault ''x'' (tick 1) None)\<rparr>)) = Some ''x'' \<and>
   \<not> starts_execution 7 owner_env_ex request_ex (request_stop (top_ex\<lparr>own_fault := Some (new_fault ''x'' (tick 1) None)\<rparr>)) executing_ex"
proof -
  let ?f = "top_ex\<lparr>own_fault := Some (new_fault ''x'' (tick 1) None)\<rparr>"
  have "owned_step 7 owner_env_ex ?f (request_stop ?f)" by (simp add: owned_step_def sound_ex factory_ex by_request_stop)
  then have "(owned_step 7 owner_env_ex)\<^sup>*\<^sup>* ?f (request_stop ?f)" by blast
  moreover have "fault_of ?f = Some ''x''" by (simp add: fault_of_def new_fault_def)
  ultimately show ?thesis using no_execution_after_fault by blast
qed

section \<open>A requested stop is carried out\<close>

definition owner_rank :: "'s owner \<Rightarrow> nat" where
  "owner_rank ow = steps_left (own_pc ow) (own_cfg ow)"

lemma stopping_kept:
  assumes "owned_step tid X ow u" "owner_inv ow" "stop_requested ow" "own_pc ow \<noteq> W_None"
  shows "owner_inv u" "stop_requested u" "own_pc u \<noteq> W_None" "owner_rank u \<le> owner_rank ow"
proof -
  show "owner_inv u" using watched.inv_step assms(1,2) .
  have "worker_alive ow \<and> worker_step tid X ow = Some u \<or> stop_requested u \<and> own_cfg u = own_cfg ow \<and> own_pc u = own_pc ow"
    using assms(1) client_step [OF _ assms(2-4)] unfolding owned_step_def by blast
  moreover have "stop_requested u" "own_pc u \<noteq> W_None" "owner_rank u < owner_rank ow"
    if w: "worker_alive ow" "worker_step tid X ow = Some u"
  proof -
    show "stop_requested u" "owner_rank u < owner_rank ow" using stopping_step [OF assms(3) w] by (simp_all add: owner_rank_def)
    show "own_pc u \<noteq> W_None" using worker_step_next [OF w(2)] w(1)
      by (cases "own_pc ow") (auto simp: worker_alive_def split: nat.splits option.splits)
  qed
  ultimately show "stop_requested u" "own_pc u \<noteq> W_None" "owner_rank u \<le> owner_rank ow"
    using assms(4) by (auto simp: owner_rank_def)
qed

text \<open>C15. After a requested stop the worker ends. In every infinite run of the threads in which the worker is not
  starved for ever and its calls return, it reaches the end of its function with every ticket completed: the
  loop, the bootstrap and the waits cannot keep it, whatever the other threads do in between. The steps are
  those of the system, whose clocks give finite readings and whose session factory hands over no confirmed
  stop without its evidence.\<close>

theorem requested_stop_ends:
  assumes "reach owner_init (owned_step tid X) (f 0)" "stop_requested (f 0)" "own_pc (f 0) \<noteq> W_None"
    and run: "\<And>i. owned_step tid X (f i) (f (Suc i))"
    and fair: "\<And>i. \<exists>j\<ge>i. pc_ended (own_pc (f j)) \<or> worker_step tid X (f j) = Some (f (Suc j))"
  shows "\<exists>k. own_pc (f k) = W_End \<and> list_all ticket_done (tickets (f k))"
proof -
  have kept: "owner_inv (f i) \<and> stop_requested (f i) \<and> own_pc (f i) \<noteq> W_None" for i
  proof (induction i)
    case 0
    then show ?case using owner_reach_inv [OF assms(1)] assms(2,3) by simp
  next
    case (Suc i)
    then show ?case using stopping_kept [OF run [of i]] by blast
  qed
  have "owner_rank (f (Suc i)) \<le> owner_rank (f i)" for i using stopping_kept(4) [OF run] kept by blast
  then have mono: "i \<le> j \<Longrightarrow> owner_rank (f j) \<le> owner_rank (f i)" for i j using lift_Suc_antimono_le [of "\<lambda>i. owner_rank (f i)"] by blast
  have "\<exists>k. pc_ended (own_pc (f k))" for i :: nat
  proof (induction "owner_rank (f i)" arbitrary: i rule: less_induct)
    case less
    obtain j where j: "i \<le> j" "pc_ended (own_pc (f j)) \<or> worker_step tid X (f j) = Some (f (Suc j))" using fair by blast
    show ?case
    proof (cases "pc_ended (own_pc (f j))")
      case False
      then have "owner_rank (f (Suc j)) < owner_rank (f j)"
        using stopping_step(3) [of "f j" tid X "f (Suc j)"] j(2) kept [of j] by (simp add: worker_alive_def owner_rank_def)
      then show ?thesis using less mono [OF j(1)] by (meson less_le_trans)
    qed blast
  qed
  then obtain k where "pc_ended (own_pc (f k))" by blast
  then show ?thesis
    using kept [of k] by (intro exI [of _ k]) (cases "own_pc (f k)", auto simp: owner_inv_def inv_at_def open_none)
qed

theorem requested_stop_ends_witness:
  "\<exists>(f :: nat \<Rightarrow> hand_sim owner) k. f 0 = stopping_ex \<and> own_pc (f k) = W_End \<and> list_all ticket_done (tickets (f k))"
proof -
  obtain f where f: "f 0 = stopping_ex" "\<And>i. owned_step 7 owner_env_ex (f i) (f (Suc i))" "\<And>i. 5 \<le> i \<Longrightarrow> own_pc (f i) = W_End"
    using stop_run_ex by blast
  have "\<exists>j\<ge>i. pc_ended (own_pc (f j)) \<or> worker_step 7 owner_env_ex (f j) = Some (f (Suc j))" for i
    using f(3) [of "i + 5"] by (intro exI [of _ "i + 5"]) simp
  moreover have "own_pc stopping_ex \<noteq> W_None" "stop_requested stopping_ex"
    by (simp_all add: stopping_ex_def request_stop_def top_ex_def)
  ultimately show ?thesis
    using requested_stop_ends [of 7 owner_env_ex f] f(1,2) reach_stopping_ex by metis
qed

end
