(* ===== verification/Watchdog_Tracking_Proofs.thy ===== *)
theory Watchdog_Tracking_Proofs
  imports Watchdog_Sim Binary64
begin

text \<open>
  The physical tracking of the watchdog owner: when a sample verifies or fails an axis, what the
  verdict rests on, the window of the final settle, and the schedule of the feedback polls.
\<close>

section \<open>An example\<close>

text \<open>One axis is sent 100 units away from where the hand rests.\<close>

definition challenged_ex :: tracking where
  "challenged_ex = register_targets owner_cfg_ex (tick 2048) [100, 200, 400, 600, 800, 1000] (sim_feedback 2048 rest_ex) new_tracking"

lemma challenged_axis_ex:
  "latest_target challenged_ex \<noteq> None" "length (axes challenged_ex) = 6"
  "axes challenged_ex ! 0 = new_axis\<lparr>tr_challenged := True, tr_active := True, tr_direction := 1, tr_deadline_s := tick 2816\<rparr>"
proof -
  have "Fin (3 / 4) = tick 768" by (simp add: tick_def)
  then show "latest_target challenged_ex \<noteq> None" "length (axes challenged_ex) = 6"
    "axes challenged_ex ! 0 = new_axis\<lparr>tr_challenged := True, tr_active := True, tr_direction := 1, tr_deadline_s := tick 2816\<rparr>"
    by (simp_all add: challenged_ex_def register_targets_def register_axis_def force_epoch_def Let_def new_tracking_def new_axis_def
        owner_cfg_ex_def sim_feedback_def tick_plus)
qed

section \<open>One sample\<close>

text \<open>C16. A complete sample fails the tracking exactly when some axis that is being watched has passed its deadline
  and the sample shows neither motion nor contact for it; an axis counts as verified exactly when it already was,
  or is being watched and this sample shows motion or contact. Nothing else verifies an axis.\<close>

theorem tracking_sample_outcome:
  assumes "latest_target tr \<noteq> None" "evaluate_tracking cfg f tr = (r, tr')"
  defines "late \<equiv> (\<lambda>i. tr_active (axes tr ! i) \<and> tr_deadline_s (axes tr ! i) \<le> captured_monotonic_s f)"
    and "moved \<equiv> (\<lambda>i. shows_motion cfg (angles f ! i) (positions f ! i) (axes tr ! i) \<or>
      shows_contact cfg (forces_g f ! i) (statuses f ! i) (axes tr ! i))"
  shows "((\<exists>e. r = Inl e) \<longleftrightarrow> (\<exists>i<6. late i \<and> \<not> moved i)) \<and>
    (\<forall>i<6. tr_verified (axes tr' ! i) \<longleftrightarrow> tr_verified (axes tr ! i) \<or> tr_active (axes tr ! i) \<and> moved i) \<and>
    (\<forall>i<6. tr_failed (axes tr' ! i) \<longleftrightarrow> tr_failed (axes tr ! i) \<or> late i \<and> \<not> moved i)"
proof -
  define res where "res = (\<lambda>i. evaluate_axis cfg (captured_monotonic_s f) (angles f ! i) (positions f ! i) (forces_g f ! i)
    (statuses f ! i) (axes tr ! i))"
  have axis: "snd (res i) \<longleftrightarrow> late i \<and> \<not> moved i" "tr_verified (fst (res i)) \<longleftrightarrow> tr_verified (axes tr ! i) \<or> tr_active (axes tr ! i) \<and> moved i"
    "tr_failed (fst (res i)) \<longleftrightarrow> tr_failed (axes tr ! i) \<or> late i \<and> \<not> moved i" for i
    by (auto simp: res_def evaluate_axis_def Let_def late_def moved_def)
  have axes: "axes tr' = map fst (map res [0..<6])" and fails: "(\<exists>e. r = Inl e) \<longleftrightarrow> filter (\<lambda>i. snd (map res [0..<6] ! i)) [0..<6] \<noteq> []"
    using assms(1,2) unfolding evaluate_tracking_def res_def [symmetric] Let_def by (auto split: if_splits)
  have "filter (\<lambda>i. snd (map res [0..<6] ! i)) [0..<6] \<noteq> [] \<longleftrightarrow> (\<exists>i<6. late i \<and> \<not> moved i)"
    by (auto simp: filter_empty_conv axis(1) simp del: upt_rec_numeral)
  then show ?thesis using fails axis(2,3) by (simp add: axes del: upt_rec_numeral)
qed

theorem tracking_sample_outcome_witness:
  "\<exists>e tr'. evaluate_tracking owner_cfg_ex (sim_feedback 3000 rest_ex) challenged_ex = (Inl e, tr') \<and> tr_failed (axes tr' ! 0)"
proof -
  obtain r tr' where run: "evaluate_tracking owner_cfg_ex (sim_feedback 3000 rest_ex) challenged_ex = (r, tr')"
    by (cases "evaluate_tracking owner_cfg_ex (sim_feedback 3000 rest_ex) challenged_ex")
  have "tr_active (axes challenged_ex ! 0)" "tr_deadline_s (axes challenged_ex ! 0) \<le> captured_monotonic_s (sim_feedback 3000 rest_ex)"
    "\<not> shows_motion owner_cfg_ex (angles (sim_feedback 3000 rest_ex) ! 0) (positions (sim_feedback 3000 rest_ex) ! 0) (axes challenged_ex ! 0)"
    "\<not> shows_contact owner_cfg_ex (forces_g (sim_feedback 3000 rest_ex) ! 0) (statuses (sim_feedback 3000 rest_ex) ! 0) (axes challenged_ex ! 0)"
    by (simp_all add: challenged_axis_ex shows_motion_def shows_contact_def new_axis_def sim_feedback_def owner_cfg_ex_def)
  moreover have "(0::nat) < 6" by simp
  ultimately show ?thesis
    using tracking_sample_outcome [OF challenged_axis_ex(1) run] run by blast
qed

section \<open>The verdict\<close>

inductive tracking_step :: "owner_config \<Rightarrow> tracking \<Rightarrow> tracking \<Rightarrow> bool" for cfg where
  by_target: "tracking_step cfg tr (register_targets cfg now ts f tr)"
| by_sample: "evaluate_tracking cfg f tr = (r, tr') \<Longrightarrow> tracking_step cfg tr tr'"

definition axis_ok :: "axis_tracking \<Rightarrow> bool" where
  "axis_ok a =
     ((tr_verified a \<longrightarrow> tr_challenged a \<and> \<not> tr_active a) \<and> (tr_active a \<longrightarrow> tr_challenged a) \<and>
      (tr_contact_verified a \<longrightarrow> tr_verified a))"

definition tracking_inv :: "tracking \<Rightarrow> bool" where
  "tracking_inv tr = (length (axes tr) = 6 \<and> list_all axis_ok (axes tr))"

lemma axis_ok_register: "axis_ok a \<Longrightarrow> axis_ok (register_axis cfg now p t x y z a)"
  by (auto simp: axis_ok_def register_axis_def force_epoch_def Let_def split: option.split)

lemma axis_ok_evaluate: "axis_ok a \<Longrightarrow> axis_ok (fst (evaluate_axis cfg now x y z st a))"
  by (auto simp: axis_ok_def evaluate_axis_def Let_def)

lemma tracking_step_inv: "tracking_step cfg tr tr' \<Longrightarrow> tracking_inv tr \<Longrightarrow> tracking_inv tr'"
proof (induction rule: tracking_step.induct)
  case (by_target tr now ts f)
  then show ?case
    by (auto simp: tracking_inv_def register_targets_def list_all_length axis_ok_register simp del: upt_rec_numeral)
next
  case (by_sample f tr r tr')
  then have "tr' = tr \<or> axes tr' = map fst (map (\<lambda>i. evaluate_axis cfg (captured_monotonic_s f) (angles f ! i) (positions f ! i)
      (forces_g f ! i) (statuses f ! i) (axes tr ! i)) [0..<6])"
    unfolding evaluate_tracking_def Let_def by (auto split: if_splits)
  with by_sample show ?case
    by (auto simp: tracking_inv_def list_all_length axis_ok_evaluate simp del: upt_rec_numeral)
qed

lemma new_tracking_inv: "tracking_inv new_tracking"
  by (simp add: tracking_inv_def new_tracking_def new_axis_def axis_ok_def list_all_iff)

interpretation tracked: invariant_system "\<lambda>tr. tr = new_tracking" "tracking_step cfg" tracking_inv for cfg
  by unfold_locales (use new_tracking_inv tracking_step_inv in auto)

text \<open>The verdict that the physical tracking is verified rests on a verified axis that was challenged, and is
  given only while no axis has failed and none is still being watched.\<close>

theorem verified_verdict:
  assumes "reach (\<lambda>tr. tr = new_tracking) (tracking_step cfg) tr" "tracking_verdict tr = Verified"
  shows "(\<exists>a\<in>set (axes tr). tr_challenged a \<and> tr_verified a) \<and> (\<forall>a\<in>set (axes tr). \<not> tr_failed a \<and> \<not> tr_active a)"
proof -
  have ok: "axis_ok a" if "a \<in> set (axes tr)" for a
    using tracked.reach_inv [OF assms(1)] that by (auto simp: tracking_inv_def list_all_iff)
  have "\<not> tr_failed a" "\<not> active_unverified a" if "a \<in> set (axes tr)" for a
    using assms(2) that by (auto simp: tracking_verdict_def list_ex_iff split: if_splits)
  moreover have "\<exists>a\<in>set (axes tr). tr_verified a"
    using assms(2) by (auto simp: tracking_verdict_def list_ex_iff split: if_splits)
  ultimately show ?thesis using ok unfolding active_unverified_def axis_ok_def by blast
qed

theorem verified_verdict_witness:
  "\<exists>tr. tracking_verdict tr = Verified \<and> (\<exists>i. tr_challenged (axes tr ! i) \<and> tr_verified (axes tr ! i))"
proof -
  obtain r tr where run: "evaluate_tracking owner_cfg_ex (sim_feedback 2100 [50, 200, 400, 600, 800, 1000]) challenged_ex = (r, tr)"
    by (cases "evaluate_tracking owner_cfg_ex (sim_feedback 2100 [50, 200, 400, 600, 800, 1000]) challenged_ex")
  have v: "tracking_verdict tr = Verified"
  proof -
    have "tracking_verdict (snd (evaluate_tracking owner_cfg_ex (sim_feedback 2100 [50, 200, 400, 600, 800, 1000]) challenged_ex)) = Verified"
      by code_simp
    then show ?thesis by (simp add: run)
  qed
  have "reach (\<lambda>tr. tr = new_tracking) (tracking_step owner_cfg_ex) challenged_ex"
    unfolding challenged_ex_def by (blast intro: reach.intros by_target)
  from reach_step [OF this by_sample [OF run]] have "reach (\<lambda>tr. tr = new_tracking) (tracking_step owner_cfg_ex) tr" .
  from verified_verdict [OF this v] v show ?thesis by (metis in_set_conv_nth)
qed

section \<open>The final settle\<close>

text \<open>C17. A final settle that was asked for and has to wait for the worker has a deadline in the future, no later than
  one tracking timeout and one feedback age from now, and there is an axis whose motion is still being watched;
  it is asked for only between commands, with a committed sequence and none pending.\<close>

theorem settle_window:
  assumes "begin_final_settle X t ow = (Inr None, u)"
  shows "\<exists>now v d. own_now X ow = (Inr now, v) \<and> final_settle_deadline_s u = Some d \<and> final_settle_requested u \<and>
    \<not> d \<le> now \<and> \<not> now + tracking_timeout_s (own_cfg v) + feedback_hard_age_s (own_cfg v) < d \<and>
    (\<exists>i<6. tr_challenged (axes (own_tracking v) ! i) \<and> \<not> tr_verified (axes (own_tracking v) ! i) \<and> tr_active (axes (own_tracking v) ! i)) \<and>
    own_request u = None \<and> \<not> request_inflight u \<and> own_state u = OS_RUNNING \<and> \<not> stop_requested u \<and>
    ledger_pending_sequence (ledger_of (own_sys u)) = None \<and> 1 \<le> last_committed_sequence (ledger_of (own_sys u))"
proof -
  obtain now v d where s: "own_now X ow = (Inr now, v)" "settle_refused v = None"
    "settle_deadline (own_cfg v) now (own_tracking v) = Inr (Some d)"
    "u = v\<lparr>final_settle_deadline_s := Some d, final_settle_requested := True\<rparr>"
    using assms by (auto simp: begin_final_settle_def split: if_splits sum.splits option.splits prod.splits)
  let ?watched = "filter (\<lambda>i. \<not> tr_verified (axes (own_tracking v) ! i) \<and> tr_active (axes (own_tracking v) ! i))
    (challenged_indices (own_tracking v))"
  have d: "?watched \<noteq> []" "\<not> d \<le> now" "\<exists>x. d = fl_min x (now + tracking_timeout_s (own_cfg v) + feedback_hard_age_s (own_cfg v))"
    using s(3) by (auto simp: settle_deadline_def Let_def split: if_splits list.splits)
  have "\<not> b < fl_min a b" for a b by (auto simp: fl_min_def fl_less_not_refl)
  then have "\<not> now + tracking_timeout_s (own_cfg v) + feedback_hard_age_s (own_cfg v) < d" using d(3) by metis
  moreover obtain i where "i \<in> set ?watched" using hd_in_set [OF d(1)] by blast
  ultimately show ?thesis
    using s d(2) by (intro exI [of _ now] exI [of _ v] exI [of _ d])
      (auto simp: challenged_indices_def settle_refused_def split: if_splits simp del: upt_rec_numeral)
qed

definition settling_ex :: "hand_sim owner" where
  "settling_ex = top_ex\<lparr>own_cfg := owner_cfg_ex\<lparr>supervised_target_only := True\<rparr>, own_tracking := challenged_ex,
     own_sys := (own_sys top_ex)\<lparr>ledger_of := ledger_ex_done\<rparr>\<rparr>"

theorem settle_window_witness:
  "\<exists>u d. begin_final_settle owner_env_ex (Some (PyFloat (Fin 2))) settling_ex = (Inr None, u) \<and>
    final_settle_deadline_s u = Some d \<and> final_settle_requested u"
proof -
  have axis: "challenged_indices challenged_ex = [0]" "\<not> list_ex tr_failed (axes challenged_ex)" by code_simp+
  have ticks: "Fin (3 / 4) = tick 768" "Fin 2 = tick 2048" by (simp_all add: tick_def)
  have "ledger_pending_sequence ledger_ex_done = None" "last_committed_sequence ledger_ex_done = 1" by code_simp+
  then have "settle_refused (settling_ex\<lparr>own_sys := advance 1 (own_sys settling_ex)\<rparr>) = None"
    using axis(2) by (simp add: settle_refused_def settling_ex_def top_ex_def)
  moreover have "settle_deadline (owner_cfg_ex\<lparr>supervised_target_only := True\<rparr>) (tick 2062) challenged_ex = Inr (Some (tick 2880))"
    by (simp add: settle_deadline_def axis challenged_axis_ex new_axis_def owner_cfg_ex_def ticks tick_plus fl_min_def)
  ultimately have "\<exists>u. begin_final_settle owner_env_ex (Some (PyFloat (Fin 2))) settling_ex = (Inr None, u)"
    by (simp add: begin_final_settle_def positive_float_def finite_float_PyFloat zero_fl_def)
      (simp add: settling_ex_def top_ex_def)
  then obtain u where run: "begin_final_settle owner_env_ex (Some (PyFloat (Fin 2))) settling_ex = (Inr None, u)" by blast
  from settle_window [OF run] run show ?thesis by blast
qed

text \<open>
  Two ways in which the settle ends a sound session. It stays active after the tracking was
  verified, and at its deadline the worker raises that it expired without a verified result,
  without looking at the verdict. And a caller whose wait timed out is told that the settle was
  not entered, while the worker, which had already taken the request, enters it.
\<close>

lemma settle_expires_although_verified:
  assumes "own_pc ow = W_Top" "final_settle_active ow" "\<not> stop_requested ow" "final_settle_deadline_s ow = Some d"
    "own_now X ow = (Inr now, v)" "d \<le> now" "tracking_verdict (own_tracking v) = Verified"
    "final_settle_active v" "\<not> stop_requested v" "final_settle_deadline_s v = Some d"
  shows "worker_step tid X ow = Some (v\<lparr>own_pc := W_Handler
    (owner_error ''RH56 bounded final physical-tracking settle expired without a verified result'')\<rparr>) \<and>
    tracking_verdict (own_tracking v) = Verified"
  using assms by (simp add: worker_step_def worker_top_def opO_def run_defs)

lemma settle_entered_after_timeout:
  assumes "own_pc ow = W_Settled" "own_state ow = OS_RUNNING" "own_fault ow = None" "\<not> stop_requested ow" "\<not> final_settle_active ow"
  shows "\<exists>e u v. await_final_settle True ow = (Inl e, u) \<and> worker_step tid X u = Some v \<and> final_settle_active v \<and> own_pc v = W_Top"
  using assms by (simp add: await_final_settle_def worker_step_def worker_settled_def run_defs)

section \<open>The schedule of the polls\<close>

lemma rnd64_exists:
  assumes "\<bar>x\<bar> \<le> 2 ^ 40"
  obtains y where "rnd64 x = Fin y" "\<bar>y - x\<bar> \<le> \<bar>x\<bar> / 2 ^ 53 + 1 / 2 ^ 100"
proof -
  have "rep64 (2 ^ 40)" "rep64 (- (2 ^ 40))" using rep64_int [of "2 ^ 40"] rep64_int [of "- (2 ^ 40)"] by simp_all
  then have "between (- (2 ^ 40)) (2 ^ 40) (rnd64 x)" using assms by (intro between_rnd64) auto
  then show ?thesis using rnd64_near that by (auto elim: betweenE)
qed

lemma slot_count:
  assumes "0 \<le> e" "e \<le> 2 ^ 20" "1 / 1000 \<le> p" "p \<le> 1"
  obtains q where "fl_over (Fin e) (Fin p) = Fin q" "0 \<le> q" "\<bar>q * p - e\<bar> \<le> 1 / 2 ^ 32" "q < 2 ^ 31"
proof -
  have p: "0 < p" using assms(3) by (rule less_le_trans [rotated]) simp
  have small: "0 \<le> e / p" using assms(1) p by simp
  have "e * 1 \<le> 2 ^ 20 * (1000 * p)" using assms by (intro mult_mono) auto
  then have big: "e / p \<le> 2 ^ 20 * 1000" using p by (simp add: pos_divide_le_eq mult_ac)
  have "\<bar>e / p\<bar> \<le> 2 ^ 40" using small big by simp
  then obtain q where q: "rnd64 (e / p) = Fin q" "\<bar>q - e / p\<bar> \<le> \<bar>e / p\<bar> / 2 ^ 53 + 1 / 2 ^ 100"
    by (rule rnd64_exists)
  have "Fin 0 \<le> rnd64 (e / p)" using small by (intro rnd64_ge) auto
  then have q0: "0 \<le> q" using q(1) by simp
  have "\<bar>q - e / p\<bar> * p \<le> (\<bar>e / p\<bar> / 2 ^ 53 + 1 / 2 ^ 100) * p" using q(2) p by (intro mult_right_mono) auto
  also have "\<dots> = e / 2 ^ 53 + p / 2 ^ 100" using p assms(1) by (simp add: field_simps)
  also have "\<dots> \<le> 1 / 2 ^ 32" using assms(2,4) by (simp add: field_simps)
  also have "\<bar>q - e / p\<bar> * p = \<bar>(q - e / p) * p\<bar>" using p by (simp add: abs_mult)
  also have "(q - e / p) * p = q * p - e" using p by (simp add: field_simps)
  finally have near: "\<bar>q * p - e\<bar> \<le> 1 / 2 ^ 32" .
  have "\<bar>e / p\<bar> = e / p" using small by (rule abs_of_nonneg)
  then have "\<bar>q - e / p\<bar> \<le> 1" using q(2) big by simp
  then have "q < 2 ^ 31" using big by simp
  moreover have "fl_over (Fin e) (Fin p) = Fin q" using q(1) p by (simp)
  ultimately show ?thesis using q0 near that by blast
qed

lemma slot_time:
  assumes "0 \<le> d" "d \<le> 2 ^ 20" "0 \<le> x" "x \<le> 2 ^ 21"
  obtains w r where "rnd64 x = Fin w" "rnd64 (d + w) = Fin r" "\<bar>r - (d + x)\<bar> \<le> 1 / 2 ^ 30"
proof -
  obtain w where w: "rnd64 x = Fin w" "\<bar>w - x\<bar> \<le> \<bar>x\<bar> / 2 ^ 53 + 1 / 2 ^ 100"
    using rnd64_exists [of x] assms(3,4) by auto
  have w': "\<bar>w - x\<bar> \<le> 1 / 2 ^ 31" using w(2) assms(3,4) by simp
  then have "\<bar>w - x\<bar> \<le> 1" by simp
  then have dw: "\<bar>d + w\<bar> \<le> 2 ^ 22" using assms by (auto simp: abs_le_iff)
  obtain r where r: "rnd64 (d + w) = Fin r" "\<bar>r - (d + w)\<bar> \<le> \<bar>d + w\<bar> / 2 ^ 53 + 1 / 2 ^ 100"
    using rnd64_exists [of "d + w"] dw by auto
  have "\<bar>w - x\<bar> + \<bar>r - (d + w)\<bar> \<le> 1 / 2 ^ 30"
    using w(2) r(2) dw assms(3,4) by simp
  then have "\<bar>r - (d + x)\<bar> \<le> 1 / 2 ^ 30" by linarith
  with w(1) r(1) show ?thesis by (rule that)
qed

text \<open>C40. The poll schedule keeps its slots: advanced to a moment before it, a deadline stays; advanced to
  a later moment it becomes, to within a nanosecond, the deadline plus a whole number of periods, the least
  one that brings it past that moment, so that missed slots are skipped, none is replayed
  and no transaction time is added. The rounding tolerance is two-sided: the new deadline may be that
  nanosecond early. (For a clock of up to 2 to the 20 seconds and periods of 1 ms to 1 s.)\<close>

theorem poll_schedule_keeps_its_slots:
  assumes "0 \<le> d" "n \<le> 2 ^ 20" "1 / 1000 \<le> p" "p \<le> 1"
  shows "if n < d then advance_periodic_deadline (Fin d) (Fin p) (Fin n) = Inr (Fin d)
    else \<exists>k r. advance_periodic_deadline (Fin d) (Fin p) (Fin n) = Inr (Fin r) \<and> 1 \<le> k \<and>
      \<bar>r - (d + of_int k * p)\<bar> \<le> 1 / 2 ^ 30 \<and>
      d + of_int (k - 1) * p \<le> n + 1 / 2 ^ 30 \<and> n - 1 / 2 ^ 30 \<le> d + of_int k * p"
proof -
  have p: "0 < p" using assms(3) by (rule less_le_trans [rotated]) simp
  then have pp: "positive_float (PyFloat (Fin p)) name = Inr (Fin p)" for name
    by (simp add: positive_float_def finite_float_def float_or_def zero_fl_def)
  have adv: "advance_periodic_deadline (Fin d) (Fin p) (Fin n) =
    (if n < d then Inr (Fin d)
     else case fl_over (Fin n - Fin d) (Fin p) of
         Fin periods \<Rightarrow> Inr (Fin d + rnd64 (of_int (\<lfloor>periods\<rfloor> + 1)) * Fin p)
       | _ \<Rightarrow> Inl (Exn OverflowError ''cannot convert float infinity to integer''))"
    by (simp add: advance_periodic_deadline_def pp finite_float_def float_or_def)
  show ?thesis
  proof (cases "n < d")
    case False
    obtain e where e: "rnd64 (n - d) = Fin e" "\<bar>e - (n - d)\<bar> \<le> \<bar>n - d\<bar> / 2 ^ 53 + 1 / 2 ^ 100"
      using rnd64_exists [of "n - d"] False assms(1,2) by auto
    have "Fin 0 \<le> rnd64 (n - d)" "rnd64 (n - d) \<le> Fin (of_int (2 ^ 20))"
      using False assms(1,2) by (intro rnd64_ge rnd64_le rep64_int; simp)+
    then have e': "0 \<le> e" "e \<le> 2 ^ 20" using e(1) by simp_all
    obtain q where q: "fl_over (Fin e) (Fin p) = Fin q" "0 \<le> q" "\<bar>q * p - e\<bar> \<le> 1 / 2 ^ 32" "q < 2 ^ 31"
      using slot_count [OF e' assms(3,4)] .
    define k where "k = \<lfloor>q\<rfloor> + 1"
    have k: "1 \<le> k" "k \<le> 2 ^ 31" "of_int (k - 1) \<le> q" "q < of_int k"
      using q(2,4) floor_less_iff [of q "2 ^ 31"] floor_correct [of q] by (simp_all add: k_def)
    have kp: "of_int (k - 1) * p \<le> q * p" "q * p \<le> of_int k * p"
      using k(3,4) p by (simp_all add: mult_right_mono)
    have "\<bar>n - d\<bar> \<le> 2 ^ 20" using False assms(1,2) by simp
    then have "\<bar>e - (n - d)\<bar> \<le> 1 / 2 ^ 32" using e(2) by simp
    with q(3) have "\<bar>q * p - e\<bar> + \<bar>e - (n - d)\<bar> \<le> 1 / 2 ^ 31" by simp
    then have qn: "\<bar>q * p - (n - d)\<bar> \<le> 1 / 2 ^ 31" by linarith
    have "of_int k * p \<le> q * p + p" using kp(1) by (simp add: algebra_simps)
    moreover have "\<bar>q * p - (n - d)\<bar> \<le> 1" using qn by simp
    then have "q * p \<le> n - d + 1" by (simp add: abs_le_iff)
    moreover have "0 \<le> of_int k * p" using k(1) p by simp
    ultimately have kb: "0 \<le> of_int k * p" "of_int k * p \<le> 2 ^ 21"
      using assms(1,2,4) by simp_all
    obtain w r where w: "rnd64 (of_int k * p) = Fin w" "rnd64 (d + w) = Fin r"
      "\<bar>r - (d + of_int k * p)\<bar> \<le> 1 / 2 ^ 30"
      using slot_time [of d "of_int k * p"] kb assms(1,2) False by auto
    have "rnd64 (of_int k) = Fin (of_int k)" using k(1,2) by (intro rnd64_rep rep64_int) simp
    then have "advance_periodic_deadline (Fin d) (Fin p) (Fin n) = Inr (Fin r)"
      using False e(1) q(1) w(1,2) by (simp add: adv minus_fl_def plus_fl_def times_fl_def k_def)
    moreover have "d + of_int (k - 1) * p \<le> n + 1 / 2 ^ 30" "n - 1 / 2 ^ 30 \<le> d + of_int k * p"
      using kp qn [unfolded abs_le_iff] by simp_all
    ultimately show ?thesis using False k(1) w(3) by auto
  qed (simp add: adv)
qed

theorem poll_schedule_keeps_its_slots_witness:
  "\<exists>k r. advance_periodic_deadline (Fin 1) (Fin (1 / 4)) (Fin (21 / 16)) = Inr (Fin r) \<and> 1 \<le> k \<and>
     \<bar>r - (1 + of_int k / 4)\<bar> \<le> 1 / 2 ^ 30"
  using poll_schedule_keeps_its_slots [of 1 "21 / 16" "1 / 4"] by auto


end
