(* ===== verification/Spec2Isabelle.thy ===== *)
theory Spec2Isabelle
  imports Linux_Actuator Actuator_Properties Actuator_Termination Shaper Transactional_Mapper_Properties
    Interpolator_Proofs Reference_Equivalence Substep_Schedule Shaper_Reference_Proofs Watchdog_Properties Watchdog_Tracking_Proofs
begin

text \<open>
  A verification library for the closed-loop actuation core of the robot deployment workspace:
  the code under \<open>src/sim2real/closed_loop\<close>, \<open>src/sim2real/contracts/actions.py\<close>,
  \<open>src/robot_control/rh56\<close> with its watchdog owner, the RH56 driver
  \<open>src/examples/inspire_rh56_test.py\<close> it talks through, and the Franka command references
  under \<open>src/robot_control/reference\<close>.

  \<^bold>\<open>The program.\<close> A policy emits a 13-dimensional action 20 or 60 times a second. The
  transactional mapper turns it into a Franka joint target and six RH56 registers, the command
  ledger stages the command, the two devices execute it and acknowledge it, and only when both
  have, the ledger commits the action as the previous action of the next observation and the
  mapper moves its targets. A safety gate with a single-use authorization decides whether motion is
  allowed at all. On the hand side a transactional actuator writes the registers, reads them
  back, checks the feedback and, on every failure, runs a stop protocol whose report must rest
  on read evidence. It reaches the hand through a deadline-bound transport, which drives a
  serial driver that frames, checks and retries requests over a raw kernel port. One worker
  thread, the watchdog owner, has the only hand on that actuator: it polls the feedback, executes
  the queued command, watches the heartbeat and the physical motion, and stops the hand on any
  fault, while the other threads submit, ask for a stop, or wait. On the arm side the references
  compute the 20 Hz joint targets and the 1 kHz command that follows them inside the velocity,
  acceleration and jerk limits.

  \<^bold>\<open>Theories and code.\<close>
  \<^item> \<open>Py_Prelude\<close>, \<open>Rounding\<close>, \<open>Binary32\<close>: Python and NumPy values. A float is a rational, an
    infinity or NaN; binary64 and binary32 results are rounded to nearest, ties to even.
    \<open>Rounding\<close> and \<open>Binary32\<close> show that a rounded value is representable, that rounding does
    not cross a representable number, bound its error, and show that \<open>nextafter\<close> gives the
    closest neighbour; \<open>Binary64\<close> is interval reasoning for the servo arithmetic, and
    \<open>Float_Functions\<close> division and the shortest \<open>repr\<close> of a float and of a string.
  \<^item> \<open>Programs\<close>: how stateful code is written. A method under one lock is a function from the
    state to a result or exception and the next state; a longer method is a \<open>prog\<close>, the same with
    \<open>None\<close> for a run that never returns. \<open>wp\<close> and \<open>returns\<close> compute along a program's
    text. The locales \<open>invariant_system\<close> and \<open>fault_latch\<close> carry what every component
    shares; \<open>reach\<close> is the set of reachable states.
  \<^item> \<open>Two_Phase\<close>: the abstract transaction (one pending proposal, a value that moves only by
    committing it, a sticky fault) and the locale \<open>two_phase_system\<close> of the components that
    refine it: the ledger, the mapper and the command shaper.
  \<^item> \<open>Validation\<close>: \<open>closed_loop/validation.py\<close>. \<open>Authorization\<close>: \<open>authorization.py\<close>, the safety
    gate. \<open>Commands\<close>: \<open>commands.py\<close> and \<open>ownership.py\<close>. \<open>Ledger\<close>: \<open>ledger.py\<close>.
  \<^item> \<open>Action_Mapper\<close>, \<open>Action_Mapper_Proofs\<close>: the joint-limit contraction and \<open>V94ActionMapper\<close>
    of \<open>contracts/actions.py\<close>. \<open>Shaper\<close>: \<open>TransactionalRH56HardwareCommandShaper\<close> of the same
    file. \<open>Transactional_Mapper\<close> and its \<open>_Proofs\<close> and \<open>_Properties\<close>: \<open>closed_loop/mapper.py\<close>.
  \<^item> \<open>RH56_Frames\<close>, \<open>Linux_Serial\<close>, \<open>RH56_Hand\<close>: the wire frames, \<open>LinuxSerial\<close> and
    \<open>RH56Hand\<close> of \<open>inspire_rh56_test.py\<close>. \<open>Linux_Transport\<close>: \<open>linux_transport.py\<close>.
  \<^item> \<open>RH56_Feedback\<close>, \<open>Preflight\<close>, \<open>Actuator\<close>, \<open>Actuator_Stop\<close>, \<open>Actuator_Commands\<close>:
    \<open>actuator.py\<close>, in the order of the file: validators and feedback, permits, state and
    arming, the stop protocol, the commands, the safety poll and the watchdog. \<open>Actuator_Frames\<close>,
    \<open>Actuator_Stop_Proofs\<close>, \<open>Actuator_Command_Proofs\<close> prove what each part changes;
    \<open>Actuator_Sim\<close> is a concrete hand and clock for the instances; \<open>Actuator_Properties\<close> and
    \<open>Actuator_Termination\<close> state the results; \<open>Linux_Actuator\<close> plugs the Linux transport into
    the actuator's environment.
  \<^item> \<open>Watchdog_Values\<close>, \<open>Watchdog_Tracking\<close>, \<open>Watchdog_Owner\<close>, \<open>Watchdog_Worker\<close>:
    \<open>watchdog.py\<close>: settings and tickets, the physical tracking, the state of
    \<open>RH56WatchdogOwner\<close> with the methods the other threads call, and \<open>_worker_main\<close>. The worker
    is cut into phases (the type \<open>worker_pc\<close>) where another thread may take the lock, and
    \<open>thread_step\<close> interleaves its phases with every method and with whatever the other
    threads do to the ledger, the gate and the world. \<open>Watchdog_Frames\<close>, \<open>Watchdog_Calls\<close> and
    \<open>Watchdog_Proofs\<close> show what calls, helpers and phases keep; \<open>Watchdog_Invariant\<close> puts them
    together; \<open>Watchdog_Flow\<close> has the control flow and the measure of a requested stop;
    \<open>Watchdog_Sim\<close> is a run on the simulated hand; \<open>Watchdog_Properties\<close> and
    \<open>Watchdog_Tracking_Proofs\<close> state the results.
  \<^item> \<open>Command_References\<close> and \<open>Shaper_Reference\<close>: \<open>franka_v225_interpolator_reference.py\<close> and
    \<open>franka_v94_shaper_reference.py\<close>; \<open>Interpolator_Proofs\<close>, \<open>Shaper_Reference_Proofs\<close>,
    \<open>Reference_Equivalence\<close> and \<open>Substep_Schedule\<close> are about them.

  \<^bold>\<open>Parameters.\<close> What the code calls outside the repository is an argument: the kernel's port
    (read, write, clock, sleep), the device behind the actuator's transport (the record \<open>env\<close>),
    the JSON digest, \<open>float\<close> and \<open>repr\<close> of foreign objects. Statements quantify over them;
    the few that need documented behaviour say so in a named hypothesis (a clock that advances by
    the time slept, a port that keeps its session), and an instance shows that it can hold.

  \<^bold>\<open>What is shown.\<close>
  \<^item> The barrier: a committed sequence was acknowledged by both devices, previous actions form a
    chain, the mapper commits only what the ledger committed, and a fault freezes each of them.
  \<^item> The mapping: float32 joint limits are the tightest inside the binary64 contract; hand
    targets and registers are always valid; replayed registers survive the conversion to joint
    angles and back; q_d targets stay inside the contract; what the legacy envelope does.
  \<^item> The gate: authorizations are single-use, motion is decided by state, clock and interlocks.
  \<^item> The hand: a verified stop report rests on reads, an unproven stop latches, only safe targets
    are written while stopping, commands are transactional, targets are written once, every
    permit needs its evidence, and the stop protocol returns.
  \<^item> The line: frames round-trip, one corrupted byte is always detected, a stale acknowledgement
    is never taken for a new one, transmissions and exchanges are bounded, deadlines hold.
  \<^item> The watchdog owner, over every interleaving: the worker ends with every ticket completed, the
    session closed after a disable, and a verified report or a latched fault; a stop it reports as
    verified has its evidence in the history of the transport; a command reaches the actuator only
    with a live heartbeat, fresh feedback and no stop requested, and a ticket gets a receipt only
    for it; a failed command latches; no command follows a fault; a requested stop ends every
    fair run. A tracking failure is exactly a watched axis without motion or contact at its deadline.
  \<^item> The references: the offline incremental mappings equal the production mapper's, with the one
    of the q_d mode inside the inward limits; the interpolator's command and the shaper's packets
    keep their limits in binary64 arithmetic; the substep schedule drifts.

  \<^bold>\<open>Loops and bounds.\<close> The serial exchange and the settling loop depend on the clock; they are
  \<open>partial_function (option)\<close> definitions over the program type, so not returning is the value
  \<open>None\<close>, and returning is proved from an advancing clock. The watchdog's loop is a step relation;
  after a requested stop the measure \<open>steps_left\<close> bounds the worker's steps by ten and the number
  of bootstrap samples. All other loops are structural.
  Counters are unbounded integers as in Python; bytes are \<open>8 word\<close>; register addresses are
  taken modulo 65536 by the frame builder, as in the code.

  \<^bold>\<open>Not modelled.\<close> The Franka session and its native servo backend, the runtime and deployment
  orchestration, observation and policy, perception, motion planning, grasp generation, the native
  C++ code and the command-line tools: they are process supervision, numeric processing over torch,
  OpenCV and NumPy matrices, or file and terminal I/O around the modelled core. A wait on a
  condition or an event is the step before it and the step after it, whatever its duration; which
  object a caller passes where the code checks a class is fixed by the types. The sign of a
  floating zero is not kept. Exception chaining and logging are left out; exception classes and
  messages are kept.
\<close>

end
